(* ===== verification/Prelude.thy ===== *)
theory Prelude
  imports Main "HOL-Library.Word" "HOL-Library.Signed_Division"
begin

text \<open>
  Shared vocabulary of the development: the result type of C++ code that may throw or
  run into undefined behaviour, two's complement arithmetic on 32-bit addresses, the
  little-endian byte encoding used for every value the virtual machine keeps in its
  memory, and byte ranges of a memory given as a function from addresses to bytes.
\<close>

section \<open>Results of C++ code\<close>

text \<open>
  \<open>Throw\<close> is a C++ exception (\<open>RuntimeError\<close> is \<open>std::runtime_error\<close> with
  its message, in which the numbers of type bytes and registers are left out, \<open>OutOfBounds\<close> the one of \<open>VM::CheckMemoryBounds\<close>, \<open>BadVariantAccess\<close> is what
  \<open>std::get\<close> throws, \<open>LengthError\<close> what a container throws for a negative length, \<open>InvalidArgument\<close> what a bit set
  throws for a digit that is neither zero nor one);
  \<open>Undefined\<close> marks executions for which C++ gives no guarantee: an access outside the
  memory array, an integer division by zero, an overflow of the signed 64-bit type, a shift by a negative or too large count,
  a floating-point value converted to an integer type that cannot hold it, an index
  outside a \<open>std::array\<close>, a null pointer that is dereferenced.
\<close>

datatype exc =
    RuntimeError string
  | OutOfBounds int int int
  | BadVariantAccess
  | LengthError
  | InvalidArgument

datatype ub =
    UB_Memory int int
  | UB_Division
  | UB_Overflow
  | UB_Shift
  | UB_Conversion
  | UB_Index int
  | UB_Null

datatype 'a result = Ok 'a | Throw exc | Undefined ub

fun rbind :: "'a result \<Rightarrow> ('a \<Rightarrow> 'b result) \<Rightarrow> 'b result" where
  "rbind (Ok x) f = f x"
| "rbind (Throw e) f = Throw e"
| "rbind (Undefined u) f = Undefined u"

fun is_ok :: "'a result \<Rightarrow> bool" where
  "is_ok (Ok _) = True"
| "is_ok _ = False"

fun defined :: "'a result \<Rightarrow> bool" where
  "defined (Undefined _) = False"
| "defined _ = True"

named_theorems rdef \<open>definitions of the raw machine operations\<close>

lemma rbind_assoc [simp]: "rbind (rbind m f) g = rbind m (\<lambda>x. rbind (f x) g)"
  by (cases m) auto

lemma rbind_Ok_right [simp]: "rbind m Ok = m"
  by (cases m) auto

lemma rbind_eq_Ok: "rbind m f = Ok y \<longleftrightarrow> (\<exists>x. m = Ok x \<and> f x = Ok y)"
  by (cases m) auto

lemma rbind_OkE:
  assumes "rbind m f = Ok y"
  obtains x where "m = Ok x" "f x = Ok y"
  using assms by (auto simp: rbind_eq_Ok)

lemma rbind_cong [fundef_cong]:
  "m = m' \<Longrightarrow> (\<And>x. m' = Ok x \<Longrightarrow> f x = g x) \<Longrightarrow> rbind m f = rbind m' g"
  by (cases m') auto

lemma defined_rbindI:
  "defined m \<Longrightarrow> (\<And>x. m = Ok x \<Longrightarrow> defined (f x)) \<Longrightarrow> defined (rbind m f)"
  by (cases m) auto

section \<open>32-bit addresses\<close>

text \<open>
  \<open>t_addr\<close> is \<open>std::int32_t\<close>. An address is an \<open>int\<close>; every arithmetic result that is
  stored in one goes through \<open>wrap32\<close>, the two's complement value of its low 32 bits.
\<close>

definition wrap32 :: "int \<Rightarrow> int" where
  "wrap32 x = (x + 2 ^ 31) mod 2 ^ 32 - 2 ^ 31"

lemma wrap32_id [simp]: "- (2 ^ 31) \<le> x \<Longrightarrow> x < 2 ^ 31 \<Longrightarrow> wrap32 x = x"
  unfolding wrap32_def by (subst mod_pos_pos_trivial) auto

lemma wrap32_lower: "- (2 ^ 31) \<le> wrap32 x"
  unfolding wrap32_def by simp

lemma wrap32_upper: "wrap32 x < 2 ^ 31"
proof -
  have "(x + 2 ^ 31) mod 2 ^ 32 < (2 ^ 32 :: int)" by (rule pos_mod_bound) simp
  then show ?thesis unfolding wrap32_def by simp
qed

lemma wrap32_add_nonneg:
  "0 \<le> a \<Longrightarrow> a < 2 ^ 31 \<Longrightarrow> 0 \<le> b \<Longrightarrow> b < 2 ^ 31 \<Longrightarrow> 0 \<le> wrap32 (a + b) \<Longrightarrow>
   wrap32 (a + b) = a + b"
proof -
  assume *: "0 \<le> a" "a < 2 ^ 31" "0 \<le> b" "b < 2 ^ 31" "0 \<le> wrap32 (a + b)"
  have "a + b < 2 ^ 31"
  proof (rule ccontr)
    assume "\<not> a + b < 2 ^ 31"
    then have "(a + b + 2 ^ 31 - 2 ^ 32) mod 2 ^ 32 = a + b + 2 ^ 31 - (2 ^ 32 :: int)"
      using * by (intro mod_pos_pos_trivial) auto
    then have "wrap32 (a + b) = a + b - 2 ^ 32"
      by (simp only: minus_mod_self2 wrap32_def)
    then show False using * by simp
  qed
  then show ?thesis using * by simp
qed

definition addr_range :: "int \<Rightarrow> bool" where
  "addr_range a \<longleftrightarrow> - (2 ^ 31) \<le> a \<and> a < 2 ^ 31"

lemma addr_range_wrap32 [simp, intro]: "addr_range (wrap32 a)"
  using wrap32_lower wrap32_upper by (auto simp: addr_range_def)

lemma addr_rangeD: "addr_range a \<Longrightarrow> wrap32 a = a"
  by (simp add: addr_range_def)

section \<open>Little-endian bytes\<close>

type_synonym byte = "8 word"

primrec enc_le :: "nat \<Rightarrow> int \<Rightarrow> byte list" where
  "enc_le 0 x = []"
| "enc_le (Suc n) x = word_of_int x # enc_le n (x div 256)"

primrec dec_le :: "byte list \<Rightarrow> int" where
  "dec_le [] = 0"
| "dec_le (b # bs) = uint b + 256 * dec_le bs"

lemma length_enc_le [simp]: "length (enc_le n x) = n"
  by (induction n arbitrary: x) auto

lemma dec_enc_le: "dec_le (enc_le n x) = x mod 256 ^ n"
proof (induction n arbitrary: x)
  case 0
  then show ?case by simp
next
  case (Suc n)
  have "uint (word_of_int x :: byte) = x mod 256"
    by (simp add: uint_word_of_int)
  then show ?case
    using Suc by (simp add: mod_mult2_eq zmod_zmult2_eq)
qed

definition enc64 :: "64 word \<Rightarrow> byte list" where
  "enc64 w = enc_le 8 (uint w)"

definition dec64 :: "byte list \<Rightarrow> 64 word" where
  "dec64 bs = word_of_int (dec_le bs)"

definition enc_addr :: "int \<Rightarrow> byte list" where
  "enc_addr a = enc_le 4 a"

definition dec_addr :: "byte list \<Rightarrow> int" where
  "dec_addr bs = wrap32 (dec_le bs)"

definition enc_byte :: "byte \<Rightarrow> byte list" where
  "enc_byte b = [b]"

definition dec_byte :: "byte list \<Rightarrow> byte" where
  "dec_byte bs = (case bs of [] \<Rightarrow> 0 | b # _ \<Rightarrow> b)"

definition enc_char :: "char \<Rightarrow> byte list" where
  "enc_char c = [of_char c]"

definition dec_char :: "byte list \<Rightarrow> char" where
  "dec_char bs = char_of (unat (dec_byte bs))"

lemma enc_lengths [simp]:
  "length (enc64 w) = 8" "length (enc_addr a) = 4" "length (enc_byte b) = 1"
  "length (enc_char c) = 1"
  by (simp_all add: enc64_def enc_addr_def enc_byte_def enc_char_def)

lemma dec_enc64 [simp]: "dec64 (enc64 w) = w"
proof -
  have "uint w < 2 ^ 64" using uint_lt2p [of w] by simp
  then have "uint w mod 256 ^ 8 = uint w" by (intro mod_pos_pos_trivial) simp_all
  then show ?thesis by (simp add: dec64_def enc64_def dec_enc_le)
qed

lemma dec_enc_addr: "dec_addr (enc_addr a) = wrap32 a"
  unfolding dec_addr_def enc_addr_def dec_enc_le wrap32_def
  by (simp add: mod_add_left_eq)

lemma dec_enc_addr_id [simp]: "addr_range a \<Longrightarrow> dec_addr (enc_addr a) = a"
  by (simp add: dec_enc_addr addr_rangeD)

lemma addr_range_dec [simp, intro]: "addr_range (dec_addr bs)"
  by (simp add: dec_addr_def)

lemma dec_enc_byte [simp]: "dec_byte (enc_byte b) = b"
  by (simp add: dec_byte_def enc_byte_def)

lemma dec_enc_char [simp]: "dec_char (enc_char c) = c"
proof -
  have lt: "(of_char c :: nat) < 256" by (metis of_char_of char_of_char mod_less_divisor zero_less_numeral)
  have "(of_char c :: byte) = of_nat (of_char c :: nat)" by (simp add: of_nat_of_char)
  then have "unat (of_char c :: byte) = of_char c"
    using lt by (simp add: unat_of_nat)
  then show ?thesis by (simp add: dec_char_def enc_char_def dec_byte_def)
qed

section \<open>Byte ranges of a memory\<close>

type_synonym mem = "int \<Rightarrow> byte"

definition get_bytes :: "mem \<Rightarrow> int \<Rightarrow> nat \<Rightarrow> byte list" where
  "get_bytes m a n = map (\<lambda>i. m (a + int i)) [0..<n]"

definition put_bytes :: "mem \<Rightarrow> int \<Rightarrow> byte list \<Rightarrow> mem" where
  "put_bytes m a bs =
     (\<lambda>x. if a \<le> x \<and> x < a + int (length bs) then bs ! nat (x - a) else m x)"

lemma length_get_bytes [simp]: "length (get_bytes m a n) = n"
  by (simp add: get_bytes_def)

lemma get_bytes_0 [simp]: "get_bytes m a 0 = []"
  by (simp add: get_bytes_def)

lemma put_bytes_Nil [simp]: "put_bytes m a [] = m"
  by (rule ext) (auto simp: put_bytes_def)

lemma get_put_same [simp]: "get_bytes (put_bytes m a bs) a (length bs) = bs"
  by (auto simp: get_bytes_def put_bytes_def intro: nth_equalityI)

lemma get_put_same_len: "n = length bs \<Longrightarrow> get_bytes (put_bytes m a bs) a n = bs"
  by simp

lemma get_put_other:
  "b + int n \<le> a \<or> a + int (length bs) \<le> b \<Longrightarrow>
   get_bytes (put_bytes m a bs) b n = get_bytes m b n"
  by (auto simp: get_bytes_def put_bytes_def)

lemma get_bytes_cong:
  "(\<And>x. a \<le> x \<Longrightarrow> x < a + int n \<Longrightarrow> m x = m' x) \<Longrightarrow> get_bytes m a n = get_bytes m' a n"
  by (auto simp: get_bytes_def)

lemma get_bytes_add: "get_bytes m a (n + k) = get_bytes m a n @ get_bytes m (a + int n) k"
  by (auto simp: get_bytes_def nth_append intro!: nth_equalityI)

lemma get_bytes_append_iff:
  "get_bytes m a (length xs + length ys) = xs @ ys \<longleftrightarrow>
   get_bytes m a (length xs) = xs \<and> get_bytes m (a + int (length xs)) (length ys) = ys"
  by (simp add: get_bytes_add)

lemma put_bytes_outside: "x < a \<or> a + int (length bs) \<le> x \<Longrightarrow> put_bytes m a bs x = m x"
  by (auto simp: put_bytes_def)

lemma put_bytes_append:
  "put_bytes (put_bytes m (a + int (length xs)) ys) a xs = put_bytes m a (xs @ ys)"
  by (rule ext) (auto simp: put_bytes_def nth_append nat_diff_distrib
    split: if_splits intro!: arg_cong [where f = "nth ys"])

lemma put_bytes_append_up:
  "put_bytes (put_bytes m a xs) (a + int (length xs)) ys = put_bytes m a (xs @ ys)"
  by (rule ext) (auto simp: put_bytes_def nth_append nat_diff_distrib
    split: if_splits intro!: arg_cong [where f = "nth ys"])

section \<open>Fixed-width element encodings\<close>

fun chunks :: "nat \<Rightarrow> nat \<Rightarrow> byte list \<Rightarrow> byte list list" where
  "chunks w 0 bs = []"
| "chunks w (Suc n) bs = take w bs # chunks w n (drop w bs)"

lemma length_chunks [simp]: "length (chunks w n bs) = n"
  by (induction n arbitrary: bs) auto

lemma chunks_concat:
  "(\<And>x. x \<in> set xs \<Longrightarrow> length (f x) = w) \<Longrightarrow>
   chunks w (length xs) (concat (map f xs)) = map f xs"
  by (induction xs) auto

lemma length_concat_const:
  "(\<And>x. length (f x) = w) \<Longrightarrow> length (concat (map f xs)) = w * length xs"
  by (induction xs) auto

end
