(* ===== verification/VmTypes.thy ===== *)
theory VmTypes
  imports Prelude
begin

text \<open>
  vm/types.h and vm/opcodes.h: the descriptor bytes of data types and address base
  registers, the instruction bytes, their printed names, and the sizes of the static and
  dynamic types. A byte that is no enumerator (C++ converts any byte to the enumeration)
  is kept in \<open>VM_OTHER\<close> or \<open>OP_OTHER\<close>.
\<close>

section \<open>Type descriptors\<close>

datatype VMType =
    VM_UNKNOWN
  | VM_REAL | VM_INT | VM_CPLX | VM_QUAT | VM_BOOL | VM_STR
  | VM_REALARR | VM_INTARR | VM_CPLXARR | VM_QUATARR
  | VM_ADDR_MEM | VM_ADDR_IP | VM_ADDR_SP | VM_ADDR_BP | VM_ADDR_GBP
  | VM_OTHER byte

fun byte_of_vmtype :: "VMType \<Rightarrow> byte" where
  "byte_of_vmtype VM_UNKNOWN = 0x00"
| "byte_of_vmtype VM_REAL = 0x01"
| "byte_of_vmtype VM_INT = 0x02"
| "byte_of_vmtype VM_CPLX = 0x03"
| "byte_of_vmtype VM_QUAT = 0x04"
| "byte_of_vmtype VM_BOOL = 0x05"
| "byte_of_vmtype VM_STR = 0x06"
| "byte_of_vmtype VM_REALARR = 0x11"
| "byte_of_vmtype VM_INTARR = 0x12"
| "byte_of_vmtype VM_CPLXARR = 0x13"
| "byte_of_vmtype VM_QUATARR = 0x14"
| "byte_of_vmtype VM_ADDR_MEM = 0x20"
| "byte_of_vmtype VM_ADDR_IP = 0x21"
| "byte_of_vmtype VM_ADDR_SP = 0x22"
| "byte_of_vmtype VM_ADDR_BP = 0x23"
| "byte_of_vmtype VM_ADDR_GBP = 0x24"
| "byte_of_vmtype (VM_OTHER b) = b"

definition vmtypes :: "VMType list" where
  "vmtypes = [VM_UNKNOWN, VM_REAL, VM_INT, VM_CPLX, VM_QUAT, VM_BOOL, VM_STR,
     VM_REALARR, VM_INTARR, VM_CPLXARR, VM_QUATARR,
     VM_ADDR_MEM, VM_ADDR_IP, VM_ADDR_SP, VM_ADDR_BP, VM_ADDR_GBP]"

definition vmtype_of_byte :: "byte \<Rightarrow> VMType" where
  "vmtype_of_byte b =
     (case List.find (\<lambda>t. byte_of_vmtype t = b) vmtypes of Some t \<Rightarrow> t | None \<Rightarrow> VM_OTHER b)"

fun get_vm_base_reg :: "VMType \<Rightarrow> string" where
  "get_vm_base_reg VM_UNKNOWN = ''unknown''"
| "get_vm_base_reg VM_ADDR_MEM = ''absolute''"
| "get_vm_base_reg VM_ADDR_IP = ''ip''"
| "get_vm_base_reg VM_ADDR_SP = ''sp''"
| "get_vm_base_reg VM_ADDR_BP = ''bp''"
| "get_vm_base_reg VM_ADDR_GBP = ''gbp''"
| "get_vm_base_reg _ = ''<unknown>''"

fun get_vm_type_name :: "VMType \<Rightarrow> string" where
  "get_vm_type_name VM_UNKNOWN = ''unknown''"
| "get_vm_type_name VM_REAL = ''real''"
| "get_vm_type_name VM_INT = ''integer''"
| "get_vm_type_name VM_CPLX = ''complex''"
| "get_vm_type_name VM_QUAT = ''quaternion''"
| "get_vm_type_name VM_BOOL = ''bool''"
| "get_vm_type_name VM_STR = ''string''"
| "get_vm_type_name VM_REALARR = ''array_real''"
| "get_vm_type_name VM_INTARR = ''array_integer''"
| "get_vm_type_name VM_CPLXARR = ''array_complex''"
| "get_vm_type_name VM_ADDR_MEM = ''absolute address''"
| "get_vm_type_name VM_ADDR_IP = ''address relative to ip''"
| "get_vm_type_name VM_ADDR_SP = ''address relative to sp''"
| "get_vm_type_name VM_ADDR_BP = ''address relative to bp''"
| "get_vm_type_name VM_ADDR_GBP = ''address relative to gbp''"
| "get_vm_type_name _ = ''<unknown>''"

section \<open>Sizes\<close>

text \<open>
  \<open>sizeof\<close> of the value types: a \<open>t_vm_real\<close> and a \<open>t_vm_int\<close> have 8 bytes, complex numbers
  and quaternions two and four reals, addresses 4 bytes, bytes and bools 1. A type without
  its own specialisation of \<open>vm_type_size\<close> gets \<open>g_vm_longest_size\<close>.
\<close>

definition g_vm_longest_size :: int where
  "g_vm_longest_size = 64"

fun vm_type_size :: "VMType \<Rightarrow> bool \<Rightarrow> int" where
  "vm_type_size VM_REAL d = 8 + (if d then 1 else 0)"
| "vm_type_size VM_CPLX d = 16 + (if d then 1 else 0)"
| "vm_type_size VM_QUAT d = 32 + (if d then 1 else 0)"
| "vm_type_size VM_INT d = 8 + (if d then 1 else 0)"
| "vm_type_size VM_BOOL d = 1 + (if d then 1 else 0)"
| "vm_type_size VM_ADDR_MEM d = 4 + (if d then 1 else 0)"
| "vm_type_size VM_ADDR_IP d = 4 + (if d then 1 else 0)"
| "vm_type_size VM_ADDR_SP d = 4 + (if d then 1 else 0)"
| "vm_type_size VM_ADDR_BP d = 4 + (if d then 1 else 0)"
| "vm_type_size VM_ADDR_GBP d = 4 + (if d then 1 else 0)"
| "vm_type_size _ d = g_vm_longest_size + (if d then 1 else 0)"

definition get_vm_str_size :: "int \<Rightarrow> bool \<Rightarrow> bool \<Rightarrow> int" where
  "get_vm_str_size raw_len with_descr with_len =
     wrap32 (raw_len * 1 + (if with_len then 4 else 0) + (if with_descr then 1 else 0))"

definition get_vm_vec_real_size :: "int \<Rightarrow> bool \<Rightarrow> bool \<Rightarrow> int" where
  "get_vm_vec_real_size raw_len with_descr with_len =
     wrap32 (raw_len * 8 + (if with_len then 4 else 0) + (if with_descr then 1 else 0))"

definition get_vm_vec_int_size :: "int \<Rightarrow> bool \<Rightarrow> bool \<Rightarrow> int" where
  "get_vm_vec_int_size raw_len with_descr with_len =
     wrap32 (raw_len * 8 + (if with_len then 4 else 0) + (if with_descr then 1 else 0))"

definition get_vm_vec_cplx_size :: "int \<Rightarrow> bool \<Rightarrow> bool \<Rightarrow> int" where
  "get_vm_vec_cplx_size raw_len with_descr with_len =
     wrap32 (raw_len * 8 * 2 + (if with_len then 4 else 0) + (if with_descr then 1 else 0))"

definition get_vm_vec_quat_size :: "int \<Rightarrow> bool \<Rightarrow> bool \<Rightarrow> int" where
  "get_vm_vec_quat_size raw_len with_descr with_len =
     wrap32 (raw_len * 8 * 4 + (if with_len then 4 else 0) + (if with_descr then 1 else 0))"

section \<open>Instructions\<close>

datatype (plugins only: code size) OpCode =
    OP_HALT | OP_NOP | OP_INVALID | OP_PUSH | OP_WRMEM | OP_RDMEM
  | OP_USUB | OP_ADD | OP_SUB | OP_MUL | OP_DIV | OP_MOD
  | OP_POW | OP_MATMUL | OP_TOR | OP_TOI | OP_TOC | OP_TOQ
  | OP_TOB | OP_TOS | OP_TOREALARR | OP_TOINTARR | OP_TOCPLXARR | OP_TOQUATARR
  | OP_JMP | OP_JMPCND | OP_AND | OP_OR | OP_XOR | OP_NOT
  | OP_GT | OP_LT | OP_GEQU | OP_LEQU | OP_EQU | OP_NEQU
  | OP_CALL | OP_RET | OP_EXTCALL | OP_ADDFRAME | OP_REMFRAME | OP_BINAND
  | OP_BINOR | OP_BINXOR | OP_BINNOT | OP_SHL | OP_SHR | OP_ROTL
  | OP_ROTR | OP_MAKEREALARR | OP_MAKEINTARR | OP_MAKECPLXARR | OP_MAKEQUATARR | OP_RDARR
  | OP_RDARRR | OP_WRARR | OP_WRARRR
  | OP_OTHER byte

fun byte_of_opcode :: "OpCode \<Rightarrow> byte" where
  "byte_of_opcode OP_HALT = 0x00"
| "byte_of_opcode OP_NOP = 0x01"
| "byte_of_opcode OP_INVALID = 0x02"
| "byte_of_opcode OP_PUSH = 0x10"
| "byte_of_opcode OP_WRMEM = 0x11"
| "byte_of_opcode OP_RDMEM = 0x12"
| "byte_of_opcode OP_USUB = 0x20"
| "byte_of_opcode OP_ADD = 0x21"
| "byte_of_opcode OP_SUB = 0x22"
| "byte_of_opcode OP_MUL = 0x23"
| "byte_of_opcode OP_DIV = 0x24"
| "byte_of_opcode OP_MOD = 0x25"
| "byte_of_opcode OP_POW = 0x26"
| "byte_of_opcode OP_MATMUL = 0x27"
| "byte_of_opcode OP_TOR = 0x31"
| "byte_of_opcode OP_TOI = 0x32"
| "byte_of_opcode OP_TOC = 0x33"
| "byte_of_opcode OP_TOQ = 0x34"
| "byte_of_opcode OP_TOB = 0x35"
| "byte_of_opcode OP_TOS = 0x36"
| "byte_of_opcode OP_TOREALARR = 0x41"
| "byte_of_opcode OP_TOINTARR = 0x42"
| "byte_of_opcode OP_TOCPLXARR = 0x43"
| "byte_of_opcode OP_TOQUATARR = 0x44"
| "byte_of_opcode OP_JMP = 0x50"
| "byte_of_opcode OP_JMPCND = 0x51"
| "byte_of_opcode OP_AND = 0x60"
| "byte_of_opcode OP_OR = 0x61"
| "byte_of_opcode OP_XOR = 0x62"
| "byte_of_opcode OP_NOT = 0x63"
| "byte_of_opcode OP_GT = 0x70"
| "byte_of_opcode OP_LT = 0x71"
| "byte_of_opcode OP_GEQU = 0x72"
| "byte_of_opcode OP_LEQU = 0x73"
| "byte_of_opcode OP_EQU = 0x74"
| "byte_of_opcode OP_NEQU = 0x75"
| "byte_of_opcode OP_CALL = 0x80"
| "byte_of_opcode OP_RET = 0x81"
| "byte_of_opcode OP_EXTCALL = 0x82"
| "byte_of_opcode OP_ADDFRAME = 0x85"
| "byte_of_opcode OP_REMFRAME = 0x86"
| "byte_of_opcode OP_BINAND = 0x90"
| "byte_of_opcode OP_BINOR = 0x91"
| "byte_of_opcode OP_BINXOR = 0x92"
| "byte_of_opcode OP_BINNOT = 0x93"
| "byte_of_opcode OP_SHL = 0x94"
| "byte_of_opcode OP_SHR = 0x95"
| "byte_of_opcode OP_ROTL = 0x96"
| "byte_of_opcode OP_ROTR = 0x97"
| "byte_of_opcode OP_MAKEREALARR = 0xa1"
| "byte_of_opcode OP_MAKEINTARR = 0xa2"
| "byte_of_opcode OP_MAKECPLXARR = 0xa3"
| "byte_of_opcode OP_MAKEQUATARR = 0xa4"
| "byte_of_opcode OP_RDARR = 0xb0"
| "byte_of_opcode OP_RDARRR = 0xb1"
| "byte_of_opcode OP_WRARR = 0xb4"
| "byte_of_opcode OP_WRARRR = 0xb5"
| "byte_of_opcode (OP_OTHER b) = b"

definition opcodes :: "OpCode list" where
  "opcodes =
     [OP_HALT, OP_NOP, OP_INVALID, OP_PUSH, OP_WRMEM, OP_RDMEM,
      OP_USUB, OP_ADD, OP_SUB, OP_MUL, OP_DIV, OP_MOD,
      OP_POW, OP_MATMUL, OP_TOR, OP_TOI, OP_TOC, OP_TOQ,
      OP_TOB, OP_TOS, OP_TOREALARR, OP_TOINTARR, OP_TOCPLXARR, OP_TOQUATARR,
      OP_JMP, OP_JMPCND, OP_AND, OP_OR, OP_XOR, OP_NOT,
      OP_GT, OP_LT, OP_GEQU, OP_LEQU, OP_EQU, OP_NEQU,
      OP_CALL, OP_RET, OP_EXTCALL, OP_ADDFRAME, OP_REMFRAME, OP_BINAND,
      OP_BINOR, OP_BINXOR, OP_BINNOT, OP_SHL, OP_SHR, OP_ROTL,
      OP_ROTR, OP_MAKEREALARR, OP_MAKEINTARR, OP_MAKECPLXARR, OP_MAKEQUATARR, OP_RDARR,
      OP_RDARRR, OP_WRARR, OP_WRARRR]"

definition opcode_of_byte :: "byte \<Rightarrow> OpCode" where
  "opcode_of_byte b =
     (case List.find (\<lambda>p. byte_of_opcode p = b) opcodes of Some p \<Rightarrow> p | None \<Rightarrow> OP_OTHER b)"

fun get_vm_opcode_name :: "OpCode \<Rightarrow> string" where
  "get_vm_opcode_name OP_HALT = ''halt''"
| "get_vm_opcode_name OP_NOP = ''nop''"
| "get_vm_opcode_name OP_INVALID = ''invalid''"
| "get_vm_opcode_name OP_PUSH = ''push''"
| "get_vm_opcode_name OP_WRMEM = ''wrmem''"
| "get_vm_opcode_name OP_RDMEM = ''rdmem''"
| "get_vm_opcode_name OP_USUB = ''usub''"
| "get_vm_opcode_name OP_ADD = ''add''"
| "get_vm_opcode_name OP_SUB = ''sub''"
| "get_vm_opcode_name OP_MUL = ''mul''"
| "get_vm_opcode_name OP_DIV = ''div''"
| "get_vm_opcode_name OP_MOD = ''mod''"
| "get_vm_opcode_name OP_POW = ''pow''"
| "get_vm_opcode_name OP_MATMUL = ''matmul''"
| "get_vm_opcode_name OP_TOR = ''tor''"
| "get_vm_opcode_name OP_TOI = ''toi''"
| "get_vm_opcode_name OP_TOC = ''toc''"
| "get_vm_opcode_name OP_TOQ = ''toq''"
| "get_vm_opcode_name OP_TOB = ''tob''"
| "get_vm_opcode_name OP_TOS = ''tos''"
| "get_vm_opcode_name OP_TOREALARR = ''torealarr''"
| "get_vm_opcode_name OP_TOINTARR = ''tointarr''"
| "get_vm_opcode_name OP_TOCPLXARR = ''tocplxarr''"
| "get_vm_opcode_name OP_TOQUATARR = ''toquatarr''"
| "get_vm_opcode_name OP_JMP = ''jmp''"
| "get_vm_opcode_name OP_JMPCND = ''jmpcnd''"
| "get_vm_opcode_name OP_AND = ''and''"
| "get_vm_opcode_name OP_OR = ''or''"
| "get_vm_opcode_name OP_XOR = ''xor''"
| "get_vm_opcode_name OP_NOT = ''not''"
| "get_vm_opcode_name OP_GT = ''gt''"
| "get_vm_opcode_name OP_LT = ''lt''"
| "get_vm_opcode_name OP_GEQU = ''gequ''"
| "get_vm_opcode_name OP_LEQU = ''lequ''"
| "get_vm_opcode_name OP_EQU = ''equ''"
| "get_vm_opcode_name OP_NEQU = ''nequ''"
| "get_vm_opcode_name OP_CALL = ''call''"
| "get_vm_opcode_name OP_RET = ''ret''"
| "get_vm_opcode_name OP_EXTCALL = ''extcall''"
| "get_vm_opcode_name OP_ADDFRAME = ''addframe''"
| "get_vm_opcode_name OP_REMFRAME = ''remframe''"
| "get_vm_opcode_name OP_BINAND = ''binand''"
| "get_vm_opcode_name OP_BINOR = ''binor''"
| "get_vm_opcode_name OP_BINXOR = ''binxor''"
| "get_vm_opcode_name OP_BINNOT = ''binnot''"
| "get_vm_opcode_name OP_SHL = ''shl''"
| "get_vm_opcode_name OP_SHR = ''shr''"
| "get_vm_opcode_name OP_ROTL = ''rotl''"
| "get_vm_opcode_name OP_ROTR = ''rotr''"
| "get_vm_opcode_name OP_MAKEREALARR = ''makerealarr''"
| "get_vm_opcode_name OP_MAKEINTARR = ''makeintarr''"
| "get_vm_opcode_name OP_MAKECPLXARR = ''makecplxarr''"
| "get_vm_opcode_name OP_RDARR = ''rdarr''"
| "get_vm_opcode_name OP_RDARRR = ''rdarrr''"
| "get_vm_opcode_name OP_WRARR = ''wrarr''"
| "get_vm_opcode_name OP_WRARRR = ''wrarrr''"
| "get_vm_opcode_name _ = ''<unknown>''"

section \<open>Facts\<close>

lemma find_byte_inj:
  "distinct (map f xs) \<Longrightarrow> x \<in> set xs \<Longrightarrow> List.find (\<lambda>y. f y = f x) xs = Some x"
  by (induction xs) auto

lemma distinct_vmtype_bytes: "distinct (map byte_of_vmtype vmtypes)"
  by (simp add: vmtypes_def)

lemma distinct_opcode_bytes: "distinct (map byte_of_opcode opcodes)"
  by (simp add: opcodes_def)

text \<open>Every enumerator survives the way through its byte.\<close>

lemma vmtype_roundtrip [simp]: "t \<in> set vmtypes \<Longrightarrow> vmtype_of_byte (byte_of_vmtype t) = t"
  by (simp add: vmtype_of_byte_def find_byte_inj [OF distinct_vmtype_bytes])

lemma opcode_roundtrip [simp]: "p \<in> set opcodes \<Longrightarrow> opcode_of_byte (byte_of_opcode p) = p"
  by (simp add: opcode_of_byte_def find_byte_inj [OF distinct_opcode_bytes])

lemma in_vmtypes: "(\<forall>b. t \<noteq> VM_OTHER b) \<Longrightarrow> t \<in> set vmtypes"
  by (cases t) (auto simp: vmtypes_def)

lemma in_opcodes: "(\<forall>b. p \<noteq> OP_OTHER b) \<Longrightarrow> p \<in> set opcodes"
  by (cases p) (auto simp: opcodes_def)

lemma byte_of_vmtype_of_byte [simp]: "byte_of_vmtype (vmtype_of_byte b) = b"
proof (cases "List.find (\<lambda>t. byte_of_vmtype t = b) vmtypes")
  case (Some t)
  then have "byte_of_vmtype t = b" by (auto simp: find_Some_iff)
  then show ?thesis by (simp add: vmtype_of_byte_def Some)
qed (simp add: vmtype_of_byte_def)

end
