(* ===== verification/Binary64.thy ===== *)
theory Binary64
  imports Prelude
begin

unbundle bit_operations_syntax

text \<open>
  The C++ type \<open>double\<close> (\<open>t_real\<close> in common/types.h) as its IEEE 754 binary64 bit pattern,
  with the arithmetic the virtual machine and the optimiser use: every operation computes the
  exact result over the integers and rounds it once, to nearest with ties to even. All NaNs
  an operation produces are the one quiet NaN \<open>r_nan\<close> (C++ does not fix their payload).
\<close>

type_synonym t_real = "64 word"

section \<open>Fields and classes\<close>

definition r_sign :: "t_real \<Rightarrow> bool" where
  "r_sign w = (2 ^ 63 \<le> uint w)"

definition r_mag :: "t_real \<Rightarrow> int" where
  "r_mag w = uint w mod 2 ^ 63"

definition r_expo :: "t_real \<Rightarrow> int" where
  "r_expo w = r_mag w div 2 ^ 52"

definition r_frac :: "t_real \<Rightarrow> int" where
  "r_frac w = r_mag w mod 2 ^ 52"

definition r_isnan :: "t_real \<Rightarrow> bool" where
  "r_isnan w \<longleftrightarrow> 2047 * 2 ^ 52 < r_mag w"

definition r_isinf :: "t_real \<Rightarrow> bool" where
  "r_isinf w \<longleftrightarrow> r_mag w = 2047 * 2 ^ 52"

definition r_iszero :: "t_real \<Rightarrow> bool" where
  "r_iszero w \<longleftrightarrow> r_mag w = 0"

text \<open>A finite value is \<open>r_mant w * 2 ^ r_scale w\<close>, with the sign of \<open>w\<close>.\<close>

definition r_mant :: "t_real \<Rightarrow> int" where
  "r_mant w = (if r_expo w = 0 then r_frac w else 2 ^ 52 + r_frac w)"

definition r_scale :: "t_real \<Rightarrow> int" where
  "r_scale w = (if r_expo w = 0 then -1074 else r_expo w - 1075)"

definition r_smant :: "t_real \<Rightarrow> int" where
  "r_smant w = (if r_sign w then - r_mant w else r_mant w)"

definition r_make :: "bool \<Rightarrow> int \<Rightarrow> t_real" where
  "r_make s m = word_of_int (m + (if s then 2 ^ 63 else 0))"

definition r_zero :: "bool \<Rightarrow> t_real" where
  "r_zero s = r_make s 0"

definition r_inf :: "bool \<Rightarrow> t_real" where
  "r_inf s = r_make s (2047 * 2 ^ 52)"

definition r_nan :: t_real where
  "r_nan = 0x7FF8000000000000"

lemma r_make_fields:
  assumes "0 \<le> m" "m < 2 ^ 63"
  shows "r_mag (r_make s m) = m" "r_sign (r_make s m) = s"
proof -
  have "uint (r_make s m) = m + (if s then 2 ^ 63 else 0)"
    unfolding r_make_def uint_word_of_int using assms by (intro mod_pos_pos_trivial) auto
  then show "r_mag (r_make s m) = m" "r_sign (r_make s m) = s"
    unfolding r_mag_def r_sign_def using assms by auto
qed

lemma r_mag_range: "0 \<le> r_mag w" "r_mag w < 2 ^ 63"
  unfolding r_mag_def by auto

section \<open>Rounding\<close>

text \<open>Round to nearest, ties to even, of the quotient of two integers.\<close>

definition rne :: "int \<Rightarrow> int \<Rightarrow> int" where
  "rne n d = (let q = n div d; r = n mod d in
     if d < 2 * r \<or> (d = 2 * r \<and> odd q) then q + 1 else q)"

lemma rne_exact [simp]: "0 < d \<Longrightarrow> rne (q * d) d = q" "rne n 1 = n"
  by (auto simp: rne_def)

lemma rne_error: "0 < d \<Longrightarrow> \<bar>2 * (rne n d * d - n)\<bar> \<le> d"
proof -
  assume d: "0 < d"
  define q r where "q = n div d" and "r = n mod d"
  have n: "n = q * d + r" and r: "0 \<le> r" "r < d"
    using d by (auto simp: q_def r_def)
  have "rne n d = q + 1 \<and> d \<le> 2 * r \<or> rne n d = q \<and> 2 * r \<le> d"
    unfolding rne_def Let_def q_def [symmetric] r_def [symmetric] by auto
  then show ?thesis using n r by (auto simp: algebra_simps)
qed

text \<open>Number of binary digits.\<close>

function blen :: "int \<Rightarrow> int" where
  "blen n = (if n \<le> 0 then 0 else 1 + blen (n div 2))"
  by pat_completeness auto
termination
  by (relation "measure nat") auto

declare blen.simps [simp del]

lemma blen_1 [simp]: "blen 1 = 1"
  by (simp add: blen.simps [of 1] blen.simps [of 0])

lemma blen_bounds: "0 < n \<Longrightarrow> 0 < blen n \<and> 2 ^ nat (blen n - 1) \<le> n \<and> n < 2 ^ nat (blen n)"
proof (induction n rule: blen.induct)
  case (1 n)
  show ?case
  proof (cases "n = 1")
    case True
    then show ?thesis by simp
  next
    case False
    with "1.prems" have "0 < n div 2" by auto
    with "1.IH" "1.prems" have IH: "0 < blen (n div 2)" "2 ^ nat (blen (n div 2) - 1) \<le> n div 2"
      "n div 2 < 2 ^ nat (blen (n div 2))" by auto
    have b: "blen n = 1 + blen (n div 2)" using "1.prems" by (simp add: blen.simps [of n])
    obtain k where k: "blen (n div 2) = int k + 1"
      using IH(1) by (metis add.commute zle_iff_zadd zless_imp_add1_zle add_0)
    have "nat (blen n - 1) = Suc k" "nat (blen n) = Suc (Suc k)"
      unfolding b k by auto
    moreover have "2 ^ k \<le> n div 2" "n div 2 < 2 ^ Suc k" using IH k by (auto simp: nat_add_distrib)
    ultimately show ?thesis using b k by auto
  qed
qed

text \<open>
  The double nearest to \<open>n / d\<close> (\<open>0 \<le> n\<close>, \<open>0 < d\<close>), with the given sign: \<open>k\<close> is the exponent of
  its unit in the last place, bounded below by that of the subnormal numbers.
\<close>

definition r_round_frac :: "bool \<Rightarrow> int \<Rightarrow> int \<Rightarrow> t_real" where
  "r_round_frac s n d =
     (if n = 0 then r_zero s
      else let
        e0 = blen n - blen d;
        fl = (if d * 2 ^ nat e0 \<le> n * 2 ^ nat (- e0) then e0 else e0 - 1);
        k = max (-1074) (fl - 52);
        q = rne (n * 2 ^ nat (- k)) (d * 2 ^ nat k);
        b = (k + 1074) * 2 ^ 52 + q
      in if 2047 * 2 ^ 52 \<le> b then r_inf s else r_make s b)"

definition r_round :: "bool \<Rightarrow> int \<Rightarrow> int \<Rightarrow> t_real" where
  "r_round s n e = r_round_frac s (n * 2 ^ nat e) (2 ^ nat (- e))"

section \<open>Operations\<close>

definition r_neg :: "t_real \<Rightarrow> t_real" where
  "r_neg w = w XOR push_bit 63 1"

definition r_abs :: "t_real \<Rightarrow> t_real" where
  "r_abs w = r_make False (r_mag w)"

definition r_add :: "t_real \<Rightarrow> t_real \<Rightarrow> t_real" where
  "r_add a b =
     (if r_isnan a \<or> r_isnan b then r_nan
      else if r_isinf a then (if r_isinf b \<and> r_sign a \<noteq> r_sign b then r_nan else a)
      else if r_isinf b then b
      else let
        e = min (r_scale a) (r_scale b);
        v = r_smant a * 2 ^ nat (r_scale a - e) + r_smant b * 2 ^ nat (r_scale b - e)
      in if v = 0 then r_zero (r_sign a \<and> r_sign b)
         else r_round (v < 0) \<bar>v\<bar> e)"

definition r_sub :: "t_real \<Rightarrow> t_real \<Rightarrow> t_real" where
  "r_sub a b = r_add a (r_neg b)"

definition r_mul :: "t_real \<Rightarrow> t_real \<Rightarrow> t_real" where
  "r_mul a b =
     (let s = (r_sign a \<noteq> r_sign b) in
      if r_isnan a \<or> r_isnan b then r_nan
      else if r_isinf a \<or> r_isinf b
      then (if r_iszero a \<or> r_iszero b then r_nan else r_inf s)
      else r_round s (r_mant a * r_mant b) (r_scale a + r_scale b))"

definition r_div :: "t_real \<Rightarrow> t_real \<Rightarrow> t_real" where
  "r_div a b =
     (let s = (r_sign a \<noteq> r_sign b) in
      if r_isnan a \<or> r_isnan b then r_nan
      else if r_isinf a then (if r_isinf b then r_nan else r_inf s)
      else if r_isinf b then r_zero s
      else if r_iszero b then (if r_iszero a then r_nan else r_inf s)
      else let e = r_scale a - r_scale b in
        r_round_frac s (r_mant a * 2 ^ nat e) (r_mant b * 2 ^ nat (- e)))"

text \<open>\<open>std::fmod\<close>: the exact remainder of the truncated quotient, with the sign of the dividend.\<close>

definition r_fmod :: "t_real \<Rightarrow> t_real \<Rightarrow> t_real" where
  "r_fmod a b =
     (if r_isnan a \<or> r_isnan b \<or> r_isinf a \<or> r_iszero b then r_nan
      else if r_isinf b then a
      else let
        e = min (r_scale a) (r_scale b);
        r = (r_mant a * 2 ^ nat (r_scale a - e)) mod (r_mant b * 2 ^ nat (r_scale b - e))
      in if r = 0 then r_zero (r_sign a) else r_round (r_sign a) r e)"

text \<open>Comparisons; every comparison with a NaN is false, and both zeros are equal.\<close>

definition r_key :: "t_real \<Rightarrow> int" where
  "r_key w = (if r_sign w then - r_mag w else r_mag w)"

definition r_lt :: "t_real \<Rightarrow> t_real \<Rightarrow> bool" where
  "r_lt a b \<longleftrightarrow> \<not> r_isnan a \<and> \<not> r_isnan b \<and> r_key a < r_key b"

definition r_le :: "t_real \<Rightarrow> t_real \<Rightarrow> bool" where
  "r_le a b \<longleftrightarrow> \<not> r_isnan a \<and> \<not> r_isnan b \<and> r_key a \<le> r_key b"

definition r_eq :: "t_real \<Rightarrow> t_real \<Rightarrow> bool" where
  "r_eq a b \<longleftrightarrow> \<not> r_isnan a \<and> \<not> r_isnan b \<and> r_key a = r_key b"

text \<open>Conversions from and to integers; \<open>None\<close> where the value has no integer part.\<close>

definition r_of_int :: "int \<Rightarrow> t_real" where
  "r_of_int i = r_round (i < 0) \<bar>i\<bar> 0"

definition r_trunc :: "t_real \<Rightarrow> int option" where
  "r_trunc w =
     (if r_isnan w \<or> r_isinf w then None
      else let m = (if 0 \<le> r_scale w then r_mant w * 2 ^ nat (r_scale w)
                    else r_mant w div 2 ^ nat (- r_scale w))
           in Some (if r_sign w then - m else m))"

section \<open>Facts\<close>

lemma r_add_commute:
  "\<not> (r_isinf a \<and> r_isinf b) \<Longrightarrow> r_add a b = r_add b a"
  unfolding r_add_def by (auto simp: min.commute add.commute conj_commute Let_def)

lemma r_mul_commute: "r_mul a b = r_mul b a"
proof -
  have "(r_sign a \<noteq> r_sign b) = (r_sign b \<noteq> r_sign a)" by blast
  then show ?thesis unfolding r_mul_def Let_def by (simp only: ac_simps disj_commute)
qed

lemma r_lt_irrefl [simp]: "\<not> r_lt a a"
  by (simp add: r_lt_def)

lemma r_lt_trans: "r_lt a b \<Longrightarrow> r_lt b c \<Longrightarrow> r_lt a c"
  by (auto simp: r_lt_def)

lemma r_le_iff: "r_le a b \<longleftrightarrow> r_lt a b \<or> r_eq a b"
  by (auto simp: r_lt_def r_eq_def r_le_def)

lemma r_compare_total:
  "\<not> r_isnan a \<Longrightarrow> \<not> r_isnan b \<Longrightarrow> r_lt a b \<or> r_eq a b \<or> r_lt b a"
  by (auto simp: r_lt_def r_eq_def)

lemma r_neg_involution [simp]: "r_neg (r_neg w) = w"
  by (simp add: r_neg_def xor.assoc)

text \<open>
  Integers of at most 53 bits are represented exactly: converting one to a double and back
  gives the integer again.
\<close>

lemma round_exact:
  assumes n: "0 < n" "n < 2 ^ 53"
  defines "j \<equiv> nat (53 - blen n)"
  shows "r_round_frac s n 1 = r_make s ((1021 + blen n) * 2 ^ 52 + n * 2 ^ j)"
    and "2 ^ 52 \<le> n * 2 ^ j" "n * 2 ^ j < 2 ^ 53" "0 < blen n" "blen n \<le> 53"
proof -
  define L where "L = blen n"
  have L: "0 < L" "2 ^ nat (L - 1) \<le> n" "n < 2 ^ nat L"
    using blen_bounds [OF n(1)] by (auto simp: L_def)
  have L53: "L \<le> 53"
  proof (rule ccontr)
    assume "\<not> L \<le> 53"
    then have "(2 :: int) ^ 53 \<le> 2 ^ nat (L - 1)" by (intro power_increasing) auto
    then show False using L(2) n(2) by simp
  qed
  have j: "j = nat (53 - L)" by (simp add: j_def L_def)
  have e1: "nat (L - 1) + j = 52" "nat L + j = 53" using L(1) L53 by (auto simp: j)
  have "(2 :: int) ^ 52 = 2 ^ nat (L - 1) * 2 ^ j" using e1 by (metis power_add)
  also have "\<dots> \<le> n * 2 ^ j" using L(2) by (intro mult_right_mono) auto
  finally show lo: "2 ^ 52 \<le> n * 2 ^ j" .
  have "n * 2 ^ j < 2 ^ nat L * 2 ^ j" using L(3) by (intro mult_strict_right_mono) auto
  also have "(2 :: int) ^ nat L * 2 ^ j = 2 ^ 53" using e1 by (metis power_add)
  finally show hi: "n * 2 ^ j < 2 ^ 53" .
  have k: "max (-1074) (L - 1 - 52) = L - 53" using L(1) by simp
  have b: "\<not> 2047 * 2 ^ 52 \<le> (L - 53 + 1074) * 2 ^ 52 + n * 2 ^ j"
    using hi L53 by simp
  have e0: "1 * 2 ^ nat (L - 1) \<le> n * 2 ^ nat (- (L - 1))"
    using L(1,2) by simp
  have nk: "nat (- (L - 53)) = j" "nat (L - 53) = 0" using L53 by (auto simp: j)
  have "r_round_frac s n 1 = r_make s ((L - 53 + 1074) * 2 ^ 52 + n * 2 ^ j)"
    unfolding r_round_frac_def Let_def L_def [symmetric] blen_1
    using n(1) e0 b by (simp only: k nk if_True if_False rne_exact power_0 mult_1 not_less_iff_gr_or_eq) simp
  then show "r_round_frac s n 1 = r_make s ((1021 + blen n) * 2 ^ 52 + n * 2 ^ j)"
    by (simp add: L_def algebra_simps)
  show "0 < blen n" "blen n \<le> 53" using L(1) L53 by (auto simp: L_def)
qed

lemma trunc_round_exact:
  assumes n: "0 < n" "n < 2 ^ 53"
  shows "r_trunc (r_round_frac s n 1) = Some (if s then - n else n)"
proof -
  define j where "j = nat (53 - blen n)"
  define m where "m = (1021 + blen n) * 2 ^ 52 + n * 2 ^ j"
  note ex = round_exact [OF n, folded j_def, folded m_def]
  have m: "0 \<le> m" "m < 2047 * 2 ^ 52" using ex(2-5) by (auto simp: m_def)
  define w where "w = r_round_frac s n 1"
  have w: "r_mag w = m" "r_sign w = s"
    using r_make_fields [of m s] m ex(1) by (auto simp: w_def)
  have "r_expo w = 1022 + blen n"
  proof -
    have "m = (n * 2 ^ j - 2 ^ 52) + (1022 + blen n) * 2 ^ 52" by (simp add: m_def algebra_simps)
    then have "m div 2 ^ 52 = (n * 2 ^ j - 2 ^ 52) div 2 ^ 52 + (1022 + blen n)"
      by (metis div_mult_self3 power_not_zero zero_neq_numeral add.commute)
    moreover have "(n * 2 ^ j - 2 ^ 52) div 2 ^ 52 = 0"
      using ex(2,3) by (intro div_pos_pos_trivial) auto
    ultimately show ?thesis by (simp add: r_expo_def w)
  qed
  moreover have "r_frac w = n * 2 ^ j - 2 ^ 52"
    using calculation minus_div_mult_eq_mod [of m "2 ^ 52"]
    by (simp add: r_frac_def r_expo_def w m_def algebra_simps)
  ultimately have mant: "r_mant w = n * 2 ^ j" and scale: "r_scale w = blen n - 53"
    using ex(4) by (auto simp: r_mant_def r_scale_def)
  have fin: "\<not> r_isnan w" "\<not> r_isinf w" using m by (auto simp: r_isnan_def r_isinf_def w)
  have "(if 0 \<le> r_scale w then r_mant w * 2 ^ nat (r_scale w)
         else r_mant w div 2 ^ nat (- r_scale w)) = n"
    using ex(5) by (auto simp: mant scale j_def)
  then have "r_trunc w = Some (if s then - n else n)"
    unfolding r_trunc_def Let_def using fin w(2) by simp
  then show ?thesis by (simp only: w_def)
qed

lemma trunc_of_int: "\<bar>i\<bar> < 2 ^ 53 \<Longrightarrow> r_trunc (r_of_int i) = Some i"
proof (cases "i = 0")
  case True
  have "r_trunc (r_zero False) = Some 0"
    by (simp add: r_trunc_def r_zero_def r_isnan_def r_isinf_def r_mant_def r_scale_def r_expo_def
        r_frac_def r_make_fields Let_def)
  then show ?thesis using True by (simp add: r_of_int_def r_round_def r_round_frac_def)
next
  case False
  assume "\<bar>i\<bar> < 2 ^ 53"
  then show ?thesis
    using False trunc_round_exact [of "\<bar>i\<bar>" "i < 0"] by (simp add: r_of_int_def r_round_def)
qed

end
