(* ===== verification/VmData.thy ===== *)
theory VmData
  imports VmTypes Binary64
begin

text \<open>
  The values of the virtual machine (\<open>t_data\<close> of vm/vm.h), their variant indices and names,
  and the byte encodings of the element types. The C++ templates over an element type
  become functions of a record: \<open>codec\<close> for a raw value (\<open>ReadMemRaw\<close>, \<open>PushRaw\<close>, ...) and
  \<open>vtraits\<close> for a vector type (\<open>PushArray\<close>, \<open>WriteArrayElem\<close>, ...). What the memory code
  relies on is the locale \<open>codec_laws\<close>, interpreted for every element type of the machine.
\<close>

section \<open>Values\<close>

type_synonym t_int = "64 word"
type_synonym t_cplx = "t_real \<times> t_real"
type_synonym t_quat = "t_real \<times> t_real \<times> t_real \<times> t_real"
type_synonym t_addr = int
type_synonym t_bool = byte
type_synonym t_str = string

datatype t_data =
    Monostate
  | RealD t_real
  | IntD t_int
  | CplxD t_cplx
  | BoolD t_bool
  | AddrD t_addr
  | RealArrD "t_real list"
  | IntArrD "t_int list"
  | CplxArrD "t_cplx list"
  | StrD t_str
  | QuatD t_quat
  | QuatArrD "t_quat list"

fun data_index :: "t_data \<Rightarrow> nat" where
  "data_index Monostate = 0"
| "data_index (RealD _) = 1"
| "data_index (IntD _) = 2"
| "data_index (CplxD _) = 3"
| "data_index (BoolD _) = 4"
| "data_index (AddrD _) = 5"
| "data_index (RealArrD _) = 6"
| "data_index (IntArrD _) = 7"
| "data_index (CplxArrD _) = 8"
| "data_index (StrD _) = 9"
| "data_index (QuatD _) = 10"
| "data_index (QuatArrD _) = 11"

definition GetDataTypeName :: "nat \<Rightarrow> string" where
  "GetDataTypeName type_idx =
     (if type_idx = 1 then get_vm_type_name VM_REAL
      else if type_idx = 2 then get_vm_type_name VM_INT
      else if type_idx = 3 then get_vm_type_name VM_CPLX
      else if type_idx = 4 then get_vm_type_name VM_BOOL
      else if type_idx = 9 then get_vm_type_name VM_STR
      else if type_idx = 5 then ''address''
      else if type_idx = 6 then get_vm_type_name VM_REALARR
      else if type_idx = 7 then get_vm_type_name VM_INTARR
      else if type_idx = 8 then get_vm_type_name VM_CPLXARR
      else ''unknown'')"

text \<open>\<open>std::get\<close> of one alternative; the wrong alternative throws.\<close>

fun get_int :: "t_data \<Rightarrow> t_int result" where
  "get_int (IntD i) = Ok i"
| "get_int _ = Throw BadVariantAccess"

fun get_real :: "t_data \<Rightarrow> t_real result" where
  "get_real (RealD r) = Ok r"
| "get_real _ = Throw BadVariantAccess"

fun get_str :: "t_data \<Rightarrow> t_str result" where
  "get_str (StrD s) = Ok s"
| "get_str _ = Throw BadVariantAccess"

text \<open>Narrowing of a \<open>t_int\<close> (or of an unsigned size) to a \<open>t_addr\<close>.\<close>

definition addr_of_int :: "t_int \<Rightarrow> t_addr" where
  "addr_of_int i = wrap32 (sint i)"

definition addr_of_size :: "nat \<Rightarrow> t_addr" where
  "addr_of_size n = wrap32 (int n)"

section \<open>Element encodings\<close>

record 'e codec =
  c_enc :: "'e \<Rightarrow> byte list"
  c_dec :: "byte list \<Rightarrow> 'e"
  c_size :: int

definition real_codec :: "t_real codec" where
  "real_codec = \<lparr>c_enc = enc64, c_dec = dec64, c_size = 8\<rparr>"

definition int_codec :: "t_int codec" where
  "int_codec = \<lparr>c_enc = enc64, c_dec = dec64, c_size = 8\<rparr>"

definition addr_codec :: "t_addr codec" where
  "addr_codec = \<lparr>c_enc = enc_addr, c_dec = dec_addr, c_size = 4\<rparr>"

definition byte_codec :: "byte codec" where
  "byte_codec = \<lparr>c_enc = enc_byte, c_dec = dec_byte, c_size = 1\<rparr>"

definition char_codec :: "char codec" where
  "char_codec = \<lparr>c_enc = enc_char, c_dec = dec_char, c_size = 1\<rparr>"

fun enc_cplx :: "t_cplx \<Rightarrow> byte list" where
  "enc_cplx (re, im) = enc64 re @ enc64 im"

definition dec_cplx :: "byte list \<Rightarrow> t_cplx" where
  "dec_cplx bs = (dec64 (take 8 bs), dec64 (take 8 (drop 8 bs)))"

definition cplx_codec :: "t_cplx codec" where
  "cplx_codec = \<lparr>c_enc = enc_cplx, c_dec = dec_cplx, c_size = 2 * 8\<rparr>"

fun enc_quat :: "t_quat \<Rightarrow> byte list" where
  "enc_quat (re, i1, i2, i3) = enc64 re @ enc64 i1 @ enc64 i2 @ enc64 i3"

definition dec_quat :: "byte list \<Rightarrow> t_quat" where
  "dec_quat bs = (dec64 (take 8 bs), dec64 (take 8 (drop 8 bs)),
     dec64 (take 8 (drop 16 bs)), dec64 (take 8 (drop 24 bs)))"

definition quat_codec :: "t_quat codec" where
  "quat_codec = \<lparr>c_enc = enc_quat, c_dec = dec_quat, c_size = 4 * 8\<rparr>"

lemmas codec_defs = real_codec_def int_codec_def addr_codec_def byte_codec_def char_codec_def
  cplx_codec_def quat_codec_def

definition enc_elems :: "('e, 'x) codec_scheme \<Rightarrow> 'e list \<Rightarrow> byte list" where
  "enc_elems c xs = concat (map (c_enc c) xs)"

definition dec_elems :: "('e, 'x) codec_scheme \<Rightarrow> nat \<Rightarrow> byte list \<Rightarrow> 'e list" where
  "dec_elems c n bs = map (c_dec c) (chunks (nat (c_size c)) n bs)"

text \<open>
  The contract of an encoding: a value of the type (for addresses, a 32-bit one) is decoded
  from its bytes, and all encodings have the declared size.
\<close>

locale codec_laws =
  fixes c :: "('e, 'x) codec_scheme"
    and valid :: "'e \<Rightarrow> bool"
  assumes dec_enc: "valid x \<Longrightarrow> c_dec c (c_enc c x) = x"
    and enc_length: "length (c_enc c x) = nat (c_size c)"
    and size_bounds: "0 < c_size c" "c_size c \<le> 32"
begin

lemma enc_length_int: "int (length (c_enc c x)) = c_size c"
  using size_bounds by (simp add: enc_length)

lemma elems_length: "int (length (enc_elems c xs)) = int (length xs) * c_size c"
  using size_bounds
  by (simp add: enc_elems_def length_concat_const [OF enc_length])

lemma elems_roundtrip:
  "\<forall>x \<in> set xs. valid x \<Longrightarrow> dec_elems c (length xs) (enc_elems c xs) = xs"
  unfolding dec_elems_def enc_elems_def
  by (subst chunks_concat) (auto simp: enc_length dec_enc intro: map_idI)

end

lemma length_enc_cplx: "length (enc_cplx z) = 16"
  by (cases z) simp

lemma length_enc_quat: "length (enc_quat q) = 32"
  by (cases q rule: enc_quat.cases) simp

lemma dec_enc_cplx: "dec_cplx (enc_cplx z) = z"
  by (cases z) (simp add: dec_cplx_def)

lemma dec_enc_quat: "dec_quat (enc_quat q) = q"
  by (cases q rule: enc_quat.cases) (simp add: dec_quat_def)

interpretation real_c: codec_laws real_codec "\<lambda>_. True"
  by unfold_locales (simp_all add: codec_defs)

interpretation int_c: codec_laws int_codec "\<lambda>_. True"
  by unfold_locales (simp_all add: codec_defs)

interpretation addr_c: codec_laws addr_codec addr_range
  by unfold_locales (simp_all add: codec_defs)

interpretation byte_c: codec_laws byte_codec "\<lambda>_. True"
  by unfold_locales (simp_all add: codec_defs)

interpretation char_c: codec_laws char_codec "\<lambda>_. True"
  by unfold_locales (simp_all add: codec_defs)

interpretation cplx_c: codec_laws cplx_codec "\<lambda>_. True"
  by unfold_locales (simp_all add: codec_defs dec_enc_cplx length_enc_cplx)

interpretation quat_c: codec_laws quat_codec "\<lambda>_. True"
  by unfold_locales (simp_all add: codec_defs dec_enc_quat length_enc_quat)

section \<open>Vector types\<close>

text \<open>
  \<open>vt_type\<close> is \<open>GetArraySymbolType\<close>, \<open>vt_elem\<close>/\<open>vt_vec\<close> build the variant alternatives
  \<open>GetDataTypeIndex\<close> names for the element and the vector type, \<open>vt_get_elem\<close>/\<open>vt_get_vec\<close>
  test for and read them, \<open>vt_zero\<close> is the default-constructed element.
\<close>

record 'e vtraits = "'e codec" +
  vt_type :: VMType
  vt_elem :: "'e \<Rightarrow> t_data"
  vt_vec :: "'e list \<Rightarrow> t_data"
  vt_get_elem :: "t_data \<Rightarrow> 'e option"
  vt_get_vec :: "t_data \<Rightarrow> 'e list option"
  vt_zero :: 'e

fun sel_real :: "t_data \<Rightarrow> t_real option" where
  "sel_real (RealD x) = Some x" | "sel_real _ = None"

fun sel_int :: "t_data \<Rightarrow> t_int option" where
  "sel_int (IntD x) = Some x" | "sel_int _ = None"

fun sel_cplx :: "t_data \<Rightarrow> t_cplx option" where
  "sel_cplx (CplxD x) = Some x" | "sel_cplx _ = None"

fun sel_quat :: "t_data \<Rightarrow> t_quat option" where
  "sel_quat (QuatD x) = Some x" | "sel_quat _ = None"

fun sel_realarr :: "t_data \<Rightarrow> t_real list option" where
  "sel_realarr (RealArrD x) = Some x" | "sel_realarr _ = None"

fun sel_intarr :: "t_data \<Rightarrow> t_int list option" where
  "sel_intarr (IntArrD x) = Some x" | "sel_intarr _ = None"

fun sel_cplxarr :: "t_data \<Rightarrow> t_cplx list option" where
  "sel_cplxarr (CplxArrD x) = Some x" | "sel_cplxarr _ = None"

fun sel_quatarr :: "t_data \<Rightarrow> t_quat list option" where
  "sel_quatarr (QuatArrD x) = Some x" | "sel_quatarr _ = None"

definition real_vt :: "t_real vtraits" where
  "real_vt = codec.extend real_codec \<lparr>vt_type = VM_REALARR, vt_elem = RealD, vt_vec = RealArrD,
     vt_get_elem = sel_real, vt_get_vec = sel_realarr, vt_zero = 0\<rparr>"

definition int_vt :: "t_int vtraits" where
  "int_vt = codec.extend int_codec \<lparr>vt_type = VM_INTARR, vt_elem = IntD, vt_vec = IntArrD,
     vt_get_elem = sel_int, vt_get_vec = sel_intarr, vt_zero = 0\<rparr>"

definition cplx_vt :: "t_cplx vtraits" where
  "cplx_vt = codec.extend cplx_codec \<lparr>vt_type = VM_CPLXARR, vt_elem = CplxD, vt_vec = CplxArrD,
     vt_get_elem = sel_cplx, vt_get_vec = sel_cplxarr, vt_zero = (0, 0)\<rparr>"

definition quat_vt :: "t_quat vtraits" where
  "quat_vt = codec.extend quat_codec \<lparr>vt_type = VM_QUATARR, vt_elem = QuatD, vt_vec = QuatArrD,
     vt_get_elem = sel_quat, vt_get_vec = sel_quatarr, vt_zero = (0, 0, 0, 0)\<rparr>"

lemmas vt_defs = real_vt_def int_vt_def cplx_vt_def quat_vt_def codec.defs vtraits.defs

text \<open>A vector type extends the contract of its elements by that of its variant alternatives.\<close>

locale vtraits_laws = codec_laws c "\<lambda>_. True" for c :: "('e, 'x) vtraits_scheme" +
  assumes get_elem: "vt_get_elem c (vt_elem c x) = Some x"
    and get_vec: "vt_get_vec c (vt_vec c xs) = Some xs"
    and elem_not_vec: "vt_get_vec c (vt_elem c x) = None"
    and zero_bytes: "set (c_enc c (vt_zero c)) \<subseteq> {0}"
begin

lemma vec_inj: "vt_vec c xs = vt_vec c ys \<Longrightarrow> xs = ys"
  by (metis get_vec option.inject)

lemma vt_elems_roundtrip: "dec_elems c (length xs) (enc_elems c xs) = xs"
  by (rule elems_roundtrip) simp

end

lemma enc64_0 [simp]: "enc64 0 = replicate 8 0"
  by (simp add: enc64_def numeral_eq_Suc)

interpretation real_v: vtraits_laws real_vt
  by unfold_locales (simp_all add: vt_defs codec_defs)

interpretation int_v: vtraits_laws int_vt
  by unfold_locales (simp_all add: vt_defs codec_defs)

interpretation cplx_v: vtraits_laws cplx_vt
  by unfold_locales (simp_all add: vt_defs codec_defs dec_enc_cplx length_enc_cplx)

interpretation quat_v: vtraits_laws quat_vt
  by unfold_locales (simp_all add: vt_defs codec_defs dec_enc_quat length_enc_quat)

end
