(* ===== verification/VmMemory.thy ===== *)
theory VmMemory
  imports VmData
begin

text \<open>
  The state of the virtual machine (the members of class \<open>VM\<close> in vm/vm.h) and its raw memory
  operations: the bounds checks, loading of programs and the reset of vm/vm.cpp, and the
  memory templates of vm/mem.h. The memory array is a function from addresses to bytes
  together with its size; \<open>load\<close> and \<open>store\<close> are the dereferences of a pointer into the
  array and are \<open>Undefined\<close> outside it, so a missing or wrong bounds check of the code shows
  as undefined behaviour here.
\<close>

section \<open>State\<close>

record vm =
  m_debug :: bool
  m_checks :: bool
  m_zeropoppedvals :: bool
  m_eps :: t_real
  m_prec :: t_int
  m_mem :: mem
  m_code_range :: "t_addr \<times> t_addr"
  m_ip :: t_addr
  m_sp :: t_addr
  m_bp :: t_addr
  m_gbp :: t_addr
  m_memsize :: t_addr
  m_irqs :: "bool list"
  m_isrs :: "t_addr option list"
  m_timer_running :: bool
  m_timer_ticks :: t_int
  m_cout :: string
  m_cin :: string

definition m_addrsize :: int where
  "m_addrsize = 4"

definition m_bytesize :: int where
  "m_bytesize = 1"

definition m_charsize :: int where
  "m_charsize = 1"

definition m_num_interrupts :: nat where
  "m_num_interrupts = 16"

lemmas size_defs [simp] = m_addrsize_def m_bytesize_def m_charsize_def

text \<open>What the C++ types of the members guarantee.\<close>

definition vm_wf :: "vm \<Rightarrow> bool" where
  "vm_wf s \<longleftrightarrow> addr_range (m_ip s) \<and> addr_range (m_sp s) \<and> addr_range (m_bp s) \<and>
     addr_range (m_gbp s) \<and> addr_range (m_memsize s) \<and>
     length (m_irqs s) = m_num_interrupts \<and> length (m_isrs s) = m_num_interrupts"

lemma vm_wfD:
  assumes "vm_wf s"
  shows "m_ip s < 2 ^ 31" "m_sp s < 2 ^ 31" "m_bp s < 2 ^ 31" "m_gbp s < 2 ^ 31"
    "m_memsize s < 2 ^ 31" "- (2 ^ 31) \<le> m_sp s"
  using assms by (auto simp: vm_wf_def addr_range_def)

section \<open>Access to the memory array\<close>

text \<open>\<open>m_memsize\<close> is an \<open>int32_t\<close>, so the array ends at or below \<open>2 ^ 31 - 1\<close>.\<close>

definition in_mem :: "vm \<Rightarrow> int \<Rightarrow> int \<Rightarrow> bool" where
  "in_mem s a n \<longleftrightarrow> 0 \<le> a \<and> a + n \<le> m_memsize s \<and> a + n < 2 ^ 31"

definition load :: "vm \<Rightarrow> int \<Rightarrow> int \<Rightarrow> byte list result" where
  "load s a n =
     (if n \<le> 0 then Ok []
      else if in_mem s a n then Ok (get_bytes (m_mem s) a (nat n))
      else Undefined (UB_Memory a n))"

definition store :: "vm \<Rightarrow> int \<Rightarrow> byte list \<Rightarrow> vm result" where
  "store s a bs =
     (if bs = [] then Ok s
      else if in_mem s a (int (length bs)) then Ok (s\<lparr>m_mem := put_bytes (m_mem s) a bs\<rparr>)
      else Undefined (UB_Memory a (int (length bs))))"

text \<open>\<open>std::memcpy\<close> of \<open>n\<close> bytes, the count being converted to \<open>size_t\<close>.\<close>

definition copy_to :: "vm \<Rightarrow> int \<Rightarrow> byte list \<Rightarrow> int \<Rightarrow> vm result" where
  "copy_to s a bs n =
     (if n < 0 then Undefined (UB_Memory a n) else store s a (take (nat n) bs))"

text \<open>
  The end of the access is a sum of two \<open>int32_t\<close>, and undefined when it overflows. All other
  sums, differences and products of addresses are taken to wrap, as the compiled code does on a
  machine with two's complement, although C++ leaves their overflow undefined, too.
\<close>

definition CheckMemoryBounds :: "vm \<Rightarrow> t_addr \<Rightarrow> int \<Rightarrow> unit result" where
  "CheckMemoryBounds s addr sz =
     (if \<not> m_checks s then Ok ()
      else let new_addr = addr + sz in
        if \<not> addr_range new_addr then Undefined UB_Overflow
        else if new_addr > m_memsize s \<or> new_addr < 0 \<or> addr < 0
        then Throw (OutOfBounds addr sz new_addr)
        else Ok ())"

definition CheckPointerBounds :: "vm \<Rightarrow> unit result" where
  "CheckPointerBounds s =
     (if \<not> m_checks s then Ok ()
      else let
        lo = fst (m_code_range s); hi = snd (m_code_range s);
        chk_c = (lo \<ge> 0 \<and> hi \<ge> 0);
        bad = (\<lambda>p. p > m_memsize s \<or> p < 0 \<or> (chk_c \<and> p \<ge> lo \<and> p < hi))
      in
        if m_ip s > m_memsize s \<or> m_ip s < 0 \<or> (chk_c \<and> (m_ip s < lo \<or> m_ip s \<ge> hi))
        then Throw (RuntimeError ''Instruction pointer is out of memory bounds.'')
        else if bad (m_sp s)
        then Throw (RuntimeError ''Stack pointer is out of memory bounds.'')
        else if bad (m_bp s)
        then Throw (RuntimeError ''Base pointer is out of memory bounds.'')
        else if bad (m_gbp s)
        then Throw (RuntimeError ''Global base pointer is out of memory bounds.'')
        else Ok ())"

section \<open>Reset and loading of programs\<close>

text \<open>\<open>sizeof(t_data)\<close> depends on the compiler and is a parameter.\<close>

definition Reset :: "int \<Rightarrow> vm \<Rightarrow> vm" where
  "Reset sizeof_data s =
     s\<lparr>m_ip := 0,
       m_sp := wrap32 (m_memsize s - (sizeof_data + 1)),
       m_bp := m_memsize s,
       m_gbp := m_memsize s,
       m_mem := (\<lambda>x. if 0 \<le> x \<and> x < m_memsize s * m_bytesize
                     then byte_of_opcode OP_HALT else m_mem s x),
       m_code_range := (-1, -1)\<rparr>"

definition new_vm :: "int \<Rightarrow> t_addr \<Rightarrow> vm" where
  "new_vm sizeof_data memsize = Reset sizeof_data
     \<lparr>m_debug = False, m_checks = True, m_zeropoppedvals = False,
      m_eps = 0x3CB0000000000000, m_prec = 6,
      m_mem = (\<lambda>_. 0), m_code_range = (-1, -1),
      m_ip = 0, m_sp = 0, m_bp = 0, m_gbp = 0, m_memsize = memsize,
      m_irqs = replicate m_num_interrupts False,
      m_isrs = replicate m_num_interrupts None,
      m_timer_running = False, m_timer_ticks = 250, m_cout = [], m_cin = []\<rparr>"

definition UpdateCodeRange :: "t_addr \<Rightarrow> t_addr \<Rightarrow> vm \<Rightarrow> vm" where
  "UpdateCodeRange begin_a end_a s =
     (let (lo, hi) = m_code_range s in
      if lo < 0 \<or> hi < 0 then s\<lparr>m_code_range := (begin_a, end_a)\<rparr>
      else s\<lparr>m_code_range := (min lo begin_a, max hi end_a)\<rparr>)"

definition SetMemByte :: "t_addr \<Rightarrow> byte \<Rightarrow> vm \<Rightarrow> vm result" where
  "SetMemByte addr dat s =
     rbind (CheckMemoryBounds s addr m_bytesize) (\<lambda>_.
     if m_memsize s = 0 then Undefined UB_Division
     else store s (addr smod m_memsize s) [dat])"

primrec SetMemLoop :: "t_addr \<Rightarrow> byte list \<Rightarrow> nat \<Rightarrow> vm \<Rightarrow> vm result" where
  "SetMemLoop addr [] i s = Ok s"
| "SetMemLoop addr (b # bs) i s =
     rbind (SetMemByte (wrap32 (addr + addr_of_size i)) b s) (\<lambda>s. SetMemLoop addr bs (Suc i) s)"

definition SetMem :: "t_addr \<Rightarrow> byte list \<Rightarrow> bool \<Rightarrow> vm \<Rightarrow> vm result" where
  "SetMem addr bs is_code s =
     SetMemLoop addr bs 0
       (if is_code then UpdateCodeRange addr (wrap32 (addr + int (length bs))) s else s)"

section \<open>Raw values on the stack and in memory\<close>

definition TopRaw :: "('e, 'x) codec_scheme \<Rightarrow> t_addr \<Rightarrow> vm \<Rightarrow> 'e result" where
  "TopRaw c sp_offs s =
     (let addr = wrap32 (m_sp s + sp_offs) in
      rbind (CheckMemoryBounds s addr (c_size c)) (\<lambda>_.
      rbind (load s addr (c_size c)) (\<lambda>bs. Ok (c_dec c bs))))"

definition zero_popped :: "t_addr \<Rightarrow> int \<Rightarrow> vm \<Rightarrow> vm result" where
  "zero_popped addr n s =
     (if m_zeropoppedvals s then store s addr (replicate (nat n) 0) else Ok s)"

definition PopRaw :: "('e, 'x) codec_scheme \<Rightarrow> vm \<Rightarrow> ('e \<times> vm) result" where
  "PopRaw c s =
     rbind (CheckMemoryBounds s (m_sp s) (c_size c)) (\<lambda>_.
     rbind (load s (m_sp s) (c_size c)) (\<lambda>bs.
     rbind (zero_popped (m_sp s) (c_size c) s) (\<lambda>s'.
     Ok (c_dec c bs, s'\<lparr>m_sp := wrap32 (m_sp s + c_size c)\<rparr>))))"

definition PushRaw :: "('e, 'x) codec_scheme \<Rightarrow> 'e \<Rightarrow> vm \<Rightarrow> vm result" where
  "PushRaw c val s =
     rbind (CheckMemoryBounds s (m_sp s) (c_size c)) (\<lambda>_.
     let sp' = wrap32 (m_sp s - c_size c) in
     store (s\<lparr>m_sp := sp'\<rparr>) sp' (c_enc c val))"

definition ReadMemRaw :: "('e, 'x) codec_scheme \<Rightarrow> t_addr \<Rightarrow> vm \<Rightarrow> 'e result" where
  "ReadMemRaw c addr s =
     rbind (CheckMemoryBounds s addr (c_size c)) (\<lambda>_.
     rbind (load s addr (c_size c)) (\<lambda>bs. Ok (c_dec c bs)))"

definition WriteMemRaw :: "('e, 'x) codec_scheme \<Rightarrow> t_addr \<Rightarrow> 'e \<Rightarrow> vm \<Rightarrow> vm result" where
  "WriteMemRaw c addr val s =
     rbind (CheckMemoryBounds s addr (c_size c)) (\<lambda>_. store s addr (c_enc c val))"

section \<open>Strings and arrays\<close>

text \<open>
  A \<open>t_str\<close> or a vector constructed from a pointer and a negative count throws. The count
  times the element size is a 32-bit product; the constructor reads the full number of
  elements.
\<close>

definition read_seq :: "('e, 'x) codec_scheme \<Rightarrow> t_addr \<Rightarrow> int \<Rightarrow> vm \<Rightarrow> 'e list result" where
  "read_seq c addr num s =
     (if num < 0 then Throw LengthError
      else rbind (load s addr (num * c_size c)) (\<lambda>bs. Ok (dec_elems c (nat num) bs)))"

definition ReadArrayRaw :: "('e, 'x) codec_scheme \<Rightarrow> t_addr \<Rightarrow> vm \<Rightarrow> 'e list result" where
  "ReadArrayRaw c addr s =
     rbind (ReadMemRaw addr_codec addr s) (\<lambda>num_elems.
     let addr = wrap32 (addr + m_addrsize) in
     rbind (CheckMemoryBounds s addr (wrap32 (num_elems * c_size c))) (\<lambda>_.
     read_seq c addr num_elems s))"

definition ReadMemRawStr :: "t_addr \<Rightarrow> vm \<Rightarrow> t_str result" where
  "ReadMemRawStr addr s =
     rbind (ReadMemRaw addr_codec addr s) (\<lambda>len.
     let addr = wrap32 (addr + m_addrsize) in
     rbind (CheckMemoryBounds s addr (len * m_charsize)) (\<lambda>_.
     read_seq char_codec addr len s))"

definition WriteArrayRaw :: "('e, 'x) codec_scheme \<Rightarrow> t_addr \<Rightarrow> 'e list \<Rightarrow> vm \<Rightarrow> vm result" where
  "WriteArrayRaw c addr vec s =
     (let num_elems = addr_of_size (length vec); nbytes = wrap32 (num_elems * c_size c) in
      rbind (CheckMemoryBounds s addr (wrap32 (m_addrsize + nbytes))) (\<lambda>_.
      rbind (WriteMemRaw addr_codec addr num_elems s) (\<lambda>s.
      copy_to s (wrap32 (addr + m_addrsize)) (enc_elems c vec) nbytes)))"

definition WriteArray :: "('e, 'x) vtraits_scheme \<Rightarrow> t_addr \<Rightarrow> 'e list \<Rightarrow> bool \<Rightarrow> vm \<Rightarrow> vm result" where
  "WriteArray c addr vec raw s =
     (if raw then WriteArrayRaw c addr vec s
      else rbind (WriteMemRaw byte_codec addr (byte_of_vmtype (vt_type c)) s) (\<lambda>s.
        WriteArrayRaw c (wrap32 (addr + m_bytesize)) vec s))"

definition WriteMemRawStr :: "t_addr \<Rightarrow> t_str \<Rightarrow> vm \<Rightarrow> vm result" where
  "WriteMemRawStr addr val s =
     (let len = addr_of_size (length val) in
      rbind (CheckMemoryBounds s addr (wrap32 (m_addrsize + len * m_charsize))) (\<lambda>_.
      rbind (WriteMemRaw addr_codec addr len s) (\<lambda>s.
      copy_to s (wrap32 (addr + m_addrsize)) (enc_elems char_codec val) (len * m_charsize))))"

definition TopSeq :: "('e, 'x) codec_scheme \<Rightarrow> t_addr \<Rightarrow> vm \<Rightarrow> 'e list result" where
  "TopSeq c sp_offs s =
     rbind (TopRaw addr_codec sp_offs s) (\<lambda>num_elems.
     let addr = wrap32 (m_sp s + sp_offs + m_addrsize) in
     rbind (CheckMemoryBounds s addr (wrap32 (num_elems * c_size c))) (\<lambda>_.
     read_seq c addr num_elems s))"

definition PopSeq :: "('e, 'x) codec_scheme \<Rightarrow> vm \<Rightarrow> ('e list \<times> vm) result" where
  "PopSeq c s =
     rbind (PopRaw addr_codec s) (\<lambda>(num_elems, s).
     let nbytes = wrap32 (num_elems * c_size c) in
     rbind (CheckMemoryBounds s (m_sp s) nbytes) (\<lambda>_.
     rbind (read_seq c (m_sp s) num_elems s) (\<lambda>vec.
     rbind (zero_popped (m_sp s) (num_elems * c_size c) s) (\<lambda>s'.
     Ok (vec, s'\<lparr>m_sp := wrap32 (m_sp s + nbytes)\<rparr>)))))"

definition PushSeq :: "('e, 'x) codec_scheme \<Rightarrow> 'e list \<Rightarrow> vm \<Rightarrow> vm result" where
  "PushSeq c vec s =
     (let num_elems = addr_of_size (length vec); nbytes = wrap32 (num_elems * c_size c) in
      rbind (CheckMemoryBounds s (m_sp s) (wrap32 (- num_elems * c_size c))) (\<lambda>_.
      let sp' = wrap32 (m_sp s - nbytes) in
      rbind (copy_to (s\<lparr>m_sp := sp'\<rparr>) sp' (enc_elems c vec) nbytes) (\<lambda>s.
      PushRaw addr_codec num_elems s)))"

text \<open>
  \<open>PopString\<close>, \<open>TopString\<close> and \<open>PushString\<close> are these operations on characters; \<open>PopComplex\<close>,
  \<open>TopComplex\<close>, \<open>PushComplex\<close> and their quaternion variants check and move a fixed size.
  Unlike \<open>PushRaw\<close>, the pushes below pass the negated size to the bounds check.
\<close>

definition PushFixed :: "('e, 'x) codec_scheme \<Rightarrow> 'e \<Rightarrow> vm \<Rightarrow> vm result" where
  "PushFixed c val s =
     rbind (CheckMemoryBounds s (m_sp s) (- c_size c)) (\<lambda>_.
     let sp' = wrap32 (m_sp s - c_size c) in
     store (s\<lparr>m_sp := sp'\<rparr>) sp' (c_enc c val))"

section \<open>Array elements\<close>

text \<open>
  \<open>safe_array_index\<close> of common/helpers.h, instantiated with \<open>t_int\<close> or \<open>t_addr\<close>: \<open>lo\<close> is the least
  value of that type.
\<close>

definition safe_array_index :: "int \<Rightarrow> int \<Rightarrow> int \<Rightarrow> int result" where
  "safe_array_index lo idx sz =
     (if sz = 0 \<or> (sz = -1 \<and> idx = lo) then Undefined UB_Division
      else let r = idx smod sz; i = (if r < 0 then r + sz else r) in
        if i \<ge> sz \<or> i < 0 then Throw (RuntimeError ''Array index out of bounds.'')
        else Ok i)"

definition WriteArrayElem :: "('e, 'x) vtraits_scheme \<Rightarrow> t_addr \<Rightarrow> t_data \<Rightarrow> t_int \<Rightarrow> vm \<Rightarrow> vm result" where
  "WriteArrayElem c addr dat idx s =
     (case vt_get_elem c dat of
        None \<Rightarrow> Throw (RuntimeError ''Array element has to be of scalar type.'')
      | Some elem \<Rightarrow>
          rbind (ReadMemRaw addr_codec addr s) (\<lambda>veclen.
          let addr = wrap32 (addr + m_addrsize) in
          rbind (safe_array_index (- (2 ^ 31)) (addr_of_int idx) veclen) (\<lambda>idx.
          WriteMemRaw c (wrap32 (addr + idx * c_size c)) elem s)))"

primrec write_range :: "('e, 'x) codec_scheme \<Rightarrow> (nat \<Rightarrow> 'e result) \<Rightarrow> int \<Rightarrow>
    nat \<Rightarrow> nat \<Rightarrow> t_addr \<Rightarrow> vm \<Rightarrow> vm result" where
  "write_range c src delta 0 cur addr s = Ok s"
| "write_range c src delta (Suc n) cur addr s =
     rbind (src cur) (\<lambda>elem.
     rbind (WriteMemRaw c addr elem s) (\<lambda>s.
     write_range c src delta n (Suc cur) (wrap32 (addr + c_size c * delta)) s))"

text \<open>The loop runs from \<open>idx1\<close> to \<open>idx2\<close> inclusive, up or down.\<close>

definition write_span :: "('e, 'x) codec_scheme \<Rightarrow> (nat \<Rightarrow> 'e result) \<Rightarrow> t_addr \<Rightarrow>
    t_int \<Rightarrow> t_int \<Rightarrow> vm \<Rightarrow> vm result" where
  "write_span c src addr idx1 idx2 s =
     rbind (ReadMemRaw addr_codec addr s) (\<lambda>veclen.
     let addr = wrap32 (addr + m_addrsize) in
     rbind (safe_array_index (- (2 ^ 31)) (addr_of_int idx1) veclen) (\<lambda>idx1.
     rbind (safe_array_index (- (2 ^ 31)) (addr_of_int idx2) veclen) (\<lambda>idx2.
     let delta = (if idx2 \<ge> idx1 then 1 else -1) in
     write_range c src delta (Suc (nat \<bar>idx2 - idx1\<bar>)) 0
       (wrap32 (addr + idx1 * c_size c)) s)))"

definition src_list :: "string \<Rightarrow> 'e list \<Rightarrow> nat \<Rightarrow> 'e result" where
  "src_list msg xs cur = (if cur \<ge> length xs then Throw (RuntimeError msg) else Ok (xs ! cur))"

definition WriteArrayElemRange :: "('e, 'x) vtraits_scheme \<Rightarrow> t_addr \<Rightarrow> t_data \<Rightarrow>
    t_int \<Rightarrow> t_int \<Rightarrow> vm \<Rightarrow> vm result" where
  "WriteArrayElemRange c addr dat idx1 idx2 s =
     (case vt_get_vec c dat of
        Some rhsvec \<Rightarrow>
          write_span c (src_list ''Array index out of bounds.'' rhsvec) addr idx1 idx2 s
      | None \<Rightarrow>
          (case vt_get_elem c dat of
             Some rhs \<Rightarrow> write_span c (\<lambda>_. Ok rhs) addr idx1 idx2 s
           | None \<Rightarrow> Throw (RuntimeError ''Array range has to be of array or scalar type.'')))"

end
