(* ===== verification/VmStack.thy ===== *)
theory VmStack
  imports VmMemory
begin

text \<open>
  The typed values on the stack and in memory: \<open>PopAddress\<close>, \<open>PushData\<close>, \<open>PopData\<close>, \<open>TopData\<close>,
  \<open>ReadMemData\<close>, \<open>WriteMemData\<close> and their parts (vm/vm.cpp), and the array templates of
  vm/mem.h that use them. Debug output is not modelled.
\<close>

section \<open>Addresses\<close>

definition resolve_addr :: "VMType \<Rightarrow> t_addr \<Rightarrow> vm \<Rightarrow> t_addr result" where
  "resolve_addr thereg addr s =
     (case thereg of
        VM_ADDR_MEM \<Rightarrow> Ok addr
      | VM_ADDR_IP \<Rightarrow> Ok (wrap32 (addr + m_ip s))
      | VM_ADDR_SP \<Rightarrow> Ok (wrap32 (addr + m_sp s))
      | VM_ADDR_BP \<Rightarrow> Ok (wrap32 (addr + m_bp s))
      | VM_ADDR_GBP \<Rightarrow> Ok (wrap32 (addr + m_gbp s))
      | _ \<Rightarrow> Throw (RuntimeError ''Unknown address base register.''))"

definition PopAddress :: "vm \<Rightarrow> (t_addr \<times> vm) result" where
  "PopAddress s =
     rbind (PopRaw byte_codec s) (\<lambda>(regval, s).
     rbind (PopRaw addr_codec s) (\<lambda>(addr, s).
     rbind (resolve_addr (vmtype_of_byte regval) addr s) (\<lambda>addr. Ok (addr, s))))"

definition PushAddress :: "t_addr \<Rightarrow> VMType \<Rightarrow> vm \<Rightarrow> vm result" where
  "PushAddress addr ty s =
     rbind (PushRaw addr_codec addr s) (\<lambda>s. PushRaw byte_codec (byte_of_vmtype ty) s)"

section \<open>Strings, complex numbers, quaternions, arrays\<close>

definition PopString :: "vm \<Rightarrow> (t_str \<times> vm) result" where
  "PopString s = PopSeq char_codec s"

definition TopString :: "t_addr \<Rightarrow> vm \<Rightarrow> t_str result" where
  "TopString sp_offs s = TopSeq char_codec sp_offs s"

definition PushString :: "t_str \<Rightarrow> bool \<Rightarrow> vm \<Rightarrow> vm result" where
  "PushString str raw s =
     rbind (PushSeq char_codec str s) (\<lambda>s.
     if raw then Ok s else PushRaw byte_codec (byte_of_vmtype VM_STR) s)"

definition PopComplex :: "vm \<Rightarrow> (t_cplx \<times> vm) result" where
  "PopComplex s = PopRaw cplx_codec s"

definition PopQuaternion :: "vm \<Rightarrow> (t_quat \<times> vm) result" where
  "PopQuaternion s = PopRaw quat_codec s"

definition TopComplex :: "t_addr \<Rightarrow> vm \<Rightarrow> t_cplx result" where
  "TopComplex sp_offs s = TopRaw cplx_codec sp_offs s"

definition TopQuaternion :: "t_addr \<Rightarrow> vm \<Rightarrow> t_quat result" where
  "TopQuaternion sp_offs s = TopRaw quat_codec sp_offs s"

definition PushComplex :: "t_cplx \<Rightarrow> bool \<Rightarrow> vm \<Rightarrow> vm result" where
  "PushComplex cplx raw s =
     rbind (PushFixed cplx_codec cplx s) (\<lambda>s.
     if raw then Ok s else PushRaw byte_codec (byte_of_vmtype VM_CPLX) s)"

definition PushQuaternion :: "t_quat \<Rightarrow> bool \<Rightarrow> vm \<Rightarrow> vm result" where
  "PushQuaternion quat raw s =
     rbind (PushFixed quat_codec quat s) (\<lambda>s.
     if raw then Ok s else PushRaw byte_codec (byte_of_vmtype VM_QUAT) s)"

definition TopArray :: "('e, 'x) vtraits_scheme \<Rightarrow> t_addr \<Rightarrow> vm \<Rightarrow> 'e list result" where
  "TopArray c sp_offs s = TopSeq c sp_offs s"

definition PushArray :: "('e, 'x) vtraits_scheme \<Rightarrow> 'e list \<Rightarrow> bool \<Rightarrow> vm \<Rightarrow> vm result" where
  "PushArray c vec raw s =
     rbind (PushSeq c vec s) (\<lambda>s.
     if raw then Ok s else PushRaw byte_codec (byte_of_vmtype (vt_type c)) s)"

section \<open>Typed data\<close>

definition TopData :: "vm \<Rightarrow> t_data result" where
  "TopData s =
     rbind (TopRaw byte_codec 0 s) (\<lambda>tyval.
     case vmtype_of_byte tyval of
       VM_REAL \<Rightarrow> rbind (TopRaw real_codec m_bytesize s) (\<lambda>v. Ok (RealD v))
     | VM_INT \<Rightarrow> rbind (TopRaw int_codec m_bytesize s) (\<lambda>v. Ok (IntD v))
     | VM_CPLX \<Rightarrow> rbind (TopComplex m_bytesize s) (\<lambda>v. Ok (CplxD v))
     | VM_QUAT \<Rightarrow> rbind (TopQuaternion m_bytesize s) (\<lambda>v. Ok (QuatD v))
     | VM_BOOL \<Rightarrow> rbind (TopRaw byte_codec m_bytesize s) (\<lambda>v. Ok (BoolD v))
     | VM_ADDR_MEM \<Rightarrow> rbind (TopRaw addr_codec m_bytesize s) (\<lambda>v. Ok (AddrD v))
     | VM_ADDR_IP \<Rightarrow> rbind (TopRaw addr_codec m_bytesize s) (\<lambda>v. Ok (AddrD v))
     | VM_ADDR_SP \<Rightarrow> rbind (TopRaw addr_codec m_bytesize s) (\<lambda>v. Ok (AddrD v))
     | VM_ADDR_BP \<Rightarrow> rbind (TopRaw addr_codec m_bytesize s) (\<lambda>v. Ok (AddrD v))
     | VM_ADDR_GBP \<Rightarrow> rbind (TopRaw addr_codec m_bytesize s) (\<lambda>v. Ok (AddrD v))
     | VM_STR \<Rightarrow> rbind (TopString m_bytesize s) (\<lambda>v. Ok (StrD v))
     | VM_REALARR \<Rightarrow> rbind (TopArray real_vt m_bytesize s) (\<lambda>v. Ok (RealArrD v))
     | VM_INTARR \<Rightarrow> rbind (TopArray int_vt m_bytesize s) (\<lambda>v. Ok (IntArrD v))
     | VM_CPLXARR \<Rightarrow> rbind (TopArray cplx_vt m_bytesize s) (\<lambda>v. Ok (CplxArrD v))
     | VM_QUATARR \<Rightarrow> rbind (TopArray quat_vt m_bytesize s) (\<lambda>v. Ok (QuatArrD v))
     | _ \<Rightarrow> Throw (RuntimeError ''TopData: Data type not yet implemented.''))"

definition pop_as :: "('e \<Rightarrow> t_data) \<Rightarrow> ('e \<times> vm) result \<Rightarrow> (t_data \<times> vm) result" where
  "pop_as f m = rbind m (\<lambda>(v, s). Ok (f v, s))"

definition PopData :: "vm \<Rightarrow> (t_data \<times> vm) result" where
  "PopData s =
     rbind (PopRaw byte_codec s) (\<lambda>(tyval, s).
     case vmtype_of_byte tyval of
       VM_REAL \<Rightarrow> pop_as RealD (PopRaw real_codec s)
     | VM_INT \<Rightarrow> pop_as IntD (PopRaw int_codec s)
     | VM_CPLX \<Rightarrow> pop_as CplxD (PopComplex s)
     | VM_QUAT \<Rightarrow> pop_as QuatD (PopQuaternion s)
     | VM_BOOL \<Rightarrow> pop_as BoolD (PopRaw byte_codec s)
     | VM_ADDR_MEM \<Rightarrow> pop_as AddrD (PopRaw addr_codec s)
     | VM_ADDR_IP \<Rightarrow> pop_as AddrD (PopRaw addr_codec s)
     | VM_ADDR_SP \<Rightarrow> pop_as AddrD (PopRaw addr_codec s)
     | VM_ADDR_BP \<Rightarrow> pop_as AddrD (PopRaw addr_codec s)
     | VM_ADDR_GBP \<Rightarrow> pop_as AddrD (PopRaw addr_codec s)
     | VM_STR \<Rightarrow> pop_as StrD (PopString s)
     | VM_REALARR \<Rightarrow> pop_as RealArrD (PopSeq real_vt s)
     | VM_INTARR \<Rightarrow> pop_as IntArrD (PopSeq int_vt s)
     | VM_CPLXARR \<Rightarrow> pop_as CplxArrD (PopSeq cplx_vt s)
     | VM_QUATARR \<Rightarrow> pop_as QuatArrD (PopSeq quat_vt s)
     | _ \<Rightarrow> Throw (RuntimeError ''PopData: Data type not yet implemented.''))"

definition push_tagged :: "VMType \<Rightarrow> vm result \<Rightarrow> vm result" where
  "push_tagged ty m = rbind m (\<lambda>s. PushRaw byte_codec (byte_of_vmtype ty) s)"

definition PushData :: "t_data \<Rightarrow> VMType \<Rightarrow> bool \<Rightarrow> vm \<Rightarrow> vm result" where
  "PushData dat ty err_on_unknown s =
     (case dat of
        RealD v \<Rightarrow> push_tagged VM_REAL (PushRaw real_codec v s)
      | IntD v \<Rightarrow> push_tagged VM_INT (PushRaw int_codec v s)
      | CplxD v \<Rightarrow> PushComplex v False s
      | QuatD v \<Rightarrow> PushQuaternion v False s
      | BoolD v \<Rightarrow> push_tagged VM_BOOL (PushRaw byte_codec v s)
      | AddrD v \<Rightarrow> push_tagged ty (PushRaw addr_codec v s)
      | StrD v \<Rightarrow> PushString v False s
      | RealArrD v \<Rightarrow> PushArray real_vt v False s
      | IntArrD v \<Rightarrow> PushArray int_vt v False s
      | CplxArrD v \<Rightarrow> PushArray cplx_vt v False s
      | QuatArrD v \<Rightarrow> PushArray quat_vt v False s
      | Monostate \<Rightarrow>
          if err_on_unknown
          then Throw (RuntimeError ''PushData: Data type not yet implemented.'')
          else Ok s)"

abbreviation push_data :: "t_data \<Rightarrow> vm \<Rightarrow> vm result" where
  "push_data dat \<equiv> PushData dat VM_UNKNOWN True"

definition PopBool :: "vm \<Rightarrow> (bool \<times> vm) result" where
  "PopBool s =
     rbind (PopData s) (\<lambda>(dat, s).
     case dat of
       BoolD b \<Rightarrow> Ok (b \<noteq> 0, s)
     | IntD i \<Rightarrow> Ok (i \<noteq> 0, s)
     | _ \<Rightarrow> Throw (RuntimeError ''Data type not convertible to bool.''))"

definition PushBool :: "bool \<Rightarrow> vm \<Rightarrow> vm result" where
  "PushBool val s = push_data (BoolD (if val then 1 else 0)) s"

definition PopInt :: "vm \<Rightarrow> (t_int \<times> vm) result" where
  \<comment> \<open>\<open>std::get<m_intidx>(PopData())\<close>\<close>
  "PopInt s = rbind (PopData s) (\<lambda>(dat, s). rbind (get_int dat) (\<lambda>i. Ok (i, s)))"

section \<open>Typed data in memory\<close>

definition ReadMemType :: "t_addr \<Rightarrow> vm \<Rightarrow> VMType result" where
  "ReadMemType addr s = rbind (ReadMemRaw byte_codec addr s) (\<lambda>tyval. Ok (vmtype_of_byte tyval))"

definition ReadMemData :: "t_addr \<Rightarrow> vm \<Rightarrow> (VMType \<times> t_data) result" where
  "ReadMemData addr s =
     rbind (ReadMemType addr s) (\<lambda>ty.
     let addr = wrap32 (addr + m_bytesize) in
     case ty of
       VM_REAL \<Rightarrow> rbind (ReadMemRaw real_codec addr s) (\<lambda>v. Ok (ty, RealD v))
     | VM_INT \<Rightarrow> rbind (ReadMemRaw int_codec addr s) (\<lambda>v. Ok (ty, IntD v))
     | VM_CPLX \<Rightarrow> rbind (ReadMemRaw cplx_codec addr s) (\<lambda>v. Ok (ty, CplxD v))
     | VM_QUAT \<Rightarrow> rbind (ReadMemRaw quat_codec addr s) (\<lambda>v. Ok (ty, QuatD v))
     | VM_BOOL \<Rightarrow> rbind (ReadMemRaw byte_codec addr s) (\<lambda>v. Ok (ty, BoolD v))
     | VM_ADDR_MEM \<Rightarrow> rbind (ReadMemRaw addr_codec addr s) (\<lambda>v. Ok (ty, AddrD v))
     | VM_ADDR_IP \<Rightarrow> rbind (ReadMemRaw addr_codec addr s) (\<lambda>v. Ok (ty, AddrD v))
     | VM_ADDR_SP \<Rightarrow> rbind (ReadMemRaw addr_codec addr s) (\<lambda>v. Ok (ty, AddrD v))
     | VM_ADDR_BP \<Rightarrow> rbind (ReadMemRaw addr_codec addr s) (\<lambda>v. Ok (ty, AddrD v))
     | VM_ADDR_GBP \<Rightarrow> rbind (ReadMemRaw addr_codec addr s) (\<lambda>v. Ok (ty, AddrD v))
     | VM_STR \<Rightarrow> rbind (ReadMemRawStr addr s) (\<lambda>v. Ok (ty, StrD v))
     | VM_REALARR \<Rightarrow> rbind (ReadArrayRaw real_vt addr s) (\<lambda>v. Ok (ty, RealArrD v))
     | VM_INTARR \<Rightarrow> rbind (ReadArrayRaw int_vt addr s) (\<lambda>v. Ok (ty, IntArrD v))
     | VM_CPLXARR \<Rightarrow> rbind (ReadArrayRaw cplx_vt addr s) (\<lambda>v. Ok (ty, CplxArrD v))
     | VM_QUATARR \<Rightarrow> rbind (ReadArrayRaw quat_vt addr s) (\<lambda>v. Ok (ty, QuatArrD v))
     | _ \<Rightarrow> Throw (RuntimeError ''ReadMemData: Data type not yet implemented.''))"

definition write_tagged :: "VMType \<Rightarrow> t_addr \<Rightarrow> (t_addr \<Rightarrow> vm \<Rightarrow> vm result) \<Rightarrow> vm \<Rightarrow> vm result" where
  "write_tagged ty addr wr s =
     rbind (WriteMemRaw byte_codec addr (byte_of_vmtype ty) s) (\<lambda>s.
     wr (wrap32 (addr + m_bytesize)) s)"

definition WriteMemData :: "t_addr \<Rightarrow> t_data \<Rightarrow> vm \<Rightarrow> vm result" where
  "WriteMemData addr dat s =
     (case dat of
        RealD v \<Rightarrow> write_tagged VM_REAL addr (\<lambda>a. WriteMemRaw real_codec a v) s
      | IntD v \<Rightarrow> write_tagged VM_INT addr (\<lambda>a. WriteMemRaw int_codec a v) s
      | CplxD v \<Rightarrow> write_tagged VM_CPLX addr (\<lambda>a. WriteMemRaw cplx_codec a v) s
      | QuatD v \<Rightarrow> write_tagged VM_QUAT addr (\<lambda>a. WriteMemRaw quat_codec a v) s
      | BoolD v \<Rightarrow> write_tagged VM_BOOL addr (\<lambda>a. WriteMemRaw byte_codec a v) s
      | StrD v \<Rightarrow> write_tagged VM_STR addr (\<lambda>a. WriteMemRawStr a v) s
      | RealArrD v \<Rightarrow> WriteArray real_vt addr v False s
      | IntArrD v \<Rightarrow> WriteArray int_vt addr v False s
      | CplxArrD v \<Rightarrow> WriteArray cplx_vt addr v False s
      | QuatArrD v \<Rightarrow> WriteArray quat_vt addr v False s
      | _ \<Rightarrow> Throw (RuntimeError ''WriteMemData: Data type not yet implemented.''))"

fun GetDataSize :: "t_data \<Rightarrow> t_addr result" where
  "GetDataSize (RealD _) = Ok 8"
| "GetDataSize (IntD _) = Ok 8"
| "GetDataSize (CplxD _) = Ok (2 * 8)"
| "GetDataSize (QuatD _) = Ok (4 * 8)"
| "GetDataSize (BoolD _) = Ok 1"
| "GetDataSize (AddrD _) = Ok m_addrsize"
| "GetDataSize (StrD str) = Ok (wrap32 (m_addrsize + int (length str)))"
| "GetDataSize _ = Throw (RuntimeError ''GetDataSize: Data type not yet implemented.'')"

section \<open>Arrays over typed data\<close>

text \<open>\<open>PopArray\<close> with descriptors: the elements come off the stack last one first.\<close>

primrec pop_elems :: "('e, 'x) vtraits_scheme \<Rightarrow> nat \<Rightarrow> vm \<Rightarrow> ('e list \<times> vm) result" where
  "pop_elems c 0 s = Ok ([], s)"
| "pop_elems c (Suc n) s =
     rbind (PopData s) (\<lambda>(val, s).
     case vt_get_elem c val of
       None \<Rightarrow> Throw (RuntimeError ''Wrong element type for array.'')
     | Some elem \<Rightarrow> rbind (pop_elems c n s) (\<lambda>(elems, s). Ok (elem # elems, s)))"

definition PopArray :: "('e, 'x) vtraits_scheme \<Rightarrow> bool \<Rightarrow> vm \<Rightarrow> ('e list \<times> vm) result" where
  "PopArray c raw_elems s =
     (if raw_elems then PopSeq c s
      else rbind (PopAddress s) (\<lambda>(num_elems, s).
        if num_elems < 0 then Throw LengthError
        else rbind (pop_elems c (nat num_elems) s) (\<lambda>(elems, s). Ok (rev elems, s))))"

definition get_vec :: "('e, 'x) vtraits_scheme \<Rightarrow> t_data \<Rightarrow> 'e list result" where
  "get_vec c arr = (case vt_get_vec c arr of Some vec \<Rightarrow> Ok vec | None \<Rightarrow> Throw BadVariantAccess)"

definition ReadArrayElem :: "('e, 'x) vtraits_scheme \<Rightarrow> t_data \<Rightarrow> t_int \<Rightarrow> vm \<Rightarrow> vm result" where
  "ReadArrayElem c arr idx s =
     rbind (get_vec c arr) (\<lambda>vec.
     rbind (safe_array_index (- (2 ^ 63)) (sint idx) (int (length vec))) (\<lambda>idx.
     push_data (vt_elem c (vec ! nat idx)) s))"

text \<open>The elements from \<open>idx1\<close> to \<open>idx2\<close> inclusive, in that direction.\<close>

definition span :: "'e list \<Rightarrow> int \<Rightarrow> int \<Rightarrow> 'e list" where
  "span xs idx1 idx2 =
     (let delta = (if idx2 \<ge> idx1 then 1 else -1) in
      map (\<lambda>k. xs ! nat (idx1 + delta * int k)) [0..<Suc (nat \<bar>idx2 - idx1\<bar>)])"

definition read_span :: "'e list \<Rightarrow> t_int \<Rightarrow> t_int \<Rightarrow> 'e list result" where
  "read_span xs idx1 idx2 =
     rbind (safe_array_index (- (2 ^ 63)) (sint idx1) (int (length xs))) (\<lambda>i1.
     rbind (safe_array_index (- (2 ^ 63)) (sint idx2) (int (length xs))) (\<lambda>i2.
     Ok (span xs i1 i2)))"

definition ReadArrayElemRange :: "('e, 'x) vtraits_scheme \<Rightarrow> t_data \<Rightarrow> t_int \<Rightarrow> t_int \<Rightarrow> vm \<Rightarrow> vm result" where
  "ReadArrayElemRange c arr idx1 idx2 s =
     rbind (get_vec c arr) (\<lambda>vec.
     rbind (read_span vec idx1 idx2) (\<lambda>newvec. push_data (vt_vec c newvec) s))"

end
