(* ===== verification/VmMemFacts.thy ===== *)
theory VmMemFacts
  imports VmMemory
begin

text \<open>
  What the raw memory operations do on states where they succeed: the bounds check is
  sound for every non-negative size, a push or pop is a move of the stack pointer over
  known bytes (\<open>push_state\<close>, \<open>pop_state\<close>), and a read returns what was written.
\<close>

section \<open>Bounds checks\<close>

lemma check_sound:
  assumes "CheckMemoryBounds s a n = Ok u" "m_checks s"
    and "0 \<le> n" "n < 2 ^ 31" "a < 2 ^ 31" "m_memsize s < 2 ^ 31"
  shows "in_mem s a n"
proof -
  have "0 \<le> a" "a + n \<le> m_memsize s"
    using assms(1,2) by (auto simp: CheckMemoryBounds_def Let_def split: if_splits)
  then show ?thesis using assms(6) by (auto simp: in_mem_def)
qed

lemma check_complete: "in_mem s a n \<Longrightarrow> 0 \<le> n \<Longrightarrow> CheckMemoryBounds s a n = Ok ()"
  by (auto simp: CheckMemoryBounds_def Let_def in_mem_def addr_range_def)

lemma check_down:
  "0 \<le> a - n \<Longrightarrow> 0 \<le> n \<Longrightarrow> a \<le> m_memsize s \<Longrightarrow> a < 2 ^ 31 \<Longrightarrow> CheckMemoryBounds s a (- n) = Ok ()"
  by (auto simp: CheckMemoryBounds_def Let_def addr_range_def)

lemma check_defined: "addr_range (a + n) \<Longrightarrow> defined (CheckMemoryBounds s a n)"
  by (simp add: CheckMemoryBounds_def Let_def)

text \<open>An access with a checked end is defined, unless the sum for the end overflows.\<close>

definition checked :: "int \<Rightarrow> 'a result \<Rightarrow> bool" where
  "checked addr_end r \<longleftrightarrow> (if addr_end < 2 ^ 31 then defined r else r = Undefined UB_Overflow)"

lemma checkedI:
  "(n < 2 ^ 31 \<Longrightarrow> defined r) \<Longrightarrow> (\<not> n < 2 ^ 31 \<Longrightarrow> r = Undefined UB_Overflow) \<Longrightarrow> checked n r"
  by (simp add: checked_def)

lemma in_mem_split:
  "0 \<le> n \<Longrightarrow> 0 \<le> k \<Longrightarrow> in_mem s a (n + k) \<longleftrightarrow> in_mem s a n \<and> in_mem s (a + n) k"
  by (auto simp: in_mem_def)

lemma load_ok: "in_mem s a n \<Longrightarrow> load s a n = Ok (get_bytes (m_mem s) a (nat n))"
  by (auto simp: load_def)

lemma store_ok:
  "in_mem s a (int (length bs)) \<Longrightarrow> store s a bs = Ok (s\<lparr>m_mem := put_bytes (m_mem s) a bs\<rparr>)"
  by (auto simp: store_def)

section \<open>Bytes at an address\<close>

definition bytes_at :: "vm \<Rightarrow> int \<Rightarrow> byte list \<Rightarrow> bool" where
  "bytes_at s a bs \<longleftrightarrow> in_mem s a (int (length bs)) \<and> get_bytes (m_mem s) a (length bs) = bs"

lemma bytes_at_append:
  "bytes_at s a (xs @ ys) \<longleftrightarrow> bytes_at s a xs \<and> bytes_at s (a + int (length xs)) ys"
  unfolding bytes_at_def by (auto simp: in_mem_split get_bytes_append_iff)

lemma bytes_at_load: "bytes_at s a bs \<Longrightarrow> n = int (length bs) \<Longrightarrow> load s a n = Ok bs"
  by (simp add: bytes_at_def load_ok)

lemma bytes_at_check: "bytes_at s a bs \<Longrightarrow> n = int (length bs) \<Longrightarrow> CheckMemoryBounds s a n = Ok ()"
  by (simp add: bytes_at_def check_complete)

lemma bytes_at_range: "bytes_at s a bs \<Longrightarrow> 0 \<le> a \<and> a + int (length bs) < 2 ^ 31"
  by (auto simp: bytes_at_def in_mem_def)

lemma bytes_at_wrap: "bytes_at s a bs \<Longrightarrow> wrap32 a = a"
  using bytes_at_range [of s a bs] by (intro wrap32_id) auto

lemma bytes_at_wrap_end: "bytes_at s a bs \<Longrightarrow> n = int (length bs) \<Longrightarrow> wrap32 (a + n) = a + n"
  using bytes_at_range [of s a bs] by (intro wrap32_id) auto

lemma bytes_at_cong:
  "bytes_at s a bs \<Longrightarrow> m_memsize s' = m_memsize s \<Longrightarrow>
   (\<And>x. a \<le> x \<Longrightarrow> x < a + int (length bs) \<Longrightarrow> m_mem s' x = m_mem s x) \<Longrightarrow> bytes_at s' a bs"
  unfolding bytes_at_def in_mem_def using get_bytes_cong [of a "length bs" "m_mem s'" "m_mem s"] by auto

section \<open>Pushed and popped states\<close>

definition push_state :: "byte list \<Rightarrow> vm \<Rightarrow> vm" where
  "push_state bs s =
     s\<lparr>m_sp := m_sp s - int (length bs),
       m_mem := put_bytes (m_mem s) (m_sp s - int (length bs)) bs\<rparr>"

definition pop_state :: "nat \<Rightarrow> vm \<Rightarrow> vm" where
  "pop_state n s =
     s\<lparr>m_sp := m_sp s + int n,
       m_mem := (if m_zeropoppedvals s then put_bytes (m_mem s) (m_sp s) (replicate n 0)
                 else m_mem s)\<rparr>"

lemma push_state_fields [simp]:
  "m_sp (push_state bs s) = m_sp s - int (length bs)"
  "m_memsize (push_state bs s) = m_memsize s" "m_checks (push_state bs s) = m_checks s"
  "m_zeropoppedvals (push_state bs s) = m_zeropoppedvals s"
  "m_ip (push_state bs s) = m_ip s" "m_bp (push_state bs s) = m_bp s"
  "m_gbp (push_state bs s) = m_gbp s" "m_code_range (push_state bs s) = m_code_range s"
  "m_irqs (push_state bs s) = m_irqs s" "m_isrs (push_state bs s) = m_isrs s"
  "m_eps (push_state bs s) = m_eps s" "m_prec (push_state bs s) = m_prec s"
  "m_cout (push_state bs s) = m_cout s" "m_cin (push_state bs s) = m_cin s"
  by (simp_all add: push_state_def)

lemma pop_state_fields [simp]:
  "m_sp (pop_state n s) = m_sp s + int n"
  "m_memsize (pop_state n s) = m_memsize s" "m_checks (pop_state n s) = m_checks s"
  "m_zeropoppedvals (pop_state n s) = m_zeropoppedvals s"
  "m_ip (pop_state n s) = m_ip s" "m_bp (pop_state n s) = m_bp s"
  "m_gbp (pop_state n s) = m_gbp s" "m_code_range (pop_state n s) = m_code_range s"
  "m_irqs (pop_state n s) = m_irqs s" "m_isrs (pop_state n s) = m_isrs s"
  "m_eps (pop_state n s) = m_eps s" "m_prec (pop_state n s) = m_prec s"
  "m_cout (pop_state n s) = m_cout s" "m_cin (pop_state n s) = m_cin s"
  by (simp_all add: pop_state_def)

lemma push_state_push_state: "push_state xs (push_state ys s) = push_state (xs @ ys) s"
  using put_bytes_append [of "m_mem s" "m_sp s - int (length ys) - int (length xs)" xs ys]
  by (simp add: push_state_def algebra_simps)

lemma pop_state_pop_state: "pop_state k (pop_state n s) = pop_state (n + k) s"
proof (cases "m_zeropoppedvals s")
  case True
  have "put_bytes (put_bytes (m_mem s) (m_sp s) (replicate n 0)) (m_sp s + int n) (replicate k 0)
      = put_bytes (m_mem s) (m_sp s) (replicate (n + k) 0)"
    using put_bytes_append_up [of "m_mem s" "m_sp s" "replicate n 0" "replicate k 0"]
    by (simp only: length_replicate replicate_add)
  then show ?thesis using True by (simp add: pop_state_def add.assoc)
qed (simp add: pop_state_def add.assoc)

lemma push_state_mem: "m_sp s \<le> x \<or> x < m_sp s - int (length bs) \<Longrightarrow> m_mem (push_state bs s) x = m_mem s x"
  by (auto simp: push_state_def put_bytes_def)

lemma pop_state_mem: "m_sp s + int n \<le> x \<or> x < m_sp s \<Longrightarrow> m_mem (pop_state n s) x = m_mem s x"
  by (auto simp: pop_state_def put_bytes_def)

text \<open>The bytes on top of the stack.\<close>

definition holds :: "vm \<Rightarrow> byte list \<Rightarrow> bool" where
  "holds s bs \<longleftrightarrow> bytes_at s (m_sp s) bs"

lemma holds_push:
  assumes "holds s rest" "int (length bs) \<le> m_sp s"
  shows "holds (push_state bs s) (bs @ rest)"
proof -
  have "bytes_at (push_state bs s) (m_sp s - int (length bs)) bs"
    using assms by (auto simp: holds_def bytes_at_def in_mem_def push_state_def)
  moreover have "bytes_at (push_state bs s) (m_sp s) rest"
    using assms by (auto simp: holds_def push_state_mem elim!: bytes_at_cong)
  ultimately show ?thesis by (simp add: holds_def bytes_at_append)
qed

lemma holds_pop: "holds s (bs @ rest) \<Longrightarrow> n = length bs \<Longrightarrow> holds (pop_state n s) rest"
  unfolding holds_def bytes_at_append
  by (auto simp: pop_state_mem elim!: bytes_at_cong)

section \<open>The room below the stack pointer\<close>

text \<open>
  A push of \<open>n\<close> bytes stays inside the memory and passes its check; the eight bytes above
  the stack pointer are what \<open>PushRaw\<close> looks at instead of those it writes.
\<close>

definition can_push :: "vm \<Rightarrow> nat \<Rightarrow> bool" where
  "can_push s n \<longleftrightarrow> int n \<le> m_sp s \<and> m_sp s + 8 \<le> m_memsize s \<and> m_memsize s < 2 ^ 31"

lemma can_push_mono: "can_push s n \<Longrightarrow> k \<le> n \<Longrightarrow> can_push s k"
  by (auto simp: can_push_def)

lemma can_push_push: "can_push s (n + length bs) \<Longrightarrow> can_push (push_state bs s) n"
  by (auto simp: can_push_def)

lemma can_push_in_mem:
  "can_push s (length bs) \<Longrightarrow> in_mem s (m_sp s - int (length bs)) (int (length bs))"
  by (auto simp: can_push_def in_mem_def)

lemma store_push:
  assumes "can_push s (length bs)"
  shows "store (s\<lparr>m_sp := m_sp s - int (length bs)\<rparr>) (m_sp s - int (length bs)) bs
    = Ok (push_state bs s)"
  using can_push_in_mem [OF assms]
  by (subst store_ok) (auto simp: push_state_def in_mem_def)

lemma wrap32_sp_down: "can_push s n \<Longrightarrow> wrap32 (m_sp s - int n) = m_sp s - int n"
  by (rule wrap32_id) (auto simp: can_push_def)

section \<open>Operations over an encoding\<close>

context codec_laws
begin

lemma enc_bytes_len: "int (length (c_enc c x)) = c_size c"
  by (rule enc_length_int)

lemma PushRaw_ok:
  assumes "can_push s (length (c_enc c v))" "c_size c \<le> 8"
  shows "PushRaw c v s = Ok (push_state (c_enc c v) s)"
proof -
  have "CheckMemoryBounds s (m_sp s) (c_size c) = Ok ()"
    using assms size_bounds by (intro check_complete) (auto simp: can_push_def in_mem_def)
  then show ?thesis
    unfolding PushRaw_def using store_push [OF assms(1)] wrap32_sp_down [OF assms(1)]
    by (simp add: enc_bytes_len Let_def)
qed

lemma PushFixed_ok:
  assumes "can_push s (length (c_enc c v))"
  shows "PushFixed c v s = Ok (push_state (c_enc c v) s)"
proof -
  have "CheckMemoryBounds s (m_sp s) (- c_size c) = Ok ()"
    using assms size_bounds by (intro check_down) (auto simp: can_push_def enc_bytes_len)
  then show ?thesis
    unfolding PushFixed_def using store_push [OF assms(1)] wrap32_sp_down [OF assms(1)]
    by (simp add: enc_bytes_len Let_def)
qed

lemma zero_popped_ok:
  assumes "in_mem s (m_sp s) n" "0 \<le> n"
  shows "zero_popped (m_sp s) n s =
    Ok (if m_zeropoppedvals s then s\<lparr>m_mem := put_bytes (m_mem s) (m_sp s) (replicate (nat n) 0)\<rparr> else s)"
  using assms by (simp add: zero_popped_def store_ok)

lemma ReadMemRaw_bytes:
  "bytes_at s a (c_enc c v) \<Longrightarrow> valid v \<Longrightarrow> ReadMemRaw c a s = Ok v"
  unfolding ReadMemRaw_def
  by (simp add: bytes_at_check bytes_at_load enc_bytes_len dec_enc)

lemma TopRaw_bytes:
  "bytes_at s (m_sp s + k) (c_enc c v) \<Longrightarrow> valid v \<Longrightarrow> TopRaw c k s = Ok v"
  unfolding TopRaw_def Let_def
  by (simp add: bytes_at_wrap bytes_at_check bytes_at_load enc_bytes_len dec_enc)

lemma PopRaw_holds:
  assumes "holds s (c_enc c v @ rest)" "valid v"
  shows "PopRaw c s = Ok (v, pop_state (length (c_enc c v)) s)"
proof -
  have b: "bytes_at s (m_sp s) (c_enc c v)"
    using assms(1) by (simp add: holds_def bytes_at_append)
  have "in_mem s (m_sp s) (c_size c)" using b by (simp add: bytes_at_def enc_bytes_len)
  then have z: "zero_popped (m_sp s) (c_size c) s =
    Ok (if m_zeropoppedvals s then s\<lparr>m_mem := put_bytes (m_mem s) (m_sp s) (replicate (nat (c_size c)) 0)\<rparr> else s)"
    using size_bounds by (intro zero_popped_ok) auto
  show ?thesis
    unfolding PopRaw_def using b assms(2) z size_bounds
    by (simp add: bytes_at_check bytes_at_load enc_bytes_len dec_enc pop_state_def enc_length
      bytes_at_wrap_end [OF b])
qed

lemma WriteMemRaw_ok:
  "in_mem s a (c_size c) \<Longrightarrow>
   WriteMemRaw c a v s = Ok (s\<lparr>m_mem := put_bytes (m_mem s) a (c_enc c v)\<rparr>)"
  unfolding WriteMemRaw_def using size_bounds
  by (simp add: check_complete store_ok enc_bytes_len)

text \<open>
  With the checks on, reading, popping and writing a raw value never leave the array: they are
  defined, or the end of the access overflows.
\<close>

lemma raw_safe:
  assumes "m_checks s" "vm_wf s" "addr_range a" "addr_range (m_sp s + k)"
  shows "checked (a + c_size c) (ReadMemRaw c a s)" "checked (a + c_size c) (WriteMemRaw c a v s)"
    "checked (m_sp s + c_size c) (PopRaw c s)" "checked (m_sp s + k + c_size c) (TopRaw c k s)"
proof -
  have in_mem: "in_mem s b (c_size c)"
    if "CheckMemoryBounds s b (c_size c) = Ok u" "addr_range b" for b u
    using that assms(1,2) size_bounds vm_wfD(5) [OF assms(2)]
    by (intro check_sound [OF that(1)]) (auto simp: addr_range_def)
  have ck: "defined (CheckMemoryBounds s b (c_size c))" if "b + c_size c < 2 ^ 31" "addr_range b" for b
    using that size_bounds by (intro check_defined) (auto simp: addr_range_def)
  have ov: "CheckMemoryBounds s b (c_size c) = Undefined UB_Overflow" if "\<not> b + c_size c < 2 ^ 31" for b
    using that assms(1) by (simp add: CheckMemoryBounds_def addr_range_def)
  have sp: "addr_range (m_sp s)" using assms(2) by (simp add: vm_wf_def)
  show "checked (a + c_size c) (ReadMemRaw c a s)"
    unfolding ReadMemRaw_def
    by (rule checkedI, intro defined_rbindI)
      (auto simp: load_ok ov ck [OF _ assms(3)] dest: in_mem [OF _ assms(3)])
  show "checked (a + c_size c) (WriteMemRaw c a v s)"
    unfolding WriteMemRaw_def
    by (rule checkedI, intro defined_rbindI)
      (auto simp: store_ok enc_bytes_len ov ck [OF _ assms(3)] dest: in_mem [OF _ assms(3)])
  have w: "wrap32 (m_sp s + k) = m_sp s + k" using assms(4) by (intro wrap32_id) (auto simp: addr_range_def)
  show "checked (m_sp s + k + c_size c) (TopRaw c k s)"
    unfolding TopRaw_def Let_def w
    by (rule checkedI, intro defined_rbindI)
      (auto simp: load_ok ov ck [OF _ assms(4)] dest: in_mem [OF _ assms(4)])
  show "checked (m_sp s + c_size c) (PopRaw c s)"
    unfolding PopRaw_def using size_bounds
    by (intro checkedI defined_rbindI)
      (auto simp: load_ok zero_popped_ok ov ck [OF _ sp] dest: in_mem [OF _ sp])
qed

lemma read_seq_bytes:
  assumes "bytes_at s a (enc_elems c xs)" "\<forall>x \<in> set xs. valid x"
  shows "read_seq c a (int (length xs)) s = Ok xs"
  unfolding read_seq_def using assms
  by (simp add: bytes_at_load elems_length elems_roundtrip)

lemma addr_of_size_id: "int n < 2 ^ 31 \<Longrightarrow> addr_of_size n = int n"
  by (simp add: addr_of_size_def)

lemma seq_count:
  assumes "int (length (enc_elems c xs)) < 2 ^ 31"
  shows "addr_of_size (length xs) = int (length xs)"
    "wrap32 (int (length xs) * c_size c) = int (length xs) * c_size c"
    "wrap32 (- (int (length xs) * c_size c)) = - (int (length xs) * c_size c)"
    "addr_range (int (length xs))"
proof -
  have n: "int (length xs) * 1 \<le> int (length xs) * c_size c"
    using size_bounds by (intro mult_left_mono) auto
  then show "addr_of_size (length xs) = int (length xs)"
    using assms by (intro addr_of_size_id) (simp add: elems_length)
  show "wrap32 (int (length xs) * c_size c) = int (length xs) * c_size c"
    using assms n by (intro wrap32_id) (auto simp: elems_length)
  show "wrap32 (- (int (length xs) * c_size c)) = - (int (length xs) * c_size c)"
    using assms n by (subst wrap32_id) (auto simp: elems_length)
  show "addr_range (int (length xs))" using assms n by (auto simp: addr_range_def elems_length)
qed

lemma PushSeq_ok:
  assumes "can_push s (4 + length (enc_elems c xs))"
  shows "PushSeq c xs s = Ok (push_state (enc_addr (int (length xs)) @ enc_elems c xs) s)"
proof -
  have lt: "int (length (enc_elems c xs)) < 2 ^ 31" using assms by (auto simp: can_push_def)
  note cnt = seq_count [OF lt]
  have ck: "CheckMemoryBounds s (m_sp s) (- (int (length xs) * c_size c)) = Ok ()"
    using assms size_bounds
    by (intro check_down) (auto simp: can_push_def elems_length)
  have cp: "copy_to (s\<lparr>m_sp := m_sp s - int (length (enc_elems c xs))\<rparr>)
      (m_sp s - int (length (enc_elems c xs))) (enc_elems c xs) (int (length (enc_elems c xs)))
    = Ok (push_state (enc_elems c xs) s)"
    unfolding copy_to_def using store_push [OF can_push_mono [OF assms]] by simp
  have w: "wrap32 (m_sp s - int (length xs) * c_size c) = m_sp s - int (length xs) * c_size c"
    using wrap32_sp_down [OF can_push_mono [OF assms], of "length (enc_elems c xs)"]
    by (simp add: elems_length)
  have "PushRaw addr_codec (int (length xs)) (push_state (enc_elems c xs) s)
      = Ok (push_state (enc_addr (int (length xs)) @ enc_elems c xs) s)"
    using can_push_push [of s 4 "enc_elems c xs"] assms
    by (subst addr_c.PushRaw_ok) (simp_all add: addr_codec_def push_state_push_state)
  then show ?thesis
    unfolding PushSeq_def Let_def using ck cp w by (simp add: cnt elems_length)
qed

lemma PopSeq_holds:
  assumes "holds s (enc_addr (int (length xs)) @ enc_elems c xs @ rest)" "\<forall>x \<in> set xs. valid x"
  shows "PopSeq c s = Ok (xs, pop_state (4 + length (enc_elems c xs)) s)"
proof -
  have lt: "int (length (enc_elems c xs)) < 2 ^ 31"
    using assms(1) by (auto simp: holds_def bytes_at_def in_mem_def)
  note cnt = seq_count [OF lt]
  define t where "t = pop_state 4 s"
  have p: "PopRaw addr_codec s = Ok (int (length xs), t)"
    using addr_c.PopRaw_holds [of s "int (length xs)"] assms(1) cnt(4)
    by (simp add: addr_codec_def t_def)
  have t: "holds t (enc_elems c xs @ rest)"
    unfolding t_def by (rule holds_pop [OF assms(1)]) simp
  then have b: "bytes_at t (m_sp t) (enc_elems c xs)" by (simp add: holds_def bytes_at_append)
  have nn: "0 \<le> int (length xs) * c_size c" using size_bounds by simp
  have z: "zero_popped (m_sp t) (int (length xs) * c_size c) t =
    Ok (if m_zeropoppedvals t
        then t\<lparr>m_mem := put_bytes (m_mem t) (m_sp t) (replicate (nat (int (length xs) * c_size c)) 0)\<rparr> else t)"
    using b nn by (intro zero_popped_ok) (auto simp: bytes_at_def elems_length)
  have len: "nat (int (length xs) * c_size c) = length (enc_elems c xs)"
    by (metis elems_length nat_int)
  have w: "wrap32 (m_sp t + int (length xs) * c_size c) = m_sp t + int (length xs) * c_size c"
    using bytes_at_wrap_end [OF b, of "int (length xs) * c_size c"] by (simp add: elems_length)
  have "PopSeq c s = Ok (xs, pop_state (length (enc_elems c xs)) t)"
    unfolding PopSeq_def using p cnt b z w read_seq_bytes [OF b assms(2)]
    by (simp add: Let_def bytes_at_check [OF b] elems_length pop_state_def len)
  then show ?thesis by (simp add: t_def pop_state_pop_state)
qed

lemma TopSeq_bytes:
  assumes "bytes_at s (m_sp s + k) (enc_addr (int (length xs)) @ enc_elems c xs)"
    and "\<forall>x \<in> set xs. valid x"
  shows "TopSeq c k s = Ok xs"
proof -
  have b: "bytes_at s (m_sp s + k) (enc_addr (int (length xs)))"
      "bytes_at s (m_sp s + k + 4) (enc_elems c xs)"
    using assms(1) by (simp_all add: bytes_at_append)
  have "int (length (enc_elems c xs)) < 2 ^ 31" using b(2) by (auto simp: bytes_at_def in_mem_def)
  note cnt = seq_count [OF this]
  have "TopRaw addr_codec k s = Ok (int (length xs))"
    using b(1) cnt(4) by (intro addr_c.TopRaw_bytes) (simp_all add: addr_codec_def)
  then show ?thesis
    unfolding TopSeq_def using b(2) assms(2)
    by (simp add: Let_def cnt bytes_at_wrap [OF b(2)] bytes_at_check elems_length read_seq_bytes)
qed

lemma ReadArrayRaw_bytes:
  assumes "bytes_at s a (enc_addr (int (length xs)) @ enc_elems c xs)" "\<forall>x \<in> set xs. valid x"
  shows "ReadArrayRaw c a s = Ok xs"
proof -
  have b: "bytes_at s a (enc_addr (int (length xs)))" "bytes_at s (a + 4) (enc_elems c xs)"
    using assms(1) by (simp_all add: bytes_at_append)
  have "int (length (enc_elems c xs)) < 2 ^ 31" using b(2) by (auto simp: bytes_at_def in_mem_def)
  note cnt = seq_count [OF this]
  have "ReadMemRaw addr_codec a s = Ok (int (length xs))"
    using b(1) cnt(4) by (intro addr_c.ReadMemRaw_bytes) (simp_all add: addr_codec_def)
  then show ?thesis
    unfolding ReadArrayRaw_def using b(2) assms(2)
    by (simp add: Let_def cnt bytes_at_wrap [OF b(2)] bytes_at_check elems_length read_seq_bytes)
qed

lemma WriteArrayRaw_ok:
  assumes "in_mem s a (4 + int (length (enc_elems c xs)))"
  shows "WriteArrayRaw c a xs s =
    Ok (s\<lparr>m_mem := put_bytes (m_mem s) a (enc_addr (int (length xs)) @ enc_elems c xs)\<rparr>)"
proof -
  have lt: "4 + int (length (enc_elems c xs)) < 2 ^ 31" using assms by (auto simp: in_mem_def)
  then have "int (length (enc_elems c xs)) < 2 ^ 31" by simp
  note cnt = seq_count [OF this]
  have nn: "0 \<le> int (length xs) * c_size c" using size_bounds by simp
  have w: "wrap32 (4 + int (length xs) * c_size c) = 4 + int (length xs) * c_size c"
    using lt nn by (intro wrap32_id) (auto simp: elems_length)
  have ck: "CheckMemoryBounds s a (4 + int (length xs) * c_size c) = Ok ()"
    using assms nn by (intro check_complete) (auto simp: elems_length)
  have wr: "WriteMemRaw addr_codec a (int (length xs)) s =
      Ok (s\<lparr>m_mem := put_bytes (m_mem s) a (enc_addr (int (length xs)))\<rparr>)"
    using assms by (subst addr_c.WriteMemRaw_ok) (auto simp: addr_codec_def in_mem_def)
  have a4: "wrap32 (a + 4) = a + 4" using assms by (intro wrap32_id) (auto simp: in_mem_def)
  show ?thesis
    unfolding WriteArrayRaw_def using ck wr assms nn put_bytes_append_up [of "m_mem s" a "enc_addr (int (length xs))" "enc_elems c xs"]
    by (simp add: Let_def cnt w a4 copy_to_def elems_length [symmetric])
       (subst store_ok, auto simp: in_mem_def)
qed

end

end
