(* ===== verification/VmStackFacts.thy ===== *)
theory VmStackFacts
  imports VmStack VmMemFacts
begin

text \<open>
  The byte layout of a typed value (\<open>enc_cell\<close>: descriptor, then payload) and the behaviour
  of the typed stack and memory operations over it. The stack as a list of cells is
  \<open>stack_rep\<close>; what the operators of the machine need of it is the locale \<open>data_stack\<close>, which
  \<open>PopData\<close> and \<open>PushData\<close> are shown to satisfy.
\<close>

section \<open>Cells\<close>

type_synonym cell = "VMType \<times> t_data"

fun enc_payload :: "t_data \<Rightarrow> byte list" where
  "enc_payload Monostate = []"
| "enc_payload (RealD v) = enc64 v"
| "enc_payload (IntD v) = enc64 v"
| "enc_payload (CplxD v) = enc_cplx v"
| "enc_payload (QuatD v) = enc_quat v"
| "enc_payload (BoolD v) = enc_byte v"
| "enc_payload (AddrD a) = enc_addr a"
| "enc_payload (StrD v) = enc_addr (int (length v)) @ enc_elems char_codec v"
| "enc_payload (RealArrD v) = enc_addr (int (length v)) @ enc_elems real_codec v"
| "enc_payload (IntArrD v) = enc_addr (int (length v)) @ enc_elems int_codec v"
| "enc_payload (CplxArrD v) = enc_addr (int (length v)) @ enc_elems cplx_codec v"
| "enc_payload (QuatArrD v) = enc_addr (int (length v)) @ enc_elems quat_codec v"

text \<open>The descriptor \<open>PushData\<close> writes; addresses take the one they are given.\<close>

fun data_tag :: "VMType \<Rightarrow> t_data \<Rightarrow> VMType" where
  "data_tag ty Monostate = VM_UNKNOWN"
| "data_tag ty (RealD _) = VM_REAL"
| "data_tag ty (IntD _) = VM_INT"
| "data_tag ty (CplxD _) = VM_CPLX"
| "data_tag ty (QuatD _) = VM_QUAT"
| "data_tag ty (BoolD _) = VM_BOOL"
| "data_tag ty (AddrD _) = ty"
| "data_tag ty (StrD _) = VM_STR"
| "data_tag ty (RealArrD _) = VM_REALARR"
| "data_tag ty (IntArrD _) = VM_INTARR"
| "data_tag ty (CplxArrD _) = VM_CPLXARR"
| "data_tag ty (QuatArrD _) = VM_QUATARR"

definition enc_cell :: "cell \<Rightarrow> byte list" where
  "enc_cell p = byte_of_vmtype (fst p) # enc_payload (snd p)"

definition addr_types :: "VMType set" where
  "addr_types = {VM_ADDR_MEM, VM_ADDR_IP, VM_ADDR_SP, VM_ADDR_BP, VM_ADDR_GBP}"

definition cell_ok :: "cell \<Rightarrow> bool" where
  "cell_ok p \<longleftrightarrow> (case p of (ty, dat) \<Rightarrow>
     ty = data_tag ty dat \<and> dat \<noteq> Monostate \<and>
     (\<forall>a. dat = AddrD a \<longrightarrow> ty \<in> addr_types \<and> addr_range a))"

text \<open>Data other than an address (and the empty alternative) determine their descriptor.\<close>

definition plain :: "t_data \<Rightarrow> bool" where
  "plain dat \<longleftrightarrow> dat \<noteq> Monostate \<and> (\<forall>a. dat \<noteq> AddrD a)"

definition cell_of :: "t_data \<Rightarrow> cell" where
  "cell_of dat = (data_tag VM_UNKNOWN dat, dat)"

definition addr_cell :: "VMType \<Rightarrow> t_addr \<Rightarrow> cell" where
  "addr_cell ty a = (ty, AddrD a)"

lemma plain_simps [simp]:
  "plain (RealD r)" "plain (IntD i)" "plain (CplxD z)" "plain (QuatD q)" "plain (BoolD b)"
  "plain (StrD v)" "plain (RealArrD rs)" "plain (IntArrD is)" "plain (CplxArrD zs)"
  "plain (QuatArrD qs)" "\<not> plain (AddrD a)" "\<not> plain Monostate"
  by (simp_all add: plain_def)

lemma plain_cell_ok [simp]: "plain dat \<Longrightarrow> cell_ok (cell_of dat)"
  by (cases dat) (auto simp: cell_ok_def cell_of_def plain_def)

lemma addr_cell_ok [simp]: "ty \<in> addr_types \<Longrightarrow> addr_range a \<Longrightarrow> cell_ok (addr_cell ty a)"
  by (simp add: cell_ok_def addr_cell_def)

lemma snd_cell_of [simp]: "snd (cell_of dat) = dat"
  by (simp add: cell_of_def)

lemma length_enc_addr_cell [simp]: "length (enc_cell (addr_cell ty a)) = 5"
  by (simp add: enc_cell_def addr_cell_def)

lemma enc_vt [simp]:
  "c_enc real_vt = enc64" "c_enc int_vt = enc64" "c_enc cplx_vt = enc_cplx" "c_enc quat_vt = enc_quat"
  "enc_elems real_vt = enc_elems real_codec" "enc_elems int_vt = enc_elems int_codec"
  "enc_elems cplx_vt = enc_elems cplx_codec" "enc_elems quat_vt = enc_elems quat_codec"
  by (simp_all add: vt_defs codec_defs enc_elems_def fun_eq_iff)

lemma enc_codec [simp]:
  "c_enc real_codec = enc64" "c_enc int_codec = enc64" "c_enc cplx_codec = enc_cplx"
  "c_enc quat_codec = enc_quat" "c_enc byte_codec = enc_byte" "c_enc addr_codec = enc_addr"
  "c_enc char_codec = enc_char"
  by (simp_all add: codec_defs)

lemma vt_type_simps [simp]:
  "vt_type real_vt = VM_REALARR" "vt_type int_vt = VM_INTARR"
  "vt_type cplx_vt = VM_CPLXARR" "vt_type quat_vt = VM_QUATARR"
  by (simp_all add: vt_defs)

lemma codec_size [simp]:
  "c_size real_codec = 8" "c_size int_codec = 8" "c_size byte_codec = 1" "c_size addr_codec = 4"
  by (simp_all add: codec_defs)

section \<open>Pushing\<close>

lemma enc_byte_cons: "enc_byte b @ bs = b # bs"
  by (simp add: enc_byte_def)

lemma push_tag:
  assumes "can_push s (Suc (length bs))"
  shows "PushRaw byte_codec b (push_state bs s) = Ok (push_state (b # bs) s)"
  using can_push_push [of s 1 bs] assms
  by (subst byte_c.PushRaw_ok) (simp_all add: push_state_push_state enc_byte_cons)

lemma push_raw_tag:
  assumes "can_push s (length (enc_cell p))"
  shows "PushRaw byte_codec (byte_of_vmtype (fst p)) (push_state (enc_payload (snd p)) s) =
    Ok (push_state (enc_cell p) s)"
  using push_tag assms by (simp add: enc_cell_def)

lemma PushData_ok:
  assumes room: "can_push s (length (enc_cell (data_tag ty dat, dat)))" and "dat \<noteq> Monostate"
  shows "PushData dat ty e s = Ok (push_state (enc_cell (data_tag ty dat, dat)) s)"
proof -
  have room': "can_push s (length (enc_payload dat))"
    using can_push_mono [OF room] by (simp add: enc_cell_def)
  note tag = push_raw_tag [OF room, simplified]
  note room'' = room' [unfolded length_append]
  show ?thesis
    using assms(2) room' tag
    by (cases dat)
      (simp_all add: PushData_def push_tagged_def PushString_def PushArray_def PushComplex_def
        PushQuaternion_def real_c.PushRaw_ok int_c.PushRaw_ok byte_c.PushRaw_ok addr_c.PushRaw_ok
        cplx_c.PushFixed_ok quat_c.PushFixed_ok char_c.PushSeq_ok real_v.PushSeq_ok
        int_v.PushSeq_ok cplx_v.PushSeq_ok quat_v.PushSeq_ok)
qed

lemma push_data_ok:
  "plain dat \<Longrightarrow> can_push s (length (enc_cell (cell_of dat))) \<Longrightarrow>
   PushData dat ty e s = Ok (push_state (enc_cell (cell_of dat)) s)"
  using PushData_ok [of s ty dat e]
  by (cases dat) (auto simp: plain_def cell_of_def)

lemma PushAddress_ok:
  "can_push s 5 \<Longrightarrow> PushAddress a ty s = Ok (push_state (enc_cell (addr_cell ty a)) s)"
  unfolding PushAddress_def using push_tag [of s "enc_addr a"] can_push_mono [of s 5 4]
  by (simp add: addr_c.PushRaw_ok enc_cell_def addr_cell_def)

section \<open>Popping and reading\<close>

text \<open>The evaluated forms of the descriptor bytes.\<close>

lemma vmtype_eval [simp]:
  "vmtype_of_byte 1 = VM_REAL" "vmtype_of_byte 2 = VM_INT" "vmtype_of_byte 3 = VM_CPLX"
  "vmtype_of_byte 4 = VM_QUAT" "vmtype_of_byte 5 = VM_BOOL" "vmtype_of_byte 6 = VM_STR"
  "vmtype_of_byte 0x11 = VM_REALARR" "vmtype_of_byte 0x12 = VM_INTARR"
  "vmtype_of_byte 0x13 = VM_CPLXARR" "vmtype_of_byte 0x14 = VM_QUATARR"
  "vmtype_of_byte 0x20 = VM_ADDR_MEM" "vmtype_of_byte 0x21 = VM_ADDR_IP"
  "vmtype_of_byte 0x22 = VM_ADDR_SP" "vmtype_of_byte 0x23 = VM_ADDR_BP"
  "vmtype_of_byte 0x24 = VM_ADDR_GBP"
  by (simp_all add: vmtype_of_byte_def vmtypes_def)

lemma enc_cell_split: "enc_cell p = enc_byte (byte_of_vmtype (fst p)) @ enc_payload (snd p)"
  by (simp add: enc_cell_def enc_byte_cons)

lemma pop_tag:
  assumes "holds s (enc_cell p @ rest)"
  shows "PopRaw byte_codec s = Ok (byte_of_vmtype (fst p), pop_state (Suc 0) s)"
    and "holds (pop_state (Suc 0) s) (enc_payload (snd p) @ rest)"
proof -
  have h: "holds s (enc_byte (byte_of_vmtype (fst p)) @ enc_payload (snd p) @ rest)"
    using assms by (simp add: enc_cell_split)
  show "PopRaw byte_codec s = Ok (byte_of_vmtype (fst p), pop_state (Suc 0) s)"
    using byte_c.PopRaw_holds [of s "byte_of_vmtype (fst p)"] h by simp
  show "holds (pop_state (Suc 0) s) (enc_payload (snd p) @ rest)"
    using holds_pop [OF h] by simp
qed

lemma tag_not_other: "cell_ok p \<Longrightarrow> fst p \<in> set vmtypes"
  by (cases p; cases "snd p") (auto simp: cell_ok_def addr_types_def vmtypes_def)

lemma PopData_holds:
  assumes h: "holds s (enc_cell p @ rest)" and ok: "cell_ok p"
  shows "PopData s = Ok (snd p, pop_state (length (enc_cell p)) s)"
proof -
  obtain ty dat where p: "p = (ty, dat)" by (cases p)
  note t = pop_tag [OF h, unfolded p fst_conv snd_conv]
  show ?thesis
    using ok t(2)
    by (cases dat)
      (auto simp: PopData_def t(1) p cell_ok_def addr_types_def pop_as_def enc_cell_def
        PopComplex_def PopQuaternion_def PopString_def pop_state_pop_state
        real_c.PopRaw_holds int_c.PopRaw_holds byte_c.PopRaw_holds addr_c.PopRaw_holds
        cplx_c.PopRaw_holds quat_c.PopRaw_holds char_c.PopSeq_holds real_v.PopSeq_holds
        int_v.PopSeq_holds cplx_v.PopSeq_holds quat_v.PopSeq_holds)
qed

lemma PopAddress_holds:
  assumes h: "holds s (enc_cell (addr_cell ty a) @ rest)" and "ty \<in> addr_types" "addr_range a"
  shows "PopAddress s =
    rbind (resolve_addr ty a (pop_state 5 s)) (\<lambda>addr. Ok (addr, pop_state 5 s))"
proof -
  note t = pop_tag [OF h]
  have ty: "vmtype_of_byte (byte_of_vmtype ty) = ty"
    using tag_not_other [OF addr_cell_ok [OF assms(2,3)]] by (simp add: addr_cell_def)
  have "PopRaw addr_codec (pop_state (Suc 0) s) = Ok (a, pop_state 5 s)"
    using addr_c.PopRaw_holds [of "pop_state (Suc 0) s" a rest] t(2) assms(3)
    by (simp add: addr_cell_def pop_state_pop_state)
  then show ?thesis unfolding PopAddress_def by (simp add: t(1) ty addr_cell_def)
qed

lemma cell_bytes:
  assumes "bytes_at s a (enc_cell p)"
  shows "bytes_at s a (enc_byte (byte_of_vmtype (fst p)))" "bytes_at s (a + 1) (enc_payload (snd p))"
  using assms bytes_at_append [of s a "enc_byte (byte_of_vmtype (fst p))" "enc_payload (snd p)"]
  by (simp_all add: enc_cell_split)

lemma TopData_holds:
  assumes h: "bytes_at s (m_sp s) (enc_cell p)" and ok: "cell_ok p"
  shows "TopData s = Ok (snd p)"
proof -
  obtain ty dat where p: "p = (ty, dat)" by (cases p)
  note b = cell_bytes [OF h, unfolded p fst_conv snd_conv]
  have t: "TopRaw byte_codec 0 s = Ok (byte_of_vmtype ty)"
    using b(1) by (simp add: byte_c.TopRaw_bytes)
  show ?thesis
    using ok b(2)
    by (cases dat)
      (auto simp: TopData_def t p cell_ok_def addr_types_def
        TopComplex_def TopQuaternion_def TopString_def TopArray_def
        real_c.TopRaw_bytes int_c.TopRaw_bytes byte_c.TopRaw_bytes addr_c.TopRaw_bytes
        cplx_c.TopRaw_bytes quat_c.TopRaw_bytes char_c.TopSeq_bytes real_v.TopSeq_bytes
        int_v.TopSeq_bytes cplx_v.TopSeq_bytes quat_v.TopSeq_bytes)
qed

lemma ReadMemRawStr_bytes:
  assumes "bytes_at s a (enc_addr (int (length v)) @ enc_elems char_codec v)"
  shows "ReadMemRawStr a s = Ok v"
proof -
  have b: "bytes_at s a (enc_addr (int (length v)))" "bytes_at s (a + 4) (enc_elems char_codec v)"
    using assms by (simp_all add: bytes_at_append)
  have "int (length (enc_elems char_codec v)) < 2 ^ 31"
    using b(2) by (auto simp: bytes_at_def in_mem_def)
  note cnt = char_c.seq_count [OF this]
  have r: "ReadMemRaw addr_codec a s = Ok (int (length v))"
    using b(1) cnt(4) by (simp add: addr_c.ReadMemRaw_bytes)
  have len: "int (length v) = int (length (enc_elems char_codec v))"
    using char_c.elems_length [of v] by (simp add: char_codec_def)
  show ?thesis
    using char_c.read_seq_bytes [OF b(2)] bytes_at_check [OF b(2) len]
    by (simp add: ReadMemRawStr_def r bytes_at_wrap [OF b(2)])
qed

lemma ReadMemData_bytes:
  assumes b: "bytes_at s a (enc_cell p)" and ok: "cell_ok p"
  shows "ReadMemData a s = Ok p"
proof -
  obtain ty dat where p: "p = (ty, dat)" by (cases p)
  note t = cell_bytes [OF b, unfolded p fst_conv snd_conv]
  have w: "wrap32 (a + 1) = a + 1" using bytes_at_wrap [OF t(2)] .
  have rt: "ReadMemRaw byte_codec a s = Ok (byte_of_vmtype ty)"
    using t(1) by (simp add: byte_c.ReadMemRaw_bytes)
  show ?thesis
    using ok t(2)
    by (cases dat)
      (auto simp: ReadMemData_def ReadMemType_def rt w p cell_ok_def addr_types_def ReadMemRawStr_bytes
        real_c.ReadMemRaw_bytes int_c.ReadMemRaw_bytes byte_c.ReadMemRaw_bytes addr_c.ReadMemRaw_bytes
        cplx_c.ReadMemRaw_bytes quat_c.ReadMemRaw_bytes real_v.ReadArrayRaw_bytes
        int_v.ReadArrayRaw_bytes cplx_v.ReadArrayRaw_bytes quat_v.ReadArrayRaw_bytes)
qed

section \<open>Writing\<close>

lemma WriteMemRawStr_ok:
  assumes "in_mem s a (4 + int (length v))"
  shows "WriteMemRawStr a v s =
    Ok (s\<lparr>m_mem := put_bytes (m_mem s) a (enc_addr (int (length v)) @ enc_elems char_codec v)\<rparr>)"
proof -
  have len: "int (length (enc_elems char_codec v)) = int (length v)"
    using char_c.elems_length [of v] by (simp add: char_codec_def)
  have "WriteMemRawStr a v s = WriteArrayRaw char_codec a v s"
    using assms by (simp add: WriteMemRawStr_def WriteArrayRaw_def char_codec_def Let_def
      addr_of_size_def in_mem_def)
  then show ?thesis using char_c.WriteArrayRaw_ok [of s a v] assms len by simp
qed

lemma length_enc_chars: "length (enc_elems char_codec v) = length v"
  using char_c.elems_length [of v] by (simp add: char_codec_def)

lemma cplx_codec_size: "c_size cplx_codec = 16" "c_size quat_codec = 32"
  by (simp_all add: codec_defs)

text \<open>The descriptor byte goes first, the payload behind it.\<close>

lemma write_tag:
  assumes "in_mem s a (1 + int n)"
  shows "WriteMemRaw byte_codec a b s = Ok (s\<lparr>m_mem := put_bytes (m_mem s) a [b]\<rparr>)"
    "wrap32 (a + 1) = a + 1" "in_mem (s\<lparr>m_mem := m\<rparr>) (a + 1) (int n)"
    "put_bytes (put_bytes (m_mem s) a [b]) (a + 1) bs = put_bytes (m_mem s) a (b # bs)"
  using assms put_bytes_append_up [of "m_mem s" a "[b]" bs]
  by (subst byte_c.WriteMemRaw_ok | auto simp: in_mem_def enc_byte_def)+

lemma WriteMemData_ok:
  assumes room: "in_mem s a (int (length (enc_cell (cell_of dat))))" and "plain dat"
  shows "WriteMemData a dat s =
    Ok (s\<lparr>m_mem := put_bytes (m_mem s) a (enc_cell (cell_of dat))\<rparr>)"
proof -
  have room': "in_mem s a (1 + int (length (enc_payload dat)))"
    using room by (simp add: enc_cell_def add.commute)
  note t = write_tag [OF room']
  show ?thesis
    using assms(2) t(3)
    by (cases dat)
      (simp_all add: WriteMemData_def write_tagged_def WriteArray_def t enc_cell_def cell_of_def
        real_c.WriteMemRaw_ok int_c.WriteMemRaw_ok byte_c.WriteMemRaw_ok
        cplx_c.WriteMemRaw_ok quat_c.WriteMemRaw_ok WriteMemRawStr_ok real_v.WriteArrayRaw_ok
        int_v.WriteArrayRaw_ok cplx_v.WriteArrayRaw_ok quat_v.WriteArrayRaw_ok
        cplx_codec_size length_enc_cplx length_enc_quat length_enc_chars)
qed

text \<open>What was written is read back, and everything outside stays as it was.\<close>

lemma bytes_at_put:
  "in_mem s a (int (length bs)) \<Longrightarrow> bytes_at (s\<lparr>m_mem := put_bytes (m_mem s) a bs\<rparr>) a bs"
  by (simp add: bytes_at_def in_mem_def)

lemma write_read_frame:
  assumes "in_mem s a (int (length (enc_cell (cell_of dat))))" "plain dat"
  obtains s' where "WriteMemData a dat s = Ok s'" "ReadMemData a s' = Ok (cell_of dat)"
    and "\<And>b p. bytes_at s b (enc_cell p) \<Longrightarrow> cell_ok p \<Longrightarrow>
      b + int (length (enc_cell p)) \<le> a \<or> a + int (length (enc_cell (cell_of dat))) \<le> b \<Longrightarrow>
      ReadMemData b s' = Ok p"
proof (rule that [OF WriteMemData_ok [OF assms]])
  show "ReadMemData a (s\<lparr>m_mem := put_bytes (m_mem s) a (enc_cell (cell_of dat))\<rparr>) = Ok (cell_of dat)"
    by (rule ReadMemData_bytes [OF bytes_at_put [OF assms(1)]]) (simp add: assms(2))
next
  fix b p
  assume "bytes_at s b (enc_cell p)" "cell_ok p"
    "b + int (length (enc_cell p)) \<le> a \<or> a + int (length (enc_cell (cell_of dat))) \<le> b"
  then show "ReadMemData b (s\<lparr>m_mem := put_bytes (m_mem s) a (enc_cell (cell_of dat))\<rparr>) = Ok p"
    by (intro ReadMemData_bytes) (auto simp: put_bytes_outside elim!: bytes_at_cong)
qed

section \<open>The stack as a list of values\<close>

text \<open>
  \<open>stack_of s ds\<close>: the values \<open>ds\<close> lie on the stack, the first one on top, and above them
  there is the margin \<open>Reset\<close> leaves for the check of \<open>PushRaw\<close>. \<open>stack_room s n\<close>: there are
  \<open>n\<close> bytes below the stack pointer. \<open>ctl\<close> is the state without stack pointer and memory.
\<close>

definition enc_stack :: "cell list \<Rightarrow> byte list" where
  "enc_stack cs = concat (map enc_cell cs)"

definition cells_on :: "vm \<Rightarrow> cell list \<Rightarrow> bool" where
  "cells_on s cs \<longleftrightarrow> (\<forall>c \<in> set cs. cell_ok c) \<and> holds s (enc_stack cs) \<and>
     m_sp s + int (length (enc_stack cs)) + 8 \<le> m_memsize s \<and> m_memsize s < 2 ^ 31"

definition stack_of :: "vm \<Rightarrow> t_data list \<Rightarrow> bool" where
  "stack_of s ds \<longleftrightarrow> (\<forall>d \<in> set ds. plain d) \<and> cells_on s (map cell_of ds)"

definition stack_room :: "vm \<Rightarrow> nat \<Rightarrow> bool" where
  "stack_room s n \<longleftrightarrow> int n \<le> m_sp s"

definition ctl :: "vm \<Rightarrow> vm" where
  "ctl s = s\<lparr>m_sp := 0, m_mem := (\<lambda>_. 0)\<rparr>"

definition data_bytes :: "t_data \<Rightarrow> nat" where
  "data_bytes d = length (enc_cell (cell_of d))"

lemma ctl_states [simp]: "ctl (push_state bs s) = ctl s" "ctl (pop_state n s) = ctl s"
  by (simp_all add: ctl_def push_state_def pop_state_def)

lemma cells_on_pop:
  assumes "cells_on s (c # cs)"
  shows "PopData s = Ok (snd c, pop_state (length (enc_cell c)) s)"
    and "cells_on (pop_state (length (enc_cell c)) s) cs"
  using assms holds_pop [of s "enc_cell c" "enc_stack cs"] PopData_holds [of s c "enc_stack cs"]
  by (auto simp: cells_on_def enc_stack_def)

lemma cells_on_room: "cells_on s cs \<Longrightarrow> stack_room s n \<Longrightarrow> can_push s n"
  by (auto simp: cells_on_def stack_room_def can_push_def)

lemma cells_on_push:
  assumes "cells_on s cs" "cell_ok c" "stack_room s (length (enc_cell c))"
  shows "cells_on (push_state (enc_cell c) s) (c # cs)"
  using assms holds_push [of s "enc_stack cs" "enc_cell c"]
  by (auto simp: cells_on_def enc_stack_def stack_room_def)

lemma cells_on_PushAddress:
  assumes "cells_on s cs" "ty \<in> addr_types" "addr_range a" "stack_room s 5"
  shows "PushAddress a ty s = Ok (push_state (enc_cell (addr_cell ty a)) s)"
    and "cells_on (push_state (enc_cell (addr_cell ty a)) s) (addr_cell ty a # cs)"
  using assms PushAddress_ok [OF cells_on_room [OF assms(1,4)]] cells_on_push [OF assms(1), of "addr_cell ty a"]
  by auto

lemma cells_on_PopAddress:
  assumes "cells_on s (addr_cell ty a # cs)" "ty \<in> addr_types" "addr_range a"
  shows "PopAddress s = rbind (resolve_addr ty a (pop_state 5 s)) (\<lambda>addr. Ok (addr, pop_state 5 s))"
    and "cells_on (pop_state 5 s) cs"
  using cells_on_pop [OF assms(1)] PopAddress_holds [of s ty a "enc_stack cs"] assms
  by (auto simp: cells_on_def enc_stack_def)

text \<open>
  The contract of the operand stack: what the operators of the machine use of \<open>PushData\<close>
  and \<open>PopData\<close>. Values that are acceptable (\<open>okd\<close>) go on top when their bytes fit, and
  come off again in reverse order; nothing but the stack changes.
\<close>

locale data_stack =
  fixes push :: "'d \<Rightarrow> 's \<Rightarrow> 's result" and pop :: "'s \<Rightarrow> ('d \<times> 's) result"
    and stk :: "'s \<Rightarrow> 'd list \<Rightarrow> bool" and okd :: "'d \<Rightarrow> bool" and bytes :: "'d \<Rightarrow> nat"
    and room :: "'s \<Rightarrow> nat \<Rightarrow> bool" and frame :: "'s \<Rightarrow> 'c"
  assumes push_law: "stk s ds \<Longrightarrow> okd d \<Longrightarrow> room s n \<Longrightarrow> bytes d \<le> n \<Longrightarrow>
      \<exists>s'. push d s = Ok s' \<and> stk s' (d # ds) \<and> room s' (n - bytes d) \<and> frame s' = frame s"
    and pop_law: "stk s (d # ds) \<Longrightarrow> room s n \<Longrightarrow>
      \<exists>s'. pop s = Ok (d, s') \<and> stk s' ds \<and> room s' (n + bytes d) \<and> frame s' = frame s"
begin

lemma popE:
  assumes "stk s (d # ds)" "room s n"
  obtains s' where "pop s = Ok (d, s')" "stk s' ds" "room s' (n + bytes d)" "frame s' = frame s"
  using pop_law [OF assms] by blast

lemma pop_push:
  assumes "stk s ds" "okd d" "room s n" "bytes d \<le> n"
  shows "\<exists>s'. rbind (push d s) pop = Ok (d, s') \<and> stk s' ds \<and> room s' n \<and> frame s' = frame s"
proof -
  obtain s1 where 1: "push d s = Ok s1" "stk s1 (d # ds)" "room s1 (n - bytes d)" "frame s1 = frame s"
    using push_law [OF assms] by blast
  then show ?thesis using pop_law [OF 1(2,3)] assms(4) by auto
qed

text \<open>Operators that take one or two operands off the stack and push one result.\<close>

lemma unary:
  assumes "stk s (d # ds)" "room s n" "f d = Ok r" "okd r" "bytes r \<le> n + bytes d"
  shows "\<exists>s'. rbind (pop s) (\<lambda>(v, s). rbind (f v) (\<lambda>r. push r s)) = Ok s' \<and>
    stk s' (r # ds) \<and> room s' (n + bytes d - bytes r) \<and> frame s' = frame s"
proof -
  obtain s1 where 1: "pop s = Ok (d, s1)" "stk s1 ds" "room s1 (n + bytes d)" "frame s1 = frame s"
    using assms(1,2) by (rule popE)
  then show ?thesis using push_law [OF 1(2) assms(4) 1(3) assms(5)] assms(3) by auto
qed

lemma binary:
  assumes "stk s (d2 # d1 # ds)" "room s n" "f d1 d2 = Ok r" "okd r"
    and "bytes r \<le> n + bytes d2 + bytes d1"
  shows "\<exists>s'. rbind (pop s) (\<lambda>(v2, s). rbind (pop s) (\<lambda>(v1, s). rbind (f v1 v2) (\<lambda>r. push r s))) = Ok s' \<and>
    stk s' (r # ds) \<and> room s' (n + bytes d2 + bytes d1 - bytes r) \<and> frame s' = frame s"
proof -
  obtain s1 where 1: "pop s = Ok (d2, s1)" "stk s1 (d1 # ds)" "room s1 (n + bytes d2)" "frame s1 = frame s"
    using assms(1,2) by (rule popE)
  then show ?thesis using unary [OF 1(2,3), of "\<lambda>v. f v d2" r] assms(3-5) by auto
qed

text \<open>An operator that rejects its operands rejects the whole step.\<close>

lemma binary_fails:
  assumes "stk s (d2 # d1 # ds)" "room s n" "\<not> is_ok (f d1 d2)"
  shows "rbind (pop s) (\<lambda>(v2, s). rbind (pop s) (\<lambda>(v1, s). rbind (f v1 v2) (\<lambda>r. push r s))) =
    rbind (f d1 d2) (\<lambda>_. Throw BadVariantAccess)"
proof -
  obtain s1 where 1: "pop s = Ok (d2, s1)" "stk s1 (d1 # ds)" "room s1 (n + bytes d2)"
    using assms(1,2) by (rule popE)
  obtain s2 where "pop s1 = Ok (d1, s2)" using 1(2,3) by (rule popE)
  then show ?thesis using 1(1) assms(3) by (cases "f d1 d2") auto
qed

end

interpretation ds: data_stack push_data PopData stack_of plain data_bytes stack_room ctl
proof unfold_locales
  fix s ds d n
  assume a: "stack_of s ds" "plain d" "stack_room s n" "data_bytes d \<le> n"
  have "stack_room s (data_bytes d)" using a(3,4) by (simp add: stack_room_def)
  then show "\<exists>s'. push_data d s = Ok s' \<and> stack_of s' (d # ds) \<and>
      stack_room s' (n - data_bytes d) \<and> ctl s' = ctl s"
    using a push_data_ok [OF a(2), of s] cells_on_push [of s "map cell_of ds" "cell_of d"]
      cells_on_room [of s "map cell_of ds" "data_bytes d"]
    by (auto simp: stack_of_def data_bytes_def stack_room_def)
next
  fix s d ds n
  assume a: "stack_of s (d # ds)" "stack_room s n"
  then show "\<exists>s'. PopData s = Ok (d, s') \<and> stack_of s' ds \<and>
      stack_room s' (n + data_bytes d) \<and> ctl s' = ctl s"
    using cells_on_pop [of s "cell_of d" "map cell_of ds"]
    by (auto simp: stack_of_def data_bytes_def stack_room_def)
qed

lemma stack_of_top: "stack_of s (d # ds) \<Longrightarrow> TopData s = Ok d"
  using TopData_holds [of s "cell_of d"]
  by (auto simp: stack_of_def cells_on_def enc_stack_def holds_def bytes_at_append)

end
