(* ===== verification/VmOps.thy ===== *)
theory VmOps
  imports VmStackFacts
begin

text \<open>
  The operators of the machine: the templates of vm/ops.h, the matrix product of vm/ops.cpp
  and \<open>power\<close> of common/helpers.h. What they call in the external mathlibs submodule, and
  the library functions whose results the C++ standard leaves to the implementation
  (transcendental functions, complex products, formatting and parsing of floating-point
  numbers) come from a record \<open>env\<close>, a parameter of every operation that uses it.
\<close>

section \<open>External functions\<close>

text \<open>
  \<open>v_add\<close>, \<open>v_sub\<close>, \<open>v_neg\<close>, \<open>v_inner\<close>, \<open>v_scale\<close>, \<open>v_matmul\<close> and \<open>v_equals\<close> are the vector operators
  and functions of mathlibs on one element type, \<open>v_eq0\<close> is \<open>m::equals_0\<close>, \<open>v_show\<close> the stream
  output of an element at a precision. \<open>e_quat_of\<close> converts a scalar to a quaternion. A
  parser returns the value and the rest of the input, which is empty once the stream has failed.
\<close>

record 'e vops =
  v_add :: "'e list \<Rightarrow> 'e list \<Rightarrow> 'e list result"
  v_sub :: "'e list \<Rightarrow> 'e list \<Rightarrow> 'e list result"
  v_neg :: "'e list \<Rightarrow> 'e list result"
  v_inner :: "'e list \<Rightarrow> 'e list \<Rightarrow> 'e result"
  v_scale :: "'e list \<Rightarrow> 'e \<Rightarrow> 'e list result"
  v_matmul :: "t_int \<times> t_int \<times> 'e list \<Rightarrow> t_int \<times> t_int \<times> 'e list \<Rightarrow> 'e list result"
  v_equals :: "t_real \<Rightarrow> 'e list \<Rightarrow> 'e list \<Rightarrow> bool"
  v_eq0 :: "t_real \<Rightarrow> 'e \<Rightarrow> bool"
  v_show :: "t_int \<Rightarrow> 'e \<Rightarrow> string"

record env =
  e_real :: "t_real vops"
  e_int :: "t_int vops"
  e_cplx :: "t_cplx vops"
  e_quat :: "t_quat vops"
  e_sqrt :: "t_real \<Rightarrow> t_real"
  e_sin :: "t_real \<Rightarrow> t_real"
  e_cos :: "t_real \<Rightarrow> t_real"
  e_tan :: "t_real \<Rightarrow> t_real"
  e_pow :: "t_real \<Rightarrow> t_real \<Rightarrow> t_real"
  e_norm :: "t_real list \<Rightarrow> t_real result"
  e_cplx_mul :: "t_cplx \<Rightarrow> t_cplx \<Rightarrow> t_cplx"
  e_cplx_div :: "t_cplx \<Rightarrow> t_cplx \<Rightarrow> t_cplx"
  e_cplx_pow :: "t_cplx \<Rightarrow> t_cplx \<Rightarrow> t_cplx"
  e_quat_add :: "t_quat \<Rightarrow> t_quat \<Rightarrow> t_quat"
  e_quat_sub :: "t_quat \<Rightarrow> t_quat \<Rightarrow> t_quat"
  e_quat_mul :: "t_quat \<Rightarrow> t_quat \<Rightarrow> t_quat"
  e_quat_div :: "t_quat \<Rightarrow> t_quat \<Rightarrow> t_quat"
  e_quat_neg :: "t_quat \<Rightarrow> t_quat"
  e_quat_pow :: "t_quat \<Rightarrow> t_real \<Rightarrow> t_quat"
  e_quat_vec :: "t_quat \<Rightarrow> t_real list \<Rightarrow> t_real list result"
  e_quat_of :: "t_data \<Rightarrow> t_quat"
  e_quat_default :: t_quat
  e_parse_real :: "string \<Rightarrow> t_real \<times> string"
  e_parse_cplx :: "string \<Rightarrow> t_cplx"
  e_parse_quat :: "string \<Rightarrow> t_quat"

section \<open>Conversions\<close>

abbreviation (input) m_realidx :: nat where "m_realidx \<equiv> 1"
abbreviation (input) m_intidx :: nat where "m_intidx \<equiv> 2"
abbreviation (input) m_cplxidx :: nat where "m_cplxidx \<equiv> 3"
abbreviation (input) m_boolidx :: nat where "m_boolidx \<equiv> 4"
abbreviation (input) m_stridx :: nat where "m_stridx \<equiv> 9"
abbreviation (input) m_quatidx :: nat where "m_quatidx \<equiv> 10"

definition int_min :: int where "int_min = - (2 ^ 63)"
definition int_max :: int where "int_max = 2 ^ 63 - 1"

text \<open>A value of type \<open>t_int\<close> computed by signed arithmetic, which must not overflow.\<close>

definition int_result :: "int \<Rightarrow> t_int result" where
  "int_result x =
     (if int_min \<le> x \<and> x \<le> int_max then Ok (word_of_int x) else Undefined UB_Overflow)"

text \<open>\<open>static_cast\<close> from \<open>t_real\<close>: truncation, undefined when the target cannot hold it.\<close>

definition real_to :: "int \<Rightarrow> int \<Rightarrow> t_real \<Rightarrow> int result" where
  "real_to lo hi r =
     (case r_trunc r of
        Some i \<Rightarrow> if lo \<le> i \<and> i \<le> hi then Ok i else Undefined UB_Conversion
      | None \<Rightarrow> Undefined UB_Conversion)"

definition real_to_int :: "t_real \<Rightarrow> t_int result" where
  "real_to_int r = rbind (real_to int_min int_max r) (\<lambda>i. Ok (word_of_int i))"

definition real_to_bool :: "t_real \<Rightarrow> t_bool result" where
  "real_to_bool r = rbind (real_to 0 255 r) (\<lambda>i. Ok (word_of_int i))"

definition int_to_real :: "t_int \<Rightarrow> t_real" where
  "int_to_real i = r_of_int (sint i)"

definition digit :: "nat \<Rightarrow> char" where
  "digit d = char_of (48 + d)"

fun show_nat :: "nat \<Rightarrow> string" where
  "show_nat n = (if n < 10 then [digit n] else show_nat (n div 10) @ [digit (n mod 10)])"

declare show_nat.simps [simp del]

definition show_int :: "t_int \<Rightarrow> string" where
  "show_int i =
     (if sint i < 0 then CHR ''-'' # show_nat (nat (- sint i)) else show_nat (nat (sint i)))"

text \<open>Extraction of an integer: blanks, a sign, digits; the value saturates on overflow.\<close>

definition is_ws :: "char \<Rightarrow> bool" where
  "is_ws c \<longleftrightarrow> of_char c \<in> {32, 9, 10, 11, 12, 13 :: nat}"

definition is_digit :: "char \<Rightarrow> bool" where
  "is_digit c \<longleftrightarrow> 48 \<le> (of_char c :: nat) \<and> (of_char c :: nat) \<le> 57"

definition digit_val :: "char \<Rightarrow> int" where
  "digit_val c = int (of_char c :: nat) - 48"

definition digits_val :: "string \<Rightarrow> int" where
  "digits_val ds = foldl (\<lambda>acc c. 10 * acc + digit_val c) 0 ds"

fun read_sign :: "string \<Rightarrow> bool \<times> string" where
  "read_sign (c # cs) =
     (if c = CHR ''-'' then (True, cs) else if c = CHR ''+'' then (False, cs) else (False, c # cs))"
| "read_sign [] = (False, [])"

definition read_int :: "string \<Rightarrow> t_int \<times> string" where
  "read_int cs =
     (let (neg, rest) = read_sign (dropWhile is_ws cs);
          ds = takeWhile is_digit rest;
          v = (if neg then - digits_val ds else digits_val ds)
      in if ds = [] then (0, [])
         else if v < int_min then (word_of_int int_min, [])
         else if v > int_max then (word_of_int int_max, [])
         else (word_of_int v, dropWhile is_digit rest))"

definition read_bool :: "string \<Rightarrow> t_bool" where
  \<comment> \<open>\<open>t_bool\<close> is an unsigned character type, so one character is extracted\<close>
  "read_bool cs = (case dropWhile is_ws cs of [] \<Rightarrow> 0 | c # _ \<Rightarrow> of_char c)"

section \<open>Casts\<close>

text \<open>
  The value a cast puts in place of the top of the stack; \<open>None\<close> leaves the stack as it is
  (same type, and the types \<open>OpCast\<close> has no branch for).
\<close>

definition near0 :: "env \<Rightarrow> t_real \<Rightarrow> t_real \<Rightarrow> t_real" where
  "near0 e eps v = (if v_eq0 (e_real e) eps v then 0 else v)"

definition cast_real :: "env \<Rightarrow> t_real \<Rightarrow> t_int \<Rightarrow> nat \<Rightarrow> t_real \<Rightarrow> t_data option result" where
  "cast_real e eps prec toidx val =
     (if toidx = m_realidx then Ok None
      else if toidx = m_stridx then Ok (Some (StrD (v_show (e_real e) prec (near0 e eps val))))
      else if toidx = m_intidx then rbind (real_to_int val) (\<lambda>i. Ok (Some (IntD i)))
      else if toidx = m_boolidx then rbind (real_to_bool val) (\<lambda>b. Ok (Some (BoolD b)))
      else if toidx = m_cplxidx then Ok (Some (CplxD (val, 0)))
      else Ok (Some (QuatD (e_quat_of e (RealD val)))))"

definition cast_int :: "env \<Rightarrow> nat \<Rightarrow> t_int \<Rightarrow> t_data option result" where
  "cast_int e toidx val =
     (if toidx = m_intidx then Ok None
      else if toidx = m_stridx then Ok (Some (StrD (show_int val)))
      else if toidx = m_realidx then Ok (Some (RealD (int_to_real val)))
      else if toidx = m_boolidx then Ok (Some (BoolD (ucast val)))
      else if toidx = m_cplxidx then Ok (Some (CplxD (int_to_real val, 0)))
      else Ok (Some (QuatD (e_quat_of e (IntD val)))))"

definition show_parts :: "env \<Rightarrow> t_real \<Rightarrow> t_int \<Rightarrow> t_real list \<Rightarrow> string" where
  "show_parts e eps prec vs =
     (let strs = map (\<lambda>v. v_show (e_real e) prec (near0 e eps v)) vs in
      ''('' @ concat (map (\<lambda>str. str @ '', '') (butlast strs)) @ last strs @ '')'')"

definition cast_cplx :: "env \<Rightarrow> t_real \<Rightarrow> t_int \<Rightarrow> nat \<Rightarrow> t_cplx \<Rightarrow> t_data option result" where
  "cast_cplx e eps prec toidx val =
     (if toidx = m_cplxidx then Ok None
      else if toidx = m_stridx then
        (case val of (re, im) \<Rightarrow> Ok (Some (StrD (show_parts e eps prec [re, im]))))
      else Throw (RuntimeError (''Invalid cast from complex to '' @ GetDataTypeName toidx @ ''.'')))"

definition cast_quat :: "env \<Rightarrow> t_real \<Rightarrow> t_int \<Rightarrow> nat \<Rightarrow> t_quat \<Rightarrow> t_data option result" where
  "cast_quat e eps prec toidx val =
     (if toidx = m_quatidx then Ok None
      else if toidx = m_stridx then
        (case val of (re, i1, i2, i3) \<Rightarrow> Ok (Some (StrD (show_parts e eps prec [re, i1, i2, i3]))))
      else Throw (RuntimeError (''Invalid cast from complex to '' @ GetDataTypeName toidx @ ''.'')))"

definition cast_bool :: "env \<Rightarrow> nat \<Rightarrow> t_bool \<Rightarrow> t_data option result" where
  "cast_bool e toidx b =
     (let val = (b \<noteq> 0) in
      if toidx = m_boolidx then Ok None
      else if toidx = m_stridx then Ok (Some (StrD (if val then ''true'' else ''false'')))
      else if toidx = m_realidx then Ok (Some (RealD (r_of_int (if val then 1 else 0))))
      else if toidx = m_intidx then Ok (Some (IntD (if val then 1 else 0)))
      else if toidx = m_cplxidx then Ok (Some (CplxD (r_of_int (if val then 1 else 0), 0)))
      else Ok (Some (QuatD (e_quat_of e (BoolD (if val then 1 else 0))))))"

definition cast_str :: "env \<Rightarrow> nat \<Rightarrow> t_str \<Rightarrow> t_data option result" where
  "cast_str e toidx val =
     (if toidx = m_stridx then Ok None
      else if toidx = m_realidx then Ok (Some (RealD (fst (e_parse_real e val))))
      else if toidx = m_intidx then Ok (Some (IntD (fst (read_int val))))
      else if toidx = m_boolidx then Ok (Some (BoolD (read_bool val)))
      else if toidx = m_cplxidx then Ok (Some (CplxD (e_parse_cplx e val)))
      else Ok (Some (QuatD (e_parse_quat e val))))"

definition OpCastFromArray :: "'e vops \<Rightarrow> 'e \<Rightarrow> t_real \<Rightarrow> t_int \<Rightarrow> nat \<Rightarrow> 'e list \<Rightarrow> t_data option result" where
  "OpCastFromArray ops zero eps prec toidx val =
     (if toidx = m_stridx then
        let strs = map (\<lambda>elem. v_show ops prec (if v_eq0 ops eps elem then zero else elem)) val in
        Ok (Some (StrD (''[ '' @ concat (map (\<lambda>str. str @ '', '') (butlast strs)) @
          (if strs = [] then [] else last strs) @ '' ]'')))
      else Throw (RuntimeError (''Invalid cast from array to '' @ GetDataTypeName toidx @ ''.'')))"

fun cast_data :: "env \<Rightarrow> t_real \<Rightarrow> t_int \<Rightarrow> nat \<Rightarrow> t_data \<Rightarrow> t_data option result" where
  "cast_data e eps prec toidx (RealD v) = cast_real e eps prec toidx v"
| "cast_data e eps prec toidx (IntD v) = cast_int e toidx v"
| "cast_data e eps prec toidx (CplxD v) = cast_cplx e eps prec toidx v"
| "cast_data e eps prec toidx (QuatD v) = cast_quat e eps prec toidx v"
| "cast_data e eps prec toidx (BoolD v) = cast_bool e toidx v"
| "cast_data e eps prec toidx (StrD v) = cast_str e toidx v"
| "cast_data e eps prec toidx (RealArrD v) = OpCastFromArray (e_real e) 0 eps prec toidx v"
| "cast_data e eps prec toidx (IntArrD v) = OpCastFromArray (e_int e) 0 eps prec toidx v"
| "cast_data e eps prec toidx (CplxArrD v) = OpCastFromArray (e_cplx e) (0, 0) eps prec toidx v"
| "cast_data e eps prec toidx (QuatArrD v) =
     OpCastFromArray (e_quat e) (e_quat_default e) eps prec toidx v"
| "cast_data e eps prec toidx _ = Ok None"

definition replace_top :: "t_data option \<Rightarrow> vm \<Rightarrow> vm result" where
  "replace_top r s =
     (case r of None \<Rightarrow> Ok s | Some d \<Rightarrow> rbind (PopData s) (\<lambda>(_, s). push_data d s))"

definition OpCast :: "env \<Rightarrow> nat \<Rightarrow> vm \<Rightarrow> vm result" where
  "OpCast e toidx s =
     rbind (TopData s) (\<lambda>data.
     rbind (cast_data e (m_eps s) (m_prec s) toidx data) (\<lambda>r. replace_top r s))"

section \<open>Casts to arrays\<close>

text \<open>The element made of a scalar; \<open>None\<close> when the cast has no such branch.\<close>

fun to_real_elem :: "t_data \<Rightarrow> t_real result option" where
  "to_real_elem (RealD v) = Some (Ok v)"
| "to_real_elem (IntD v) = Some (Ok (int_to_real v))"
| "to_real_elem _ = None"

fun to_int_elem :: "t_data \<Rightarrow> t_int result option" where
  "to_int_elem (RealD v) = Some (real_to_int v)"
| "to_int_elem (IntD v) = Some (Ok v)"
| "to_int_elem _ = None"

fun to_cplx_elem :: "t_data \<Rightarrow> t_cplx result option" where
  "to_cplx_elem (RealD v) = Some (Ok (v, 0))"
| "to_cplx_elem (IntD v) = Some (Ok (int_to_real v, 0))"
| "to_cplx_elem (CplxD v) = Some (Ok v)"
| "to_cplx_elem _ = None"

fun to_quat_elem :: "env \<Rightarrow> t_data \<Rightarrow> t_quat result option" where
  "to_quat_elem e (RealD v) = Some (Ok (e_quat_of e (RealD v)))"
| "to_quat_elem e (IntD v) = Some (Ok (e_quat_of e (IntD v)))"
| "to_quat_elem e (QuatD v) = Some (Ok v)"
| "to_quat_elem e _ = None"

definition fill :: "t_addr \<Rightarrow> 'e result \<Rightarrow> 'e list result" where
  "fill sz m =
     (if sz < 0 then Throw LengthError
      else if sz = 0 then Ok [] else rbind m (\<lambda>v. Ok (replicate (nat sz) v)))"

definition OpCastToArray :: "('e, 'x) vtraits_scheme \<Rightarrow> (t_data \<Rightarrow> 'e result option) \<Rightarrow>
    t_addr \<Rightarrow> vm \<Rightarrow> vm result" where
  "OpCastToArray c to_elem sz s =
     rbind (TopData s) (\<lambda>data.
     if vt_get_vec c data \<noteq> None then Ok s
     else case to_elem data of
       None \<Rightarrow> Throw (RuntimeError (''Invalid cast from '' @ GetDataTypeName (data_index data) @
         '' to '' @ GetDataTypeName (data_index (vt_vec c [])) @ ''.''))
     | Some m \<Rightarrow>
         rbind (PopData s) (\<lambda>(_, s).
         rbind (fill sz m) (\<lambda>vec. push_data (vt_vec c vec) s)))"

section \<open>Arithmetic\<close>

text \<open>The loop of the integer \<open>power\<close>: \<open>n\<close> more factors.\<close>

primrec power_loop :: "t_int \<Rightarrow> nat \<Rightarrow> t_int \<Rightarrow> t_int result" where
  "power_loop val1 0 acc = Ok acc"
| "power_loop val1 (Suc n) acc =
     rbind (int_result (sint acc * sint val1)) (\<lambda>acc. power_loop val1 n acc)"

definition power_t_int :: "t_int \<Rightarrow> t_int \<Rightarrow> t_int result" where
  "power_t_int val1 val2 =
     (if val2 = 0 then Ok 1
      else if sint val2 < 0 then Ok 0
      else power_loop val1 (nat (sint val2 - 1)) val1)"

definition arith_int :: "char \<Rightarrow> t_int \<Rightarrow> t_int \<Rightarrow> t_int result" where
  "arith_int op val1 val2 =
     (let a = sint val1; b = sint val2 in
      if op = CHR ''+'' then int_result (a + b)
      else if op = CHR ''-'' then int_result (a - b)
      else if op = CHR ''*'' then int_result (a * b)
      else if op = CHR ''/'' then
        (if b = 0 then Undefined UB_Division else int_result (a sdiv b))
      else if op = CHR ''%'' then
        (if b = 0 then Undefined UB_Division
         else rbind (int_result (a sdiv b)) (\<lambda>_. int_result (a smod b)))
      else if op = CHR ''^'' then power_t_int val1 val2
      else Ok 0)"

definition arith_real :: "env \<Rightarrow> char \<Rightarrow> t_real \<Rightarrow> t_real \<Rightarrow> t_real" where
  "arith_real e op val1 val2 =
     (if op = CHR ''+'' then r_add val1 val2
      else if op = CHR ''-'' then r_sub val1 val2
      else if op = CHR ''*'' then r_mul val1 val2
      else if op = CHR ''/'' then r_div val1 val2
      else if op = CHR ''%'' then r_fmod val1 val2
      else if op = CHR ''^'' then e_pow e val1 val2
      else 0)"

definition arith_cplx :: "env \<Rightarrow> char \<Rightarrow> t_cplx \<Rightarrow> t_cplx \<Rightarrow> t_cplx" where
  "arith_cplx e op val1 val2 =
     (if op = CHR ''+'' then (r_add (fst val1) (fst val2), r_add (snd val1) (snd val2))
      else if op = CHR ''-'' then (r_sub (fst val1) (fst val2), r_sub (snd val1) (snd val2))
      else if op = CHR ''*'' then e_cplx_mul e val1 val2
      else if op = CHR ''/'' then e_cplx_div e val1 val2
      else if op = CHR ''^'' then e_cplx_pow e val1 val2
      else (0, 0))"

definition arith_quat :: "env \<Rightarrow> char \<Rightarrow> t_quat \<Rightarrow> t_quat \<Rightarrow> t_quat" where
  "arith_quat e op val1 val2 =
     (if op = CHR ''+'' then e_quat_add e val1 val2
      else if op = CHR ''-'' then e_quat_sub e val1 val2
      else if op = CHR ''*'' then e_quat_mul e val1 val2
      else if op = CHR ''/'' then e_quat_div e val1 val2
      else e_quat_default e)"

definition arith_str :: "char \<Rightarrow> t_str \<Rightarrow> t_str \<Rightarrow> t_str" where
  "arith_str op val1 val2 = (if op = CHR ''+'' then val1 @ val2 else [])"

definition arith_vec :: "'e vops \<Rightarrow> char \<Rightarrow> 'e list \<Rightarrow> 'e list \<Rightarrow> 'e list result" where
  "arith_vec ops op val1 val2 =
     (if op = CHR ''+'' then v_add ops val1 val2
      else if op = CHR ''-'' then v_sub ops val1 val2
      else Ok [])"

definition rmap :: "('a \<Rightarrow> 'b) \<Rightarrow> 'a result \<Rightarrow> 'b result" where
  "rmap f m = rbind m (\<lambda>x. Ok (f x))"

text \<open>The products of unlike operands, tried before the same-type operators.\<close>

definition mul_special :: "env \<Rightarrow> t_data \<Rightarrow> t_data \<Rightarrow> t_data result option" where
  "mul_special e val1 val2 =
     (case val1 of
        RealArrD a \<Rightarrow>
          (case val2 of
             RealArrD b \<Rightarrow> Some (rmap RealD (v_inner (e_real e) a b))
           | RealD x \<Rightarrow> Some (rmap RealArrD (v_scale (e_real e) a x))
           | _ \<Rightarrow> None)
      | IntArrD a \<Rightarrow>
          (case val2 of
             IntArrD b \<Rightarrow> Some (rmap IntD (v_inner (e_int e) a b))
           | IntD x \<Rightarrow> Some (rmap IntArrD (v_scale (e_int e) a x))
           | _ \<Rightarrow> None)
      | CplxArrD a \<Rightarrow>
          (case val2 of
             CplxArrD b \<Rightarrow> Some (rmap CplxD (v_inner (e_cplx e) a b))
           | CplxD x \<Rightarrow> Some (rmap CplxArrD (v_scale (e_cplx e) a x))
           | _ \<Rightarrow> None)
      | QuatArrD a \<Rightarrow>
          (case val2 of
             QuatArrD b \<Rightarrow> Some (rmap QuatD (v_inner (e_quat e) a b))
           | QuatD x \<Rightarrow> Some (rmap QuatArrD (v_scale (e_quat e) a x))
           | _ \<Rightarrow> None)
      | RealD x \<Rightarrow>
          (case val2 of RealArrD a \<Rightarrow> Some (rmap RealArrD (v_scale (e_real e) a x)) | _ \<Rightarrow> None)
      | IntD x \<Rightarrow>
          (case val2 of IntArrD a \<Rightarrow> Some (rmap IntArrD (v_scale (e_int e) a x)) | _ \<Rightarrow> None)
      | CplxD x \<Rightarrow>
          (case val2 of CplxArrD a \<Rightarrow> Some (rmap CplxArrD (v_scale (e_cplx e) a x)) | _ \<Rightarrow> None)
      | QuatD x \<Rightarrow>
          (case val2 of
             QuatArrD a \<Rightarrow> Some (rmap QuatArrD (v_scale (e_quat e) a x))
           | RealArrD a \<Rightarrow> Some (rmap RealArrD (e_quat_vec e x a))
           | _ \<Rightarrow> None)
      | _ \<Rightarrow> None)"

definition pow_special :: "env \<Rightarrow> t_data \<Rightarrow> t_data \<Rightarrow> t_data result option" where
  "pow_special e val1 val2 =
     (case val1 of
        QuatD q \<Rightarrow>
          (case val2 of
             RealD x \<Rightarrow> Some (Ok (QuatD (e_quat_pow e q x)))
           | IntD i \<Rightarrow> Some (Ok (QuatD (e_quat_pow e q (int_to_real i))))
           | _ \<Rightarrow> None)
      | _ \<Rightarrow> None)"

text \<open>Operands of one type; the types without a branch have no result.\<close>

definition arith_same :: "env \<Rightarrow> char \<Rightarrow> t_data \<Rightarrow> t_data \<Rightarrow> t_data result option" where
  "arith_same e op val1 val2 =
     (case val1 of
        RealD a \<Rightarrow> (case val2 of RealD b \<Rightarrow> Some (Ok (RealD (arith_real e op a b))) | _ \<Rightarrow> None)
      | IntD a \<Rightarrow> (case val2 of IntD b \<Rightarrow> Some (rmap IntD (arith_int op a b)) | _ \<Rightarrow> None)
      | CplxD a \<Rightarrow> (case val2 of CplxD b \<Rightarrow> Some (Ok (CplxD (arith_cplx e op a b))) | _ \<Rightarrow> None)
      | QuatD a \<Rightarrow> (case val2 of QuatD b \<Rightarrow> Some (Ok (QuatD (arith_quat e op a b))) | _ \<Rightarrow> None)
      | StrD a \<Rightarrow> (case val2 of StrD b \<Rightarrow> Some (Ok (StrD (arith_str op a b))) | _ \<Rightarrow> None)
      | RealArrD a \<Rightarrow>
          (case val2 of RealArrD b \<Rightarrow> Some (rmap RealArrD (arith_vec (e_real e) op a b)) | _ \<Rightarrow> None)
      | IntArrD a \<Rightarrow>
          (case val2 of IntArrD b \<Rightarrow> Some (rmap IntArrD (arith_vec (e_int e) op a b)) | _ \<Rightarrow> None)
      | CplxArrD a \<Rightarrow>
          (case val2 of CplxArrD b \<Rightarrow> Some (rmap CplxArrD (arith_vec (e_cplx e) op a b)) | _ \<Rightarrow> None)
      | QuatArrD a \<Rightarrow>
          (case val2 of QuatArrD b \<Rightarrow> Some (rmap QuatArrD (arith_vec (e_quat e) op a b)) | _ \<Rightarrow> None)
      | _ \<Rightarrow> None)"

definition type_names :: "t_data \<Rightarrow> t_data \<Rightarrow> string" where
  "type_names val1 val2 =
     ''Types: '' @ GetDataTypeName (data_index val1) @ '', '' @ GetDataTypeName (data_index val2) @ ''.''"

definition arith :: "env \<Rightarrow> char \<Rightarrow> t_data \<Rightarrow> t_data \<Rightarrow> t_data result" where
  "arith e op val1 val2 =
     (case (if op = CHR ''*'' then mul_special e val1 val2
            else if op = CHR ''^'' then pow_special e val1 val2 else None) of
        Some r \<Rightarrow> r
      | None \<Rightarrow>
          (case arith_same e op val1 val2 of
             Some r \<Rightarrow> r
           | None \<Rightarrow> Throw (RuntimeError (''Unknown arithmetic operation. '' @ type_names val1 val2))))"

definition OpArithmetic :: "env \<Rightarrow> char \<Rightarrow> vm \<Rightarrow> vm result" where
  "OpArithmetic e op s =
     rbind (PopData s) (\<lambda>(val2, s).
     rbind (PopData s) (\<lambda>(val1, s).
     rbind (arith e op val1 val2) (\<lambda>r. push_data r s)))"

fun negate :: "env \<Rightarrow> t_data \<Rightarrow> t_data result" where
  "negate e (RealD v) = Ok (RealD (r_neg v))"
| "negate e (IntD v) = rmap IntD (int_result (- sint v))"
| "negate e (CplxD v) = Ok (CplxD (r_neg (fst v), r_neg (snd v)))"
| "negate e (QuatD v) = Ok (QuatD (e_quat_neg e v))"
| "negate e (RealArrD v) = rmap RealArrD (v_neg (e_real e) v)"
| "negate e (IntArrD v) = rmap IntArrD (v_neg (e_int e) v)"
| "negate e (CplxArrD v) = rmap CplxArrD (v_neg (e_cplx e) v)"
| "negate e (QuatArrD v) = rmap QuatArrD (v_neg (e_quat e) v)"
| "negate e _ = Throw (RuntimeError ''Type mismatch in arithmetic operation.'')"

definition OpUSub :: "env \<Rightarrow> vm \<Rightarrow> vm result" where
  "OpUSub e s = rbind (PopData s) (\<lambda>(val, s). rbind (negate e val) (\<lambda>r. push_data r s))"

text \<open>
  Quaternion matrices are not tried, and two operands of unlike or other types leave the
  result a default-constructed variant, whose push throws.
\<close>

definition mat_mult :: "env \<Rightarrow> t_int \<Rightarrow> t_int \<Rightarrow> t_int \<Rightarrow> t_int \<Rightarrow> t_data \<Rightarrow> t_data \<Rightarrow> t_data result" where
  "mat_mult e M1_rows M1_cols M2_rows M2_cols M1 M2 =
     (case M1 of
        RealArrD a \<Rightarrow>
          (case M2 of
             RealArrD b \<Rightarrow>
               rmap RealArrD (v_matmul (e_real e) (M1_rows, M1_cols, a) (M2_rows, M2_cols, b))
           | _ \<Rightarrow> Ok Monostate)
      | IntArrD a \<Rightarrow>
          (case M2 of
             IntArrD b \<Rightarrow>
               rmap IntArrD (v_matmul (e_int e) (M1_rows, M1_cols, a) (M2_rows, M2_cols, b))
           | _ \<Rightarrow> Ok Monostate)
      | CplxArrD a \<Rightarrow>
          (case M2 of
             CplxArrD b \<Rightarrow>
               rmap CplxArrD (v_matmul (e_cplx e) (M1_rows, M1_cols, a) (M2_rows, M2_cols, b))
           | _ \<Rightarrow> Ok Monostate)
      | _ \<Rightarrow> Ok Monostate)"

definition OpMatrixMultiplication :: "env \<Rightarrow> vm \<Rightarrow> vm result" where
  "OpMatrixMultiplication e s =
     rbind (PopInt s) (\<lambda>(M2_cols, s).
     rbind (PopInt s) (\<lambda>(M2_rows, s).
     rbind (PopInt s) (\<lambda>(M1_cols, s).
     rbind (PopInt s) (\<lambda>(M1_rows, s).
     rbind (PopData s) (\<lambda>(M2, s).
     rbind (PopData s) (\<lambda>(M1, s).
     rbind (mat_mult e M1_rows M1_cols M2_rows M2_cols M1 M2) (\<lambda>r. push_data r s)))))))"

section \<open>Logic, bits, comparisons\<close>

definition logical :: "char \<Rightarrow> bool \<Rightarrow> bool \<Rightarrow> bool" where
  "logical op val1 val2 =
     (if op = CHR ''&'' then val1 \<and> val2
      else if op = CHR ''|'' then val1 \<or> val2
      else if op = CHR ''^'' then val1 \<noteq> val2
      else False)"

definition OpLogical :: "char \<Rightarrow> vm \<Rightarrow> vm result" where
  "OpLogical op s =
     rbind (PopBool s) (\<lambda>(val2, s).
     rbind (PopBool s) (\<lambda>(val1, s). PushBool (logical op val1 val2) s))"

definition OpNot :: "vm \<Rightarrow> vm result" where
  "OpNot s = rbind (PopBool s) (\<lambda>(boolval, s). PushBool (\<not> boolval) s)"

text \<open>
  Shifts are defined for counts from 0 to 63; the rotations of \<open>std::rotl\<close> take their
  \<open>int\<close> count modulo the width.
\<close>

definition shift_count :: "t_int \<Rightarrow> nat result" where
  "shift_count val2 =
     (if 0 \<le> sint val2 \<and> sint val2 < 64 then Ok (nat (sint val2)) else Undefined UB_Shift)"

definition rot_count :: "t_int \<Rightarrow> nat" where
  "rot_count val2 = nat (wrap32 (sint val2) mod 64)"

definition binary_int :: "char \<Rightarrow> t_int \<Rightarrow> t_int \<Rightarrow> t_int result" where
  "binary_int op val1 val2 =
     (if op = CHR ''&'' then Ok (and val1 val2)
      else if op = CHR ''|'' then Ok (or val1 val2)
      else if op = CHR ''^'' then Ok (xor val1 val2)
      else if op = CHR ''<'' then rbind (shift_count val2) (\<lambda>n. Ok (push_bit n val1))
      else if op = CHR ''>'' then rbind (shift_count val2) (\<lambda>n. Ok (signed_drop_bit n val1))
      else if op = CHR ''l'' then Ok (word_rotl (rot_count val2) val1)
      else if op = CHR ''r'' then Ok (word_rotr (rot_count val2) val1)
      else Ok 0)"

definition binary_data :: "char \<Rightarrow> t_data \<Rightarrow> t_data \<Rightarrow> t_data result" where
  "binary_data op val1 val2 =
     (if data_index val1 \<noteq> data_index val2
      then Throw (RuntimeError (''Type mismatch in binary operation. '' @ type_names val1 val2))
      else case (val1, val2) of
        (IntD a, IntD b) \<Rightarrow> rmap IntD (binary_int op a b)
      | _ \<Rightarrow> Throw (RuntimeError ''Invalid type in binary operation.''))"

definition OpBinary :: "char \<Rightarrow> vm \<Rightarrow> vm result" where
  "OpBinary op s =
     rbind (PopData s) (\<lambda>(val2, s).
     rbind (PopData s) (\<lambda>(val1, s).
     rbind (binary_data op val1 val2) (\<lambda>r. push_data r s)))"

fun bin_not :: "t_data \<Rightarrow> t_data result" where
  "bin_not (IntD v) = Ok (IntD (not v))"
| "bin_not _ = Throw (RuntimeError ''Invalid data type for binary not.'')"

definition OpBinNot :: "vm \<Rightarrow> vm result" where
  "OpBinNot s = rbind (PopData s) (\<lambda>(val, s). rbind (bin_not val) (\<lambda>r. push_data r s))"

definition compare_int :: "OpCode \<Rightarrow> t_int \<Rightarrow> t_int \<Rightarrow> bool" where
  "compare_int op val1 val2 =
     (case op of
        OP_GT \<Rightarrow> sint val1 > sint val2
      | OP_LT \<Rightarrow> sint val1 < sint val2
      | OP_GEQU \<Rightarrow> sint val1 \<ge> sint val2
      | OP_LEQU \<Rightarrow> sint val1 \<le> sint val2
      | OP_EQU \<Rightarrow> val1 = val2
      | OP_NEQU \<Rightarrow> val1 \<noteq> val2
      | _ \<Rightarrow> False)"

definition compare_real :: "t_real \<Rightarrow> OpCode \<Rightarrow> t_real \<Rightarrow> t_real \<Rightarrow> bool" where
  "compare_real eps op val1 val2 =
     (case op of
        OP_GT \<Rightarrow> r_lt val2 val1
      | OP_LT \<Rightarrow> r_lt val1 val2
      | OP_GEQU \<Rightarrow> r_le val2 val1
      | OP_LEQU \<Rightarrow> r_le val1 val2
      | OP_EQU \<Rightarrow> r_le (r_abs (r_sub val1 val2)) eps
      | OP_NEQU \<Rightarrow> r_lt eps (r_abs (r_sub val1 val2))
      | _ \<Rightarrow> False)"

definition compare_eq :: "OpCode \<Rightarrow> bool \<Rightarrow> bool" where
  "compare_eq op eq = (case op of OP_EQU \<Rightarrow> eq | OP_NEQU \<Rightarrow> \<not> eq | _ \<Rightarrow> False)"

definition compare_data :: "env \<Rightarrow> t_real \<Rightarrow> OpCode \<Rightarrow> t_data \<Rightarrow> t_data \<Rightarrow> bool result" where
  "compare_data e eps op val1 val2 =
     (if data_index val1 \<noteq> data_index val2
      then Throw (RuntimeError (''Type mismatch in comparison operation. '' @ type_names val1 val2))
      else case (val1, val2) of
        (RealD a, RealD b) \<Rightarrow> Ok (compare_real eps op a b)
      | (IntD a, IntD b) \<Rightarrow> Ok (compare_int op a b)
      | (StrD a, StrD b) \<Rightarrow> Ok (compare_eq op (a = b))
      | (RealArrD a, RealArrD b) \<Rightarrow> Ok (compare_eq op (v_equals (e_real e) eps a b))
      | (IntArrD a, IntArrD b) \<Rightarrow> Ok (compare_eq op (v_equals (e_int e) eps a b))
      | _ \<Rightarrow> Throw (RuntimeError ''Invalid type in comparison operation.''))"

definition OpComparison :: "env \<Rightarrow> OpCode \<Rightarrow> vm \<Rightarrow> vm result" where
  "OpComparison e op s =
     rbind (PopData s) (\<lambda>(val2, s).
     rbind (PopData s) (\<lambda>(val1, s).
     rbind (compare_data e (m_eps s) op val1 val2) (\<lambda>r. PushBool r s)))"

end
