(* ===== verification/VmExt.thy ===== *)
theory VmExt
  imports VmOps
begin

text \<open>
  \<open>VM::CallExternal\<close> (vm/extfuncs.cpp), the functions a program calls by name, with the
  interrupt table and the timer of vm/vm.cpp. Standard output is the text written so far,
  standard input the text still to be read. The timer thread is not part of the state:
  what it does, requesting interrupts while \<open>m_timer_running\<close>, is a step of its own in VmRun.
\<close>

section \<open>Interrupt table and timer\<close>

definition SetISR :: "t_addr \<Rightarrow> t_addr \<Rightarrow> vm \<Rightarrow> vm result" where
  "SetISR num addr s =
     (if 0 \<le> num \<and> num < int m_num_interrupts
      then Ok (s\<lparr>m_isrs := (m_isrs s)[nat num := Some addr]\<rparr>)
      else Undefined (UB_Index num))"

definition RequestInterrupt :: "t_addr \<Rightarrow> vm \<Rightarrow> vm result" where
  "RequestInterrupt num s =
     (if 0 \<le> num \<and> num < int m_num_interrupts
      then Ok (s\<lparr>m_irqs := (m_irqs s)[nat num := True]\<rparr>)
      else Undefined (UB_Index num))"

definition StartTimer :: "vm \<Rightarrow> vm" where
  "StartTimer s = s\<lparr>m_timer_running := True\<rparr>"

definition StopTimer :: "vm \<Rightarrow> vm" where
  "StopTimer s = s\<lparr>m_timer_running := False\<rparr>"

section \<open>External functions\<close>

text \<open>The integer branch reads the operand as a real.\<close>

fun ext_abs :: "env \<Rightarrow> t_data \<Rightarrow> t_data result" where
  "ext_abs e (RealD arg) = Ok (RealD (if r_lt arg 0 then r_neg arg else arg))"
| "ext_abs e (IntD i) =
     rbind (get_real (IntD i)) (\<lambda>arg.
     rbind (real_to_int (if r_lt arg 0 then r_neg arg else arg)) (\<lambda>n. Ok (IntD n)))"
| "ext_abs e (RealArrD arg) = rbind (e_norm e arg) (\<lambda>len. Ok (RealD len))"
| "ext_abs e dat = Ok dat"

definition pop_real_arg :: "env \<Rightarrow> vm \<Rightarrow> (t_real \<times> vm) result" where
  "pop_real_arg e s =
     rbind (OpCast e m_realidx s) (\<lambda>s.
     rbind (PopData s) (\<lambda>(dat, s). rbind (get_real dat) (\<lambda>r. Ok (r, s))))"

definition pop_int_arg :: "env \<Rightarrow> vm \<Rightarrow> (t_int \<times> vm) result" where
  "pop_int_arg e s = rbind (OpCast e m_intidx s) PopInt"

definition pop_str_arg :: "env \<Rightarrow> vm \<Rightarrow> (t_str \<times> vm) result" where
  "pop_str_arg e s =
     rbind (OpCast e m_stridx s) (\<lambda>s.
     rbind (PopData s) (\<lambda>(dat, s). rbind (get_str dat) (\<lambda>r. Ok (r, s))))"

definition write_out :: "string \<Rightarrow> vm \<Rightarrow> vm" where
  "write_out str s = s\<lparr>m_cout := m_cout s @ str\<rparr>"

definition real_fun :: "env \<Rightarrow> (t_real \<Rightarrow> t_real) \<Rightarrow> vm \<Rightarrow> (t_data \<times> vm) result" where
  "real_fun e f s = rbind (pop_real_arg e s) (\<lambda>(arg, s). Ok (RealD (f arg), s))"

definition ext_set_isr :: "env \<Rightarrow> vm \<Rightarrow> (t_data \<times> vm) result" where
  "ext_set_isr e s =
     rbind (pop_int_arg e s) (\<lambda>(n, s).
     rbind (PopAddress s) (\<lambda>(addr, s).
     rbind (SetISR (addr_of_int n) addr s) (\<lambda>s. Ok (Monostate, s))))"

definition ext_set_timer :: "env \<Rightarrow> vm \<Rightarrow> (t_data \<times> vm) result" where
  "ext_set_timer e s =
     rbind (pop_int_arg e s) (\<lambda>(delay, s).
     Ok (Monostate,
       if sint delay < 0 then StopTimer s else StartTimer (s\<lparr>m_timer_ticks := delay\<rparr>)))"

text \<open>A name without a branch returns the empty variant and takes nothing off the stack.\<close>

definition CallExternal :: "env \<Rightarrow> t_str \<Rightarrow> vm \<Rightarrow> (t_data \<times> vm) result" where
  "CallExternal e func_name s =
     (if func_name = ''abs'' \<or> func_name = ''fabs'' \<or> func_name = ''norm'' then
        rbind (PopData s) (\<lambda>(dat, s). rbind (ext_abs e dat) (\<lambda>r. Ok (r, s)))
      else if func_name = ''sqrt'' then real_fun e (e_sqrt e) s
      else if func_name = ''pow'' then
        rbind (pop_real_arg e s) (\<lambda>(arg1, s).
        rbind (pop_real_arg e s) (\<lambda>(arg2, s). Ok (RealD (e_pow e arg1 arg2), s)))
      else if func_name = ''sin'' then real_fun e (e_sin e) s
      else if func_name = ''cos'' then real_fun e (e_cos e) s
      else if func_name = ''tan'' then real_fun e (e_tan e) s
      else if func_name = ''set_eps'' then
        rbind (pop_real_arg e s) (\<lambda>(r, s). Ok (Monostate, s\<lparr>m_eps := r\<rparr>))
      else if func_name = ''set_prec'' then
        rbind (pop_int_arg e s) (\<lambda>(i, s). Ok (Monostate, s\<lparr>m_prec := i\<rparr>))
      else if func_name = ''get_eps'' then Ok (RealD (m_eps s), s)
      else if func_name = ''to_string'' then
        rbind (OpCast e m_stridx s) (\<lambda>s. Ok (Monostate, s))
      else if func_name = ''strlen'' then
        rbind (pop_str_arg e s) (\<lambda>(arg, s). Ok (IntD (of_nat (length arg)), s))
      else if func_name = ''write'' then
        rbind (pop_str_arg e s) (\<lambda>(arg, s). Ok (Monostate, write_out (arg @ [CHR 0x0A]) s))
      else if func_name = ''write_no_cr'' then
        rbind (pop_str_arg e s) (\<lambda>(arg, s). Ok (Monostate, write_out arg s))
      else if func_name = ''read_real'' then
        rbind (pop_str_arg e s) (\<lambda>(arg, s).
        let (val, rest) = e_parse_real e (m_cin s) in
        Ok (RealD val, (write_out arg s)\<lparr>m_cin := rest\<rparr>))
      else if func_name = ''read_integer'' then
        rbind (pop_str_arg e s) (\<lambda>(arg, s).
        let (val, rest) = read_int (m_cin s) in
        Ok (IntD val, (write_out arg s)\<lparr>m_cin := rest\<rparr>))
      else if func_name = ''set_isr'' then ext_set_isr e s
      else if func_name = ''sleep'' then
        rbind (pop_int_arg e s) (\<lambda>(num, s). Ok (Monostate, s))
      else if func_name = ''set_timer'' then ext_set_timer e s
      else if func_name = ''set_debug'' then
        rbind (pop_int_arg e s) (\<lambda>(i, s). Ok (Monostate, s\<lparr>m_debug := (i \<noteq> 0)\<rparr>))
      else Ok (Monostate, s))"

end
