(* ===== verification/VmRun.thy ===== *)
theory VmRun
  imports VmExt
begin

text \<open>
  The main loop \<open>VM::Run\<close> (vm/run.cpp): interrupt polling, fetch, and one definition per
  instruction that has a body of its own there. \<open>step\<close> is one iteration of the loop,
  \<open>run\<close> a bounded number of them, \<open>mstep\<close> the machine together with interrupt requests
  that arrive between two iterations.
\<close>

section \<open>Memory and array instructions\<close>

definition op_push :: "vm \<Rightarrow> vm result" where
  "op_push s =
     rbind (ReadMemData (m_ip s) s) (\<lambda>(ty, val).
     rbind (GetDataSize val) (\<lambda>sz.
     PushData val ty True (s\<lparr>m_ip := wrap32 (m_ip s + wrap32 (sz + m_bytesize))\<rparr>)))"

definition op_wrmem :: "vm \<Rightarrow> vm result" where
  "op_wrmem s =
     rbind (PopAddress s) (\<lambda>(addr, s). rbind (PopData s) (\<lambda>(val, s). WriteMemData addr val s))"

definition op_rdmem :: "vm \<Rightarrow> vm result" where
  "op_rdmem s =
     rbind (PopAddress s) (\<lambda>(addr, s).
     rbind (ReadMemData addr s) (\<lambda>(ty, val). PushData val ty True s))"

definition op_rdarr :: "vm \<Rightarrow> vm result" where
  "op_rdarr s =
     rbind (PopInt s) (\<lambda>(idx, s).
     rbind (PopData s) (\<lambda>(arr, s).
     case arr of
       RealArrD _ \<Rightarrow> ReadArrayElem real_vt arr idx s
     | IntArrD _ \<Rightarrow> ReadArrayElem int_vt arr idx s
     | CplxArrD _ \<Rightarrow> ReadArrayElem cplx_vt arr idx s
     | QuatArrD _ \<Rightarrow> ReadArrayElem quat_vt arr idx s
     | StrD str \<Rightarrow>
         rbind (safe_array_index int_min (sint idx) (int (length str))) (\<lambda>idx.
         push_data (StrD [str ! nat idx]) s)
     | _ \<Rightarrow> Throw (RuntimeError ''Cannot index non-array type.'')))"

definition op_rdarrr :: "vm \<Rightarrow> vm result" where
  "op_rdarrr s =
     rbind (PopInt s) (\<lambda>(idx2, s).
     rbind (PopInt s) (\<lambda>(idx1, s).
     rbind (PopData s) (\<lambda>(arr, s).
     case arr of
       RealArrD _ \<Rightarrow> ReadArrayElemRange real_vt arr idx1 idx2 s
     | IntArrD _ \<Rightarrow> ReadArrayElemRange int_vt arr idx1 idx2 s
     | CplxArrD _ \<Rightarrow> ReadArrayElemRange cplx_vt arr idx1 idx2 s
     | QuatArrD _ \<Rightarrow> ReadArrayElemRange quat_vt arr idx1 idx2 s
     | StrD str \<Rightarrow> rbind (read_span str idx1 idx2) (\<lambda>newstr. push_data (StrD newstr) s)
     | _ \<Rightarrow> Throw (RuntimeError ''Cannot index non-array type.''))))"

definition op_wrarr :: "vm \<Rightarrow> vm result" where
  "op_wrarr s =
     rbind (PopInt s) (\<lambda>(idx, s).
     rbind (PopData s) (\<lambda>(dat, s).
     rbind (PopAddress s) (\<lambda>(addr, s).
     rbind (ReadMemType addr s) (\<lambda>ty.
     let addr = wrap32 (addr + m_bytesize) in
     case ty of
       VM_REALARR \<Rightarrow> WriteArrayElem real_vt addr dat idx s
     | VM_INTARR \<Rightarrow> WriteArrayElem int_vt addr dat idx s
     | VM_CPLXARR \<Rightarrow> WriteArrayElem cplx_vt addr dat idx s
     | VM_QUATARR \<Rightarrow> WriteArrayElem quat_vt addr dat idx s
     | _ \<Rightarrow> Throw (RuntimeError ''Cannot index non-array type.'')))))"

definition write_str_range :: "t_addr \<Rightarrow> t_data \<Rightarrow> t_int \<Rightarrow> t_int \<Rightarrow> vm \<Rightarrow> vm result" where
  "write_str_range addr dat idx1 idx2 s =
     (case dat of
        StrD rhsstr \<Rightarrow>
          write_span char_codec (src_list ''String index out of bounds.'' rhsstr) addr idx1 idx2 s
      | _ \<Rightarrow> Throw (RuntimeError ''String range has to be of string type.''))"

definition op_wrarrr :: "vm \<Rightarrow> vm result" where
  "op_wrarrr s =
     rbind (PopInt s) (\<lambda>(idx2, s).
     rbind (PopInt s) (\<lambda>(idx1, s).
     rbind (PopData s) (\<lambda>(dat, s).
     rbind (PopAddress s) (\<lambda>(addr, s).
     rbind (ReadMemType addr s) (\<lambda>ty.
     let addr = wrap32 (addr + m_bytesize) in
     case ty of
       VM_REALARR \<Rightarrow> WriteArrayElemRange real_vt addr dat idx1 idx2 s
     | VM_INTARR \<Rightarrow> WriteArrayElemRange int_vt addr dat idx1 idx2 s
     | VM_CPLXARR \<Rightarrow> WriteArrayElemRange cplx_vt addr dat idx1 idx2 s
     | VM_QUATARR \<Rightarrow> WriteArrayElemRange quat_vt addr dat idx1 idx2 s
     | VM_STR \<Rightarrow> write_str_range addr dat idx1 idx2 s
     | _ \<Rightarrow> Throw (RuntimeError ''Cannot index non-array type.''))))))"

definition op_makearr :: "('e, 'x) vtraits_scheme \<Rightarrow> vm \<Rightarrow> vm result" where
  "op_makearr c s = rbind (PopArray c False s) (\<lambda>(vec, s). push_data (vt_vec c vec) s)"

definition op_toarr :: "('e, 'x) vtraits_scheme \<Rightarrow> (t_data \<Rightarrow> 'e result option) \<Rightarrow> vm \<Rightarrow> vm result" where
  "op_toarr c to_elem s =
     rbind (PopAddress s) (\<lambda>(vec_size, s). OpCastToArray c to_elem vec_size s)"

section \<open>Jumps, calls and frames\<close>

definition op_jmp :: "vm \<Rightarrow> vm result" where
  "op_jmp s = rbind (PopAddress s) (\<lambda>(addr, s). Ok (s\<lparr>m_ip := addr\<rparr>))"

definition op_jmpcnd :: "vm \<Rightarrow> vm result" where
  "op_jmpcnd s =
     rbind (PopAddress s) (\<lambda>(addr, s).
     rbind (PopBool s) (\<lambda>(boolcond, s). Ok (if boolcond then s\<lparr>m_ip := addr\<rparr> else s)))"

text \<open>
  The stack pointer is moved by a 64-bit frame size: the sum is computed in 64 bits and
  converted back.
\<close>

definition move_sp :: "int \<Rightarrow> vm \<Rightarrow> vm result" where
  "move_sp delta s =
     rbind (int_result (m_sp s + delta)) (\<lambda>_. Ok (s\<lparr>m_sp := wrap32 (m_sp s + delta)\<rparr>))"

definition op_call :: "vm \<Rightarrow> vm result" where
  "op_call s =
     rbind (PopAddress s) (\<lambda>(funcaddr, s).
     rbind (PopInt s) (\<lambda>(framesize, s).
     rbind (PushAddress (m_ip s) VM_ADDR_MEM s) (\<lambda>s.
     rbind (PushAddress (m_bp s) VM_ADDR_MEM s) (\<lambda>s.
     rbind (move_sp (- sint framesize) (s\<lparr>m_bp := m_sp s\<rparr>)) (\<lambda>s.
     Ok (s\<lparr>m_ip := funcaddr\<rparr>))))))"

text \<open>\<open>std::memset\<close> to zero, the count being converted to \<open>size_t\<close>.\<close>

definition zero_mem :: "t_addr \<Rightarrow> int \<Rightarrow> vm \<Rightarrow> vm result" where
  "zero_mem addr n s =
     (if n < 0 then Undefined (UB_Memory addr n) else store s addr (replicate (nat n) 0))"

text \<open>A value taken off the stack moves the stack pointer up.\<close>

lemma load_bound: "load s a n = Ok bs \<Longrightarrow> 0 < n \<Longrightarrow> 0 \<le> a \<and> a + n < 2 ^ 31"
  by (auto simp: load_def in_mem_def split: if_splits)

lemma zero_popped_fields:
  "zero_popped a n s = Ok s' \<Longrightarrow> m_sp s' = m_sp s"
  by (auto simp: zero_popped_def store_def split: if_splits)

context codec_laws begin

lemma PopRaw_sp:
  "PopRaw c s = Ok (v, s') \<Longrightarrow> m_sp s' = m_sp s + c_size c \<and> 0 \<le> m_sp s \<and> m_sp s' < 2 ^ 31"
  using size_bounds
  by (auto simp: PopRaw_def rbind_eq_Ok dest!: load_bound)

lemma PopSeq_sp:
  assumes "PopSeq c s = Ok (vec, s')"
  shows "m_sp s < m_sp s' \<and> m_sp s' < 2 ^ 31"
proof -
  obtain n s1 s2 where 1: "PopRaw addr_codec s = Ok (n, s1)"
      and r: "read_seq c (m_sp s1) n s1 = Ok vec"
      and s': "s' = s2\<lparr>m_sp := wrap32 (m_sp s1 + wrap32 (n * c_size c))\<rparr>"
    using assms by (auto simp: PopSeq_def Let_def rbind_eq_Ok split: prod.splits)
  have sp1: "m_sp s1 = m_sp s + 4" "0 \<le> m_sp s" "m_sp s1 < 2 ^ 31"
    using addr_c.PopRaw_sp [OF 1] by auto
  have n: "0 \<le> n" using r by (auto simp: read_seq_def split: if_splits)
  have "m_sp s1 + n * c_size c < 2 ^ 31"
  proof (cases "n = 0")
    case False
    then have "0 < n * c_size c" using n size_bounds by (intro mult_pos_pos) auto
    then show ?thesis using r n load_bound by (auto simp: read_seq_def rbind_eq_Ok)
  qed (use sp1 in auto)
  moreover have "0 \<le> n * c_size c" using n size_bounds by simp
  ultimately show ?thesis using sp1 by (simp add: s')
qed

end

lemma PopData_sp:
  assumes "PopData s = Ok (d, s')"
  shows "m_sp s < m_sp s' \<and> m_sp s' < 2 ^ 31"
proof -
  obtain b s1 where 1: "PopRaw byte_codec s = Ok (b, s1)"
    using assms by (auto simp: PopData_def rbind_eq_Ok)
  have sp1: "m_sp s < m_sp s1" using byte_c.PopRaw_sp [OF 1] by simp
  show ?thesis
    using assms sp1
    by (auto simp: PopData_def 1 pop_as_def rbind_eq_Ok PopComplex_def PopQuaternion_def PopString_def
        cplx_codec_size dest!: byte_c.PopRaw_sp real_c.PopRaw_sp int_c.PopRaw_sp addr_c.PopRaw_sp
        cplx_c.PopRaw_sp quat_c.PopRaw_sp char_c.PopSeq_sp real_v.PopSeq_sp int_v.PopSeq_sp
        cplx_v.PopSeq_sp quat_v.PopSeq_sp split: VMType.splits)
qed

text \<open>
  The values above the frame, topmost first: the loop stops when the stack pointer plus the
  frame size reaches the base pointer, and ends because every pop raises the stack pointer.
\<close>

function pop_rets :: "t_int \<Rightarrow> vm \<Rightarrow> (t_data list \<times> vm) result" where
  "pop_rets framesize s =
     rbind (int_result (m_sp s + sint framesize)) (\<lambda>lim.
     if sint lim < m_bp s then
       rbind (PopData s) (\<lambda>(retval, s).
       rbind (pop_rets framesize s) (\<lambda>(retvals, s). Ok (retval # retvals, s)))
     else Ok ([], s))"
  by pat_completeness auto

termination
  by (relation "measure (\<lambda>(f, s). nat (2 ^ 31 - m_sp s))") (auto dest!: PopData_sp)

declare pop_rets.simps [simp del]

primrec pop_args :: "nat \<Rightarrow> vm \<Rightarrow> vm result" where
  "pop_args 0 s = Ok s"
| "pop_args (Suc n) s = rbind (PopData s) (\<lambda>(_, s). pop_args n s)"

primrec push_rets :: "t_data list \<Rightarrow> vm \<Rightarrow> vm result" where
  "push_rets [] s = Ok s"
| "push_rets (retval # retvals) s =
     rbind (PushData retval VM_UNKNOWN False s) (\<lambda>s. push_rets retvals s)"

definition op_ret :: "vm \<Rightarrow> vm result" where
  "op_ret s =
     rbind (PopInt s) (\<lambda>(num_args, s).
     rbind (PopInt s) (\<lambda>(framesize, s).
     rbind (pop_rets framesize s) (\<lambda>(retvals, s).
     rbind (if m_zeropoppedvals s then zero_mem (m_sp s) (m_bp s - m_sp s) s else Ok s) (\<lambda>s.
     rbind (PopAddress (s\<lparr>m_sp := m_bp s\<rparr>)) (\<lambda>(bp, s).
     rbind (PopAddress (s\<lparr>m_bp := bp\<rparr>)) (\<lambda>(ip, s).
     rbind (pop_args (nat (sint num_args)) (s\<lparr>m_ip := ip\<rparr>)) (\<lambda>s.
     push_rets retvals s)))))))"

definition op_extcall :: "env \<Rightarrow> vm \<Rightarrow> vm result" where
  "op_extcall e s =
     rbind (PopData s) (\<lambda>(dat, s).
     rbind (get_str dat) (\<lambda>funcname.
     rbind (CallExternal e funcname s) (\<lambda>(retval, s). PushData retval VM_UNKNOWN False s)))"

definition op_addframe :: "vm \<Rightarrow> vm result" where
  "op_addframe s = rbind (PopInt s) (\<lambda>(framesize, s). move_sp (- sint framesize) s)"

definition op_remframe :: "vm \<Rightarrow> vm result" where
  "op_remframe s =
     rbind (PopInt s) (\<lambda>(framesize, s).
     rbind (if m_zeropoppedvals s then zero_mem (m_sp s) (sint framesize) s else Ok s) (\<lambda>s.
     move_sp (sint framesize) s))"

section \<open>One instruction\<close>

datatype run_status = Running | Halted | Invalid

definition cont :: "vm result \<Rightarrow> (run_status \<times> vm) result" where
  "cont m = rbind m (\<lambda>s. Ok (Running, s))"

definition exec :: "env \<Rightarrow> OpCode \<Rightarrow> vm \<Rightarrow> (run_status \<times> vm) result" where
  "exec e op s =
     (case op of
        OP_HALT \<Rightarrow> Ok (Halted, s)
      | OP_NOP \<Rightarrow> Ok (Running, s)
      | OP_PUSH \<Rightarrow> cont (op_push s)
      | OP_WRMEM \<Rightarrow> cont (op_wrmem s)
      | OP_RDMEM \<Rightarrow> cont (op_rdmem s)
      | OP_RDARR \<Rightarrow> cont (op_rdarr s)
      | OP_RDARRR \<Rightarrow> cont (op_rdarrr s)
      | OP_WRARR \<Rightarrow> cont (op_wrarr s)
      | OP_WRARRR \<Rightarrow> cont (op_wrarrr s)
      | OP_MAKEREALARR \<Rightarrow> cont (op_makearr real_vt s)
      | OP_MAKEINTARR \<Rightarrow> cont (op_makearr int_vt s)
      | OP_MAKECPLXARR \<Rightarrow> cont (op_makearr cplx_vt s)
      | OP_MAKEQUATARR \<Rightarrow> cont (op_makearr quat_vt s)
      | OP_USUB \<Rightarrow> cont (OpUSub e s)
      | OP_ADD \<Rightarrow> cont (OpArithmetic e CHR ''+'' s)
      | OP_SUB \<Rightarrow> cont (OpArithmetic e CHR ''-'' s)
      | OP_MUL \<Rightarrow> cont (OpArithmetic e CHR ''*'' s)
      | OP_DIV \<Rightarrow> cont (OpArithmetic e CHR ''/'' s)
      | OP_MOD \<Rightarrow> cont (OpArithmetic e CHR ''%'' s)
      | OP_POW \<Rightarrow> cont (OpArithmetic e CHR ''^'' s)
      | OP_MATMUL \<Rightarrow> cont (OpMatrixMultiplication e s)
      | OP_AND \<Rightarrow> cont (OpLogical CHR ''&'' s)
      | OP_OR \<Rightarrow> cont (OpLogical CHR ''|'' s)
      | OP_XOR \<Rightarrow> cont (OpLogical CHR ''^'' s)
      | OP_NOT \<Rightarrow> cont (OpNot s)
      | OP_GT \<Rightarrow> cont (OpComparison e OP_GT s)
      | OP_LT \<Rightarrow> cont (OpComparison e OP_LT s)
      | OP_GEQU \<Rightarrow> cont (OpComparison e OP_GEQU s)
      | OP_LEQU \<Rightarrow> cont (OpComparison e OP_LEQU s)
      | OP_EQU \<Rightarrow> cont (OpComparison e OP_EQU s)
      | OP_NEQU \<Rightarrow> cont (OpComparison e OP_NEQU s)
      | OP_BINAND \<Rightarrow> cont (OpBinary CHR ''&'' s)
      | OP_BINOR \<Rightarrow> cont (OpBinary CHR ''|'' s)
      | OP_BINXOR \<Rightarrow> cont (OpBinary CHR ''^'' s)
      | OP_BINNOT \<Rightarrow> cont (OpBinNot s)
      | OP_SHL \<Rightarrow> cont (OpBinary CHR ''<'' s)
      | OP_SHR \<Rightarrow> cont (OpBinary CHR ''>'' s)
      | OP_ROTL \<Rightarrow> cont (OpBinary CHR ''l'' s)
      | OP_ROTR \<Rightarrow> cont (OpBinary CHR ''r'' s)
      | OP_TOR \<Rightarrow> cont (OpCast e m_realidx s)
      | OP_TOI \<Rightarrow> cont (OpCast e m_intidx s)
      | OP_TOC \<Rightarrow> cont (OpCast e m_cplxidx s)
      | OP_TOQ \<Rightarrow> cont (OpCast e m_quatidx s)
      | OP_TOB \<Rightarrow> cont (OpCast e m_boolidx s)
      | OP_TOS \<Rightarrow> cont (OpCast e m_stridx s)
      | OP_TOREALARR \<Rightarrow> cont (op_toarr real_vt to_real_elem s)
      | OP_TOINTARR \<Rightarrow> cont (op_toarr int_vt to_int_elem s)
      | OP_TOCPLXARR \<Rightarrow> cont (op_toarr cplx_vt to_cplx_elem s)
      | OP_TOQUATARR \<Rightarrow> cont (op_toarr quat_vt (to_quat_elem e) s)
      | OP_JMP \<Rightarrow> cont (op_jmp s)
      | OP_JMPCND \<Rightarrow> cont (op_jmpcnd s)
      | OP_CALL \<Rightarrow> cont (op_call s)
      | OP_RET \<Rightarrow> cont (op_ret s)
      | OP_EXTCALL \<Rightarrow> cont (op_extcall e s)
      | OP_ADDFRAME \<Rightarrow> cont (op_addframe s)
      | OP_REMFRAME \<Rightarrow> cont (op_remframe s)
      | _ \<Rightarrow> Ok (Invalid, s))"

section \<open>The loop\<close>

text \<open>
  Requests are tested from number 0 up; one without a service routine is dropped, the
  first one with a routine is taken and the rest stay pending.
\<close>

primrec poll_irqs :: "nat list \<Rightarrow> vm \<Rightarrow> t_addr option \<times> vm" where
  "poll_irqs [] s = (None, s)"
| "poll_irqs (irq # irqs) s =
     (if \<not> m_irqs s ! irq then poll_irqs irqs s
      else let s = s\<lparr>m_irqs := (m_irqs s)[irq := False]\<rparr> in
        case m_isrs s ! irq of
          None \<Rightarrow> poll_irqs irqs s
        | Some isr \<Rightarrow> (Some isr, s))"

definition fetch :: "vm \<Rightarrow> (OpCode \<times> vm) result" where
  "fetch s =
     rbind (load s (m_ip s) m_bytesize) (\<lambda>bs.
     Ok (opcode_of_byte (dec_byte bs), s\<lparr>m_ip := wrap32 (m_ip s + 1)\<rparr>))"

definition next_op :: "vm \<Rightarrow> (OpCode \<times> vm) result" where
  "next_op s =
     (case poll_irqs [0..<m_num_interrupts] s of
        (Some isr, s) \<Rightarrow> rbind (PushAddress isr VM_ADDR_MEM s) (\<lambda>s. Ok (OP_CALL, s))
      | (None, s) \<Rightarrow> fetch s)"

definition wrap_ip :: "vm \<Rightarrow> vm result" where
  "wrap_ip s =
     (if m_ip s \<ge> m_memsize s
      then if m_memsize s = 0 then Undefined UB_Division
           else Ok (s\<lparr>m_ip := m_ip s smod m_memsize s\<rparr>)
      else Ok s)"

definition step :: "env \<Rightarrow> vm \<Rightarrow> (run_status \<times> vm) result" where
  "step e s =
     rbind (CheckPointerBounds s) (\<lambda>_.
     rbind (next_op s) (\<lambda>(op, s).
     rbind (exec e op s) (\<lambda>(st, s).
     if st = Invalid then Ok (Invalid, s)
     else rbind (wrap_ip s) (\<lambda>s. Ok (st, s)))))"

text \<open>At most \<open>n\<close> iterations; \<open>Running\<close> when they do not suffice.\<close>

primrec run :: "env \<Rightarrow> nat \<Rightarrow> vm \<Rightarrow> (run_status \<times> vm) result" where
  "run e 0 s = Ok (Running, s)"
| "run e (Suc n) s =
     rbind (step e s) (\<lambda>(st, s). if st = Running then run e n s else Ok (st, s))"

text \<open>
  The machine and its environment: an iteration of the loop, or a request of any interrupt
  (the timer thread requests number 0) between two iterations.
\<close>

inductive mstep :: "env \<Rightarrow> vm \<Rightarrow> vm \<Rightarrow> bool" for e where
  instr: "step e s = Ok (Running, s') \<Longrightarrow> mstep e s s'"
| request: "RequestInterrupt num s = Ok s' \<Longrightarrow> mstep e s s'"

inductive_cases mstepE: "mstep e s s'"

inductive reachable :: "env \<Rightarrow> vm \<Rightarrow> vm \<Rightarrow> bool" for e s0 where
  init: "reachable e s0 s0"
| more: "reachable e s0 s \<Longrightarrow> mstep e s s' \<Longrightarrow> reachable e s0 s'"

end
