(* ===== verification/VmOpsFacts.thy ===== *)
theory VmOpsFacts
  imports VmOps
begin

text \<open>
  What the operators do to a stack of values: each one replaces its operands by the value
  the pure functions of VmOps give, and leaves the rest of the stack and of the state alone.
  Then facts about those functions: integer arithmetic is exact or undefined, \<open>power\<close> is
  the power, casts that lose nothing, the printed form of an integer is read back.
\<close>

section \<open>Operators on a stack of values\<close>

lemma data_bytes_pos: "0 < data_bytes d"
  by (simp add: data_bytes_def enc_cell_def)

lemma data_bytes_simps [simp]:
  "data_bytes (RealD r) = 9" "data_bytes (IntD i) = 9" "data_bytes (BoolD b) = 2"
  "data_bytes (StrD str) = 5 + length str"
  by (simp_all add: data_bytes_def enc_cell_def cell_of_def length_enc_chars)

lemma data_bytes_ge2: "plain d \<Longrightarrow> 2 \<le> data_bytes d"
  by (cases d) (simp_all add: data_bytes_def enc_cell_def cell_of_def length_enc_cplx length_enc_quat)

lemma stack_of_room0: "stack_of s ds \<Longrightarrow> stack_room s 0"
  by (auto simp: stack_of_def cells_on_def holds_def bytes_at_def in_mem_def stack_room_def)

lemma stack_of_plain: "stack_of s ds \<Longrightarrow> d \<in> set ds \<Longrightarrow> plain d"
  by (simp add: stack_of_def)

lemma stack_of_drop: "stack_of s (d # ds) \<Longrightarrow> \<exists>s'. PopData s = Ok (d, s') \<and> stack_of s' ds \<and>
    stack_room s' (data_bytes d) \<and> ctl s' = ctl s"
  using ds.pop_law [OF _ stack_of_room0] by fastforce

lemma ctl_fields [simp]:
  "m_eps (ctl s) = m_eps s" "m_prec (ctl s) = m_prec s" "m_ip (ctl s) = m_ip s"
  "m_bp (ctl s) = m_bp s" "m_gbp (ctl s) = m_gbp s" "m_memsize (ctl s) = m_memsize s"
  "m_checks (ctl s) = m_checks s" "m_irqs (ctl s) = m_irqs s" "m_isrs (ctl s) = m_isrs s"
  "m_code_range (ctl s) = m_code_range s" "m_cout (ctl s) = m_cout s" "m_cin (ctl s) = m_cin s"
  "m_zeropoppedvals (ctl s) = m_zeropoppedvals s"
  by (simp_all add: ctl_def)

lemma rmap_eq_Ok: "rmap f m = Ok y \<longleftrightarrow> (\<exists>x. m = Ok x \<and> y = f x)"
  by (auto simp: rmap_def rbind_eq_Ok)

lemma arith_plain: "arith e op d1 d2 = Ok r \<Longrightarrow> plain r"
  by (auto simp: arith_def mul_special_def pow_special_def arith_same_def rmap_eq_Ok
      split: if_splits t_data.splits option.splits)

lemma negate_plain: "negate e d = Ok r \<Longrightarrow> plain r"
  by (cases d) (auto simp: rmap_eq_Ok)

lemma binary_plain: "binary_data op d1 d2 = Ok r \<Longrightarrow> plain r"
  by (auto simp: binary_data_def rmap_eq_Ok split: if_splits t_data.splits)

lemma cast_plain: "cast_data e eps prec toidx d = Ok (Some r) \<Longrightarrow> plain r"
  by (cases d)
    (auto simp: cast_real_def cast_int_def cast_cplx_def cast_quat_def cast_bool_def cast_str_def
      OpCastFromArray_def Let_def rbind_eq_Ok split: if_splits prod.splits)

fun truth :: "t_data \<Rightarrow> bool option" where
  "truth (BoolD b) = Some (b \<noteq> 0)"
| "truth (IntD i) = Some (i \<noteq> 0)"
| "truth _ = None"

text \<open>
  The stack the operators work on: a \<open>data_stack\<close> of the machine whose frame holds the
  configuration. The operators keep the frame, so an instance with a larger frame shows more
  of the state to be unchanged.
\<close>

locale operand_stack = data_stack push_data PopData stk plain data_bytes room frame
  for stk :: "vm \<Rightarrow> t_data list \<Rightarrow> bool" and room :: "vm \<Rightarrow> nat \<Rightarrow> bool" and frame :: "vm \<Rightarrow> 'c" +
  assumes stk_top: "stk s (d # ds) \<Longrightarrow> TopData s = Ok d"
    and stk_plain: "stk s ds \<Longrightarrow> d \<in> set ds \<Longrightarrow> plain d"
    and frame_cfg: "frame s' = frame s \<Longrightarrow> m_eps s' = m_eps s"
begin

lemmas op_binary = binary [where f = "arith e op" for e op, folded OpArithmetic_def]

lemma op_arithmetic:
  assumes "stk s (d2 # d1 # ds)" "room s n" "arith e op d1 d2 = Ok r"
    and "data_bytes r \<le> n + data_bytes d2 + data_bytes d1"
  shows "\<exists>s'. OpArithmetic e op s = Ok s' \<and> stk s' (r # ds) \<and>
    room s' (n + data_bytes d2 + data_bytes d1 - data_bytes r) \<and> frame s' = frame s"
  using op_binary [OF assms(1-3) arith_plain [OF assms(3)] assms(4)] .

lemma op_usub:
  assumes "stk s (d # ds)" "room s n" "negate e d = Ok r"
    and "data_bytes r \<le> n + data_bytes d"
  shows "\<exists>s'. OpUSub e s = Ok s' \<and> stk s' (r # ds) \<and>
    room s' (n + data_bytes d - data_bytes r) \<and> frame s' = frame s"
  unfolding OpUSub_def
  using unary [where f = "negate e", OF assms(1-3) negate_plain [OF assms(3)] assms(4)] .

lemma op_binary_int:
  assumes "stk s (d2 # d1 # ds)" "room s n" "binary_data op d1 d2 = Ok r"
    and "data_bytes r \<le> n + data_bytes d2 + data_bytes d1"
  shows "\<exists>s'. OpBinary op s = Ok s' \<and> stk s' (r # ds) \<and>
    room s' (n + data_bytes d2 + data_bytes d1 - data_bytes r) \<and> frame s' = frame s"
  unfolding OpBinary_def
  using binary [where f = "binary_data op", OF assms(1-3) binary_plain [OF assms(3)] assms(4)] .

text \<open>A comparison needs no room: its result is no larger than an operand.\<close>

lemma op_comparison:
  assumes st: "stk s (d2 # d1 # ds)" "room s n" and r: "compare_data e (m_eps s) op d1 d2 = Ok r"
  shows "\<exists>s'. OpComparison e op s = Ok s' \<and> stk s' (BoolD (if r then 1 else 0) # ds) \<and>
    frame s' = frame s"
proof -
  have fit: "data_bytes (BoolD b) \<le> n + data_bytes d2 + data_bytes d1" for b
    using data_bytes_ge2 [of d2] stk_plain [OF st(1)] by auto
  obtain s1 where 1: "PopData s = Ok (d2, s1)" "stk s1 (d1 # ds)" "room s1 (n + data_bytes d2)"
      "frame s1 = frame s"
    using st by (rule popE)
  obtain s2 where 2: "PopData s1 = Ok (d1, s2)" "stk s2 ds"
      "room s2 (n + data_bytes d2 + data_bytes d1)" "frame s2 = frame s1"
    using 1(2,3) by (rule popE)
  have "m_eps s2 = m_eps s" using 1(4) 2(4) frame_cfg [of s2 s] by simp
  moreover obtain s3 where "PushBool r s2 = Ok s3" "stk s3 (BoolD (if r then 1 else 0) # ds)"
      "frame s3 = frame s2"
    using push_law [OF 2(2) plain_simps(5) 2(3) fit [of "if r then 1 else 0"]]
    by (auto simp: PushBool_def)
  ultimately show ?thesis
    using 1(1,4) 2(1,4) r by (simp add: OpComparison_def)
qed

lemma pop_bool:
  assumes "stk s (d # ds)" "truth d = Some b" "room s n"
  obtains s' where "PopBool s = Ok (b, s')" "stk s' ds" "room s' (n + data_bytes d)" "frame s' = frame s"
  using pop_law [OF assms(1,3)] assms(2)
  by (cases d) (auto simp: PopBool_def)

lemma op_logical:
  assumes "stk s (d2 # d1 # ds)" "room s n" "truth d1 = Some a" "truth d2 = Some b"
  shows "\<exists>s'. OpLogical op s = Ok s' \<and>
    stk s' (BoolD (if logical op a b then 1 else 0) # ds) \<and> frame s' = frame s"
proof -
  obtain s1 where 1: "PopBool s = Ok (b, s1)" "stk s1 (d1 # ds)" "room s1 (n + data_bytes d2)"
      "frame s1 = frame s"
    by (rule pop_bool [OF assms(1,4,2)])
  obtain s2 where 2: "PopBool s1 = Ok (a, s2)" "stk s2 ds"
      "room s2 (n + data_bytes d2 + data_bytes d1)" "frame s2 = frame s1"
    by (rule pop_bool [OF 1(2) assms(3) 1(3)])
  have "2 \<le> data_bytes d2" using stk_plain [OF assms(1), of d2] data_bytes_ge2 by simp
  then show ?thesis
    using push_law [OF 2(2) plain_simps(5) 2(3)] 1 2
    by (auto simp: OpLogical_def PushBool_def)
qed

lemma op_not:
  assumes "stk s (d # ds)" "room s n" "truth d = Some a"
  shows "\<exists>s'. OpNot s = Ok s' \<and> stk s' (BoolD (if a then 0 else 1) # ds) \<and> frame s' = frame s"
proof -
  obtain s1 where 1: "PopBool s = Ok (a, s1)" "stk s1 ds" "room s1 (n + data_bytes d)" "frame s1 = frame s"
    by (rule pop_bool [OF assms(1,3,2)])
  have "2 \<le> data_bytes d" using stk_plain [OF assms(1), of d] data_bytes_ge2 by simp
  then show ?thesis
    using push_law [OF 1(2) plain_simps(5) 1(3)] 1
    by (auto simp: OpNot_def PushBool_def)
qed

lemma op_cast:
  assumes st: "stk s (d # ds)" and "room s n"
    and r: "cast_data e (m_eps s) (m_prec s) toidx d = Ok (Some r)"
    and "data_bytes r \<le> n + data_bytes d"
  shows "\<exists>s'. OpCast e toidx s = Ok s' \<and> stk s' (r # ds) \<and>
    room s' (n + data_bytes d - data_bytes r) \<and> frame s' = frame s"
proof -
  have "OpCast e toidx s = rbind (PopData s) (\<lambda>(_, s). rbind (Ok r) (\<lambda>r. push_data r s))"
    by (simp add: OpCast_def stk_top [OF st] r replace_top_def)
  then show ?thesis
    using unary [OF assms(1,2) _ cast_plain [OF r] assms(4), of "\<lambda>_. Ok r"] by simp
qed

lemma op_cast_same:
  assumes "stk s (d # ds)" "cast_data e (m_eps s) (m_prec s) toidx d = Ok None"
  shows "OpCast e toidx s = Ok s"
  using assms by (simp add: OpCast_def stk_top replace_top_def)

end

interpretation os: operand_stack stack_of stack_room ctl
proof unfold_locales
  show "m_eps s' = m_eps s" if "ctl s' = ctl s" for s s' using that by (metis ctl_fields(1))
qed (auto dest: stack_of_top stack_of_plain)

lemmas op_arithmetic = os.op_arithmetic
lemmas op_cast = os.op_cast

section \<open>Integer arithmetic\<close>

lemma sint_of_int [simp]: "- (2 ^ 63) \<le> x \<Longrightarrow> x < 2 ^ 63 \<Longrightarrow> sint (word_of_int x :: t_int) = x"
  by (subst sint_sbintrunc') (simp add: signed_take_bit_int_eq_self)

lemma sint_bounds: "- (2 ^ 63) \<le> sint (i :: t_int)" "sint (i :: t_int) < 2 ^ 63"
  using sint_range_size [of i] by (simp_all add: word_size)

lemma int_result_Ok: "int_result x = Ok r \<Longrightarrow> sint r = x"
  by (auto simp: int_result_def int_min_def int_max_def split: if_splits)

lemma int_result_sint [simp]: "int_result (sint (i :: t_int)) = Ok i"
  using sint_bounds [of i] by (simp add: int_result_def int_min_def int_max_def)

lemma int_result_cases:
  obtains "int_min \<le> x" "x \<le> int_max" "int_result x = Ok (word_of_int x)" "sint (word_of_int x :: t_int) = x"
  | "2 ^ 63 \<le> \<bar>x\<bar>" "int_result x = Undefined UB_Overflow"
  by (cases "int_min \<le> x \<and> x \<le> int_max") (auto simp: int_result_def int_min_def int_max_def)

lemma power_loop_eq:
  assumes x: "2 \<le> \<bar>sint x\<bar>" and "sint acc \<noteq> 0"
  shows "power_loop x n acc = int_result (sint acc * sint x ^ n)"
  using assms(2)
proof (induction n arbitrary: acc)
  case (Suc n)
  let ?p = "sint acc * sint x"
  show ?case
  proof (cases rule: int_result_cases [of ?p])
    case 1
    moreover have "?p \<noteq> 0" using Suc.prems x by auto
    ultimately show ?thesis using Suc.IH [of "word_of_int ?p"] by (simp add: mult.assoc)
  next
    case 2
    show ?thesis
    proof (cases n)
      case (Suc m)
      have "2 \<le> \<bar>sint x\<bar> ^ n" using x self_le_power [of "\<bar>sint x\<bar>" n] Suc by auto
      then have "2 ^ 63 * 2 \<le> \<bar>?p\<bar> * \<bar>sint x\<bar> ^ n" using 2(1) by (intro mult_mono) auto
      then have "2 ^ 64 \<le> \<bar>sint acc * sint x ^ Suc n\<bar>"
        by (simp add: abs_mult power_abs mult.assoc)
      then have "int_result (sint acc * sint x ^ Suc n) = Undefined UB_Overflow"
        by (auto simp: int_result_def int_min_def int_max_def)
      then show ?thesis using 2(2) by simp
    qed (use 2 in simp)
  qed
qed simp

text \<open>A base of absolute value at most one never overflows.\<close>

lemma power_loop_small:
  "sint x \<in> {-1, 0, 1} \<Longrightarrow> \<bar>sint acc\<bar> \<le> 1 \<Longrightarrow>
   power_loop x n acc = int_result (sint acc * sint x ^ n)"
proof (induction n arbitrary: acc)
  case (Suc n)
  have "\<bar>sint acc * sint x\<bar> \<le> 1 * 1"
    unfolding abs_mult using Suc.prems by (intro mult_mono) auto
  then show ?case
    using Suc.IH [of "word_of_int (sint acc * sint x)"] Suc.prems
    by (cases rule: int_result_cases [of "sint acc * sint x"]) (auto simp: mult.assoc)
qed simp

lemma power_t_int_eq:
  assumes "0 \<le> sint n"
  shows "power_t_int x n = int_result (sint x ^ nat (sint n))"
proof (cases "n = 0")
  case True
  then show ?thesis by (simp add: power_t_int_def int_result_def int_min_def int_max_def)
next
  case False
  then have "sint n \<noteq> 0" by (metis signed_0 signed_word_eqI)
  then have k: "nat (sint n) = Suc (nat (sint n - 1))" using assms by simp
  have "power_loop x m x = int_result (sint x * sint x ^ m)" for m
  proof (cases "2 \<le> \<bar>sint x\<bar>")
    case True
    then show ?thesis by (intro power_loop_eq) auto
  next
    case False
    then have "sint x \<in> {-1, 0, 1}" by auto
    then show ?thesis by (intro power_loop_small) auto
  qed
  then show ?thesis using assms False by (simp add: power_t_int_def k)
qed

text \<open>Sums, differences and products are exact; so are quotients and remainders.\<close>

lemma arith_int_exact:
  assumes "arith_int op a b = Ok r"
  shows "op = CHR ''+'' \<Longrightarrow> sint r = sint a + sint b"
    "op = CHR ''-'' \<Longrightarrow> sint r = sint a - sint b"
    "op = CHR ''*'' \<Longrightarrow> sint r = sint a * sint b"
    "op = CHR ''/'' \<Longrightarrow> sint b \<noteq> 0 \<and> sint r = sint a sdiv sint b"
    "op = CHR ''%'' \<Longrightarrow> sint b \<noteq> 0 \<and> sint r = sint a smod sint b"
  using assms by (auto simp: arith_int_def Let_def rbind_eq_Ok int_result_Ok split: if_splits)

lemma arith_int_div_mod:
  assumes "arith_int CHR ''/'' a b = Ok q" "arith_int CHR ''%'' a b = Ok r"
  shows "sint a = sint q * sint b + sint r \<and> \<bar>sint r\<bar> < \<bar>sint b\<bar>"
proof -
  have "sint b \<noteq> 0" "sint q = sint a sdiv sint b" "sint r = sint a smod sint b"
    using arith_int_exact [OF assms(1)] arith_int_exact [OF assms(2)] by auto
  then show ?thesis
    using sdiv_mult_smod_eq [of "sint a" "sint b"]
    by (auto simp: signed_modulo_int_def abs_mult abs_sgn_eq)
qed

section \<open>Indices\<close>

text \<open>For a non-empty array the index is taken modulo the length; nothing is out of range.\<close>

lemma safe_array_index_mod:
  assumes "0 < n"
  shows "safe_array_index lo idx n = Ok (idx mod n)"
proof -
  have eq: "(if idx smod n < 0 then idx smod n + n else idx smod n) = idx mod n"
  proof (cases "0 \<le> idx")
    case True
    then have "idx smod n = idx mod n" using assms by (simp add: signed_modulo_int_def sgn_if)
    then show ?thesis using pos_mod_sign [OF assms, of idx] by simp
  next
    case False
    then have m: "idx smod n = - ((- idx) mod n)" using assms by (simp add: signed_modulo_int_def sgn_if)
    show ?thesis
    proof (cases "n dvd idx")
      case True
      then show ?thesis using m by (simp add: dvd_eq_mod_eq_0 zmod_zminus1_eq_if)
    next
      case no: False
      then have "(- idx) mod n = n - idx mod n" using zmod_zminus1_eq_if [of idx n] by (simp add: dvd_eq_mod_eq_0)
      then show ?thesis using m pos_mod_bound [OF assms, of idx] by simp
    qed
  qed
  show ?thesis
    unfolding safe_array_index_def Let_def eq
    using assms pos_mod_bound [OF assms, of idx] pos_mod_sign [OF assms, of idx]
    by (simp add: not_le not_less)
qed

lemma safe_array_index_bounds:
  "safe_array_index lo idx n = Ok i \<Longrightarrow> 0 \<le> i \<and> i < n"
  by (auto simp: safe_array_index_def Let_def split: if_splits)

section \<open>Conversions\<close>

lemma real_to_int_of_int:
  assumes "\<bar>sint i\<bar> < 2 ^ 53"
  shows "real_to_int (int_to_real i) = Ok i"
  using assms trunc_of_int [OF assms] sint_bounds [of i]
  by (simp add: real_to_int_def int_to_real_def real_to_def int_min_def int_max_def)

lemma digit_of [simp]: "n < 10 \<Longrightarrow> of_char (digit n) = 48 + n"
  by (simp add: digit_def)

lemma digit_facts:
  "n < 10 \<Longrightarrow> is_digit (digit n)" "n < 10 \<Longrightarrow> digit_val (digit n) = int n"
  by (simp_all add: is_digit_def digit_val_def)

lemma show_nat_digits: "c \<in> set (show_nat n) \<Longrightarrow> is_digit c"
proof (induction n rule: show_nat.induct)
  case (1 n)
  then show ?case
    by (subst (asm) show_nat.simps) (auto simp: digit_facts split: if_splits)
qed

lemma digits_val_snoc: "digits_val (ds @ [c]) = 10 * digits_val ds + digit_val c"
  by (simp add: digits_val_def)

lemma digits_val_show: "digits_val (show_nat n) = int n"
proof (induction n rule: show_nat.induct)
  case (1 n)
  show ?case
  proof (cases "n < 10")
    case True
    then show ?thesis by (subst show_nat.simps) (simp add: digits_val_def digit_facts)
  next
    case False
    then show ?thesis
      using 1 by (subst show_nat.simps)
        (simp add: digits_val_snoc digit_facts zdiv_int zmod_int)
  qed
qed

lemma show_nat_nonempty: "show_nat n \<noteq> []"
  by (subst show_nat.simps) simp

lemma digit_not_special: "is_digit c \<Longrightarrow> \<not> is_ws c \<and> c \<noteq> CHR ''-'' \<and> c \<noteq> CHR ''+''"
  by (auto simp: is_digit_def is_ws_def)

lemma read_digits:
  assumes "ds \<noteq> []" "\<forall>c \<in> set ds. is_digit c"
  shows "dropWhile is_ws ds = ds" "read_sign ds = (False, ds)"
    "takeWhile is_digit ds = ds" "dropWhile is_digit ds = []"
  using assms by (cases ds; auto simp: digit_not_special)+

text \<open>The printed form of an integer reads back as that integer, with nothing left.\<close>

lemma read_show_int: "read_int (show_int i) = (i, [])"
proof -
  have b: "int_min \<le> sint i" "sint i \<le> int_max"
    using sint_bounds [of i] by (simp_all add: int_min_def int_max_def)
  define ds where "ds = show_nat (nat \<bar>sint i\<bar>)"
  have digs: "\<forall>c \<in> set ds. is_digit c" and ne: "ds \<noteq> []"
    unfolding ds_def using show_nat_digits show_nat_nonempty by auto
  note d = read_digits [OF ne digs]
  have v: "digits_val ds = \<bar>sint i\<bar>" by (simp add: ds_def digits_val_show)
  show ?thesis
  proof (cases "sint i < 0")
    case True
    then have "show_int i = CHR ''-'' # ds" by (simp add: show_int_def ds_def)
    then show ?thesis
      using b True ne by (simp add: read_int_def is_ws_def d v Let_def)
  next
    case False
    then have "show_int i = ds" by (simp add: show_int_def ds_def)
    then show ?thesis
      using b False ne by (simp add: read_int_def d v Let_def)
  qed
qed

text \<open>At most twenty characters.\<close>

lemma length_show_nat: "0 < k \<Longrightarrow> n < 10 ^ k \<Longrightarrow> length (show_nat n) \<le> k"
proof (induction k arbitrary: n)
  case (Suc k)
  show ?case
  proof (cases "n < 10")
    case True
    then show ?thesis by (subst show_nat.simps) simp
  next
    case False
    then have "0 < k" using Suc.prems by (cases k) auto
    moreover have "n div 10 < 10 ^ k" using Suc.prems by (simp add: div_less_iff_less_mult mult.commute)
    ultimately show ?thesis using Suc.IH False by (subst show_nat.simps) simp
  qed
qed simp

lemma length_show_int: "length (show_int i) \<le> 20"
proof -
  have "nat (- sint i) < 10 ^ 19" "nat (sint i) < 10 ^ 19"
    using sint_bounds [of i] by (simp_all add: nat_less_iff)
  then have "length (show_nat (nat (- sint i))) \<le> 19" "length (show_nat (nat (sint i))) \<le> 19"
    by (intro length_show_nat; simp)+
  then show ?thesis by (simp add: show_int_def)
qed

section \<open>Bits and comparisons\<close>

lemma rot_inverse: "binary_int CHR ''l'' a n = Ok b \<Longrightarrow> binary_int CHR ''r'' b n = Ok a"
  by (auto simp: binary_int_def word_rot_gal)

lemma sint_div_bounds:
  "- (2 ^ 63) \<le> sint (a :: t_int) div 2 ^ k" "sint (a :: t_int) div 2 ^ k < 2 ^ 63"
proof -
  have "sint a div 2 ^ k = sint (signed_drop_bit k a)"
    by (simp add: sint_signed_drop_bit_eq drop_bit_eq_div)
  then show "- (2 ^ 63) \<le> sint a div 2 ^ k" "sint a div 2 ^ k < 2 ^ 63"
    using sint_bounds [of "signed_drop_bit k a"] by simp_all
qed

text \<open>A shift left multiplies, modulo the width; a shift right divides, rounding down.\<close>

lemma shift_left_int:
  "0 \<le> sint n \<Longrightarrow> sint n < 64 \<Longrightarrow>
   binary_int CHR ''<'' a n = Ok (word_of_int (sint a * 2 ^ nat (sint n)))"
  by (simp add: binary_int_def shift_count_def push_bit_eq_mult)

lemma shift_right_int:
  assumes "0 \<le> sint n" "sint n < 64"
  shows "binary_int CHR ''>'' a n = Ok (word_of_int (sint a div 2 ^ nat (sint n)))"
proof -
  have "signed_drop_bit (nat (sint n)) a = word_of_int (sint a div 2 ^ nat (sint n))"
  proof (rule signed_word_eqI)
    show "sint (signed_drop_bit (nat (sint n)) a) = sint (word_of_int (sint a div 2 ^ nat (sint n)) :: t_int)"
      by (simp add: sint_signed_drop_bit_eq drop_bit_eq_div sint_of_int [OF sint_div_bounds])
  qed
  then show ?thesis using assms by (simp add: binary_int_def shift_count_def)
qed

text \<open>Exactly one of less, equal, greater holds of two integers.\<close>

lemma compare_int_trichotomy:
  "compare_int OP_LEQU a b \<longleftrightarrow> compare_int OP_LT a b \<or> compare_int OP_EQU a b"
  "compare_int OP_GT a b \<longleftrightarrow> \<not> compare_int OP_LEQU a b"
  "compare_int OP_NEQU a b \<longleftrightarrow> \<not> compare_int OP_EQU a b"
  "compare_int OP_GEQU a b \<longleftrightarrow> compare_int OP_LEQU b a"
  by (auto simp: compare_int_def le_less signed_word_eqI)

text \<open>With a not-a-number no comparison of reals holds, not even inequality.\<close>

lemma r_mag_neg [simp]: "r_mag (r_neg w) = r_mag w"
proof -
  have "take_bit 63 (r_neg w) = take_bit 63 w"
    unfolding r_neg_def by (rule bit_word_eqI) (auto simp: bit_simps)
  then have "take_bit 63 (uint (r_neg w)) = take_bit 63 (uint w)"
    by (metis unsigned_take_bit_eq)
  then show ?thesis by (simp add: r_mag_def take_bit_eq_mod)
qed

lemma r_mag_abs [simp]: "r_mag (r_abs w) = r_mag w"
  using r_mag_range [of w] by (simp add: r_abs_def r_make_fields)

lemma r_isnan_mag [simp]: "r_isnan (r_neg w) = r_isnan w" "r_isnan (r_abs w) = r_isnan w"
  by (simp_all add: r_isnan_def)

lemma r_isnan_nan [simp]: "r_isnan r_nan"
  by (simp add: r_isnan_def r_nan_def r_mag_def)

lemma r_sub_nan: "r_isnan a \<or> r_isnan b \<Longrightarrow> r_isnan (r_sub a b)"
  by (auto simp: r_sub_def r_add_def)

lemma compare_real_nan:
  assumes "r_isnan a \<or> r_isnan b"
  shows "\<not> compare_real eps op a b"
  using assms r_sub_nan [OF assms]
  by (auto simp: compare_real_def r_lt_def r_le_def split: OpCode.splits)

end
