(* ===== verification/VmRunFacts.thy ===== *)
theory VmRunFacts
  imports VmRun VmOpsFacts
begin

text \<open>
  Facts about the main loop. First the invariant of the machine state: whatever the
  instruction, the configuration is kept and the registers stay within their types. Then the
  functional behaviour of the instructions with a body in \<open>VM::Run\<close>: immediate data,
  memory, arrays, calls and returns, interrupts.
\<close>

section \<open>The invariant of the state\<close>

definition evolves :: "vm \<Rightarrow> vm \<Rightarrow> bool" where
  "evolves s s' \<longleftrightarrow> m_checks s' = m_checks s \<and> m_memsize s' = m_memsize s \<and>
     m_code_range s' = m_code_range s \<and> m_zeropoppedvals s' = m_zeropoppedvals s \<and>
     (vm_wf s \<longrightarrow> vm_wf s')"

named_theorems evo \<open>each operation of the machine evolves the state\<close>

lemma evolves_refl [simp]: "evolves s s"
  by (simp add: evolves_def)

lemma evolves_trans: "evolves s t \<Longrightarrow> evolves t u \<Longrightarrow> evolves s u"
  by (auto simp: evolves_def)

lemma evolves_updates [intro]:
  "evolves s t \<Longrightarrow> addr_range a \<Longrightarrow> evolves s (t\<lparr>m_ip := a\<rparr>)"
  "evolves s t \<Longrightarrow> addr_range a \<Longrightarrow> evolves s (t\<lparr>m_sp := a\<rparr>)"
  "evolves s t \<Longrightarrow> addr_range a \<Longrightarrow> evolves s (t\<lparr>m_bp := a\<rparr>)"
  "evolves s t \<Longrightarrow> evolves s (t\<lparr>m_mem := m\<rparr>)"
  "evolves s t \<Longrightarrow> evolves s (t\<lparr>m_cout := str\<rparr>)"
  "evolves s t \<Longrightarrow> evolves s (t\<lparr>m_cin := str\<rparr>)"
  "evolves s t \<Longrightarrow> evolves s (t\<lparr>m_eps := r\<rparr>)"
  "evolves s t \<Longrightarrow> evolves s (t\<lparr>m_prec := i\<rparr>)"
  "evolves s t \<Longrightarrow> evolves s (t\<lparr>m_debug := b\<rparr>)"
  "evolves s t \<Longrightarrow> evolves s (t\<lparr>m_timer_running := b\<rparr>)"
  "evolves s t \<Longrightarrow> evolves s (t\<lparr>m_timer_ticks := i\<rparr>)"
  "evolves s t \<Longrightarrow> evolves s (t\<lparr>m_irqs := (m_irqs t)[k := b]\<rparr>)"
  "evolves s t \<Longrightarrow> evolves s (t\<lparr>m_isrs := (m_isrs t)[k := ao]\<rparr>)"
  by (auto simp: evolves_def vm_wf_def)

lemma evolves_store [evo]: "store s a bs = Ok s' \<Longrightarrow> evolves s s'"
  by (auto simp: store_def split: if_splits)

lemma evolves_copy_to [evo]: "copy_to s a bs n = Ok s' \<Longrightarrow> evolves s s'"
  by (auto simp: copy_to_def evo split: if_splits)

lemma evolves_zero_popped [evo]: "zero_popped a n s = Ok s' \<Longrightarrow> evolves s s'"
  by (auto simp: zero_popped_def evo split: if_splits)

lemma evolves_PopRaw [evo]: "PopRaw c s = Ok (v, s') \<Longrightarrow> evolves s s'"
  by (auto simp: PopRaw_def rbind_eq_Ok dest!: evo)

lemma evolves_sp: "evolves (s\<lparr>m_sp := wrap32 a\<rparr>) s' \<Longrightarrow> evolves s s'"
  by (rule evolves_trans [OF evolves_updates(2)]) simp_all

lemma evolves_sp_store:
  "store (s\<lparr>m_sp := wrap32 a\<rparr>) b bs = Ok s' \<Longrightarrow> evolves s s'"
  "copy_to (s\<lparr>m_sp := wrap32 a\<rparr>) b bs n = Ok s' \<Longrightarrow> evolves s s'"
  by (blast dest: evo intro: evolves_sp)+

lemma evolves_PushRaw [evo]: "PushRaw c v s = Ok s' \<Longrightarrow> evolves s s'"
  by (auto simp: PushRaw_def rbind_eq_Ok Let_def dest!: evolves_sp_store)

lemma evolves_PushFixed [evo]: "PushFixed c v s = Ok s' \<Longrightarrow> evolves s s'"
  by (auto simp: PushFixed_def rbind_eq_Ok Let_def dest!: evolves_sp_store)

lemma evolves_PopSeq [evo]: "PopSeq c s = Ok (v, s') \<Longrightarrow> evolves s s'"
  by (auto simp: PopSeq_def rbind_eq_Ok Let_def split: prod.splits dest!: evo
      intro: evolves_trans)

lemma evolves_PushSeq [evo]: "PushSeq c v s = Ok s' \<Longrightarrow> evolves s s'"
  by (auto simp: PushSeq_def rbind_eq_Ok Let_def dest!: evolves_sp_store evolves_PushRaw
      intro: evolves_trans)

lemma evolves_WriteMemRaw [evo]: "WriteMemRaw c a v s = Ok s' \<Longrightarrow> evolves s s'"
  by (auto simp: WriteMemRaw_def rbind_eq_Ok dest!: evo)

lemma evolves_WriteArrayRaw [evo]: "WriteArrayRaw c a v s = Ok s' \<Longrightarrow> evolves s s'"
  by (auto simp: WriteArrayRaw_def rbind_eq_Ok Let_def dest!: evo intro: evolves_trans)

lemma evolves_WriteArray [evo]: "WriteArray c a v raw s = Ok s' \<Longrightarrow> evolves s s'"
  by (auto simp: WriteArray_def rbind_eq_Ok dest!: evo intro: evolves_trans split: if_splits)

lemma evolves_WriteMemRawStr [evo]: "WriteMemRawStr a v s = Ok s' \<Longrightarrow> evolves s s'"
  by (auto simp: WriteMemRawStr_def rbind_eq_Ok Let_def dest!: evo intro: evolves_trans)

lemma evolves_write_range [evo]: "write_range c src delta n cur a s = Ok s' \<Longrightarrow> evolves s s'"
proof (induction n arbitrary: cur a s)
  case (Suc n)
  then show ?case by (fastforce simp: rbind_eq_Ok dest!: evolves_WriteMemRaw intro: evolves_trans)
qed simp

lemma evolves_WriteArrayElem [evo]: "WriteArrayElem c a d idx s = Ok s' \<Longrightarrow> evolves s s'"
  by (auto simp: WriteArrayElem_def rbind_eq_Ok Let_def dest!: evo split: option.splits)

lemma evolves_write_span [evo]: "write_span c src a idx1 idx2 s = Ok s' \<Longrightarrow> evolves s s'"
  by (auto simp: write_span_def rbind_eq_Ok Let_def simp del: write_range.simps dest!: evo)

lemma evolves_WriteArrayElemRange [evo]:
  "WriteArrayElemRange c a d idx1 idx2 s = Ok s' \<Longrightarrow> evolves s s'"
  by (auto simp: WriteArrayElemRange_def dest!: evo split: option.splits)

lemma evolves_PushAddress [evo]: "PushAddress a ty s = Ok s' \<Longrightarrow> evolves s s'"
  by (auto simp: PushAddress_def rbind_eq_Ok dest!: evo intro: evolves_trans)

lemma PopRaw_addr_range: "PopRaw addr_codec s = Ok (a, s') \<Longrightarrow> addr_range a"
  by (auto simp: PopRaw_def rbind_eq_Ok addr_codec_def)

lemma resolve_addr_range: "resolve_addr ty a s = Ok x \<Longrightarrow> addr_range a \<Longrightarrow> addr_range x"
  by (auto simp: resolve_addr_def split: VMType.splits)

lemma evolves_PopAddress [evo]: "PopAddress s = Ok (a, s') \<Longrightarrow> evolves s s' \<and> addr_range a"
  unfolding PopAddress_def
  by (elim rbind_OkE) (auto elim!: rbind_OkE dest: resolve_addr_range PopRaw_addr_range
      evolves_PopRaw intro: evolves_trans)

lemma evolves_pop_as [evo]:
  "pop_as f m = Ok (d, s') \<Longrightarrow> \<exists>v. m = Ok (v, s')"
  by (auto simp: pop_as_def rbind_eq_Ok)

lemma evolves_PopData [evo]: "PopData s = Ok (d, s') \<Longrightarrow> evolves s s'"
proof -
  assume a: "PopData s = Ok (d, s')"
  then obtain b s1 where 1: "PopRaw byte_codec s = Ok (b, s1)"
    by (auto simp: PopData_def rbind_eq_Ok)
  have "evolves s1 s'"
    using a by (auto simp: PopData_def 1 PopComplex_def PopQuaternion_def PopString_def
      dest!: evo split: VMType.splits)
  then show ?thesis by (rule evolves_trans [OF evolves_PopRaw [OF 1]])
qed

lemma evolves_PushData [evo]: "PushData d ty e s = Ok s' \<Longrightarrow> evolves s s'"
  by (cases d) (auto simp: PushData_def push_tagged_def PushString_def PushArray_def PushComplex_def
      PushQuaternion_def rbind_eq_Ok dest!: evo intro: evolves_trans split: if_splits)

lemma evolves_WriteMemData [evo]: "WriteMemData a d s = Ok s' \<Longrightarrow> evolves s s'"
  by (cases d) (auto simp: WriteMemData_def write_tagged_def rbind_eq_Ok dest!: evo intro: evolves_trans)

lemma evolves_PopBool [evo]: "PopBool s = Ok (b, s') \<Longrightarrow> evolves s s'"
  unfolding PopBool_def
  by (elim rbind_OkE) (auto dest!: evo split: t_data.splits)

lemma evolves_PushBool [evo]: "PushBool b s = Ok s' \<Longrightarrow> evolves s s'"
  by (auto simp: PushBool_def dest!: evo)

lemma evolves_PopInt [evo]: "PopInt s = Ok (i, s') \<Longrightarrow> evolves s s'"
  by (auto simp: PopInt_def rbind_eq_Ok dest!: evo)

lemma evolves_pop_elems [evo]: "pop_elems c n s = Ok (xs, s') \<Longrightarrow> evolves s s'"
proof (induction n arbitrary: xs s)
  case (Suc n)
  then show ?case
    by (fastforce simp: rbind_eq_Ok dest!: evolves_PopData intro: evolves_trans split: option.splits)
qed simp

lemma evolves_PopArray [evo]: "PopArray c raw s = Ok (v, s') \<Longrightarrow> evolves s s'"
  by (auto simp: PopArray_def rbind_eq_Ok dest!: evo intro: evolves_trans split: if_splits)

lemma evolves_ReadArrayElem [evo]: "ReadArrayElem c arr idx s = Ok s' \<Longrightarrow> evolves s s'"
  by (auto simp: ReadArrayElem_def rbind_eq_Ok dest!: evo)

lemma evolves_ReadArrayElemRange [evo]: "ReadArrayElemRange c arr idx1 idx2 s = Ok s' \<Longrightarrow> evolves s s'"
  by (auto simp: ReadArrayElemRange_def rbind_eq_Ok dest!: evo)

text \<open>The operators.\<close>

lemma evolves_pop2:
  "rbind (PopData s) (\<lambda>(v2, s). rbind (PopData s) (\<lambda>(v1, s). f v1 v2 s)) = Ok s' \<Longrightarrow>
   (\<And>v1 v2 s. f v1 v2 s = Ok s' \<Longrightarrow> evolves s s') \<Longrightarrow> evolves s s'"
  by (auto simp: rbind_eq_Ok dest!: evolves_PopData) (metis evolves_trans)

lemma evolves_replace_top [evo]: "replace_top r s = Ok s' \<Longrightarrow> evolves s s'"
  by (auto simp: replace_top_def rbind_eq_Ok dest!: evo intro: evolves_trans split: option.splits)

lemma evolves_OpCast [evo]: "OpCast e toidx s = Ok s' \<Longrightarrow> evolves s s'"
  by (auto simp: OpCast_def rbind_eq_Ok dest!: evo)

lemma evolves_OpCastToArray [evo]: "OpCastToArray c to_elem sz s = Ok s' \<Longrightarrow> evolves s s'"
  by (auto simp: OpCastToArray_def rbind_eq_Ok dest!: evo intro: evolves_trans
      split: option.splits if_splits)

lemma evolves_OpArithmetic [evo]: "OpArithmetic e op s = Ok s' \<Longrightarrow> evolves s s'"
  unfolding OpArithmetic_def by (erule evolves_pop2) (auto simp: rbind_eq_Ok dest!: evo)

lemma evolves_OpUSub [evo]: "OpUSub e s = Ok s' \<Longrightarrow> evolves s s'"
  by (auto simp: OpUSub_def rbind_eq_Ok dest!: evo intro: evolves_trans)

lemma evolves_OpBinary [evo]: "OpBinary op s = Ok s' \<Longrightarrow> evolves s s'"
  unfolding OpBinary_def by (erule evolves_pop2) (auto simp: rbind_eq_Ok dest!: evo)

lemma evolves_OpBinNot [evo]: "OpBinNot s = Ok s' \<Longrightarrow> evolves s s'"
  by (auto simp: OpBinNot_def rbind_eq_Ok dest!: evo intro: evolves_trans)

lemma evolves_OpComparison [evo]: "OpComparison e op s = Ok s' \<Longrightarrow> evolves s s'"
  unfolding OpComparison_def by (erule evolves_pop2) (auto simp: rbind_eq_Ok dest!: evo)

lemma evolves_OpLogical [evo]: "OpLogical op s = Ok s' \<Longrightarrow> evolves s s'"
  by (auto simp: OpLogical_def rbind_eq_Ok dest!: evo intro: evolves_trans)

lemma evolves_OpNot [evo]: "OpNot s = Ok s' \<Longrightarrow> evolves s s'"
  by (auto simp: OpNot_def rbind_eq_Ok dest!: evo intro: evolves_trans)

lemma evolves_OpMatrixMultiplication [evo]: "OpMatrixMultiplication e s = Ok s' \<Longrightarrow> evolves s s'"
  by (auto simp: OpMatrixMultiplication_def rbind_eq_Ok dest!: evo) (meson evolves_trans)

text \<open>The external functions.\<close>

lemma evolves_RequestInterrupt [evo]: "RequestInterrupt n s = Ok s' \<Longrightarrow> evolves s s'"
  by (auto simp: RequestInterrupt_def split: if_splits)

lemma evolves_SetISR [evo]: "SetISR n a s = Ok s' \<Longrightarrow> evolves s s'"
  by (auto simp: SetISR_def split: if_splits)

lemma evolves_pop_real_arg [evo]: "pop_real_arg e s = Ok (r, s') \<Longrightarrow> evolves s s'"
  by (auto simp: pop_real_arg_def rbind_eq_Ok dest!: evo intro: evolves_trans)

lemma evolves_pop_int_arg [evo]: "pop_int_arg e s = Ok (i, s') \<Longrightarrow> evolves s s'"
  by (auto simp: pop_int_arg_def rbind_eq_Ok dest!: evo intro: evolves_trans)

lemma evolves_pop_str_arg [evo]: "pop_str_arg e s = Ok (str, s') \<Longrightarrow> evolves s s'"
  by (auto simp: pop_str_arg_def rbind_eq_Ok dest!: evo intro: evolves_trans)

lemma evolves_real_fun [evo]: "real_fun e f s = Ok (r, s') \<Longrightarrow> evolves s s'"
  by (auto simp: real_fun_def rbind_eq_Ok dest!: evo)

lemma evolves_ext_set_isr [evo]: "ext_set_isr e s = Ok (r, s') \<Longrightarrow> evolves s s'"
  by (auto simp: ext_set_isr_def rbind_eq_Ok dest!: evo) (meson evolves_trans)

lemma evolves_ext_set_timer [evo]: "ext_set_timer e s = Ok (r, s') \<Longrightarrow> evolves s s'"
  by (auto simp: ext_set_timer_def StartTimer_def StopTimer_def rbind_eq_Ok dest!: evo split: if_splits)

lemma evolves_CallExternal [evo]: "CallExternal e name s = Ok (r, s') \<Longrightarrow> evolves s s'"
  unfolding CallExternal_def
  by (auto simp: rbind_eq_Ok write_out_def Let_def case_prod_beta dest!: evo split: if_splits
      intro: evolves_trans)

text \<open>The instructions of the main loop.\<close>

lemma evolves_move_sp [evo]: "move_sp delta s = Ok s' \<Longrightarrow> evolves s s'"
  by (auto simp: move_sp_def rbind_eq_Ok)

lemma evolves_zero_mem [evo]: "zero_mem a n s = Ok s' \<Longrightarrow> evolves s s'"
  by (auto simp: zero_mem_def dest!: evo split: if_splits)

lemma evolves_op_push [evo]: "op_push s = Ok s' \<Longrightarrow> evolves s s'"
  by (auto simp: op_push_def rbind_eq_Ok dest!: evolves_PushData
      elim!: evolves_trans [OF evolves_updates(1), rotated 2])

lemma evolves_op_wrmem [evo]: "op_wrmem s = Ok s' \<Longrightarrow> evolves s s'"
  by (auto simp: op_wrmem_def rbind_eq_Ok dest!: evo) (meson evolves_trans)

lemma evolves_op_rdmem [evo]: "op_rdmem s = Ok s' \<Longrightarrow> evolves s s'"
  by (auto simp: op_rdmem_def rbind_eq_Ok dest!: evo) (meson evolves_trans)

lemma evolves_op_rdarr [evo]: "op_rdarr s = Ok s' \<Longrightarrow> evolves s s'"
  unfolding op_rdarr_def
  by (elim rbind_OkE) (auto elim!: rbind_OkE dest!: evo split: t_data.splits intro: evolves_trans)

lemma evolves_op_rdarrr [evo]: "op_rdarrr s = Ok s' \<Longrightarrow> evolves s s'"
  unfolding op_rdarrr_def
  by (elim rbind_OkE)
    (auto elim!: rbind_OkE dest!: evo split: t_data.splits; meson evolves_trans)

lemma evolves_op_wrarr [evo]: "op_wrarr s = Ok s' \<Longrightarrow> evolves s s'"
  unfolding op_wrarr_def Let_def
  by (elim rbind_OkE)
    (auto elim!: rbind_OkE dest!: evo split: VMType.splits; meson evolves_trans)

lemma evolves_write_str_range [evo]: "write_str_range a d i1 i2 s = Ok s' \<Longrightarrow> evolves s s'"
  by (auto simp: write_str_range_def dest!: evo split: t_data.splits)

lemma evolves_op_wrarrr [evo]: "op_wrarrr s = Ok s' \<Longrightarrow> evolves s s'"
  unfolding op_wrarrr_def Let_def
  by (elim rbind_OkE)
    (auto elim!: rbind_OkE dest!: evo split: VMType.splits; meson evolves_trans)

lemma evolves_op_makearr [evo]: "op_makearr c s = Ok s' \<Longrightarrow> evolves s s'"
  by (auto simp: op_makearr_def rbind_eq_Ok dest!: evo intro: evolves_trans)

lemma evolves_op_toarr [evo]: "op_toarr c f s = Ok s' \<Longrightarrow> evolves s s'"
  by (auto simp: op_toarr_def rbind_eq_Ok dest!: evo intro: evolves_trans)

lemma evolves_op_jmp [evo]: "op_jmp s = Ok s' \<Longrightarrow> evolves s s'"
  by (auto simp: op_jmp_def rbind_eq_Ok dest!: evo)

lemma evolves_op_jmpcnd [evo]: "op_jmpcnd s = Ok s' \<Longrightarrow> evolves s s'"
  by (auto simp: op_jmpcnd_def rbind_eq_Ok dest!: evo split: if_splits)
    (metis evolves_trans evolves_updates(1))+

lemma evolves_set_bp: "evolves s (s\<lparr>m_bp := m_sp s\<rparr>)"
  by (auto simp: evolves_def vm_wf_def)

lemma evolves_set_sp: "evolves s (s\<lparr>m_sp := m_bp s\<rparr>)"
  by (auto simp: evolves_def vm_wf_def)

lemma evolves_pop_rets [evo]: "pop_rets f s = Ok (vs, s') \<Longrightarrow> evolves s s'"
proof (induction f s arbitrary: vs s' rule: pop_rets.induct)
  case (1 f s)
  from 1(2) obtain lim where lim: "int_result (m_sp s + sint f) = Ok lim"
    by (subst (asm) pop_rets.simps) (auto simp: rbind_eq_Ok)
  show ?case
  proof (cases "sint lim < m_bp s")
    case True
    then obtain v t ws where "PopData s = Ok (v, t)" "pop_rets f t = Ok (ws, s')"
      using 1(2) lim by (subst (asm) pop_rets.simps) (auto simp: rbind_eq_Ok)
    then show ?thesis using 1(1) [OF lim True] by (metis evolves_PopData evolves_trans)
  next
    case False
    then show ?thesis using 1(2) lim by (subst (asm) pop_rets.simps) simp
  qed
qed

lemma evolves_pop_args [evo]: "pop_args n s = Ok s' \<Longrightarrow> evolves s s'"
proof (induction n arbitrary: s)
  case (Suc n)
  then show ?case by (fastforce simp: rbind_eq_Ok dest!: evolves_PopData intro: evolves_trans)
qed simp

lemma evolves_push_rets [evo]: "push_rets vs s = Ok s' \<Longrightarrow> evolves s s'"
proof (induction vs arbitrary: s)
  case (Cons v vs)
  then show ?case by (fastforce simp: rbind_eq_Ok dest!: evolves_PushData intro: evolves_trans)
qed simp

lemma evolves_op_call [evo]:
  assumes "op_call s = Ok s'"
  shows "evolves s s'"
proof -
  obtain a s1 i s2 s3 s4 s5 where "PopAddress s = Ok (a, s1)" "PopInt s1 = Ok (i, s2)"
      "PushAddress (m_ip s2) VM_ADDR_MEM s2 = Ok s3" "PushAddress (m_bp s3) VM_ADDR_MEM s3 = Ok s4"
      "move_sp (- sint i) (s4\<lparr>m_bp := m_sp s4\<rparr>) = Ok s5" "s' = s5\<lparr>m_ip := a\<rparr>"
    using assms by (auto simp: op_call_def rbind_eq_Ok)
  then have "addr_range a" "s' = s5\<lparr>m_ip := a\<rparr>"
      and c: "evolves s s1" "evolves s1 s2" "evolves s2 s3" "evolves s3 s4"
        "evolves (s4\<lparr>m_bp := m_sp s4\<rparr>) s5"
    by (auto dest: evo)
  moreover have "evolves s s5"
    using c evolves_set_bp [of s4] by (meson evolves_trans)
  ultimately show ?thesis by auto
qed

lemma evolves_op_ret [evo]:
  assumes "op_ret s = Ok s'"
  shows "evolves s s'"
proof -
  obtain na s1 f s2 vs s3 s4 bp s5 ip s6 s7 where
      "PopInt s = Ok (na, s1)" "PopInt s1 = Ok (f, s2)" "pop_rets f s2 = Ok (vs, s3)"
      "(if m_zeropoppedvals s3 then zero_mem (m_sp s3) (m_bp s3 - m_sp s3) s3 else Ok s3) = Ok s4"
      "PopAddress (s4\<lparr>m_sp := m_bp s4\<rparr>) = Ok (bp, s5)" "PopAddress (s5\<lparr>m_bp := bp\<rparr>) = Ok (ip, s6)"
      "pop_args (nat (sint na)) (s6\<lparr>m_ip := ip\<rparr>) = Ok s7" "push_rets vs s7 = Ok s'"
    using assms by (auto simp: op_ret_def rbind_eq_Ok)
  then have c: "evolves s s1" "evolves s1 s2" "evolves s2 s3" "evolves s3 s4"
      "evolves (s4\<lparr>m_sp := m_bp s4\<rparr>) s5" "evolves (s5\<lparr>m_bp := bp\<rparr>) s6"
      "evolves (s6\<lparr>m_ip := ip\<rparr>) s7" "evolves s7 s'" and a: "addr_range bp" "addr_range ip"
    by (auto dest: evo split: if_splits)
  have "evolves s5 (s5\<lparr>m_bp := bp\<rparr>)" "evolves s6 (s6\<lparr>m_ip := ip\<rparr>)" using a by auto
  with c evolves_set_sp [of s4] show ?thesis by (meson evolves_trans)
qed

lemma evolves_op_extcall [evo]: "op_extcall e s = Ok s' \<Longrightarrow> evolves s s'"
  by (auto simp: op_extcall_def rbind_eq_Ok dest!: evo) (meson evolves_trans)

lemma evolves_op_addframe [evo]: "op_addframe s = Ok s' \<Longrightarrow> evolves s s'"
  by (auto simp: op_addframe_def rbind_eq_Ok dest!: evo intro: evolves_trans)

lemma evolves_op_remframe [evo]: "op_remframe s = Ok s' \<Longrightarrow> evolves s s'"
  by (auto simp: op_remframe_def rbind_eq_Ok dest!: evo split: if_splits) (meson evolves_trans)+

lemma evolves_cont [evo]: "cont m = Ok (st, s') \<Longrightarrow> m = Ok s'"
  by (auto simp: cont_def rbind_eq_Ok)

lemma evolves_exec [evo]: "exec e op s = Ok (st, s') \<Longrightarrow> evolves s s'"
  by (cases op) (auto simp: exec_def dest!: evo)

lemma evolves_poll_irqs [evo]: "poll_irqs irqs s = (r, s') \<Longrightarrow> evolves s s'"
proof (induction irqs arbitrary: s)
  case (Cons irq irqs)
  have "evolves s (s\<lparr>m_irqs := (m_irqs s)[irq := False]\<rparr>)"
    by (intro evolves_updates) simp
  then show ?case
    using Cons by (auto simp: Let_def split: if_splits option.splits intro: evolves_trans)
qed simp

lemma evolves_fetch [evo]: "fetch s = Ok (op, s') \<Longrightarrow> evolves s s'"
  by (auto simp: fetch_def rbind_eq_Ok)

lemma evolves_next_op [evo]: "next_op s = Ok (op, s') \<Longrightarrow> evolves s s'"
  by (auto simp: next_op_def rbind_eq_Ok split: prod.splits option.splits dest!: evo intro: evolves_trans)

text \<open>The wrap-around leaves the instruction pointer below the end of the memory.\<close>

lemma wrap_ip_bounds:
  assumes "wrap_ip s = Ok s'" "0 \<le> m_memsize s"
  shows "m_ip s' < m_memsize s' \<and> evolves s s'"
proof (cases "m_ip s < m_memsize s")
  case True
  then show ?thesis using assms by (simp add: wrap_ip_def)
next
  case False
  then have pos: "0 < m_memsize s" and s': "s' = s\<lparr>m_ip := m_ip s mod m_memsize s\<rparr>"
    using assms by (auto simp: wrap_ip_def signed_modulo_int_def sgn_if split: if_splits)
  have "0 \<le> m_ip s mod m_memsize s" "m_ip s mod m_memsize s < m_memsize s" using pos by simp_all
  then show ?thesis using s' by (auto simp: evolves_def vm_wf_def addr_range_def)
qed

lemma step_evolves:
  assumes "step e s = Ok (st, s')" "0 \<le> m_memsize s"
  shows "evolves s s' \<and> (st \<noteq> Invalid \<longrightarrow> m_ip s' < m_memsize s')"
proof -
  obtain op s1 s2 where 1: "next_op s = Ok (op, s1)" "exec e op s1 = Ok (st, s2)"
      and 2: "(if st = Invalid then Ok (Invalid, s2) else rbind (wrap_ip s2) (\<lambda>s. Ok (st, s))) = Ok (st, s')"
    using assms(1) by (auto simp: step_def rbind_eq_Ok split: if_splits)
  have ev: "evolves s s2" using 1 by (blast dest: evo intro: evolves_trans)
  then have "0 \<le> m_memsize s2" using assms(2) by (simp add: evolves_def)
  then show ?thesis
    using 2 ev wrap_ip_bounds [of s2 s'] by (auto simp: rbind_eq_Ok split: if_splits intro: evolves_trans)
qed

text \<open>
  The states of a program: well-formed, and every instruction but the first one is fetched
  below the end of the memory.
\<close>

definition machine_inv :: "vm \<Rightarrow> bool" where
  "machine_inv s \<longleftrightarrow> vm_wf s \<and> 0 \<le> m_memsize s \<and> m_ip s < m_memsize s"

lemma mstep_inv: "mstep e s s' \<Longrightarrow> machine_inv s \<Longrightarrow> machine_inv s' \<and> evolves s s'"
proof (erule mstepE)
  assume "step e s = Ok (Running, s')" "machine_inv s"
  then show ?thesis using step_evolves [of e s Running s'] by (auto simp: machine_inv_def evolves_def)
next
  fix num
  assume "RequestInterrupt num s = Ok s'" "machine_inv s"
  then show ?thesis
    by (auto simp: RequestInterrupt_def machine_inv_def evolves_def vm_wf_def split: if_splits)
qed

lemma reachable_inv: "reachable e s0 s \<Longrightarrow> machine_inv s0 \<Longrightarrow> machine_inv s \<and> evolves s0 s"
  by (induction rule: reachable.induct) (auto dest: mstep_inv intro: evolves_trans)

lemma fetch_defined:
  assumes "machine_inv s" "m_checks s" "CheckPointerBounds s = Ok u"
  shows "\<exists>op s'. fetch s = Ok (op, s')"
proof -
  have "0 \<le> m_ip s" using assms(2,3) by (auto simp: CheckPointerBounds_def Let_def split: if_splits)
  then have "in_mem s (m_ip s) 1"
    using assms(1) by (auto simp: machine_inv_def in_mem_def vm_wf_def addr_range_def)
  then show ?thesis by (simp add: fetch_def load_ok)
qed

end
