(* ===== verification/VmInstrFacts.thy ===== *)
theory VmInstrFacts
  imports VmRunFacts
begin

text \<open>
  The functional behaviour of the instructions of \<open>VM::Run\<close>: immediate data, memory
  variables, jumps, the frame of a call and its removal by a return, arrays, interrupts.
\<close>

section \<open>Cells below an address\<close>

text \<open>
  \<open>cells_at s a cs\<close>: the cells \<open>cs\<close> lie in memory from address \<open>a\<close> up, as they do on the
  stack when the stack pointer is \<open>a\<close>.
\<close>

definition cells_at :: "vm \<Rightarrow> int \<Rightarrow> cell list \<Rightarrow> bool" where
  "cells_at s a cs \<longleftrightarrow> cells_on (s\<lparr>m_sp := a\<rparr>) cs"

lemma cells_at_sp: "cells_at s (m_sp s) cs = cells_on s cs"
  by (simp add: cells_at_def)

lemma enc_stack_simps [simp]:
  "enc_stack [] = []" "enc_stack (c # cs) = enc_cell c @ enc_stack cs"
  "enc_stack (cs @ ds) = enc_stack cs @ enc_stack ds"
  by (simp_all add: enc_stack_def)

lemma bytes_at_sp [simp]: "bytes_at (s\<lparr>m_sp := a\<rparr>) b bs = bytes_at s b bs"
  by (simp add: bytes_at_def in_mem_def)

lemma cells_at_iff:
  "cells_at s a cs \<longleftrightarrow> (\<forall>c \<in> set cs. cell_ok c) \<and> bytes_at s a (enc_stack cs) \<and>
     a + int (length (enc_stack cs)) + 8 \<le> m_memsize s \<and> m_memsize s < 2 ^ 31"
  by (auto simp: cells_at_def cells_on_def holds_def)

lemma cells_at_cong:
  "cells_at s a cs \<Longrightarrow> m_memsize s' = m_memsize s \<Longrightarrow> (\<And>x. a \<le> x \<Longrightarrow> m_mem s' x = m_mem s x) \<Longrightarrow>
   cells_at s' a cs"
  by (auto simp: cells_at_iff elim!: bytes_at_cong)

lemma cells_at_append:
  "cells_at s a (cs @ ds) \<longleftrightarrow> cells_at s (a + int (length (enc_stack cs))) ds \<and>
     (\<forall>c \<in> set cs. cell_ok c) \<and> bytes_at s a (enc_stack cs)"
  by (auto simp: cells_at_iff bytes_at_append add.assoc)

lemma cells_at_pop: "m_sp s + int n \<le> a \<Longrightarrow> cells_at s a cs \<Longrightarrow> cells_at (pop_state n s) a cs"
  by (rule cells_at_cong) (auto simp: pop_state_mem)

lemma cells_at_push: "m_sp s \<le> a \<Longrightarrow> cells_at s a cs \<Longrightarrow> cells_at (push_state bs s) a cs"
  by (rule cells_at_cong) (auto simp: push_state_mem)

lemma cells_on_append:
  "cells_on s (cs @ ds) \<longleftrightarrow> cells_at s (m_sp s + int (length (enc_stack cs))) ds \<and>
     (\<forall>c \<in> set cs. cell_ok c) \<and> holds s (enc_stack cs)"
  using cells_at_append [of s "m_sp s" cs ds] by (simp add: cells_at_sp holds_def)

lemma cells_on_sp_lower: "cells_on s cs \<Longrightarrow> 0 \<le> m_sp s \<and> m_sp s < 2 ^ 31"
  by (auto simp: cells_on_def holds_def bytes_at_def in_mem_def)

lemma int_cell_bytes [simp]: "length (enc_cell (cell_of (IntD i))) = 9"
  by (simp add: enc_cell_def cell_of_def)

lemma cells_on_PopInt:
  assumes "cells_on s (cell_of (IntD i) # cs)"
  shows "PopInt s = Ok (i, pop_state 9 s)" "cells_on (pop_state 9 s) cs"
  using cells_on_pop [OF assms] by (simp_all add: PopInt_def)

section \<open>Immediate data, memory variables, jumps\<close>

lemma GetDataSize_payload:
  assumes "GetDataSize d = Ok n" "length (enc_payload d) < 2 ^ 31"
  shows "n = int (length (enc_payload d))"
  using assms by (cases d) (auto simp: length_enc_cplx length_enc_quat length_enc_chars)

lemma cell_tag: "cell_ok (ty, d) \<Longrightarrow> data_tag ty d = ty \<and> d \<noteq> Monostate"
  by (auto simp: cell_ok_def)

text \<open>\<open>PUSH\<close> puts the cell at the instruction pointer on the stack and skips it.\<close>

lemma op_push_cell:
  assumes st: "cells_on s cs" and room: "stack_room s (length (enc_cell p))"
    and b: "bytes_at s (m_ip s) (enc_cell p)" and ok: "cell_ok p" and sz: "GetDataSize (snd p) = Ok n"
  shows "op_push s =
      Ok (push_state (enc_cell p) (s\<lparr>m_ip := m_ip s + int (length (enc_cell p))\<rparr>))"
    and "cells_on (push_state (enc_cell p) (s\<lparr>m_ip := m_ip s + int (length (enc_cell p))\<rparr>)) (p # cs)"
proof -
  obtain ty d where p: "p = (ty, d)" by (cases p)
  have lt: "0 \<le> m_ip s" "m_ip s + int (length (enc_cell p)) < 2 ^ 31"
    using bytes_at_range [OF b] by auto
  then have n: "n + 1 = int (length (enc_cell p))"
    using GetDataSize_payload [OF sz] by (auto simp: enc_cell_def p)
  define t where "t = s\<lparr>m_ip := m_ip s + int (length (enc_cell p))\<rparr>"
  have t: "cells_on t cs" "stack_room t (length (enc_cell p))"
    using st room by (auto simp: t_def cells_on_def holds_def bytes_at_def in_mem_def stack_room_def)
  have "PushData d ty True t = Ok (push_state (enc_cell p) t)"
    using PushData_ok [of t ty d True] cells_on_room [OF t] cell_tag [of ty d] ok by (simp add: p)
  then show "op_push s =
      Ok (push_state (enc_cell p) (s\<lparr>m_ip := m_ip s + int (length (enc_cell p))\<rparr>))"
    using lt n ReadMemData_bytes [OF b ok] sz by (simp add: op_push_def p t_def)
  show "cells_on (push_state (enc_cell p) (s\<lparr>m_ip := m_ip s + int (length (enc_cell p))\<rparr>)) (p # cs)"
    using cells_on_push [OF t(1) ok t(2)] by (simp add: t_def)
qed

lemma resolve_mem [simp]: "resolve_addr VM_ADDR_MEM a s = Ok a"
  by (simp add: resolve_addr_def)

lemma mem_type [simp]: "VM_ADDR_MEM \<in> addr_types"
  by (simp add: addr_types_def)

text \<open>
  Addresses relative to a register: the popped address is the register's value at that time
  plus the offset.
\<close>

fun base_of :: "VMType \<Rightarrow> vm \<Rightarrow> int" where
  "base_of VM_ADDR_IP s = m_ip s"
| "base_of VM_ADDR_SP s = m_sp s"
| "base_of VM_ADDR_BP s = m_bp s"
| "base_of VM_ADDR_GBP s = m_gbp s"
| "base_of _ s = 0"

lemma resolve_base:
  "ty \<in> addr_types \<Longrightarrow> addr_range a \<Longrightarrow> resolve_addr ty a s = Ok (wrap32 (a + base_of ty s))"
  by (auto simp: addr_types_def resolve_addr_def addr_rangeD)

lemma pop_addr:
  assumes "cells_on s (addr_cell ty a # cs)" "ty \<in> addr_types" "addr_range a"
  shows "PopAddress s = Ok (wrap32 (a + base_of ty (pop_state 5 s)), pop_state 5 s)"
    and "cells_on (pop_state 5 s) cs"
  using cells_on_PopAddress [OF assms] resolve_base [OF assms(2,3)] by simp_all

lemma op_jmp_cell:
  assumes "cells_on s (addr_cell ty a # cs)" "ty \<in> addr_types" "addr_range a"
  shows "op_jmp s = Ok ((pop_state 5 s)\<lparr>m_ip := wrap32 (a + base_of ty (pop_state 5 s))\<rparr>)"
  using pop_addr [OF assms] by (simp add: op_jmp_def)

lemma op_jmpcnd_cell:
  assumes "cells_on s (addr_cell ty a # cell_of (BoolD b) # cs)" "ty \<in> addr_types" "addr_range a"
  shows "op_jmpcnd s = Ok (if b \<noteq> 0
      then (pop_state 7 s)\<lparr>m_ip := wrap32 (a + base_of ty (pop_state 5 s))\<rparr> else pop_state 7 s)"
proof -
  note p = pop_addr [OF assms]
  have "length (enc_cell (cell_of (BoolD b))) = 2" by (simp add: enc_cell_def cell_of_def)
  then have "PopBool (pop_state 5 s) = Ok (b \<noteq> 0, pop_state 7 s)"
    using cells_on_pop [OF p(2)] by (simp add: PopBool_def pop_state_pop_state)
  then show ?thesis using p(1) by (simp add: op_jmpcnd_def)
qed

text \<open>
  A store to a variable above the operands: the variable then holds the value, every other
  variable outside the written bytes and the popped operands keeps its own.
\<close>

lemma op_wrmem_cell:
  assumes st: "cells_on s (addr_cell ty a # cell_of d # cs)" and ty: "ty \<in> addr_types" "addr_range a"
    and d: "plain d" and v: "v = wrap32 (a + base_of ty (pop_state 5 s))"
    and room: "in_mem s v (int (data_bytes d))"
  shows "op_wrmem s = Ok ((pop_state (5 + data_bytes d) s)\<lparr>m_mem :=
      put_bytes (m_mem (pop_state (5 + data_bytes d) s)) v (enc_cell (cell_of d))\<rparr>)"
proof -
  note p = pop_addr [OF st ty]
  note q = cells_on_pop [OF p(2)]
  have "in_mem (pop_state (5 + data_bytes d) s) v (int (length (enc_cell (cell_of d))))"
    using room by (simp add: in_mem_def data_bytes_def)
  from WriteMemData_ok [OF this d] show ?thesis
    using p(1) q(1) by (simp add: op_wrmem_def pop_state_pop_state data_bytes_def v)
qed

lemma op_rdmem_cell:
  assumes st: "cells_on s (addr_cell ty a # cs)" and ty: "ty \<in> addr_types" "addr_range a"
    and v: "v = wrap32 (a + base_of ty (pop_state 5 s))"
    and b: "bytes_at (pop_state 5 s) v (enc_cell p)" "cell_ok p"
    and room: "stack_room (pop_state 5 s) (length (enc_cell p))"
  shows "op_rdmem s = Ok (push_state (enc_cell p) (pop_state 5 s))"
    and "cells_on (push_state (enc_cell p) (pop_state 5 s)) (p # cs)"
proof -
  note q = pop_addr [OF st ty]
  note r = room
  obtain ty' d where p: "p = (ty', d)" by (cases p)
  have "PushData d ty' True (pop_state 5 s) = Ok (push_state (enc_cell p) (pop_state 5 s))"
    using PushData_ok [of "pop_state 5 s" ty' d True] cells_on_room [OF q(2) r] cell_tag [of ty' d] b(2)
    by (simp add: p)
  then show "op_rdmem s = Ok (push_state (enc_cell p) (pop_state 5 s))"
    using q(1) ReadMemData_bytes [OF b] v by (simp add: op_rdmem_def p)
  show "cells_on (push_state (enc_cell p) (pop_state 5 s)) (p # cs)"
    by (rule cells_on_push [OF q(2) b(2) r])
qed

section \<open>Calls and returns\<close>

text \<open>
  \<open>frame_on s fs bp ip cs\<close>: the base pointer is the base of a frame of \<open>fs\<close> bytes below it;
  above it lie the saved base pointer, the return address and the cells of the caller.
\<close>

definition frame_on :: "vm \<Rightarrow> t_addr \<Rightarrow> t_addr \<Rightarrow> cell list \<Rightarrow> bool" where
  "frame_on s bp ip cs \<longleftrightarrow>
     cells_at s (m_bp s) (addr_cell VM_ADDR_MEM bp # addr_cell VM_ADDR_MEM ip # cs)"

lemma frame_on_pop: "m_sp s + int n \<le> m_bp s \<Longrightarrow> frame_on s bp ip cs \<Longrightarrow> frame_on (pop_state n s) bp ip cs"
  by (simp add: frame_on_def cells_at_pop)

lemma op_call_cell:
  assumes st: "cells_on s (addr_cell VM_ADDR_MEM f # cell_of (IntD fs) # cs)"
    and f: "addr_range f" and fs: "0 \<le> sint fs" "sint fs \<le> m_sp s + 4"
    and regs: "addr_range (m_ip s)" "addr_range (m_bp s)"
  obtains s' where "op_call s = Ok s'" "m_ip s' = f" "m_bp s' = m_sp s + 4"
    "m_sp s' = m_bp s' - sint fs" "frame_on s' (m_bp s) (m_ip s) cs"
    "m_gbp s' = m_gbp s" "m_memsize s' = m_memsize s"
proof -
  note a = pop_addr [OF st mem_type f]
  note i = cells_on_PopInt [OF a(2)]
  define t where "t = pop_state 14 s"
  have lt: "0 \<le> m_sp s" "m_sp s + 14 < 2 ^ 31"
    using st by (auto simp: cells_on_def holds_def bytes_at_def in_mem_def)
  have t: "cells_on t cs" "stack_room t 14" "m_ip t = m_ip s" "m_bp t = m_bp s" "m_sp t = m_sp s + 14"
      "m_gbp t = m_gbp s" "m_memsize t = m_memsize s"
    using i(2) lt by (simp_all add: t_def pop_state_pop_state stack_room_def)
  define ipc where "ipc = addr_cell VM_ADDR_MEM (m_ip s)"
  define bpc where "bpc = addr_cell VM_ADDR_MEM (m_bp s)"
  define u where "u = push_state (enc_cell ipc) t"
  define w where "w = push_state (enc_cell bpc) u"
  have u: "PushAddress (m_ip s) VM_ADDR_MEM t = Ok u" "cells_on u (ipc # cs)" "stack_room u 9"
    unfolding u_def ipc_def
    using cells_on_PushAddress [OF t(1) mem_type regs(1)] t(2) by (simp_all add: stack_room_def)
  have w: "PushAddress (m_bp s) VM_ADDR_MEM u = Ok w" "cells_on w (bpc # ipc # cs)"
    unfolding w_def bpc_def
    using cells_on_PushAddress [OF u(2) mem_type regs(2)] u(3) by (simp_all add: stack_room_def)
  have wf: "m_bp u = m_bp s" "m_sp w = m_sp s + 4" "m_bp w = m_bp s" "m_gbp w = m_gbp s" "m_memsize w = m_memsize s"
    by (simp_all add: u_def w_def t ipc_def bpc_def)
  define v where "v = w\<lparr>m_bp := m_sp s + 4, m_sp := m_sp s + 4 - sint fs, m_ip := f\<rparr>"
  have "int_result (m_sp s + 4 - sint fs) = Ok (word_of_int (m_sp s + 4 - sint fs))"
    using lt fs by (simp add: int_result_def int_min_def int_max_def)
  then have "op_call s = Ok v"
    using a(1) f i(1) u(1) w(1) lt fs
    by (simp add: op_call_def addr_rangeD pop_state_pop_state t(3) wf move_sp_def v_def flip: t_def)
  moreover have "cells_at v (m_bp v) (bpc # ipc # cs)"
    using w(2) by (simp add: v_def cells_at_iff cells_on_def holds_def wf bytes_at_def in_mem_def)
  ultimately show ?thesis
    using that [of v] by (simp add: v_def frame_on_def bpc_def ipc_def wf)
qed

text \<open>The values above the frame come off in order; nothing else is touched.\<close>

lemma plain_cells: "\<forall>d \<in> set ds. plain d \<Longrightarrow> c \<in> set (map cell_of ds) \<Longrightarrow> cell_ok c"
  by auto

lemma pop_rets_cells:
  assumes "holds s (enc_stack (map cell_of rets) @ rest)" "\<forall>d \<in> set rets. plain d" "0 \<le> sint fs"
    and "m_sp s + int (length (enc_stack (map cell_of rets))) + sint fs = m_bp s" "m_bp s < 2 ^ 31"
  shows "pop_rets fs s = Ok (rets, pop_state (length (enc_stack (map cell_of rets))) s)"
  using assms
proof (induction rets arbitrary: s)
  case Nil
  have sp: "0 \<le> m_sp s" using Nil(1) by (simp add: holds_def bytes_at_def in_mem_def)
  have "int_result (m_sp s + sint fs) = Ok (word_of_int (m_bp s))"
    using Nil sp by (simp add: int_result_def int_min_def int_max_def)
  moreover have "pop_state 0 s = s" by (simp add: pop_state_def)
  ultimately show ?case
    using Nil(3,4,5) sp by (subst pop_rets.simps) simp
next
  case (Cons d rets)
  let ?n = "length (enc_cell (cell_of d))"
  have sp: "0 \<le> m_sp s" using Cons.prems(1) by (simp add: holds_def bytes_at_def in_mem_def)
  have n: "1 \<le> int ?n" by (simp add: enc_cell_def)
  have "int_min \<le> m_sp s + sint fs" "m_sp s + sint fs \<le> int_max"
    using Cons.prems(3,4,5) sp n by (simp_all add: int_min_def int_max_def)
  then obtain lim where lim: "int_result (m_sp s + sint fs) = Ok lim" by (simp add: int_result_def)
  have ok: "sint lim < m_bp s" using int_result_Ok [OF lim] Cons.prems(4) n by (simp del: length_greater_0_conv)
  have pop: "PopData s = Ok (d, pop_state ?n s)"
    using PopData_holds [of s "cell_of d"] Cons.prems(1,2) by simp
  have "holds (pop_state ?n s) (enc_stack (map cell_of rets) @ rest)"
    using holds_pop [of s "enc_cell (cell_of d)"] Cons.prems(1) by simp
  then have "pop_rets fs (pop_state ?n s) =
      Ok (rets, pop_state (length (enc_stack (map cell_of rets))) (pop_state ?n s))"
    using Cons.prems by (intro Cons.IH) auto
  then show ?case
    using lim ok pop by (subst pop_rets.simps) (simp add: pop_state_pop_state)
qed

lemma pop_args_cells:
  assumes "cells_on s (map cell_of args @ cs)" "\<forall>d \<in> set args. plain d"
  shows "pop_args (length args) s = Ok (pop_state (length (enc_stack (map cell_of args))) s)"
    and "cells_on (pop_state (length (enc_stack (map cell_of args))) s) cs"
  using assms
proof (induction args arbitrary: s)
  case Nil
  {
    case 1
    then show ?case by (simp add: pop_state_def)
  next
    case 2
    then show ?case by (simp add: pop_state_def)
  }
next
  case (Cons d args)
  {
    case 1
    then show ?case using cells_on_pop [of s "cell_of d"] Cons(1)
      by (simp add: pop_state_pop_state)
  next
    case 2
    then show ?case using cells_on_pop [of s "cell_of d"] Cons(2)
      by (simp add: pop_state_pop_state [symmetric])
  }
qed

lemma push_rets_cells:
  assumes "cells_on s cs" "\<forall>d \<in> set rets. plain d"
    and "stack_room s (length (enc_stack (map cell_of rets)))"
  obtains s' where "push_rets rets s = Ok s'" "cells_on s' (map cell_of (rev rets) @ cs)" "ctl s' = ctl s"
    "m_sp s' = m_sp s - int (length (enc_stack (map cell_of rets)))"
  using assms
proof (induction rets arbitrary: s cs thesis)
  case Nil
  then show ?case by simp
next
  case (Cons d rets)
  let ?c = "cell_of d" and ?t = "push_state (enc_cell (cell_of d)) s"
  have room: "stack_room s (length (enc_cell ?c))" using Cons.prems(4) by (simp add: stack_room_def)
  have "PushData d VM_UNKNOWN False s = Ok ?t"
    using push_data_ok [of d s] cells_on_room [OF Cons.prems(2) room] Cons.prems(3) by simp
  moreover have t: "cells_on ?t (?c # cs)" using cells_on_push [OF Cons.prems(2) _ room] Cons.prems(3) by simp
  moreover have "stack_room ?t (length (enc_stack (map cell_of rets)))"
    using Cons.prems(4) by (simp add: stack_room_def)
  ultimately show ?case
    using Cons.IH [OF _ t] Cons.prems(1,3) by fastforce
qed

lemma cells_at_store:
  assumes "cells_at s a cs" "b + int (length bs) \<le> a"
  shows "cells_at (s\<lparr>m_mem := put_bytes (m_mem s) b bs\<rparr>) a cs"
  using assms by (intro cells_at_cong [OF assms(1)]) (auto simp: put_bytes_outside)

text \<open>
  A return with its two operands, the return values and the frame in place: base pointer and
  instruction pointer are the saved ones, the arguments are gone, and the return values lie
  on the caller's stack, in the reverse of their order.
\<close>

lemma op_ret_cell:
  assumes st: "cells_on s (cell_of (IntD na) # cell_of (IntD fs) # map cell_of rets)"
    and fr: "frame_on s bp ip (map cell_of args @ cs)"
    and sp: "m_sp s + 18 + int (length (enc_stack (map cell_of rets))) + sint fs = m_bp s"
    and fs: "0 \<le> sint fs" and na: "sint na = int (length args)"
    and plain: "\<forall>d \<in> set rets. plain d" "\<forall>d \<in> set args. plain d"
    and regs: "addr_range bp" "addr_range ip"
  obtains s' where "op_ret s = Ok s'" "m_bp s' = bp" "m_ip s' = ip"
    "cells_on s' (map cell_of (rev rets) @ cs)" "m_gbp s' = m_gbp s" "m_memsize s' = m_memsize s"
    "m_sp s' = m_bp s + 10 + int (length (enc_stack (map cell_of args)))
      - int (length (enc_stack (map cell_of rets)))"
proof -
  let ?r = "length (enc_stack (map cell_of rets))" and ?a = "length (enc_stack (map cell_of args))"
  note i1 = cells_on_PopInt [OF st]
  note i2 = cells_on_PopInt [OF i1(2), unfolded pop_state_pop_state]
  define t where "t = pop_state 18 s"
  have i2: "PopInt (pop_state 9 s) = Ok (fs, t)" "cells_on t (map cell_of rets)"
    using i2 by (simp_all add: t_def)
  have bp31: "m_bp s < 2 ^ 31"
    using fr by (auto simp: frame_on_def cells_at_iff bytes_at_def in_mem_def)
  have "pop_rets fs t = Ok (rets, pop_state ?r t)"
  proof (rule pop_rets_cells [where rest = "[]"])
    show "holds t (enc_stack (map cell_of rets) @ [])" using i2(2) by (simp add: cells_on_def)
    show "m_sp t + int ?r + sint fs = m_bp t" "m_bp t < 2 ^ 31" using sp bp31 by (simp_all add: t_def)
  qed (use plain fs in auto)
  moreover define u where "u = pop_state ?r t"
  ultimately have rets: "pop_rets fs t = Ok (rets, u)" by simp
  have u: "m_bp u = m_bp s" "m_sp u + sint fs = m_bp s" "m_gbp u = m_gbp s" "m_memsize u = m_memsize s"
      "0 \<le> m_sp u"
    using sp cells_on_sp_lower [OF i2(2)] by (simp_all add: u_def t_def)
  have fru: "frame_on u bp ip (map cell_of args @ cs)"
    unfolding u_def t_def using sp fs fr by (intro frame_on_pop) auto
  define m where "m = (if m_zeropoppedvals u
      then put_bytes (m_mem u) (m_sp u) (replicate (nat (sint fs)) 0) else m_mem u)"
  have in_u: "in_mem u (m_sp u) (sint fs)"
    using u bp31 fru by (auto simp: in_mem_def frame_on_def cells_at_iff bytes_at_def)
  have zero: "(if m_zeropoppedvals u then zero_mem (m_sp u) (m_bp u - m_sp u) u else Ok u)
      = Ok (u\<lparr>m_mem := m\<rparr>)"
  proof -
    have "m_bp u - m_sp u = sint fs" using u(1,2) by simp
    then show ?thesis using fs in_u by (simp add: m_def zero_mem_def store_ok)
  qed
  define v where "v = u\<lparr>m_mem := m, m_sp := m_bp s\<rparr>"
  have frv: "cells_on v (addr_cell VM_ADDR_MEM bp # addr_cell VM_ADDR_MEM ip # map cell_of args @ cs)"
  proof -
    have "cells_at (u\<lparr>m_mem := m\<rparr>) (m_bp s)
        (addr_cell VM_ADDR_MEM bp # addr_cell VM_ADDR_MEM ip # map cell_of args @ cs)"
      using fru u fs by (auto simp: frame_on_def m_def intro!: cells_at_store)
    then show ?thesis by (simp add: v_def cells_at_def)
  qed
  note b = pop_addr [OF frv mem_type regs(1)]
  define w where "w = (pop_state 5 v)\<lparr>m_bp := bp\<rparr>"
  have "cells_on w (addr_cell VM_ADDR_MEM ip # map cell_of args @ cs)"
    using b(2) by (simp add: w_def cells_on_def holds_def bytes_at_def in_mem_def)
  note c = pop_addr [OF this mem_type regs(2)]
  define x where "x = (pop_state 5 w)\<lparr>m_ip := ip\<rparr>"
  have x: "cells_on x (map cell_of args @ cs)"
    using c(2) by (simp add: x_def cells_on_def holds_def bytes_at_def in_mem_def)
  note d = pop_args_cells [OF x plain(2)]
  define y where "y = pop_state ?a x"
  have y: "m_bp y = bp" "m_ip y = ip" "m_gbp y = m_gbp s" "m_memsize y = m_memsize s"
      "m_sp y = m_bp s + 10 + int ?a"
    by (simp_all add: y_def x_def w_def v_def u)
  have roomy: "stack_room y ?r"
    using y(5) sp fs u(5) cells_on_sp_lower [OF st] by (simp add: stack_room_def)
  obtain s' where s': "push_rets rets y = Ok s'" "cells_on s' (map cell_of (rev rets) @ cs)" "ctl s' = ctl y"
      "m_sp s' = m_sp y - int ?r"
    by (rule push_rets_cells [OF d(2) plain(1)]) (use roomy in \<open>auto simp: y_def\<close>)
  have fields: "m_bp s' = m_bp y" "m_ip s' = m_ip y" "m_gbp s' = m_gbp y" "m_memsize s' = m_memsize y"
    using s'(3) by (metis ctl_fields)+
  have "op_ret s = Ok s'"
    using i1(1) i2(1) rets zero b(1) c(1) d(1) s'(1) regs na
    by (simp add: op_ret_def addr_rangeD v_def [symmetric] w_def [symmetric] x_def [symmetric]
        y_def [symmetric] u(1) cong: if_cong)
  then show ?thesis using that [of s'] s' fields y by simp
qed

end
