(* ===== verification/VmArrayFacts.thy ===== *)
theory VmArrayFacts
  imports VmInstrFacts
begin

text \<open>
  Arrays: building them from stack elements, reading and overwriting elements and ranges.
  The facts are proved once, in the locale \<open>array_laws\<close>, for a vector type whose values are
  laid out as length and elements, and used for the four vector types of the machine.
\<close>

section \<open>Ranges of a list\<close>

fun put_range :: "'e list \<Rightarrow> int \<Rightarrow> int \<Rightarrow> 'e list \<Rightarrow> 'e list" where
  "put_range xs i delta [] = xs"
| "put_range xs i delta (v # vs) = put_range (xs[nat i := v]) (i + delta) delta vs"

lemma length_put_range [simp]: "length (put_range xs i delta vs) = length xs"
  by (induction vs arbitrary: xs i) auto

lemma put_range_other:
  "(\<forall>k < length vs. j \<noteq> nat (i + delta * int k)) \<Longrightarrow> put_range xs i delta vs ! j = xs ! j"
proof (induction vs arbitrary: xs i)
  case (Cons v vs)
  have "\<forall>k<length vs. j \<noteq> nat (i + delta + delta * int k)"
  proof (intro allI impI)
    fix k assume "k < length vs"
    then show "j \<noteq> nat (i + delta + delta * int k)"
      using Cons.prems [rule_format, of "Suc k"] by (simp add: algebra_simps)
  qed
  moreover have "j \<noteq> nat i" using Cons.prems by (auto dest: spec [of _ 0])
  ultimately show ?case using Cons.IH by simp
qed simp

lemma put_range_nth:
  assumes "k < length vs" "delta = 1 \<or> delta = -1"
    and "\<forall>k < length vs. 0 \<le> i + delta * int k \<and> i + delta * int k < int (length xs)"
  shows "put_range xs i delta vs ! nat (i + delta * int k) = vs ! k"
  using assms
proof (induction vs arbitrary: xs i k)
  case (Cons v vs)
  have i: "0 \<le> i" "i < int (length xs)" using Cons.prems(3) by (auto dest: spec [of _ 0])
  have pos: "0 \<le> i + delta + delta * int l \<and> i + delta + delta * int l < int (length xs)" if "l < length vs" for l
    using Cons.prems(3) [rule_format, of "Suc l"] that by (simp add: algebra_simps)
  show ?case
  proof (cases k)
    case 0
    have "nat i \<noteq> nat (i + delta + delta * int l)" if "l < length vs" for l
      using i pos [OF that] Cons.prems(2) by auto
    then show ?thesis using i 0 put_range_other [of vs "nat i" "i + delta" delta] by simp
  next
    case (Suc l)
    then show ?thesis
      using Cons.IH [of l "i + delta" "xs[nat i := v]"] Cons.prems(1,2) pos by (simp add: algebra_simps)
  qed
qed simp

text \<open>Reading the range just written gives the written values.\<close>

lemma span_put_range:
  assumes "0 \<le> i1" "i1 < int (length xs)" "0 \<le> i2" "i2 < int (length xs)"
    and "length vs = Suc (nat \<bar>i2 - i1\<bar>)"
  shows "span (put_range xs i1 (if i2 \<ge> i1 then 1 else -1) vs) i1 i2 = vs"
proof (rule nth_equalityI)
  show "length (span (put_range xs i1 (if i2 \<ge> i1 then 1 else -1) vs) i1 i2) = length vs"
    using assms(5) by (simp add: span_def Let_def)
next
  fix k assume "k < length (span (put_range xs i1 (if i2 \<ge> i1 then 1 else -1) vs) i1 i2)"
  then have k: "k < Suc (nat \<bar>i2 - i1\<bar>)" by (simp add: span_def Let_def)
  have "put_range xs i1 (if i2 \<ge> i1 then 1 else -1) vs ! nat (i1 + (if i2 \<ge> i1 then 1 else -1) * int k) = vs ! k"
    using k assms by (intro put_range_nth) auto
  then show "span (put_range xs i1 (if i2 \<ge> i1 then 1 else -1) vs) i1 i2 ! k = vs ! k"
    using k by (simp add: span_def Let_def del: upt_Suc)
qed

lemma wrap32_wrap32_add: "wrap32 (wrap32 x + y) = wrap32 (x + y)" "wrap32 (y + wrap32 x) = wrap32 (y + x)"
  unfolding wrap32_def by (simp_all add: algebra_simps mod_simps)

section \<open>The contract of a vector type\<close>

locale array_laws = vtraits_laws c for c :: "('e, 'x) vtraits_scheme" +
  assumes plain_elem: "plain (vt_elem c x)" and plain_vec: "plain (vt_vec c xs)"
    and enc_elem: "enc_payload (vt_elem c x) = c_enc c x"
    and enc_vec: "enc_payload (vt_vec c xs) = enc_addr (int (length xs)) @ enc_elems c xs"
    and tag_vec: "data_tag VM_UNKNOWN (vt_vec c xs) = vt_type c"
begin

abbreviation elem_cells :: "'e list \<Rightarrow> cell list" where
  "elem_cells xs \<equiv> map (\<lambda>x. cell_of (vt_elem c x)) xs"

lemma length_elem_cell: "length (enc_cell (cell_of (vt_elem c x))) = Suc (length (c_enc c x))"
  by (simp add: enc_cell_def enc_elem)

lemma length_elem_cells: "length (enc_stack (elem_cells xs)) = length xs + length (enc_elems c xs)"
  by (induction xs) (simp_all add: length_elem_cell enc_elems_def)

lemma length_vec_cell: "length (enc_cell (cell_of (vt_vec c xs))) = 5 + length (enc_elems c xs)"
  by (simp add: enc_cell_def enc_vec)

section \<open>Building an array\<close>

lemma pop_elems_cells:
  assumes "cells_on s (elem_cells ys @ cs)"
  shows "pop_elems c (length ys) s = Ok (ys, pop_state (length (enc_stack (elem_cells ys))) s)"
    and "cells_on (pop_state (length (enc_stack (elem_cells ys))) s) cs"
  using assms
proof (induction ys arbitrary: s)
  case Nil
  {
    case 1
    then show ?case by (simp add: pop_state_def)
  next
    case 2
    then show ?case by (simp add: pop_state_def)
  }
next
  case (Cons y ys)
  {
    case 1
    then show ?case using cells_on_pop [of s "cell_of (vt_elem c y)"] Cons(1)
      by (simp add: get_elem pop_state_pop_state)
  next
    case 2
    then show ?case using cells_on_pop [of s "cell_of (vt_elem c y)"] Cons(2)
      by (simp add: pop_state_pop_state [symmetric])
  }
qed

lemma op_makearr_cells:
  assumes st: "cells_on s (addr_cell VM_ADDR_MEM (int (length xs)) # elem_cells (rev xs) @ cs)"
    and len: "length xs < 2 ^ 31"
  obtains s' where "op_makearr c s = Ok s'" "cells_on s' (cell_of (vt_vec c xs) # cs)" "ctl s' = ctl s"
proof -
  have r: "addr_range (int (length xs))" using len by (simp add: addr_range_def)
  note a = pop_addr [OF st mem_type r]
  note e = pop_elems_cells [OF a(2)]
  define t where "t = pop_state (length (enc_stack (elem_cells (rev xs)))) (pop_state 5 s)"
  have l: "length (enc_elems c (rev xs)) = length (enc_elems c xs)"
    using elems_length [of xs] elems_length [of "rev xs"] by simp
  have "PopArray c False s = Ok (xs, t)"
    using a(1) e(1) r by (simp add: PopArray_def addr_rangeD t_def)
  moreover have room: "stack_room t (length (enc_cell (cell_of (vt_vec c xs))))"
    using cells_on_sp_lower [OF st] by (simp add: t_def stack_room_def length_elem_cells length_vec_cell l)
  moreover have "cells_on t cs" using e(2) by (simp add: t_def)
  ultimately show ?thesis
    using that [of "push_state (enc_cell (cell_of (vt_vec c xs))) t"]
      push_data_ok [OF plain_vec, of t] cells_on_push [of t cs "cell_of (vt_vec c xs)"]
      cells_on_room [of t cs] plain_vec
    by (simp add: op_makearr_def t_def)
qed

section \<open>Elements in memory\<close>

text \<open>The bytes of a vector variable behind its descriptor.\<close>

definition vec_at :: "vm \<Rightarrow> int \<Rightarrow> 'e list \<Rightarrow> bool" where
  "vec_at s a xs \<longleftrightarrow> bytes_at s a (enc_addr (int (length xs)) @ enc_elems c xs)"

lemma vec_at_len: "vec_at s a xs \<Longrightarrow> ReadMemRaw addr_codec a s = Ok (int (length xs))"
  and vec_at_bound: "vec_at s a xs \<Longrightarrow> 0 \<le> a \<and> a + 4 + int (length xs) * c_size c < 2 ^ 31"
proof -
  assume v: "vec_at s a xs"
  then have b: "bytes_at s a (enc_addr (int (length xs)))" "bytes_at s (a + 4) (enc_elems c xs)"
    by (simp_all add: vec_at_def bytes_at_append)
  have lt: "int (length (enc_elems c xs)) < 2 ^ 31" using b(2) by (auto simp: bytes_at_def in_mem_def)
  show "ReadMemRaw addr_codec a s = Ok (int (length xs))"
    using b(1) seq_count(4) [OF lt] by (intro addr_c.ReadMemRaw_bytes) (simp_all add: addr_codec_def)
  show "0 \<le> a \<and> a + 4 + int (length xs) * c_size c < 2 ^ 31"
    using v by (auto simp: vec_at_def elems_length dest!: bytes_at_range)
qed

lemma elems_split:
  assumes "i < length xs"
  shows "enc_elems c xs = enc_elems c (take i xs) @ c_enc c (xs ! i) @ enc_elems c (drop (Suc i) xs)"
  using id_take_nth_drop [OF assms] unfolding enc_elems_def
  by (metis concat.simps(2) concat_append list.simps(9) map_append)

text \<open>One element overwritten in place.\<close>

lemma write_elem:
  assumes v: "vec_at s a xs" and i: "0 \<le> i" "i < int (length xs)"
  obtains s' where
    "WriteMemRaw c (wrap32 (wrap32 (a + 4) + i * c_size c)) x s = Ok s'"
    "vec_at s' a (xs[nat i := x])" "m_memsize s' = m_memsize s" "ctl s' = ctl s" "m_sp s' = m_sp s"
    "\<forall>y. y < a \<or> a + 4 + int (length xs) * c_size c \<le> y \<longrightarrow> m_mem s' y = m_mem s y"
proof -
  let ?k = "nat i" and ?p = "a + 4 + i * c_size c"
  have k: "?k < length xs" using i by simp
  have pre: "int (length (enc_elems c (take ?k xs))) = i * c_size c"
    using elems_length [of "take ?k xs"] k i by simp
  have b: "bytes_at s a (enc_addr (int (length xs)))" "bytes_at s (a + 4) (enc_elems c (take ?k xs))"
      "bytes_at s ?p (c_enc c (xs ! ?k))" "bytes_at s (?p + c_size c) (enc_elems c (drop (Suc ?k) xs))"
    using v elems_split [OF k] by (simp_all add: vec_at_def bytes_at_append pre enc_bytes_len algebra_simps)
  have in_p: "in_mem s ?p (c_size c)" using b(3) by (simp add: bytes_at_def enc_bytes_len)
  have "0 \<le> i * c_size c" using i size_bounds by simp
  then have w: "wrap32 (wrap32 (a + 4) + i * c_size c) = ?p"
    using bytes_at_wrap [OF b(2)] bytes_at_wrap [OF b(3)] by (simp add: algebra_simps)
  define s' where "s' = s\<lparr>m_mem := put_bytes (m_mem s) ?p (c_enc c x)\<rparr>"
  have keep: "bytes_at s' q bs" if "bytes_at s q bs" "q + int (length bs) \<le> ?p \<or> ?p + c_size c \<le> q" for q bs
    using that by (auto simp: s'_def put_bytes_outside enc_bytes_len elim!: bytes_at_cong)
  have "bytes_at s' ?p (c_enc c x)"
    unfolding s'_def using in_p by (intro bytes_at_put) (simp add: enc_bytes_len)
  moreover have "bytes_at s' a (enc_addr (int (length xs)))" "bytes_at s' (a + 4) (enc_elems c (take ?k xs))"
      "bytes_at s' (?p + c_size c) (enc_elems c (drop (Suc ?k) xs))"
    using b pre \<open>0 \<le> i * c_size c\<close> by (intro keep; simp)+
  ultimately have "vec_at s' a (xs[?k := x])"
    using elems_split [of ?k "xs[?k := x]"] k
    by (simp add: vec_at_def bytes_at_append pre enc_bytes_len algebra_simps)
  moreover have "?p + c_size c \<le> a + 4 + int (length xs) * c_size c"
    using mult_right_mono [of "i + 1" "int (length xs)" "c_size c"] i size_bounds by (simp add: algebra_simps)
  then have "\<forall>y. y < a \<or> a + 4 + int (length xs) * c_size c \<le> y \<longrightarrow> m_mem s' y = m_mem s y"
    using \<open>0 \<le> i * c_size c\<close> by (auto simp: s'_def enc_bytes_len intro!: put_bytes_outside)
  ultimately show ?thesis
    using that [of s'] WriteMemRaw_ok [OF in_p, of x] w by (simp add: s'_def ctl_def)
qed

lemma WriteArrayElem_vec:
  assumes v: "vec_at s a xs" and ne: "xs \<noteq> []"
  obtains s' where "WriteArrayElem c a (vt_elem c x) idx s = Ok s'"
    "vec_at s' a (xs[nat (addr_of_int idx mod int (length xs)) := x])"
    "m_memsize s' = m_memsize s" "ctl s' = ctl s" "m_sp s' = m_sp s"
    "\<forall>y. y < a \<or> a + 4 + int (length xs) * c_size c \<le> y \<longrightarrow> m_mem s' y = m_mem s y"
proof -
  have n: "0 < int (length xs)" using ne by simp
  obtain s' where s': "WriteMemRaw c (wrap32 (wrap32 (a + 4) + (addr_of_int idx mod int (length xs)) * c_size c)) x s = Ok s'"
    "vec_at s' a (xs[nat (addr_of_int idx mod int (length xs)) := x])"
    "m_memsize s' = m_memsize s" "ctl s' = ctl s" "m_sp s' = m_sp s"
    "\<forall>y. y < a \<or> a + 4 + int (length xs) * c_size c \<le> y \<longrightarrow> m_mem s' y = m_mem s y"
    by (rule write_elem [OF v pos_mod_sign [OF n] pos_mod_bound [OF n]])
  then show ?thesis
    using that [of s'] by (simp add: WriteArrayElem_def get_elem vec_at_len [OF v] safe_array_index_mod [OF n])
qed

text \<open>A range, in the direction the loop takes.\<close>

lemma vec_cell_at:
  "bytes_at s a (enc_cell (cell_of (vt_vec c xs))) \<longleftrightarrow>
   bytes_at s a [byte_of_vmtype (vt_type c)] \<and> vec_at s (a + 1) xs"
  using bytes_at_append [of s a "[byte_of_vmtype (vt_type c)]" "enc_addr (int (length xs)) @ enc_elems c xs"]
  by (simp add: enc_cell_def cell_of_def tag_vec enc_vec vec_at_def)

lemma WriteArrayElem_cell:
  assumes b: "bytes_at s a (enc_cell (cell_of (vt_vec c xs)))" and ne: "xs \<noteq> []"
  shows "\<exists>s'. WriteArrayElem c (a + 1) (vt_elem c x) idx s = Ok s' \<and>
    bytes_at s' a (enc_cell (cell_of (vt_vec c (xs[nat (addr_of_int idx mod int (length xs)) := x])))) \<and>
    ctl s' = ctl s \<and> m_sp s' = m_sp s \<and>
    (\<forall>y. y < a \<or> a + int (length (enc_cell (cell_of (vt_vec c xs)))) \<le> y \<longrightarrow> m_mem s' y = m_mem s y)"
proof -
  have b': "bytes_at s a [byte_of_vmtype (vt_type c)]" "vec_at s (a + 1) xs"
    using b by (simp_all add: vec_cell_at)
  obtain s' where s': "WriteArrayElem c (a + 1) (vt_elem c x) idx s = Ok s'"
    "vec_at s' (a + 1) (xs[nat (addr_of_int idx mod int (length xs)) := x])"
    "m_memsize s' = m_memsize s" "ctl s' = ctl s" "m_sp s' = m_sp s"
    "\<forall>y. y < a + 1 \<or> a + 1 + 4 + int (length xs) * c_size c \<le> y \<longrightarrow> m_mem s' y = m_mem s y"
    by (rule WriteArrayElem_vec [OF b'(2) ne])
  have "bytes_at s' a [byte_of_vmtype (vt_type c)]"
    using s'(3,6) by (intro bytes_at_cong [OF b'(1)]) auto
  then show ?thesis using s' by (auto simp: vec_cell_at length_vec_cell elems_length)
qed

lemma write_range_vec:
  assumes "vec_at s a xs" "\<forall>k < length vs. src (cur + k) = Ok (vs ! k)"
    and "\<forall>k < length vs. 0 \<le> i + delta * int k \<and> i + delta * int k < int (length xs)"
    and "p = wrap32 (wrap32 (a + 4) + i * c_size c)"
  shows "\<exists>s'. write_range c src delta (length vs) cur p s = Ok s' \<and>
    vec_at s' a (put_range xs i delta vs) \<and> ctl s' = ctl s \<and> m_sp s' = m_sp s \<and>
    (\<forall>y. y < a \<or> a + 4 + int (length xs) * c_size c \<le> y \<longrightarrow> m_mem s' y = m_mem s y)"
  using assms
proof (induction vs arbitrary: s xs cur i p)
  case (Cons v vs)
  have i: "0 \<le> i" "i < int (length xs)" using Cons.prems(3) by (auto dest: spec [of _ 0])
  obtain s1 where 1: "WriteMemRaw c p v s = Ok s1" "vec_at s1 a (xs[nat i := v])"
      "ctl s1 = ctl s" "m_sp s1 = m_sp s"
      "\<forall>y. y < a \<or> a + 4 + int (length xs) * c_size c \<le> y \<longrightarrow> m_mem s1 y = m_mem s y"
    using write_elem [OF Cons.prems(1) i, of v] Cons.prems(4) by metis
  have "src cur = Ok v" using Cons.prems(2) by (auto dest: spec [of _ 0])
  moreover have "\<exists>s'. write_range c src delta (length vs) (Suc cur) (wrap32 (p + c_size c * delta)) s1 = Ok s' \<and>
    vec_at s' a (put_range (xs[nat i := v]) (i + delta) delta vs) \<and> ctl s' = ctl s1 \<and> m_sp s' = m_sp s1 \<and>
    (\<forall>y. y < a \<or> a + 4 + int (length (xs[nat i := v])) * c_size c \<le> y \<longrightarrow> m_mem s' y = m_mem s1 y)"
  proof (rule Cons.IH [OF 1(2)])
    show "\<forall>k<length vs. src (Suc cur + k) = Ok (vs ! k)"
      using Cons.prems(2) by (auto dest: spec [of _ "Suc _"])
    show "\<forall>k<length vs. 0 \<le> i + delta + delta * int k \<and>
        i + delta + delta * int k < int (length (xs[nat i := v]))"
    proof (intro allI impI)
      fix k assume "k < length vs"
      then show "0 \<le> i + delta + delta * int k \<and> i + delta + delta * int k < int (length (xs[nat i := v]))"
        using Cons.prems(3) [rule_format, of "Suc k"] by (simp add: algebra_simps)
    qed
    show "wrap32 (p + c_size c * delta) = wrap32 (wrap32 (a + 4) + (i + delta) * c_size c)"
      unfolding Cons.prems(4) wrap32_wrap32_add(1)
      by (simp add: distrib_left distrib_right mult.commute add.assoc)
  qed
  ultimately show ?case using 1 by auto
qed simp

lemma write_span_vec:
  assumes v: "vec_at s a xs" and ne: "xs \<noteq> []"
    and i1: "i1 = addr_of_int idx1 mod int (length xs)" and i2: "i2 = addr_of_int idx2 mod int (length xs)"
    and vs: "length vs = Suc (nat \<bar>i2 - i1\<bar>)" "\<forall>k < length vs. src k = Ok (vs ! k)"
  shows "\<exists>s'. write_span c src a idx1 idx2 s = Ok s' \<and>
    vec_at s' a (put_range xs i1 (if i2 \<ge> i1 then 1 else -1) vs) \<and> ctl s' = ctl s \<and> m_sp s' = m_sp s \<and>
    (\<forall>y. y < a \<or> a + 4 + int (length xs) * c_size c \<le> y \<longrightarrow> m_mem s' y = m_mem s y)"
proof -
  have n: "0 < int (length xs)" using ne by simp
  have r: "0 \<le> i1" "i1 < int (length xs)" "0 \<le> i2" "i2 < int (length xs)"
    using pos_mod_sign [OF n] pos_mod_bound [OF n] by (simp_all add: i1 i2)
  have "\<exists>s'. write_range c src (if i2 \<ge> i1 then 1 else -1) (length vs) 0
      (wrap32 (wrap32 (a + 4) + i1 * c_size c)) s = Ok s' \<and>
    vec_at s' a (put_range xs i1 (if i2 \<ge> i1 then 1 else -1) vs) \<and> ctl s' = ctl s \<and> m_sp s' = m_sp s \<and>
    (\<forall>y. y < a \<or> a + 4 + int (length xs) * c_size c \<le> y \<longrightarrow> m_mem s' y = m_mem s y)"
    using vs r by (intro write_range_vec [OF v]) auto
  then show ?thesis
    using vs(1) by (simp add: write_span_def vec_at_len [OF v] safe_array_index_mod [OF n] Let_def
      del: write_range.simps flip: i1 i2)
qed

text \<open>A range of a vector variable, overwritten by the elements of another vector, and read back.\<close>

lemma WriteArrayElemRange_cell:
  assumes b: "bytes_at s a (enc_cell (cell_of (vt_vec c xs)))" and ne: "xs \<noteq> []"
    and i1: "i1 = addr_of_int idx1 mod int (length xs)" and i2: "i2 = addr_of_int idx2 mod int (length xs)"
    and vs: "length vs = Suc (nat \<bar>i2 - i1\<bar>)"
  shows "\<exists>s'. WriteArrayElemRange c (a + 1) (vt_vec c vs) idx1 idx2 s = Ok s' \<and>
    bytes_at s' a (enc_cell (cell_of (vt_vec c (put_range xs i1 (if i2 \<ge> i1 then 1 else -1) vs)))) \<and>
    ctl s' = ctl s \<and> m_sp s' = m_sp s \<and>
    (\<forall>y. y < a \<or> a + int (length (enc_cell (cell_of (vt_vec c xs)))) \<le> y \<longrightarrow> m_mem s' y = m_mem s y)"
proof -
  let ?src = "src_list ''Array index out of bounds.'' vs"
  have b': "bytes_at s a [byte_of_vmtype (vt_type c)]" "vec_at s (a + 1) xs"
    using b by (simp_all add: vec_cell_at)
  have "\<forall>k < length vs. ?src k = Ok (vs ! k)" by (simp add: src_list_def)
  from write_span_vec [OF b'(2) ne i1 i2 vs this]
  obtain s' where s': "write_span c ?src (a + 1) idx1 idx2 s = Ok s'"
    "vec_at s' (a + 1) (put_range xs i1 (if i2 \<ge> i1 then 1 else -1) vs)" "ctl s' = ctl s" "m_sp s' = m_sp s"
    "\<forall>y. y < a + 1 \<or> a + 1 + 4 + int (length xs) * c_size c \<le> y \<longrightarrow> m_mem s' y = m_mem s y"
    by blast
  have "m_memsize s' = m_memsize s" using arg_cong [OF s'(3), of m_memsize] by (simp add: ctl_def)
  then have "bytes_at s' a [byte_of_vmtype (vt_type c)]"
    using s'(5) by (intro bytes_at_cong [OF b'(1)]) auto
  then show ?thesis
    using s' by (auto simp: WriteArrayElemRange_def get_vec vec_cell_at length_vec_cell elems_length)
qed

lemma ReadArrayElemRange_vec:
  assumes "xs \<noteq> []" "i1 = sint idx1 mod int (length xs)" "i2 = sint idx2 mod int (length xs)"
  shows "ReadArrayElemRange c (vt_vec c xs) idx1 idx2 s = push_data (vt_vec c (span xs i1 i2)) s"
  using assms by (simp add: ReadArrayElemRange_def VmStack.get_vec_def get_vec read_span_def safe_array_index_mod)

end

interpretation real_a: array_laws real_vt
  by unfold_locales (simp_all add: vt_defs codec_defs enc_elems_def)

interpretation int_a: array_laws int_vt
  by unfold_locales (simp_all add: vt_defs codec_defs enc_elems_def)

interpretation cplx_a: array_laws cplx_vt
  by unfold_locales (simp_all add: vt_defs codec_defs enc_elems_def)

interpretation quat_a: array_laws quat_vt
  by unfold_locales (simp_all add: vt_defs codec_defs enc_elems_def)

section \<open>Array instructions on values\<close>

text \<open>The elements of an indexable value as values of their own, and the update of one.\<close>

fun elements :: "t_data \<Rightarrow> t_data list option" where
  "elements (RealArrD xs) = Some (map RealD xs)"
| "elements (IntArrD xs) = Some (map IntD xs)"
| "elements (CplxArrD xs) = Some (map CplxD xs)"
| "elements (QuatArrD xs) = Some (map QuatD xs)"
| "elements (StrD str) = Some (map (\<lambda>ch. StrD [ch]) str)"
| "elements _ = None"

fun set_element :: "t_data \<Rightarrow> nat \<Rightarrow> t_data \<Rightarrow> t_data option" where
  "set_element (RealArrD xs) i (RealD x) = Some (RealArrD (xs[i := x]))"
| "set_element (IntArrD xs) i (IntD x) = Some (IntArrD (xs[i := x]))"
| "set_element (CplxArrD xs) i (CplxD x) = Some (CplxArrD (xs[i := x]))"
| "set_element (QuatArrD xs) i (QuatD x) = Some (QuatArrD (xs[i := x]))"
| "set_element _ _ _ = None"

lemma elements_plain: "elements arr = Some es \<Longrightarrow> d \<in> set es \<Longrightarrow> plain d"
  by (cases arr) auto

lemma safe_array_index_list:
  "xs \<noteq> [] \<Longrightarrow> safe_array_index lo idx (int (length xs)) = Ok (idx mod int (length xs))"
  by (simp add: safe_array_index_mod)

lemma rdarr_value:
  assumes "elements arr = Some es" "es \<noteq> []" "i = nat (sint idx mod int (length es))"
    and "PopInt s = Ok (idx, s1)" "PopData s1 = Ok (arr, s2)"
  shows "op_rdarr s = push_data (es ! i) s2"
proof -
  have n: "0 < int (length es)" using assms(2) by simp
  have i: "i < length es" using n assms(3) by (simp add: nat_less_iff)
  show ?thesis
    using assms i safe_array_index_list [OF assms(2), of int_min "sint idx"]
      safe_array_index_list [OF assms(2), of "- (2 ^ 63)" "sint idx"]
    by (cases arr) (auto simp: op_rdarr_def ReadArrayElem_def get_vec_def vt_defs codec_defs)
qed

lemma enc_elems_bytes:
  "length (enc_elems real_codec rs) = 8 * length rs" "length (enc_elems int_codec is) = 8 * length is"
  "length (enc_elems cplx_codec zs) = 16 * length zs" "length (enc_elems quat_codec qs) = 32 * length qs"
  by (simp_all add: enc_elems_def length_concat_const length_enc_cplx length_enc_quat)

lemma data_bytes_element:
  assumes "elements arr = Some es" "d \<in> set es"
  shows "data_bytes d \<le> data_bytes arr"
proof -
  obtain n where ne: "length es = Suc n" using assms(2) by (cases es) auto
  show ?thesis
    using assms ne
    by (cases arr) (auto simp: data_bytes_def enc_cell_def cell_of_def length_enc_cplx length_enc_quat
      length_enc_chars enc_elems_bytes)
qed

text \<open>\<open>RDARR\<close> replaces an indexable value and an index by the element at that index.\<close>

lemma op_rdarr_stack:
  assumes st: "stack_of s (IntD idx # arr # ds)" and es: "elements arr = Some es" "es \<noteq> []"
  shows "\<exists>s'. op_rdarr s = Ok s' \<and> stack_of s' (es ! nat (sint idx mod int (length es)) # ds) \<and> ctl s' = ctl s"
proof -
  let ?e = "es ! nat (sint idx mod int (length es))"
  have n: "0 < int (length es)" using es(2) by simp
  have mem: "?e \<in> set es" using n by (simp add: nat_less_iff)
  obtain s1 where 1: "PopData s = Ok (IntD idx, s1)" "stack_of s1 (arr # ds)" "stack_room s1 9" "ctl s1 = ctl s"
    using ds.pop_law [OF st stack_of_room0 [OF st]] by auto
  obtain s2 where 2: "PopData s1 = Ok (arr, s2)" "stack_of s2 ds" "stack_room s2 (9 + data_bytes arr)"
      "ctl s2 = ctl s1"
    using ds.pop_law [OF 1(2,3)] by auto
  have "op_rdarr s = push_data ?e s2"
    using 1(1) 2(1) by (intro rdarr_value [OF es refl]) (simp_all add: PopInt_def)
  then show ?thesis
    using ds.push_law [OF 2(2) elements_plain [OF es(1) mem] 2(3)] data_bytes_element [OF es(1) mem] 1(4) 2(4)
    by auto
qed

lemma vt_elems [simp]:
  shows real_v_elem: "vt_elem real_vt = RealD" and int_v_elem: "vt_elem int_vt = IntD"
    and cplx_v_elem: "vt_elem cplx_vt = CplxD" and quat_v_elem: "vt_elem quat_vt = QuatD"
  by (simp_all add: vt_defs)

lemma vt_vecs [simp]:
  shows real_v_vec: "vt_vec real_vt = RealArrD" and int_v_vec: "vt_vec int_vt = IntArrD"
    and cplx_v_vec: "vt_vec cplx_vt = CplxArrD" and quat_v_vec: "vt_vec quat_vt = QuatArrD"
  by (simp_all add: vt_defs)

lemmas write_elem_cells =
  real_a.WriteArrayElem_cell [unfolded real_v_elem real_v_vec]
  int_a.WriteArrayElem_cell [unfolded int_v_elem int_v_vec]
  cplx_a.WriteArrayElem_cell [unfolded cplx_v_elem cplx_v_vec]
  quat_a.WriteArrayElem_cell [unfolded quat_v_elem quat_v_vec]

text \<open>
  \<open>WRARR\<close> overwrites one element of a vector variable above the operands. The index wraps
  modulo the length; the variable then holds the updated vector.
\<close>

lemma wrarr_value:
  assumes "PopInt s = Ok (idx, s1)" "PopData s1 = Ok (d, s2)" "PopAddress s2 = Ok (a, s3)"
    and b: "bytes_at s3 a (enc_cell (cell_of arr))" and es: "elements arr = Some es" "es \<noteq> []"
    and upd: "set_element arr (nat (addr_of_int idx mod int (length es))) d = Some arr'"
  shows "\<exists>s'. op_wrarr s = Ok s' \<and> bytes_at s' a (enc_cell (cell_of arr')) \<and> ctl s' = ctl s3 \<and> m_sp s' = m_sp s3 \<and>
    (\<forall>y. y < a \<or> a + int (data_bytes arr) \<le> y \<longrightarrow> m_mem s' y = m_mem s3 y)"
proof -
  have t: "bytes_at s3 a (enc_byte (byte_of_vmtype (fst (cell_of arr))))"
    using cell_bytes(1) [OF b] .
  have ok: "cell_ok (cell_of arr)" using upd by (cases arr) auto
  have ty: "ReadMemType a s3 = Ok (fst (cell_of arr))"
    using byte_c.ReadMemRaw_bytes [of s3 a "byte_of_vmtype (fst (cell_of arr))"] t tag_not_other [OF ok]
    by (simp add: ReadMemType_def)
  have a1: "wrap32 (a + 1) = a + 1" using bytes_at_wrap_end [OF t] by simp
  have run: "op_wrarr s = (case fst (cell_of arr) of
       VM_REALARR \<Rightarrow> WriteArrayElem real_vt (a + 1) d idx s3
     | VM_INTARR \<Rightarrow> WriteArrayElem int_vt (a + 1) d idx s3
     | VM_CPLXARR \<Rightarrow> WriteArrayElem cplx_vt (a + 1) d idx s3
     | VM_QUATARR \<Rightarrow> WriteArrayElem quat_vt (a + 1) d idx s3
     | _ \<Rightarrow> Throw (RuntimeError ''Cannot index non-array type.''))"
    using assms(1-3) ty a1 by (simp add: op_wrarr_def Let_def)
  show ?thesis
  proof (cases arr)
    case (RealArrD xs)
    then obtain x where d: "d = RealD x" using upd by (cases d) auto
    have "xs \<noteq> []" "bytes_at s3 a (enc_cell (cell_of (RealArrD xs)))" using es b RealArrD by auto
    from write_elem_cells(1) [OF this(2,1), of x idx] show ?thesis
      using upd es RealArrD d by (auto simp: run cell_of_def data_bytes_def)
  next
    case (IntArrD xs)
    then obtain x where d: "d = IntD x" using upd by (cases d) auto
    have "xs \<noteq> []" "bytes_at s3 a (enc_cell (cell_of (IntArrD xs)))" using es b IntArrD by auto
    from write_elem_cells(2) [OF this(2,1), of x idx] show ?thesis
      using upd es IntArrD d by (auto simp: run cell_of_def data_bytes_def)
  next
    case (CplxArrD xs)
    then obtain x where d: "d = CplxD x" using upd by (cases d) auto
    have "xs \<noteq> []" "bytes_at s3 a (enc_cell (cell_of (CplxArrD xs)))" using es b CplxArrD by auto
    from write_elem_cells(3) [OF this(2,1), of x idx] show ?thesis
      using upd es CplxArrD d by (auto simp: run cell_of_def data_bytes_def)
  next
    case (QuatArrD xs)
    then obtain x where d: "d = QuatD x" using upd by (cases d) auto
    have "xs \<noteq> []" "bytes_at s3 a (enc_cell (cell_of (QuatArrD xs)))" using es b QuatArrD by auto
    from write_elem_cells(4) [OF this(2,1), of x idx] show ?thesis
      using upd es QuatArrD d by (auto simp: run cell_of_def data_bytes_def)
  qed (use upd in auto)
qed

text \<open>\<open>WRARRR\<close> and \<open>RDARRR\<close> on a vector of reals.\<close>

lemma wrarrr_reals:
  assumes "PopInt s = Ok (idx2, s1)" "PopInt s1 = Ok (idx1, s2)" "PopData s2 = Ok (RealArrD vs, s3)"
    and "PopAddress s3 = Ok (a, s4)" and b: "bytes_at s4 a (enc_cell (cell_of (RealArrD xs)))" and ne: "xs \<noteq> []"
    and i: "i1 = addr_of_int idx1 mod int (length xs)" "i2 = addr_of_int idx2 mod int (length xs)"
    and vs: "length vs = Suc (nat \<bar>i2 - i1\<bar>)"
  shows "\<exists>s'. op_wrarrr s = Ok s' \<and>
    bytes_at s' a (enc_cell (cell_of (RealArrD (put_range xs i1 (if i2 \<ge> i1 then 1 else -1) vs)))) \<and>
    ctl s' = ctl s4 \<and> m_sp s' = m_sp s4 \<and>
    (\<forall>y. y < a \<or> a + int (data_bytes (RealArrD xs)) \<le> y \<longrightarrow> m_mem s' y = m_mem s4 y)"
proof -
  have t: "bytes_at s4 a (enc_byte (byte_of_vmtype VM_REALARR))"
    using cell_bytes(1) [OF b] by (simp add: cell_of_def)
  have ty: "ReadMemType a s4 = Ok VM_REALARR"
    using byte_c.ReadMemRaw_bytes [of s4 a "byte_of_vmtype VM_REALARR"] t by (simp add: ReadMemType_def)
  have a1: "wrap32 (a + 1) = a + 1" using bytes_at_wrap_end [OF t] by simp
  have "op_wrarrr s = WriteArrayElemRange real_vt (a + 1) (RealArrD vs) idx1 idx2 s4"
    using assms(1-4) ty a1 by (simp add: op_wrarrr_def Let_def)
  then show ?thesis
    using real_a.WriteArrayElemRange_cell [unfolded real_v_vec, OF b ne i vs] by (simp add: data_bytes_def)
qed

lemma span_length: "length (span xs i1 i2) = Suc (nat \<bar>i2 - i1\<bar>)"
  by (simp add: span_def Let_def)

lemma rdarrr_reals:
  assumes st: "stack_of t (IntD idx2 # IntD idx1 # RealArrD xs # ds)" and ne: "xs \<noteq> []"
    and i: "i1 = sint idx1 mod int (length xs)" "i2 = sint idx2 mod int (length xs)"
  shows "\<exists>t'. op_rdarrr t = Ok t' \<and> stack_of t' (RealArrD (span xs i1 i2) # ds) \<and> ctl t' = ctl t"
proof -
  have n: "0 < int (length xs)" using ne by simp
  have r: "0 \<le> i1" "i1 < int (length xs)" "0 \<le> i2" "i2 < int (length xs)"
    using pos_mod_sign [OF n] pos_mod_bound [OF n] by (simp_all add: i)
  obtain s1 where 1: "PopData t = Ok (IntD idx2, s1)" "stack_of s1 (IntD idx1 # RealArrD xs # ds)"
      "stack_room s1 9" "ctl s1 = ctl t"
    using ds.pop_law [OF st stack_of_room0 [OF st]] by auto
  obtain s2 where 2: "PopData s1 = Ok (IntD idx1, s2)" "stack_of s2 (RealArrD xs # ds)"
      "stack_room s2 18" "ctl s2 = ctl s1"
    using ds.pop_law [OF 1(2,3)] by auto
  obtain s3 where 3: "PopData s2 = Ok (RealArrD xs, s3)" "stack_of s3 ds"
      "stack_room s3 (18 + data_bytes (RealArrD xs))" "ctl s3 = ctl s2"
    using ds.pop_law [OF 2(2,3)] by auto
  have "op_rdarrr t = push_data (RealArrD (span xs i1 i2)) s3"
    using 1(1) 2(1) 3(1) real_a.ReadArrayElemRange_vec [unfolded real_v_vec, OF ne i]
    by (simp add: op_rdarrr_def PopInt_def)
  moreover have "data_bytes (RealArrD (span xs i1 i2)) \<le> 18 + data_bytes (RealArrD xs)"
    using r by (simp add: data_bytes_def enc_cell_def cell_of_def enc_elems_bytes span_length)
  ultimately show ?thesis
    using ds.push_law [OF 3(2) _ 3(3), of "RealArrD (span xs i1 i2)"] 1(4) 2(4) 3(4) by auto
qed

end
