(* ===== verification/VmLoopFacts.thy ===== *)
theory VmLoopFacts
  imports VmArrayFacts
begin

text \<open>
  The loop of \<open>VM::Run\<close> as a whole: which interrupt is taken and what its call does to the
  interrupted program, one fetched instruction, and runs of several iterations.
\<close>

section \<open>Interrupts\<close>

definition dropped :: "vm \<Rightarrow> nat \<Rightarrow> bool" where
  "dropped s k \<longleftrightarrow> m_irqs s ! k \<and> m_isrs s ! k = None"

definition taken :: "vm \<Rightarrow> nat \<Rightarrow> bool" where
  "taken s k \<longleftrightarrow> m_irqs s ! k \<and> m_isrs s ! k \<noteq> None"

definition clear_irqs :: "nat list \<Rightarrow> bool list \<Rightarrow> bool list" where
  "clear_irqs ks irqs = fold (\<lambda>k irqs. if irqs ! k then irqs[k := False] else irqs) ks irqs"

lemma clear_one: "irqs[k := False] ! j \<Longrightarrow> irqs ! j"
  by (cases "k < length irqs") (auto simp: nth_list_update list_update_beyond split: if_splits)

lemma poll_none:
  "\<forall>k \<in> set ks. \<not> taken s k \<Longrightarrow> poll_irqs ks s = (None, s\<lparr>m_irqs := clear_irqs ks (m_irqs s)\<rparr>)"
proof (induction ks arbitrary: s)
  case Nil
  then show ?case by (simp add: clear_irqs_def)
next
  case (Cons k ks)
  have "\<forall>j \<in> set ks. \<not> taken (s\<lparr>m_irqs := (m_irqs s)[k := False]\<rparr>) j"
    using Cons.prems by (auto simp: taken_def dest: clear_one)
  then show ?case
    using Cons by (auto simp: taken_def Let_def clear_irqs_def split: option.splits)
qed

lemma poll_some:
  "\<forall>j \<in> set ks. \<not> taken s j \<Longrightarrow> k \<notin> set ks \<Longrightarrow> m_irqs s ! k \<Longrightarrow> m_isrs s ! k = Some a \<Longrightarrow>
   poll_irqs (ks @ k # rest) s = (Some a, s\<lparr>m_irqs := (clear_irqs ks (m_irqs s))[k := False]\<rparr>)"
proof (induction ks arbitrary: s)
  case Nil
  then show ?case by (simp add: clear_irqs_def Let_def)
next
  case (Cons j ks)
  have "\<forall>i \<in> set ks. \<not> taken (s\<lparr>m_irqs := (m_irqs s)[j := False]\<rparr>) i"
    using Cons.prems by (auto simp: taken_def dest: clear_one)
  then show ?case
    using Cons by (auto simp: taken_def Let_def clear_irqs_def split: option.splits)
qed

lemma clear_irqs_other: "j \<notin> set ks \<Longrightarrow> clear_irqs ks irqs ! j = irqs ! j"
  unfolding clear_irqs_def by (induction ks arbitrary: irqs) auto

lemma length_clear_irqs [simp]: "length (clear_irqs ks irqs) = length irqs"
  unfolding clear_irqs_def by (induction ks arbitrary: irqs) auto

lemma upt_split: "k < n \<Longrightarrow> [0..<n] = [0..<k] @ k # [Suc k..<n]"
  using upt_add_eq_append [of 0 k "n - k"] upt_conv_Cons [of k n] by simp

text \<open>The lowest pending request with a routine is taken, later ones stay pending.\<close>

lemma poll_first:
  assumes "k < m_num_interrupts" "taken s k" "\<forall>j < k. \<not> taken s j" "vm_wf s"
  obtains s' where "poll_irqs [0..<m_num_interrupts] s = (m_isrs s ! k, s')"
    "\<not> m_irqs s' ! k" "\<forall>j. k < j \<longrightarrow> m_irqs s' ! j = m_irqs s ! j" "s' = s\<lparr>m_irqs := m_irqs s'\<rparr>"
proof -
  obtain a where a: "m_irqs s ! k" "m_isrs s ! k = Some a" using assms(2) by (auto simp: taken_def)
  have len: "length (m_irqs s) = m_num_interrupts" using assms(4) by (simp add: vm_wf_def)
  have "poll_irqs [0..<m_num_interrupts] s
      = (Some a, s\<lparr>m_irqs := (clear_irqs [0..<k] (m_irqs s))[k := False]\<rparr>)"
    unfolding upt_split [OF assms(1)] using a assms(3) by (intro poll_some) auto
  then show ?thesis
    using that [of "s\<lparr>m_irqs := (clear_irqs [0..<k] (m_irqs s))[k := False]\<rparr>"] a assms(1) len
    by (simp add: clear_irqs_other)
qed

text \<open>
  Taking an interrupt pushes the address of the routine and calls it. The call takes a frame
  size off the stack as well: the topmost value of the interrupted program.
\<close>

lemma cells_on_irqs [simp]: "cells_on (s\<lparr>m_irqs := irqs\<rparr>) cs = cells_on s cs"
  by (simp add: cells_on_def holds_def bytes_at_def in_mem_def)

lemma interrupt_call:
  assumes st: "cells_on s (cell_of (IntD v) # cs)" and wf: "vm_wf s" and room: "stack_room s 5"
    and k: "k < m_num_interrupts" "m_irqs s ! k" "m_isrs s ! k = Some a" "\<forall>j < k. \<not> taken s j"
    and a: "addr_range a" and v: "0 \<le> sint v" "sint v \<le> m_sp s - 1"
  obtains op s1 s' where "next_op s = Ok (op, s1)" "exec e op s1 = Ok (Running, s')"
    "m_ip s' = a" "m_sp s' = m_bp s' - sint v" "frame_on s' (m_bp s) (m_ip s) cs"
proof -
  have "taken s k" using k by (simp add: taken_def)
  then obtain s0 where s0: "poll_irqs [0..<m_num_interrupts] s = (Some a, s0)" "s0 = s\<lparr>m_irqs := m_irqs s0\<rparr>"
    by (metis poll_first [OF k(1) _ k(4) wf] k(3))
  then obtain irqs where s0': "s0 = s\<lparr>m_irqs := irqs\<rparr>" by blast
  let ?c = "addr_cell VM_ADDR_MEM a" and ?s1 = "push_state (enc_cell (addr_cell VM_ADDR_MEM a)) s0"
  have "cells_on s0 (cell_of (IntD v) # cs)" "stack_room s0 5"
    using st room by (simp_all add: s0' stack_room_def)
  note p = cells_on_PushAddress [OF this(1) mem_type a this(2)]
  obtain s' where s': "op_call ?s1 = Ok s'" "m_ip s' = a" "m_bp s' = m_sp ?s1 + 4" "m_sp s' = m_bp s' - sint v"
      "frame_on s' (m_bp ?s1) (m_ip ?s1) cs"
    using op_call_cell [OF p(2) a v(1)] v(2) wf by (simp add: s0' vm_wf_def) metis
  show ?thesis
  proof (rule that [of OP_CALL ?s1 s'])
    show "next_op s = Ok (OP_CALL, ?s1)" using s0(1) p(1) by (simp add: next_op_def)
    show "exec e OP_CALL ?s1 = Ok (Running, s')" using s'(1) by (simp add: exec_def cont_def)
  qed (use s' in \<open>simp_all add: s0'\<close>)
qed

section \<open>One fetched instruction\<close>

definition quiet :: "vm \<Rightarrow> bool" where
  "quiet s \<longleftrightarrow> (\<forall>k < m_num_interrupts. \<not> m_irqs s ! k)"

lemma clear_quiet: "\<forall>k \<in> set ks. \<not> irqs ! k \<Longrightarrow> clear_irqs ks irqs = irqs"
  unfolding clear_irqs_def by (induction ks) auto

lemma next_op_quiet:
  assumes "quiet s" "bytes_at s (m_ip s) [byte_of_opcode op]" "op \<in> set opcodes"
  shows "next_op s = Ok (op, s\<lparr>m_ip := m_ip s + 1\<rparr>)"
proof -
  have "poll_irqs [0..<m_num_interrupts] s = (None, s)"
    using assms(1) poll_none [of "[0..<m_num_interrupts]" s]
    by (auto simp: quiet_def taken_def clear_quiet)
  then show ?thesis
    using bytes_at_load [OF assms(2)] bytes_at_wrap_end [OF assms(2)] assms(3)
    by (simp add: next_op_def fetch_def dec_byte_def)
qed

lemma step_quiet:
  assumes "CheckPointerBounds s = Ok ()" "quiet s" "bytes_at s (m_ip s) [byte_of_opcode op]"
    and "op \<in> set opcodes" "exec e op (s\<lparr>m_ip := m_ip s + 1\<rparr>) = Ok (Running, s')"
    and "m_ip s' < m_memsize s'"
  shows "step e s = Ok (Running, s')"
  using assms by (simp add: step_def next_op_quiet wrap_ip_def)

section \<open>Runs\<close>

text \<open>More iterations do not change a run that has ended.\<close>

lemma run_more:
  "run e n s = Ok (st, s') \<Longrightarrow> st \<noteq> Running \<Longrightarrow> run e (n + k) s = Ok (st, s')"
proof (induction n arbitrary: s)
  case (Suc n)
  then show ?case by (auto simp: rbind_eq_Ok split: if_splits prod.splits)
qed simp

lemma run_end_unique:
  assumes "run e n s = Ok (st, s')" "st \<noteq> Running" "run e k s = Ok (st2, s2)" "st2 \<noteq> Running"
  shows "st = st2 \<and> s' = s2"
  using run_more [OF assms(1,2), of k] run_more [OF assms(3,4), of n] by (simp add: add.commute)

lemma run_reachable: "run e n s = Ok (Running, s') \<Longrightarrow> reachable e s s'"
proof -
  have "run e n t = Ok (Running, s') \<Longrightarrow> reachable e s t \<Longrightarrow> reachable e s s'" for t
  proof (induction n arbitrary: t)
    case (Suc n)
    then obtain u where "step e t = Ok (Running, u)" "run e n u = Ok (Running, s')"
      by (auto simp: rbind_eq_Ok split: if_splits prod.splits)
    then show ?case using Suc by (meson mstep.instr reachable.more)
  qed simp
  then show "run e n s = Ok (Running, s') \<Longrightarrow> reachable e s s'" using reachable.init by blast
qed

section \<open>Loading a program\<close>

lemma SetMemByte_ok:
  assumes "0 \<le> a" "a < m_memsize s" "m_memsize s < 2 ^ 31"
  shows "SetMemByte a b s = Ok (s\<lparr>m_mem := put_bytes (m_mem s) a [b]\<rparr>)"
proof -
  have "in_mem s a 1" using assms by (simp add: in_mem_def)
  then show ?thesis
    using assms store_ok [of s a "[b]"]
    by (cases "a = 0") (simp_all add: SetMemByte_def check_complete signed_modulo_int_def)
qed

lemma SetMemLoop_ok:
  assumes "0 \<le> a" "a + int i + int (length bs) \<le> m_memsize s" "m_memsize s < 2 ^ 31"
  shows "SetMemLoop a bs i s = Ok (s\<lparr>m_mem := put_bytes (m_mem s) (a + int i) bs\<rparr>)"
  using assms
proof (induction bs arbitrary: i s)
  case (Cons b bs)
  have w: "wrap32 (a + addr_of_size i) = a + int i"
    using Cons.prems by (simp add: addr_of_size_def)
  show ?case
    using Cons.prems Cons.IH [of "Suc i" "s\<lparr>m_mem := put_bytes (m_mem s) (a + int i) [b]\<rparr>"]
      put_bytes_append_up [of "m_mem s" "a + int i" "[b]" bs]
    by (simp add: w SetMemByte_ok algebra_simps)
qed simp

lemma SetMem_ok:
  assumes "0 \<le> a" "a + int (length bs) \<le> m_memsize s" "m_memsize s < 2 ^ 31"
  shows "SetMem a bs c s = Ok ((if c then UpdateCodeRange a (a + int (length bs)) s else s)
    \<lparr>m_mem := put_bytes (m_mem s) a bs\<rparr>)"
  using assms SetMemLoop_ok [of a 0 bs s] SetMemLoop_ok [of a 0 bs "UpdateCodeRange a (a + int (length bs)) s"]
  by (auto simp: SetMem_def UpdateCodeRange_def split: prod.splits)

lemma new_vm_fields:
  assumes "0 \<le> memsize" "memsize < 2 ^ 31"
  shows "vm_wf (new_vm sz memsize)" "m_memsize (new_vm sz memsize) = memsize"
    "m_ip (new_vm sz memsize) = 0" "m_checks (new_vm sz memsize)"
    "m_code_range (new_vm sz memsize) = (-1, -1)"
    "m_bp (new_vm sz memsize) = memsize" "m_gbp (new_vm sz memsize) = memsize"
    "m_sp (new_vm sz memsize) = wrap32 (memsize - (sz + 1))"
  using assms by (simp_all add: new_vm_def Reset_def vm_wf_def addr_range_def
      wrap32_lower [simplified] wrap32_upper [simplified])

text \<open>A program at address 0 of a fresh machine.\<close>

lemma load_program:
  assumes "prog \<noteq> []" "int (length prog) \<le> memsize" "memsize < 2 ^ 31"
  obtains s0 where "SetMem 0 prog True (new_vm sz memsize) = Ok s0" "machine_inv s0" "m_checks s0"
    "m_ip s0 = 0" "m_code_range s0 = (0, int (length prog))" "bytes_at s0 0 prog"
    "m_memsize s0 = memsize" "m_sp s0 = wrap32 (memsize - (sz + 1))"
proof -
  have m: "0 < memsize" using assms(1,2) by (cases prog) auto
  note f = new_vm_fields [of memsize sz, OF less_imp_le [OF m] assms(3)]
  define s0 where "s0 = (UpdateCodeRange 0 (int (length prog)) (new_vm sz memsize))
    \<lparr>m_mem := put_bytes (m_mem (new_vm sz memsize)) 0 prog\<rparr>"
  have "SetMem 0 prog True (new_vm sz memsize) = Ok s0"
    using SetMem_ok [of 0 prog "new_vm sz memsize" True] assms f(2) by (simp add: s0_def)
  then show ?thesis
    using that [of s0] f m assms(2,3)
    by (simp add: s0_def UpdateCodeRange_def machine_inv_def vm_wf_def bytes_at_def in_mem_def)
qed

end
