(* ===== verification/Demo.thy ===== *)
theory Demo
  imports VmLoopFacts
begin

text \<open>
  Concrete machines for the instances of the properties: \<open>demo_vm cs\<close> is a fresh machine of 4096
  bytes with the cells \<open>cs\<close> on a stack whose base is at address 2048, \<open>demo_env\<close> a simple choice of
  the external functions.
\<close>

definition base_vm :: vm where
  "base_vm = (new_vm 55 4096)\<lparr>m_sp := 2048\<rparr>"

definition demo_vm :: "cell list \<Rightarrow> vm" where
  "demo_vm cs = push_state (enc_stack cs) base_vm"

definition demo_vops :: "'e vops" where
  "demo_vops = \<lparr>v_add = (\<lambda>a b. Ok a), v_sub = (\<lambda>a b. Ok a), v_neg = Ok,
     v_inner = (\<lambda>a b. Throw LengthError), v_scale = (\<lambda>a x. Ok a), v_matmul = (\<lambda>a b. Throw LengthError),
     v_equals = (\<lambda>eps a b. True), v_eq0 = (\<lambda>eps x. False), v_show = (\<lambda>prec x. [])\<rparr>"

definition demo_env :: env where
  "demo_env = \<lparr>e_real = demo_vops, e_int = demo_vops, e_cplx = demo_vops, e_quat = demo_vops,
     e_sqrt = id, e_sin = id, e_cos = id, e_tan = id, e_pow = (\<lambda>a b. a), e_norm = (\<lambda>v. Ok 0),
     e_cplx_mul = (\<lambda>a b. a), e_cplx_div = (\<lambda>a b. a), e_cplx_pow = (\<lambda>a b. a),
     e_quat_add = (\<lambda>a b. a), e_quat_sub = (\<lambda>a b. a), e_quat_mul = (\<lambda>a b. a),
     e_quat_div = (\<lambda>a b. a), e_quat_neg = id, e_quat_pow = (\<lambda>a b. a),
     e_quat_vec = (\<lambda>q v. Ok v), e_quat_of = (\<lambda>d. (0, 0, 0, 0)), e_quat_default = (0, 0, 0, 0),
     e_parse_real = (\<lambda>str. (0, [])), e_parse_cplx = (\<lambda>str. (0, 0)),
     e_parse_quat = (\<lambda>str. (0, 0, 0, 0))\<rparr>"

lemma base_vm_fields [simp]:
  "m_sp base_vm = 2048" "m_memsize base_vm = 4096" "m_checks base_vm" "m_ip base_vm = 0"
  "m_bp base_vm = 4096" "m_gbp base_vm = 4096" "m_code_range base_vm = (-1, -1)"
  "\<not> m_zeropoppedvals base_vm" "m_irqs base_vm = replicate 16 False" "m_isrs base_vm = replicate 16 None"
  by (simp_all add: base_vm_def new_vm_def Reset_def m_num_interrupts_def)

lemma demo_vm_fields [simp]:
  "m_sp (demo_vm cs) = 2048 - int (length (enc_stack cs))" "m_memsize (demo_vm cs) = 4096"
  "m_checks (demo_vm cs)" "m_ip (demo_vm cs) = 0" "m_bp (demo_vm cs) = 4096" "m_gbp (demo_vm cs) = 4096"
  "m_code_range (demo_vm cs) = (-1, -1)" "\<not> m_zeropoppedvals (demo_vm cs)"
  "m_irqs (demo_vm cs) = replicate 16 False" "m_isrs (demo_vm cs) = replicate 16 None"
  by (simp_all add: demo_vm_def)

lemma demo_cells [simp]:
  assumes "\<forall>c \<in> set cs. cell_ok c" "length (enc_stack cs) \<le> 2048"
  shows "cells_on (demo_vm cs) cs"
proof -
  have "holds base_vm []" by (simp add: holds_def bytes_at_def in_mem_def)
  then have "holds (demo_vm cs) (enc_stack cs)"
    using holds_push [of base_vm "[]" "enc_stack cs"] assms(2) by (simp add: demo_vm_def)
  then show ?thesis using assms by (simp add: cells_on_def)
qed

lemma demo_stack [simp]:
  "\<forall>d \<in> set ds. plain d \<Longrightarrow> length (enc_stack (map cell_of ds)) \<le> 2048 \<Longrightarrow>
   stack_of (demo_vm (map cell_of ds)) ds"
  by (simp add: stack_of_def)

lemma demo_room [simp]: "stack_room (demo_vm cs) n \<longleftrightarrow> length (enc_stack cs) + n \<le> 2048"
  by (auto simp: stack_room_def)

lemma demo_wf [simp]: "length (enc_stack cs) \<le> 2048 \<Longrightarrow> vm_wf (demo_vm cs)"
  by (simp add: vm_wf_def addr_range_def m_num_interrupts_def)

lemma cell_lengths [simp]:
  "length (enc_cell (cell_of (RealD r))) = 9" "length (enc_cell (cell_of (BoolD b))) = 2"
  "length (enc_cell (cell_of (StrD str))) = 5 + length str"
  "length (enc_cell (cell_of (RealArrD rs))) = 5 + 8 * length rs"
  "length (enc_cell (cell_of (IntArrD is))) = 5 + 8 * length is"
  by (simp_all add: enc_cell_def cell_of_def length_enc_chars enc_elems_bytes)

lemma enc64_nonempty [simp]: "enc64 w \<noteq> []"
  by (metis enc_lengths(1) length_0_conv zero_neq_numeral)

lemma vt_sizes [simp]: "c_size real_vt = 8" "c_size int_vt = 8" "c_size cplx_vt = 16" "c_size quat_vt = 32"
  by (simp_all add: vt_defs codec_defs)

end
