(* ===== verification/VmProperties.thy ===== *)
theory VmProperties
  imports Demo
begin

text \<open>
  The properties of the virtual machine, each with an instance on a concrete machine where
  it has hypotheses.
\<close>

section \<open>The operand stack and typed memory\<close>

text \<open>
  C7. A value pushed with \<open>PushData\<close> is the one \<open>TopData\<close> shows and \<open>PopData\<close> takes off, for
  every data type other than addresses: pushing and popping leave the registers and the
  configuration, the values below it, and every byte of the memory outside those of the pushed
  value as they were. Addresses are pushed with the register they are relative to, by
  instructions of their own.
\<close>

theorem push_top_pop:
  assumes "stack_of s ds" "plain d" "stack_room s (data_bytes d)"
  shows "\<exists>s1 s2. push_data d s = Ok s1 \<and> stack_of s1 (d # ds) \<and> TopData s1 = Ok d \<and>
    PopData s1 = Ok (d, s2) \<and> stack_of s2 ds \<and> ctl s2 = ctl s \<and> m_sp s2 = m_sp s \<and>
    (\<forall>x. x < m_sp s - int (data_bytes d) \<or> m_sp s \<le> x \<longrightarrow>
      m_mem s1 x = m_mem s x \<and> m_mem s2 x = m_mem s x)"
proof -
  obtain s1 where 1: "push_data d s = Ok s1" "stack_of s1 (d # ds)" "stack_room s1 0" "ctl s1 = ctl s"
    using ds.push_law [OF assms le_refl] by auto
  obtain s2 where 2: "PopData s1 = Ok (d, s2)" "stack_of s2 ds" "ctl s2 = ctl s1"
    using ds.pop_law [OF 1(2,3)] by auto
  have "can_push s (data_bytes d)" using assms cells_on_room by (auto simp: stack_of_def)
  then have p: "s1 = push_state (enc_cell (cell_of d)) s"
    using push_data_ok [OF assms(2)] 1(1) by (simp add: data_bytes_def)
  moreover have "s2 = pop_state (data_bytes d) s1"
    using cells_on_pop(1) [of s1 "cell_of d" "map cell_of ds"] 1(2) 2(1) by (simp add: stack_of_def data_bytes_def)
  ultimately have "m_sp s2 = m_sp s" "\<forall>x. x < m_sp s - int (data_bytes d) \<or> m_sp s \<le> x \<longrightarrow>
      m_mem s1 x = m_mem s x \<and> m_mem s2 x = m_mem s x"
    by (auto simp: data_bytes_def push_state_mem pop_state_mem)
  then show ?thesis using 1 2 stack_of_top [OF 1(2)] by auto
qed

theorem push_top_pop_witness:
  "\<exists>s1 s2. push_data (StrD ''abc'') (demo_vm (map cell_of [IntD 7])) = Ok s1 \<and>
    stack_of s1 [StrD ''abc'', IntD 7] \<and> TopData s1 = Ok (StrD ''abc'') \<and>
    PopData s1 = Ok (StrD ''abc'', s2) \<and> stack_of s2 [IntD 7]"
proof -
  have "stack_of (demo_vm (map cell_of [IntD 7])) [IntD 7]" by (rule demo_stack) simp_all
  from push_top_pop [OF this, of "StrD ''abc''"] show ?thesis by auto
qed

text \<open>
  C10. \<open>OpArithmetic\<close> refines the function \<open>arith\<close> on values: it replaces its two operands by
  the result, the second operand being the topmost one.
\<close>

theorem arithmetic_refines:
  assumes "stack_of s (d2 # d1 # ds)" "arith e op d1 d2 = Ok r" "data_bytes r \<le> data_bytes d2 + data_bytes d1"
  shows "\<exists>s'. OpArithmetic e op s = Ok s' \<and> stack_of s' (r # ds) \<and> ctl s' = ctl s"
  using op_arithmetic [OF assms(1) stack_of_room0 [OF assms(1)] assms(2)] assms(3) by auto

theorem arithmetic_refines_witness:
  "\<exists>s'. OpArithmetic demo_env CHR ''-'' (demo_vm (map cell_of [IntD 2, IntD 7, RealD 0])) = Ok s' \<and>
    stack_of s' [IntD 5, RealD 0] \<and> ctl s' = ctl (demo_vm (map cell_of [IntD 2, IntD 7, RealD 0]))"
proof (rule arithmetic_refines)
  show "stack_of (demo_vm (map cell_of [IntD 2, IntD 7, RealD 0])) [IntD 2, IntD 7, RealD 0]"
    by (rule demo_stack) simp_all
  show "arith demo_env CHR ''-'' (IntD 7) (IntD 2) = Ok (IntD 5)"
    by (simp add: arith_def arith_same_def arith_int_def rmap_def int_result_def int_min_def int_max_def)
qed simp

text \<open>
  C23. What \<open>WriteMemData\<close> writes at an address is what \<open>ReadMemData\<close> reads there, descriptor
  and value; a value that lies outside the written bytes reads as before.
\<close>

theorem memory_write_read:
  assumes "in_mem s a (int (data_bytes d))" "plain d"
  shows "\<exists>s'. WriteMemData a d s = Ok s' \<and> ReadMemData a s' = Ok (cell_of d) \<and>
    (\<forall>b p. bytes_at s b (enc_cell p) \<and> cell_ok p \<and>
      (b + int (length (enc_cell p)) \<le> a \<or> a + int (data_bytes d) \<le> b) \<longrightarrow> ReadMemData b s' = Ok p)"
proof (rule write_read_frame [OF assms(1) [unfolded data_bytes_def] assms(2)])
  fix s'
  assume "WriteMemData a d s = Ok s'" "ReadMemData a s' = Ok (cell_of d)"
    and "\<And>b p. bytes_at s b (enc_cell p) \<Longrightarrow> cell_ok p \<Longrightarrow>
      b + int (length (enc_cell p)) \<le> a \<or> a + int (length (enc_cell (cell_of d))) \<le> b \<Longrightarrow>
      ReadMemData b s' = Ok p"
  then show ?thesis by (auto simp: data_bytes_def)
qed

theorem memory_write_read_witness:
  "\<exists>s'. WriteMemData 100 (RealD 5) base_vm = Ok s' \<and> ReadMemData 100 s' = Ok (VM_REAL, RealD 5)"
proof -
  have "in_mem base_vm 100 (int (data_bytes (RealD 5)))" by (simp add: in_mem_def)
  from memory_write_read [OF this] show ?thesis by (auto simp: cell_of_def)
qed

text \<open>
  C27. With the bounds checks on, raw reads, writes, pops and inspections of the values of fixed
  size never touch memory outside the array, whatever the address and the stack pointer: each of
  them is defined, and ends with a value or with the exception of the check, if the end of the
  access is an address, and otherwise the sum of the check overflows before memory is touched.
  The pushes, strings and arrays are not among them, and break this: see the properties of the
  check of a push and of the length of an array.
\<close>

definition raw_checked :: "('e, 'x) codec_scheme \<Rightarrow> 'e \<Rightarrow> t_addr \<Rightarrow> t_addr \<Rightarrow> vm \<Rightarrow> bool" where
  "raw_checked c v a k s \<longleftrightarrow>
     checked (a + c_size c) (ReadMemRaw c a s) \<and> checked (a + c_size c) (WriteMemRaw c a v s) \<and>
     checked (m_sp s + c_size c) (PopRaw c s) \<and> checked (m_sp s + k + c_size c) (TopRaw c k s)"

theorem raw_access_safe:
  assumes "m_checks s" "vm_wf s" "addr_range a" "addr_range (m_sp s + k)"
  shows "raw_checked real_codec r a k s \<and> raw_checked int_codec i a k s \<and> raw_checked cplx_codec z a k s \<and>
    raw_checked quat_codec q a k s \<and> raw_checked addr_codec b a k s \<and> raw_checked byte_codec y a k s \<and>
    raw_checked char_codec ch a k s"
  unfolding raw_checked_def
  by (intro conjI real_c.raw_safe [OF assms] int_c.raw_safe [OF assms] cplx_c.raw_safe [OF assms]
      quat_c.raw_safe [OF assms] addr_c.raw_safe [OF assms] byte_c.raw_safe [OF assms] char_c.raw_safe [OF assms])

theorem raw_access_safe_witness:
  "raw_checked real_codec 0 (-5) 4000 base_vm \<and> raw_checked int_codec 0 (-5) 4000 base_vm"
proof -
  have "vm_wf base_vm" by (simp add: vm_wf_def addr_range_def m_num_interrupts_def)
  then show ?thesis using raw_access_safe [of base_vm "-5" 4000] by (simp add: addr_range_def)
qed

text \<open>
  C28. Pushing a raw value is not covered by the bounds check: \<open>PushRaw\<close> tests the bytes above
  the stack pointer and writes those below it. With fewer than eight bytes of stack left a
  real is written in front of the array, with all checks on.
\<close>

theorem push_check_misses_underflow:
  assumes "m_checks s" "0 \<le> m_sp s" "m_sp s < 8" "m_sp s + 8 \<le> m_memsize s" "m_memsize s < 2 ^ 31"
  shows "PushRaw real_codec v s = Undefined (UB_Memory (m_sp s - 8) 8)"
  using assms check_complete [of s "m_sp s" 8]
  by (simp add: PushRaw_def Let_def in_mem_def store_def enc64_nonempty)

theorem push_check_misses_underflow_witness:
  "PushRaw real_codec 1 (base_vm\<lparr>m_sp := 4\<rparr>) = Undefined (UB_Memory (-4) 8)"
  using push_check_misses_underflow [of "base_vm\<lparr>m_sp := 4\<rparr>" 1] by simp

text \<open>
  C29. The check of an array is made with the 32-bit product of length and element size. A
  length of 2 ^ 29 reals makes that product zero: the check passes and the whole address
  space behind the length is read.
\<close>

theorem array_length_overflow:
  assumes "bytes_at s a (enc_addr (2 ^ 29))"
  shows "ReadArrayRaw real_vt a s = Undefined (UB_Memory (a + 4) (2 ^ 32))"
proof -
  have r: "ReadMemRaw addr_codec a s = Ok (2 ^ 29)"
    using assms by (simp add: addr_c.ReadMemRaw_bytes addr_range_def)
  have a: "wrap32 (a + 4) = a + 4" "0 \<le> a" "a + 4 \<le> m_memsize s" "a + 4 < 2 ^ 31"
    using assms bytes_at_wrap_end [OF assms] by (auto simp: bytes_at_def in_mem_def)
  have "wrap32 (2 ^ 29 * 8) = 0" by (simp add: wrap32_def)
  then show ?thesis
    using r a check_complete [of s "a + 4" 0]
    by (simp add: ReadArrayRaw_def Let_def read_seq_def load_def in_mem_def vt_sizes)
qed

theorem array_length_overflow_witness:
  "ReadArrayRaw real_vt 2044 (push_state (enc_addr (2 ^ 29)) base_vm) = Undefined (UB_Memory 2048 (2 ^ 32))"
proof -
  have "bytes_at (push_state (enc_addr (2 ^ 29)) base_vm) 2044 (enc_addr (2 ^ 29))"
    by (simp add: bytes_at_def in_mem_def push_state_def get_put_same_len)
  from array_length_overflow [OF this] show ?thesis by simp
qed

section \<open>Instructions\<close>

text \<open>
  \<open>PUSH\<close>: with a value and its descriptor at the instruction pointer, the instruction puts
  them on the stack and leaves the instruction pointer on the next instruction.
\<close>

theorem push_immediate:
  assumes "cells_on s cs" "bytes_at s (m_ip s) (enc_cell p)" "cell_ok p"
    and "GetDataSize (snd p) = Ok n" "stack_room s (length (enc_cell p))"
  shows "\<exists>s'. op_push s = Ok s' \<and> cells_on s' (p # cs) \<and>
    m_ip s' = m_ip s + int (length (enc_cell p)) \<and> m_bp s' = m_bp s \<and> m_gbp s' = m_gbp s"
  using op_push_cell [OF assms(1,5,2,3,4)] by simp

definition demo_push :: vm where
  "demo_push = (demo_vm [])\<lparr>m_mem := put_bytes (m_mem base_vm) 0 (enc_cell (VM_INT, IntD 42))\<rparr>"

theorem push_immediate_witness:
  "\<exists>s'. op_push demo_push = Ok s' \<and> cells_on s' [(VM_INT, IntD 42)] \<and> m_ip s' = 9"
proof -
  have c: "length (enc_cell (VM_INT, IntD 42)) = 9" by (simp add: enc_cell_def)
  have f: "m_sp demo_push = 2048" "m_ip demo_push = 0" "m_memsize demo_push = 4096"
    by (simp_all add: demo_push_def)
  have "cells_on demo_push []" using demo_cells [of "[]"] by (simp add: cells_on_def holds_def bytes_at_def in_mem_def f)
  moreover have "bytes_at demo_push (m_ip demo_push) (enc_cell (VM_INT, IntD 42))"
    by (simp add: bytes_at_def in_mem_def c demo_push_def get_put_same_len)
  ultimately have "\<exists>s'. op_push demo_push = Ok s' \<and> cells_on s' [(VM_INT, IntD 42)] \<and>
      m_ip s' = m_ip demo_push + int (length (enc_cell (VM_INT, IntD 42))) \<and>
      m_bp s' = m_bp demo_push \<and> m_gbp s' = m_gbp demo_push"
    by (rule push_immediate [of _ _ _ 8]) (simp_all add: cell_ok_def c stack_room_def f)
  then show ?thesis by (auto simp: c f)
qed

text \<open>
  C21. \<open>CALL\<close>: with the address of a function and the size of its frame on the stack, control
  goes to the function; the base pointer addresses the saved base pointer and return
  address, the caller's stack lies above them, and the frame of that size below.
\<close>

theorem call_builds_frame:
  assumes "cells_on s (addr_cell VM_ADDR_MEM f # cell_of (IntD fs) # cs)" "vm_wf s" "addr_range f"
    and "0 \<le> sint fs" "sint fs \<le> m_sp s + 4"
  shows "\<exists>s'. op_call s = Ok s' \<and> m_ip s' = f \<and> m_bp s' = m_sp s + 4 \<and>
    m_sp s' = m_bp s' - sint fs \<and> frame_on s' (m_bp s) (m_ip s) cs"
  by (rule op_call_cell [OF assms(1,3-5)]) (use assms(2) in \<open>auto simp: vm_wf_def\<close>)

theorem call_builds_frame_witness:
  "\<exists>s'. op_call (demo_vm [addr_cell VM_ADDR_MEM 100, cell_of (IntD 16), cell_of (RealD 3)]) = Ok s' \<and>
    m_ip s' = 100 \<and> m_bp s' = 2029 \<and> m_sp s' = 2013 \<and> frame_on s' 4096 0 [cell_of (RealD 3)]"
proof -
  let ?s = "demo_vm [addr_cell VM_ADDR_MEM 100, cell_of (IntD 16), cell_of (RealD 3)]"
  have "\<exists>s'. op_call ?s = Ok s' \<and> m_ip s' = 100 \<and> m_bp s' = m_sp ?s + 4 \<and>
      m_sp s' = m_bp s' - sint (16 :: t_int) \<and> frame_on s' (m_bp ?s) (m_ip ?s) [cell_of (RealD 3)]"
    by (rule call_builds_frame) (simp_all add: addr_range_def)
  then show ?thesis by auto
qed

text \<open>
  C22. \<open>RET\<close>: from a frame as \<open>CALL\<close> builds it, with the return values above the frame, the
  base pointer and the instruction pointer are restored, the arguments are removed, and the
  return values are left on the caller's stack, in reverse order.
\<close>

theorem return_removes_frame:
  assumes "cells_on s (cell_of (IntD na) # cell_of (IntD fs) # map cell_of rets)"
    and "frame_on s bp ip (map cell_of args @ cs)"
    and "m_sp s + 18 + int (length (enc_stack (map cell_of rets))) + sint fs = m_bp s"
    and "0 \<le> sint fs" "sint na = int (length args)"
    and "\<forall>d \<in> set rets. plain d" "\<forall>d \<in> set args. plain d" "addr_range bp" "addr_range ip"
  shows "\<exists>s'. op_ret s = Ok s' \<and> m_bp s' = bp \<and> m_ip s' = ip \<and>
    cells_on s' (map cell_of (rev rets) @ cs) \<and> m_gbp s' = m_gbp s"
  by (rule op_ret_cell [OF assms]) blast

definition demo_ret :: vm where
  "demo_ret = (demo_vm ([cell_of (IntD 1), cell_of (IntD 9), cell_of (StrD ''r''), cell_of (RealD 0)] @
     [addr_cell VM_ADDR_MEM 3000, addr_cell VM_ADDR_MEM 77, cell_of (IntD 5), cell_of (BoolD 1)]))
     \<lparr>m_bp := 2027\<rparr>"

lemma cells_on_prefix: "cells_on s (cs @ ds) \<Longrightarrow> cells_on s cs"
  by (auto simp: cells_on_def holds_def bytes_at_append)

lemma cells_on_bp [simp]: "cells_on (s\<lparr>m_bp := b\<rparr>) cs = cells_on s cs"
  "cells_at (s\<lparr>m_bp := b\<rparr>) a cs = cells_at s a cs"
  by (simp_all add: cells_at_iff cells_on_def holds_def bytes_at_def in_mem_def)

theorem return_removes_frame_witness:
  "\<exists>s'. op_ret demo_ret = Ok s' \<and> m_bp s' = 3000 \<and> m_ip s' = 77 \<and>
    cells_on s' [cell_of (StrD ''r''), cell_of (BoolD 1)]"
proof -
  let ?top = "[cell_of (IntD 1), cell_of (IntD 9), cell_of (StrD ''r''), cell_of (RealD 0)]"
  let ?rest = "[addr_cell VM_ADDR_MEM 3000, addr_cell VM_ADDR_MEM 77, cell_of (IntD 5), cell_of (BoolD 1)]"
  have len: "length (enc_stack (?top @ ?rest)) = 54" by simp
  have all: "cells_on demo_ret (?top @ ?rest)"
    unfolding demo_ret_def cells_on_bp by (rule demo_cells) (simp_all add: addr_range_def)
  have sp: "m_sp demo_ret = 1994" "m_bp demo_ret = 2027" using len by (simp_all add: demo_ret_def)
  have "cells_on demo_ret ([cell_of (IntD 1), cell_of (IntD 9)] @ map cell_of [StrD ''r''])"
    using cells_on_prefix [of demo_ret "[cell_of (IntD 1), cell_of (IntD 9), cell_of (StrD ''r'')]"] all by simp
  moreover have "frame_on demo_ret 3000 77 (map cell_of [IntD 5] @ [cell_of (BoolD 1)])"
    using all sp cells_on_append [of demo_ret ?top ?rest] by (simp add: frame_on_def)
  ultimately have "\<exists>s'. op_ret demo_ret = Ok s' \<and> m_bp s' = 3000 \<and> m_ip s' = 77 \<and>
      cells_on s' (map cell_of (rev [StrD ''r'']) @ [cell_of (BoolD 1)]) \<and> m_gbp s' = m_gbp demo_ret"
    by (intro return_removes_frame [where na = 1 and fs = 9 and args = "[IntD 5]"])
      (simp_all add: sp addr_range_def)
  then show ?thesis by auto
qed

text \<open>
  C25. Interrupts: the request with the lowest number that has a service routine is taken and
  cleared; requests with higher numbers stay pending; nothing but the request flags changes.
\<close>

theorem interrupt_priority:
  assumes "vm_wf s" "k < m_num_interrupts" "m_irqs s ! k" "m_isrs s ! k = Some isr"
    and "\<forall>j < k. m_irqs s ! j \<longrightarrow> m_isrs s ! j = None"
  shows "\<exists>s'. poll_irqs [0..<m_num_interrupts] s = (Some isr, s') \<and> \<not> m_irqs s' ! k \<and>
    (\<forall>j > k. m_irqs s' ! j = m_irqs s ! j) \<and> s' = s\<lparr>m_irqs := m_irqs s'\<rparr>"
proof -
  have "taken s k" "\<forall>j < k. \<not> taken s j" using assms(3-5) by (auto simp: taken_def)
  from poll_first [OF assms(2) this assms(1)] show ?thesis using assms(4) by metis
qed

definition demo_irq :: "cell list \<Rightarrow> vm" where
  "demo_irq cs = (demo_vm cs)\<lparr>m_irqs := (replicate 16 False)[1 := True, 3 := True, 5 := True],
     m_isrs := (replicate 16 None)[3 := Some 200, 5 := Some 300]\<rparr>"

lemma demo_irq_wf: "length (enc_stack cs) \<le> 2048 \<Longrightarrow> vm_wf (demo_irq cs)"
  by (simp add: demo_irq_def vm_wf_def addr_range_def m_num_interrupts_def)

theorem interrupt_priority_witness:
  "\<exists>s'. poll_irqs [0..<m_num_interrupts] (demo_irq []) = (Some 200, s') \<and> \<not> m_irqs s' ! 3 \<and> m_irqs s' ! 5"
proof -
  have "\<exists>s'. poll_irqs [0..<m_num_interrupts] (demo_irq []) = (Some 200, s') \<and> \<not> m_irqs s' ! 3 \<and>
      (\<forall>j > 3. m_irqs s' ! j = m_irqs (demo_irq []) ! j) \<and> s' = (demo_irq [])\<lparr>m_irqs := m_irqs s'\<rparr>"
    by (rule interrupt_priority)
      (simp_all add: demo_irq_wf, auto simp: demo_irq_def m_num_interrupts_def nth_list_update)
  then obtain s' where s': "poll_irqs [0..<m_num_interrupts] (demo_irq []) = (Some 200, s')" "\<not> m_irqs s' ! 3"
      "\<forall>j > 3. m_irqs s' ! j = m_irqs (demo_irq []) ! j" by blast
  have "m_irqs (demo_irq []) ! 5" by (simp add: demo_irq_def)
  then show ?thesis using s' by auto
qed

text \<open>
  C26. The call of a service routine takes a frame size off the stack that nobody pushed: with
  an integer on top of the interrupted program's stack, that integer is consumed and becomes
  the size of the frame, and it is missing from the caller's stack the frame is built on.
\<close>

theorem interrupt_consumes_operand:
  assumes "cells_on s (cell_of (IntD v) # cs)" "vm_wf s" "stack_room s 5"
    and "k < m_num_interrupts" "m_irqs s ! k" "m_isrs s ! k = Some isr" "addr_range isr"
    and "\<forall>j < k. m_irqs s ! j \<longrightarrow> m_isrs s ! j = None" "0 \<le> sint v" "sint v \<le> m_sp s - 1"
  shows "\<exists>op s1 s'. next_op s = Ok (op, s1) \<and> exec e op s1 = Ok (Running, s') \<and> m_ip s' = isr \<and>
    m_sp s' = m_bp s' - sint v \<and> frame_on s' (m_bp s) (m_ip s) cs"
proof -
  have "\<forall>j < k. \<not> taken s j" using assms(8) by (auto simp: taken_def)
  from interrupt_call [OF assms(1-6) this assms(7,9,10)] show ?thesis by metis
qed

theorem interrupt_consumes_operand_witness:
  "\<exists>op s1 s'. next_op (demo_irq [cell_of (IntD 64), cell_of (RealD 1)]) = Ok (op, s1) \<and>
    exec demo_env op s1 = Ok (Running, s') \<and> m_ip s' = 200 \<and>
    m_sp s' = m_bp s' - 64 \<and> frame_on s' 4096 0 [cell_of (RealD 1)]"
proof -
  let ?s = "demo_irq [cell_of (IntD 64), cell_of (RealD 1)]"
  have c: "cells_on ?s [cell_of (IntD 64), cell_of (RealD 1)]"
    using demo_cells [of "[cell_of (IntD 64), cell_of (RealD 1)]"]
    by (simp add: demo_irq_def cells_on_def holds_def bytes_at_def in_mem_def)
  have f: "m_sp ?s = 2030" "m_bp ?s = 4096" "m_ip ?s = 0" by (simp_all add: demo_irq_def)
  have "\<exists>op s1 s'. next_op ?s = Ok (op, s1) \<and> exec demo_env op s1 = Ok (Running, s') \<and> m_ip s' = 200 \<and>
      m_sp s' = m_bp s' - sint (64 :: t_int) \<and> frame_on s' (m_bp ?s) (m_ip ?s) [cell_of (RealD 1)]"
    by (rule interrupt_consumes_operand [OF c, of 3])
      (simp_all add: demo_irq_wf f stack_room_def addr_range_def,
       auto simp: demo_irq_def m_num_interrupts_def nth_list_update)
  then show ?thesis by (simp add: f)
qed

section \<open>The main loop\<close>

text \<open>
  C8. A program loaded at address 0 of a fresh machine: in every state the main loop and any
  interrupt requests lead to, the registers keep their types and the configuration is
  unchanged, and once the pointer check of an iteration has passed, the next instruction
  byte is inside the memory and the fetch succeeds.
\<close>

theorem loaded_program_invariant:
  assumes "prog \<noteq> []" "int (length prog) \<le> memsize" "memsize < 2 ^ 31"
    and "SetMem 0 prog True (new_vm sz memsize) = Ok s0" "reachable e s0 s"
  shows "vm_wf s \<and> m_ip s < m_memsize s \<and> m_memsize s = memsize \<and> m_checks s \<and>
    m_code_range s = (0, int (length prog)) \<and>
    (CheckPointerBounds s = Ok () \<longrightarrow> is_ok (fetch s))"
proof -
  have i: "machine_inv s0" "m_checks s0" "m_memsize s0 = memsize" "m_code_range s0 = (0, int (length prog))"
    using load_program [OF assms(1-3), of sz] assms(4) by (metis result.inject(1))+
  then have s: "machine_inv s" "evolves s0 s" using reachable_inv [OF assms(5)] by auto
  then have "m_checks s" "m_memsize s = memsize" "m_code_range s = (0, int (length prog))"
    using i by (simp_all add: evolves_def)
  moreover have "CheckPointerBounds s = Ok () \<longrightarrow> is_ok (fetch s)"
    using fetch_defined [OF s(1)] \<open>m_checks s\<close> by (metis is_ok.simps(1))
  ultimately show ?thesis using s(1) by (simp add: machine_inv_def)
qed

theorem loaded_program_invariant_witness:
  "\<exists>s0. SetMem 0 [byte_of_opcode OP_NOP, byte_of_opcode OP_HALT] True (new_vm 55 4096) = Ok s0 \<and>
    vm_wf s0 \<and> m_code_range s0 = (0, 2)"
proof -
  let ?prog = "[byte_of_opcode OP_NOP, byte_of_opcode OP_HALT]"
  have "?prog \<noteq> []" "int (length ?prog) \<le> 4096" "(4096 :: int) < 2 ^ 31" by simp_all
  moreover from load_program [OF this, of 55]
  obtain s0 where "SetMem 0 ?prog True (new_vm 55 4096) = Ok s0" by metis
  ultimately show ?thesis
    using loaded_program_invariant [of ?prog 4096 55 s0 demo_env s0] reachable.init by auto
qed

text \<open>
  A machine run is determined: two runs of the main loop from one state that both end,
  with whatever bounds on the number of iterations, end with the same result in the same
  state.
\<close>

theorem run_deterministic:
  assumes "run e n s = Ok (st, s')" "st \<noteq> Running" "run e k s = Ok (st2, s2)" "st2 \<noteq> Running"
  shows "st = st2 \<and> s' = s2"
  by (rule run_end_unique [OF assms])

definition demo_halt :: vm where
  "demo_halt = (demo_vm [])\<lparr>m_mem := (\<lambda>_. byte_of_opcode OP_HALT)\<rparr>"

lemma demo_halt_run: "run demo_env 1 demo_halt = Ok (Halted, demo_halt\<lparr>m_ip := 1\<rparr>)"
proof -
  have q: "quiet demo_halt" by (simp add: quiet_def demo_halt_def m_num_interrupts_def)
  have "bytes_at demo_halt (m_ip demo_halt) [byte_of_opcode OP_HALT]"
    by (simp add: bytes_at_def in_mem_def demo_halt_def get_bytes_def)
  from next_op_quiet [OF q this]
  have "next_op demo_halt = Ok (OP_HALT, demo_halt\<lparr>m_ip := 1\<rparr>)"
    by (simp add: opcodes_def) (simp add: demo_halt_def)
  moreover have "CheckPointerBounds demo_halt = Ok ()"
    by (simp add: CheckPointerBounds_def demo_halt_def Let_def)
  ultimately show ?thesis
    by (simp add: step_def exec_def wrap_ip_def) (simp add: demo_halt_def)
qed

theorem run_deterministic_witness:
  "\<exists>s'. run demo_env 1 demo_halt = Ok (Halted, s') \<and> (Halted = Halted \<and> s' = demo_halt\<lparr>m_ip := 1\<rparr>)"
  using run_deterministic [OF demo_halt_run _ demo_halt_run] demo_halt_run by blast

section \<open>Arithmetic and casts\<close>

text \<open>
  C33. The integer power computes the power exactly: for a non-negative exponent the result
  is \<open>x ^ n\<close> when that is a 64-bit integer, and otherwise the multiplication overflows.
\<close>

theorem power_exact:
  assumes "0 \<le> sint n"
  shows "power_t_int x n =
    (if int_min \<le> sint x ^ nat (sint n) \<and> sint x ^ nat (sint n) \<le> int_max
     then Ok (word_of_int (sint x ^ nat (sint n))) else Undefined UB_Overflow)"
  using power_t_int_eq [OF assms] by (simp add: int_result_def)

theorem power_exact_witness: "power_t_int (-3) 5 = Ok (word_of_int (-243))"
  using power_exact [of 5 "-3"] by (simp add: int_min_def int_max_def)

text \<open>
  Integer sums, differences and products that are defined are exact; division truncates
  toward zero and goes with the remainder: \<open>a = q * b + r\<close>, with \<open>r\<close> smaller than \<open>b\<close>.
\<close>

theorem int_arithmetic_exact:
  assumes "arith_int CHR ''+'' a b = Ok s" "arith_int CHR ''-'' a b = Ok d" "arith_int CHR ''*'' a b = Ok p"
    and "arith_int CHR ''/'' a b = Ok q" "arith_int CHR ''%'' a b = Ok r"
  shows "sint s = sint a + sint b \<and> sint d = sint a - sint b \<and> sint p = sint a * sint b \<and>
    sint a = sint q * sint b + sint r \<and> \<bar>sint r\<bar> < \<bar>sint b\<bar>"
  using arith_int_exact [OF assms(1)] arith_int_exact [OF assms(2)] arith_int_exact [OF assms(3)]
    arith_int_div_mod [OF assms(4,5)] by simp

theorem int_arithmetic_exact_witness:
  "sint (word_of_int (-7) :: t_int) = sint (word_of_int (-3) :: t_int) * sint (2 :: t_int) + sint (word_of_int (-1) :: t_int)"
proof -
  have "arith_int CHR ''+'' (word_of_int (-7)) 2 = Ok (word_of_int (-5))"
    "arith_int CHR ''-'' (word_of_int (-7)) 2 = Ok (word_of_int (-9))"
    "arith_int CHR ''*'' (word_of_int (-7)) 2 = Ok (word_of_int (-14))"
    "arith_int CHR ''/'' (word_of_int (-7)) 2 = Ok (word_of_int (-3))"
    "arith_int CHR ''%'' (word_of_int (-7)) 2 = Ok (word_of_int (-1))"
    by (simp_all add: arith_int_def int_result_def int_min_def int_max_def signed_divide_int_def signed_modulo_int_def)
  from int_arithmetic_exact [OF this] show ?thesis by blast
qed

text \<open>
  C35. Casting an integer below 2 ^ 53 in absolute value to a real and back (\<open>TOR\<close>, \<open>TOI\<close>) puts
  the same integer back on the stack.
\<close>

theorem cast_int_real_int:
  assumes "stack_of s (IntD i # ds)" "\<bar>sint i\<bar> < 2 ^ 53"
  shows "\<exists>s1 s2. OpCast e m_realidx s = Ok s1 \<and> stack_of s1 (RealD (int_to_real i) # ds) \<and>
    OpCast e m_intidx s1 = Ok s2 \<and> stack_of s2 (IntD i # ds) \<and> ctl s2 = ctl s"
proof -
  obtain s1 where 1: "OpCast e m_realidx s = Ok s1" "stack_of s1 (RealD (int_to_real i) # ds)" "ctl s1 = ctl s"
    using op_cast [OF assms(1) stack_of_room0 [OF assms(1)], of e m_realidx "RealD (int_to_real i)"]
    by (auto simp: cast_int_def)
  have "cast_data e (m_eps s1) (m_prec s1) m_intidx (RealD (int_to_real i)) = Ok (Some (IntD i))"
    by (simp add: cast_real_def real_to_int_of_int [OF assms(2)])
  from op_cast [OF 1(2) stack_of_room0 [OF 1(2)] this]
  obtain s2 where "OpCast e m_intidx s1 = Ok s2" "stack_of s2 (IntD i # ds)" "ctl s2 = ctl s1" by auto
  then show ?thesis using 1 by auto
qed

theorem cast_int_real_int_witness:
  "\<exists>s1 s2. OpCast demo_env m_realidx (demo_vm (map cell_of [IntD 1234567890123])) = Ok s1 \<and>
    OpCast demo_env m_intidx s1 = Ok s2 \<and> stack_of s2 [IntD 1234567890123]"
proof -
  have "stack_of (demo_vm (map cell_of [IntD 1234567890123])) [IntD 1234567890123]"
    by (rule demo_stack) simp_all
  from cast_int_real_int [OF this, of demo_env] show ?thesis by auto
qed

text \<open>
  C34. Casting an integer to a string and back (\<open>TOS\<close>, \<open>TOI\<close>) puts the same integer back, for
  every 64-bit integer.
\<close>

theorem cast_int_string_int:
  assumes "stack_of s (IntD i # ds)" "stack_room s 32"
  shows "\<exists>s1 s2. OpCast e m_stridx s = Ok s1 \<and> stack_of s1 (StrD (show_int i) # ds) \<and>
    OpCast e m_intidx s1 = Ok s2 \<and> stack_of s2 (IntD i # ds) \<and> ctl s2 = ctl s"
proof -
  have fit: "data_bytes (StrD (show_int i)) \<le> 32 + data_bytes (IntD i)"
    using length_show_int [of i] by simp
  obtain s1 where 1: "OpCast e m_stridx s = Ok s1" "stack_of s1 (StrD (show_int i) # ds)"
      "stack_room s1 (32 + data_bytes (IntD i) - data_bytes (StrD (show_int i)))" "ctl s1 = ctl s"
    using op_cast [OF assms, of e m_stridx "StrD (show_int i)"] fit
    by (auto simp: cast_int_def)
  have "cast_data e (m_eps s1) (m_prec s1) m_intidx (StrD (show_int i)) = Ok (Some (IntD i))"
    by (simp add: cast_str_def read_show_int)
  from op_cast [OF 1(2,3) this] fit
  obtain s2 where "OpCast e m_intidx s1 = Ok s2" "stack_of s2 (IntD i # ds)" "ctl s2 = ctl s1" by auto
  then show ?thesis using 1 by auto
qed

theorem cast_int_string_int_witness:
  "\<exists>s1 s2. OpCast demo_env m_stridx (demo_vm (map cell_of [IntD 42])) = Ok s1 \<and>
    stack_of s1 [StrD ''42''] \<and> OpCast demo_env m_intidx s1 = Ok s2 \<and> stack_of s2 [IntD 42]"
proof -
  have "stack_of (demo_vm (map cell_of [IntD 42])) [IntD 42]" by (rule demo_stack) simp_all
  moreover have "show_int 42 = ''42''"
    by (simp add: show_int_def show_nat.simps [of 42] show_nat.simps [of 4] digit_def char_of_def bit_0)
  ultimately show ?thesis using cast_int_string_int [of _ 42 "[]" demo_env] by force
qed

section \<open>Arrays\<close>

text \<open>
  C32. \<open>RDARR\<close> on an array or a string that is not empty never fails: the index is taken
  modulo the length, negative indices counting from the end, and the element at that index
  replaces array and index on the stack.
\<close>

theorem read_array_element:
  assumes "stack_of s (IntD idx # arr # ds)" "elements arr = Some es" "es \<noteq> []"
  shows "\<exists>s'. op_rdarr s = Ok s' \<and> stack_of s' (es ! nat (sint idx mod int (length es)) # ds) \<and> ctl s' = ctl s"
  by (rule op_rdarr_stack [OF assms])

theorem read_array_element_witness:
  "\<exists>s'. op_rdarr (demo_vm (map cell_of [IntD (-1), StrD ''abc''])) = Ok s' \<and> stack_of s' [StrD ''c'']"
proof -
  have "stack_of (demo_vm (map cell_of [IntD (-1), StrD ''abc''])) [IntD (-1), StrD ''abc'']"
    by (rule demo_stack) simp_all
  from read_array_element [OF this, of "[StrD ''a'', StrD ''b'', StrD ''c'']"] show ?thesis by auto
qed

text \<open>
  C31. \<open>WRARR\<close> on a vector variable overwrites exactly one element: for an index of 32 bits
  that is the one at the index modulo the length, the variable then reads as the vector with this
  element replaced, and outside the variable and the operands that are taken off no byte of the
  memory changes. A larger index is cut to 32 bits by this instruction, but not by \<open>RDARR\<close>.
\<close>

theorem write_array_element:
  assumes "cells_on s (cell_of (IntD idx) # cell_of d # addr_cell VM_ADDR_MEM a # cs)" "addr_range a"
    and "m_sp s + 14 + int (data_bytes d) \<le> a" "bytes_at s a (enc_cell (cell_of arr))"
    and "elements arr = Some es" "es \<noteq> []" "- (2 ^ 31) \<le> sint idx" "sint idx < 2 ^ 31"
    and "set_element arr (nat (sint idx mod int (length es))) d = Some arr'"
  shows "\<exists>s'. op_wrarr s = Ok s' \<and> ReadMemData a s' = Ok (cell_of arr') \<and> ctl s' = ctl s \<and>
    m_sp s' = m_sp s + 14 + int (data_bytes d) \<and>
    (\<forall>x. (x < m_sp s \<or> m_sp s' \<le> x) \<and> (x < a \<or> a + int (data_bytes arr) \<le> x) \<longrightarrow> m_mem s' x = m_mem s x)"
proof -
  have idx: "addr_of_int idx = sint idx" using assms(7,8) by (simp add: addr_of_int_def wrap32_id)
  note i = cells_on_PopInt [OF assms(1)]
  note d = cells_on_pop [OF i(2)]
  note p = pop_addr [OF d(2) mem_type assms(2)]
  let ?t = "pop_state 5 (pop_state (length (enc_cell (cell_of d))) (pop_state 9 s))"
  have t: "?t = pop_state (14 + data_bytes d) s"
    by (simp add: pop_state_pop_state data_bytes_def add.commute)
  have "bytes_at ?t a (enc_cell (cell_of arr))"
    unfolding t using assms(3) by (intro bytes_at_cong [OF assms(4)]) (auto simp: pop_state_mem)
  from wrarr_value [OF i(1) d(1) [unfolded snd_cell_of] _ this assms(5,6)] p(1) assms(2,9) idx
  obtain s' where s': "op_wrarr s = Ok s'" "bytes_at s' a (enc_cell (cell_of arr'))" "ctl s' = ctl ?t" "m_sp s' = m_sp ?t"
      "\<forall>y. y < a \<or> a + int (data_bytes arr) \<le> y \<longrightarrow> m_mem s' y = m_mem ?t y"
    by (auto simp: addr_rangeD)
  have "cell_ok (cell_of arr')" using assms(9) by (cases arr; cases d) auto
  then have "ReadMemData a s' = Ok (cell_of arr')" using ReadMemData_bytes [OF s'(2)] by simp
  moreover have "m_mem s' x = m_mem s x"
    if "x < m_sp s \<or> m_sp s' \<le> x" "x < a \<or> a + int (data_bytes arr) \<le> x" for x
    using that s'(4,5) unfolding t by (auto simp: pop_state_mem)
  ultimately show ?thesis using s'(1,3,4) by (simp add: t)
qed

definition demo_arr :: vm where
  "demo_arr = (let s = demo_vm [cell_of (IntD (-1)), cell_of (IntD 9), addr_cell VM_ADDR_MEM 3000] in
     s\<lparr>m_mem := put_bytes (m_mem s) 3000 (enc_cell (cell_of (IntArrD [1, 2, 3])))\<rparr>)"

theorem write_array_element_witness:
  "\<exists>s'. op_wrarr demo_arr = Ok s' \<and> ReadMemData 3000 s' = Ok (VM_INTARR, IntArrD [1, 2, 9])"
proof -
  let ?cs = "[cell_of (IntD (-1)), cell_of (IntD 9), addr_cell VM_ADDR_MEM 3000]"
  have "cells_on (demo_vm ?cs) ?cs" by (rule demo_cells) (simp_all add: addr_range_def)
  then have c: "cells_on demo_arr ?cs"
    unfolding demo_arr_def Let_def cells_on_def holds_def
    by (auto elim!: bytes_at_cong simp: put_bytes_outside)
  have b: "bytes_at demo_arr 3000 (enc_cell (cell_of (IntArrD [1, 2, 3])))"
    unfolding demo_arr_def Let_def by (rule bytes_at_put) (simp add: in_mem_def)
  have m: "m_sp demo_arr = 2025" by (simp add: demo_arr_def Let_def)
  have "nat (sint (-1 :: t_int) mod int (length [IntD 1, IntD 2, IntD 3])) = 2" by simp
  with write_array_element [OF c _ _ b, of "[IntD 1, IntD 2, IntD 3]" "IntArrD [1, 2, 9]"]
  show ?thesis by (auto simp: m addr_range_def cell_of_def numeral_2_eq_2)
qed

text \<open>
  C30. Writing a range and reading it gives the written values: after \<open>WRARRR\<close> has put as many
  values as the range has elements into a real vector, in either direction, the variable reads as
  a vector \<open>ys\<close> of the same length, and \<open>RDARRR\<close> with the same indices on \<open>ys\<close>, in any state of the
  machine, replaces vector and indices by exactly these values. The indices have 32 bits, negative
  ones count from the end.
\<close>

theorem array_range_roundtrip:
  assumes "cells_on s (cell_of (IntD idx2) # cell_of (IntD idx1) # cell_of (RealArrD vs) # addr_cell VM_ADDR_MEM a # cs)"
    and "addr_range a" "m_sp s + 23 + int (data_bytes (RealArrD vs)) \<le> a"
    and "bytes_at s a (enc_cell (cell_of (RealArrD xs)))" "xs \<noteq> []"
    and "- (2 ^ 31) \<le> sint idx1" "sint idx1 < 2 ^ 31" "- (2 ^ 31) \<le> sint idx2" "sint idx2 < 2 ^ 31"
    and "length vs = Suc (nat \<bar>sint idx2 mod int (length xs) - sint idx1 mod int (length xs)\<bar>)"
  shows "\<exists>s' ys. op_wrarrr s = Ok s' \<and> ReadMemData a s' = Ok (cell_of (RealArrD ys)) \<and> length ys = length xs \<and>
    (\<forall>t ds. stack_of t (IntD idx2 # IntD idx1 # RealArrD ys # ds) \<longrightarrow>
      (\<exists>t'. op_rdarrr t = Ok t' \<and> stack_of t' (RealArrD vs # ds) \<and> ctl t' = ctl t))"
proof -
  let ?i1 = "sint idx1 mod int (length xs)" and ?i2 = "sint idx2 mod int (length xs)"
  let ?ys = "put_range xs ?i1 (if ?i2 \<ge> ?i1 then 1 else -1) vs"
  have n: "0 < int (length xs)" using assms(5) by simp
  have r: "0 \<le> ?i1" "?i1 < int (length xs)" "0 \<le> ?i2" "?i2 < int (length xs)"
    using pos_mod_sign [OF n] pos_mod_bound [OF n] by simp_all
  have idx: "addr_of_int idx1 = sint idx1" "addr_of_int idx2 = sint idx2"
    using assms(6-9) by (simp_all add: addr_of_int_def wrap32_id)
  note p1 = cells_on_PopInt [OF assms(1)]
  note p2 = cells_on_PopInt [OF p1(2)]
  note d = cells_on_pop [OF p2(2)]
  note p = pop_addr [OF d(2) mem_type assms(2)]
  let ?t = "pop_state 5 (pop_state (length (enc_cell (cell_of (RealArrD vs)))) (pop_state 9 (pop_state 9 s)))"
  have t: "?t = pop_state (23 + data_bytes (RealArrD vs)) s"
    by (simp add: pop_state_pop_state data_bytes_def add.commute)
  have "bytes_at ?t a (enc_cell (cell_of (RealArrD xs)))"
    unfolding t using assms(3) by (intro bytes_at_cong [OF assms(4)]) (auto simp: pop_state_mem)
  from wrarrr_reals [OF p1(1) p2(1) d(1) [unfolded snd_cell_of] _ this assms(5) _ _ assms(10)] p(1) assms(2) idx
  obtain s' where s': "op_wrarrr s = Ok s'" "bytes_at s' a (enc_cell (cell_of (RealArrD ?ys)))"
    by (auto simp: addr_rangeD)
  have ne: "?ys \<noteq> []" using assms(5) length_put_range by (metis length_0_conv)
  have span: "span ?ys ?i1 ?i2 = vs" using span_put_range [OF r assms(10)] .
  have "ReadMemData a s' = Ok (cell_of (RealArrD ?ys))" using ReadMemData_bytes [OF s'(2)] by simp
  moreover have "\<exists>t'. op_rdarrr t = Ok t' \<and> stack_of t' (RealArrD vs # ds) \<and> ctl t' = ctl t"
    if "stack_of t (IntD idx2 # IntD idx1 # RealArrD ?ys # ds)" for t ds
    using rdarrr_reals [OF that ne, of ?i1 ?i2] span by simp
  ultimately show ?thesis using s'(1) length_put_range by blast
qed

definition demo_range :: vm where
  "demo_range = (let s = demo_vm [cell_of (IntD 1), cell_of (IntD (-1)), cell_of (RealArrD [7, 8]), addr_cell VM_ADDR_MEM 3000] in
     s\<lparr>m_mem := put_bytes (m_mem s) 3000 (enc_cell (cell_of (RealArrD [1, 2, 3])))\<rparr>)"

theorem array_range_roundtrip_witness:
  "\<exists>s' ys. op_wrarrr demo_range = Ok s' \<and> ReadMemData 3000 s' = Ok (cell_of (RealArrD ys)) \<and> length ys = 3 \<and>
    (\<forall>t. stack_of t [IntD 1, IntD (-1), RealArrD ys] \<longrightarrow>
      (\<exists>t'. op_rdarrr t = Ok t' \<and> stack_of t' [RealArrD [7, 8]]))"
proof -
  let ?cs = "[cell_of (IntD 1), cell_of (IntD (-1)), cell_of (RealArrD [7, 8]), addr_cell VM_ADDR_MEM 3000]"
  have "cells_on (demo_vm ?cs) ?cs" by (rule demo_cells) (simp_all add: addr_range_def)
  then have c: "cells_on demo_range ?cs"
    unfolding demo_range_def Let_def cells_on_def holds_def
    by (auto elim!: bytes_at_cong simp: put_bytes_outside)
  have b: "bytes_at demo_range 3000 (enc_cell (cell_of (RealArrD [1, 2, 3])))"
    unfolding demo_range_def Let_def by (rule bytes_at_put) (simp add: in_mem_def)
  have m: "m_sp demo_range = 2004" by (simp add: demo_range_def Let_def)
  have "\<exists>s' ys. op_wrarrr demo_range = Ok s' \<and> ReadMemData 3000 s' = Ok (cell_of (RealArrD ys)) \<and>
      length ys = length [1, 2, 3 :: t_real] \<and>
      (\<forall>t ds. stack_of t (IntD 1 # IntD (-1) # RealArrD ys # ds) \<longrightarrow>
        (\<exists>t'. op_rdarrr t = Ok t' \<and> stack_of t' (RealArrD [7, 8] # ds) \<and> ctl t' = ctl t))"
    by (rule array_range_roundtrip [OF c _ _ b]) (simp_all add: m addr_range_def data_bytes_def enc_cell_def cell_of_def enc_elems_bytes)
  then show ?thesis by (simp add: numeral_3_eq_3) blast
qed

text \<open>
  \<open>MAKEREALARR\<close>: values pushed first to last and then their number become the array of
  these values in that order.
\<close>

theorem make_array:
  assumes "cells_on s (addr_cell VM_ADDR_MEM (int (length xs)) # map (\<lambda>x. cell_of (RealD x)) (rev xs) @ cs)"
    and "length xs < 2 ^ 31"
  shows "\<exists>s'. op_makearr real_vt s = Ok s' \<and> cells_on s' (cell_of (RealArrD xs) # cs) \<and> ctl s' = ctl s"
proof -
  have "cells_on s (addr_cell VM_ADDR_MEM (int (length xs)) #
      map (\<lambda>x. cell_of (vt_elem real_vt x)) (rev xs) @ cs)" using assms(1) by simp
  from real_a.op_makearr_cells [OF this assms(2)] show ?thesis by (metis real_v_vec)
qed

theorem make_array_witness:
  "\<exists>s'. op_makearr real_vt (demo_vm [addr_cell VM_ADDR_MEM 2, cell_of (RealD 6), cell_of (RealD 5)]) = Ok s' \<and>
    cells_on s' [cell_of (RealArrD [5, 6])]"
proof -
  have "cells_on (demo_vm [addr_cell VM_ADDR_MEM 2, cell_of (RealD 6), cell_of (RealD 5)])
      (addr_cell VM_ADDR_MEM (int (length [5, 6 :: t_real])) # map (\<lambda>x. cell_of (RealD x)) (rev [5, 6]) @ [])"
    using demo_cells [of "[addr_cell VM_ADDR_MEM 2, cell_of (RealD 6), cell_of (RealD 5)]"]
    by (simp add: addr_range_def)
  from make_array [OF this] show ?thesis by auto
qed

section \<open>Comparisons, codes and external functions\<close>

text \<open>
  Comparing reals within \<open>eps\<close>: a not-a-number is neither equal to, unequal to, less nor
  greater than anything, so \<open>NEQU\<close> is not the negation of \<open>EQU\<close>.
\<close>

theorem nan_comparisons_false:
  assumes "r_isnan a \<or> r_isnan b"
  shows "compare_data e eps op (RealD a) (RealD b) = Ok False"
  using compare_real_nan [OF assms] by (simp add: compare_data_def)

theorem nan_comparisons_false_witness:
  "compare_data demo_env 0 OP_NEQU (RealD r_nan) (RealD r_nan) = Ok False"
  using nan_comparisons_false [of r_nan r_nan] by simp

text \<open>
  Dividing an array by a scalar of its element type is rejected, although the operator
  has a branch that computes the quotient.
\<close>

theorem array_by_scalar_rejected:
  "arith e CHR ''/'' (RealArrD v) (RealD x) =
     Throw (RuntimeError ''Unknown arithmetic operation. Types: array_real, real.'') \<and>
   arith e CHR ''/'' (IntArrD is) (IntD i) =
     Throw (RuntimeError ''Unknown arithmetic operation. Types: array_integer, integer.'') \<and>
   arith e CHR ''/'' (CplxArrD zs) (CplxD z) =
     Throw (RuntimeError ''Unknown arithmetic operation. Types: array_complex, complex.'')"
  by (simp add: arith_def arith_same_def type_names_def GetDataTypeName_def)

text \<open>\<open>abs\<close> of an integer always fails: the integer branch reads a real.\<close>

theorem abs_of_integer_fails:
  assumes "stack_of s (IntD i # ds)"
  shows "CallExternal e ''abs'' s = Throw BadVariantAccess"
proof -
  obtain s' where "PopData s = Ok (IntD i, s')" using stack_of_drop [OF assms] by blast
  then show ?thesis by (simp add: CallExternal_def)
qed

theorem abs_of_integer_fails_witness:
  "CallExternal demo_env ''abs'' (demo_vm (map cell_of [IntD 3])) = Throw BadVariantAccess"
proof -
  have "stack_of (demo_vm (map cell_of [IntD 3])) [IntD 3]" by (rule demo_stack) simp_all
  then show ?thesis by (rule abs_of_integer_fails)
qed

text \<open>
  \<open>set_isr\<close> does not check the number of the interrupt: a number outside the table writes
  outside it.
\<close>

theorem set_isr_unchecked:
  assumes "cells_on s (cell_of (IntD n) # addr_cell VM_ADDR_MEM a # cs)" "addr_range a"
    and "\<not> (0 \<le> addr_of_int n \<and> addr_of_int n < 16)"
  shows "CallExternal e ''set_isr'' s = Undefined (UB_Index (addr_of_int n))"
proof -
  note i = cells_on_PopInt [OF assms(1)]
  have "TopData s = Ok (IntD n)"
    using TopData_holds [of s "cell_of (IntD n)"] assms(1)
    by (auto simp: cells_on_def holds_def bytes_at_append)
  then have "pop_int_arg e s = Ok (n, pop_state 9 s)"
    using i(1) by (simp add: pop_int_arg_def OpCast_def cast_int_def replace_top_def)
  then show ?thesis
    using pop_addr [OF i(2) mem_type assms(2)] assms(2,3)
    by (simp add: CallExternal_def ext_set_isr_def SetISR_def m_num_interrupts_def addr_rangeD)
qed

theorem set_isr_unchecked_witness:
  "CallExternal demo_env ''set_isr'' (demo_vm [cell_of (IntD 16), addr_cell VM_ADDR_MEM 100]) =
    Undefined (UB_Index 16)"
proof -
  have "cells_on (demo_vm [cell_of (IntD 16), addr_cell VM_ADDR_MEM 100]) [cell_of (IntD 16), addr_cell VM_ADDR_MEM 100]"
    by (rule demo_cells) (simp_all add: addr_range_def)
  from set_isr_unchecked [OF this, of demo_env] show ?thesis by (simp add: addr_range_def addr_of_int_def)
qed

text \<open>Every instruction and every type descriptor is recovered from its byte.\<close>

theorem code_bytes_roundtrip:
  "(\<forall>b. op \<noteq> OP_OTHER b) \<and> (\<forall>b. ty \<noteq> VM_OTHER b) \<longrightarrow>
   opcode_of_byte (byte_of_opcode op) = op \<and> vmtype_of_byte (byte_of_vmtype ty) = ty"
  using in_opcodes in_vmtypes by simp

theorem code_bytes_roundtrip_witness:
  "opcode_of_byte (byte_of_opcode OP_RDARRR) = OP_RDARRR \<and> vmtype_of_byte (byte_of_vmtype VM_QUATARR) = VM_QUATARR"
  using code_bytes_roundtrip [of OP_RDARRR VM_QUATARR] by blast

end
