(* ===== verification/Sym.thy ===== *)
theory Sym
  imports VmData
begin

text \<open>
  Symbols and the symbol table (common/sym.h, common/sym.cpp). The table is a
  \<open>std::unordered_map\<close> of shared pointers; it becomes an association list from scoped names
  to symbols. A pointer obtained from the table stays the symbol of its scoped name, so a
  change through it is \<open>upd_sym\<close> under that name. The elements of a compound return type have
  only a type and dimensions. The printing operator is not modelled.
\<close>

section \<open>Symbols\<close>

datatype SymbolType =
    ST_VOID | ST_REAL | ST_INT | ST_CPLX | ST_QUAT | ST_BOOL | ST_STRING
  | ST_REAL_ARRAY | ST_INT_ARRAY | ST_CPLX_ARRAY | ST_QUAT_ARRAY
  | ST_COMP | ST_FUNC | ST_UNKNOWN

record symbol =
  sy_name :: t_str
  scoped_name :: t_str
  scope_name :: t_str
  ext_name :: "t_str option"
  sy_ty :: SymbolType
  sy_dims :: "nat list"
  is_arg :: bool
  is_ret :: bool
  argidx :: nat
  retidx :: nat
  argty :: "SymbolType list"
  retty :: SymbolType
  retdims :: "nat list"
  sy_elems :: "(SymbolType \<times> nat list) list"
  is_tmp :: bool
  is_external :: bool
  is_recursive :: bool
  is_global :: bool
  sy_addr :: "int option"
  end_addr :: "int option"
  refcnt :: nat

text \<open>The default member initialisers.\<close>

definition Symbol0 :: symbol where
  "Symbol0 = \<lparr>sy_name = [], scoped_name = [], scope_name = [], ext_name = None, sy_ty = ST_VOID,
     sy_dims = [1], is_arg = False, is_ret = False, argidx = 0, retidx = 0, argty = [],
     retty = ST_VOID, retdims = [1], sy_elems = [], is_tmp = False, is_external = False,
     is_recursive = False, is_global = False, sy_addr = None, end_addr = None, refcnt = 0\<rparr>"

text \<open>
  The product of the dimensions from \<open>start_dim\<close> on. \<open>std::accumulate\<close> is started with the
  \<open>int\<close> 1, so every partial product is converted to 32 bits; the sum is returned as an
  unsigned 64-bit number. A start behind the end of the dimensions is undefined.
\<close>

definition get_total_size :: "nat \<Rightarrow> symbol \<Rightarrow> int result" where
  "get_total_size start_dim sy =
     (if start_dim > length (sy_dims sy) then Undefined (UB_Index (int start_dim))
      else Ok (foldl (\<lambda>i j. wrap32 (i * int j)) 1 (drop start_dim (sy_dims sy)) mod 2 ^ 64))"

fun get_type_name :: "SymbolType \<Rightarrow> string" where
  "get_type_name ST_REAL = ''real''"
| "get_type_name ST_INT = ''integer''"
| "get_type_name ST_CPLX = ''complex''"
| "get_type_name ST_QUAT = ''quaternion''"
| "get_type_name ST_BOOL = ''bool''"
| "get_type_name ST_REAL_ARRAY = ''real_array''"
| "get_type_name ST_INT_ARRAY = ''integer_array''"
| "get_type_name ST_CPLX_ARRAY = ''complex_array''"
| "get_type_name ST_QUAT_ARRAY = ''quaternion_array''"
| "get_type_name ST_STRING = ''string''"
| "get_type_name ST_VOID = ''void''"
| "get_type_name ST_COMP = ''comp''"
| "get_type_name ST_FUNC = ''func''"
| "get_type_name ST_UNKNOWN = ''unknown''"

definition get_scopenameseparator :: t_str where
  "get_scopenameseparator = ''::''"

text \<open>Everything behind the first separator; the name itself when there is none.\<close>

fun after_sep :: "t_str \<Rightarrow> t_str option" where
  "after_sep (c # d # cs) =
     (if c = CHR '':'' \<and> d = CHR '':'' then Some cs else after_sep (d # cs))"
| "after_sep _ = None"

definition remove_scope :: "t_str \<Rightarrow> t_str" where
  "remove_scope name = (case after_sep name of None \<Rightarrow> name | Some cs \<Rightarrow> cs)"

section \<open>The symbol table\<close>

type_synonym symtab = "(t_str \<times> symbol) list"

definition FindSymbol :: "symtab \<Rightarrow> t_str \<Rightarrow> symbol option" where
  "FindSymbol tab name = map_of tab name"

definition insert_sym :: "symbol \<Rightarrow> symtab \<Rightarrow> symtab" where
  "insert_sym sy tab = tab @ [(scoped_name sy, sy)]"

definition upd_sym :: "t_str \<Rightarrow> (symbol \<Rightarrow> symbol) \<Rightarrow> symtab \<Rightarrow> symtab" where
  "upd_sym name f tab = map (\<lambda>(n, sy). if n = name then (n, f sy) else (n, sy)) tab"

text \<open>A name that is already in the table gives no symbol, with a message on \<open>std::cerr\<close>.\<close>

definition AddSymbol :: "t_str \<Rightarrow> t_str \<Rightarrow> SymbolType \<Rightarrow> nat list \<Rightarrow> bool \<Rightarrow> symtab \<Rightarrow>
    symbol option \<times> symtab" where
  "AddSymbol scope name ty dims add_to_table tab =
     (if add_to_table \<and> FindSymbol tab (scope @ name) \<noteq> None then (None, tab)
      else let sy = Symbol0\<lparr>sy_name := name, scoped_name := scope @ name, scope_name := scope,
             sy_ty := ty, sy_dims := dims, is_tmp := \<not> add_to_table\<rparr>
        in (Some sy, if add_to_table then insert_sym sy tab else tab))"

definition AddFunc :: "t_str \<Rightarrow> t_str \<Rightarrow> SymbolType \<Rightarrow> SymbolType list \<Rightarrow> nat list option \<Rightarrow>
    SymbolType list option \<Rightarrow> bool \<Rightarrow> bool \<Rightarrow> symtab \<Rightarrow> symbol option \<times> symtab" where
  "AddFunc scope name rty argtypes rdims rettypes external recursive tab =
     (if FindSymbol tab (scope @ name) \<noteq> None then (None, tab)
      else let sy = Symbol0\<lparr>sy_name := name, scoped_name := scope @ name, scope_name := scope,
             sy_ty := ST_FUNC, argty := argtypes, retty := rty, is_external := external,
             is_recursive := recursive,
             retdims := (case rdims of None \<Rightarrow> [1] | Some ds \<Rightarrow> ds),
             sy_elems := (case rettypes of None \<Rightarrow> [] | Some tys \<Rightarrow> map (\<lambda>ty. (ty, [1])) tys)\<rparr>
        in (Some sy, insert_sym sy tab))"

definition AddExtFunc :: "t_str \<Rightarrow> t_str \<Rightarrow> t_str \<Rightarrow> SymbolType \<Rightarrow> SymbolType list \<Rightarrow>
    nat list option \<Rightarrow> SymbolType list option \<Rightarrow> symtab \<Rightarrow> symbol option \<times> symtab" where
  "AddExtFunc scope name extfunc_name rty argtypes rdims rettypes tab =
     (case AddFunc scope name rty argtypes rdims rettypes True True tab of
        (None, tab) \<Rightarrow> (None, tab)
      | (Some sy, tab) \<Rightarrow>
          (Some (sy\<lparr>ext_name := Some extfunc_name\<rparr>),
           upd_sym (scoped_name sy) (\<lambda>sy. sy\<lparr>ext_name := Some extfunc_name\<rparr>) tab))"

definition FindSymbolsWithSameScope :: "t_str \<Rightarrow> bool \<Rightarrow> symtab \<Rightarrow> symbol list" where
  "FindSymbolsWithSameScope scope no_args tab =
     filter (\<lambda>sy. \<not> (no_args \<and> is_arg sy) \<and> scope_name sy = scope) (map snd tab)"

section \<open>Laws of the table\<close>

text \<open>
  Every entry is stored under its own scoped name and no name occurs twice. All operations
  keep this, and a lookup after an insertion finds what was inserted.
\<close>

definition symtab_wf :: "symtab \<Rightarrow> bool" where
  "symtab_wf tab \<longleftrightarrow> distinct (map fst tab) \<and> (\<forall>(n, sy) \<in> set tab. scoped_name sy = n)"

lemma FindSymbol_insert:
  "FindSymbol tab (scoped_name sy) = None \<Longrightarrow>
   FindSymbol (insert_sym sy tab) n = (if n = scoped_name sy then Some sy else FindSymbol tab n)"
  by (auto simp: FindSymbol_def insert_sym_def map_add_def split: option.splits)

lemma FindSymbol_upd:
  "FindSymbol (upd_sym name f tab) n = (if n = name then map_option f (FindSymbol tab n) else FindSymbol tab n)"
  by (induction tab) (auto simp: FindSymbol_def upd_sym_def)

lemma FindSymbol_None: "FindSymbol tab n = None \<longleftrightarrow> n \<notin> fst ` set tab"
  by (simp add: FindSymbol_def map_of_eq_None_iff)

lemma insert_sym_wf:
  "symtab_wf tab \<Longrightarrow> FindSymbol tab (scoped_name sy) = None \<Longrightarrow> symtab_wf (insert_sym sy tab)"
  by (auto simp: symtab_wf_def insert_sym_def FindSymbol_None)

lemma fst_upd_sym [simp]: "map fst (upd_sym n f tab) = map fst tab"
  by (induction tab) (auto simp: upd_sym_def)

lemma upd_sym_wf:
  assumes "symtab_wf tab" "\<And>sy. scoped_name (f sy) = scoped_name sy"
  shows "symtab_wf (upd_sym n f tab)"
proof -
  have "\<forall>(k, sy) \<in> set (upd_sym n f tab). scoped_name sy = k"
    using assms by (fastforce simp: symtab_wf_def upd_sym_def split: if_splits)
  then show ?thesis using assms(1) by (simp add: symtab_wf_def)
qed

lemma symtab_wf_find: "symtab_wf tab \<Longrightarrow> FindSymbol tab n = Some sy \<Longrightarrow> scoped_name sy = n"
  by (auto simp: symtab_wf_def FindSymbol_def dest!: map_of_SomeD)

lemma AddSymbol_wf: "symtab_wf tab \<Longrightarrow> symtab_wf (snd (AddSymbol scope name ty dims add tab))"
  by (auto simp: AddSymbol_def Let_def intro!: insert_sym_wf)

lemma AddFunc_wf: "symtab_wf tab \<Longrightarrow> symtab_wf (snd (AddFunc scope name rty as rd rt ext rec tab))"
  by (auto simp: AddFunc_def Let_def intro!: insert_sym_wf)

lemma AddExtFunc_wf: "symtab_wf tab \<Longrightarrow> symtab_wf (snd (AddExtFunc scope name en rty as rd rt tab))"
  using AddFunc_wf [of tab scope name rty as rd rt True True]
  by (auto simp: AddExtFunc_def intro!: upd_sym_wf split: prod.splits option.splits)

end
