(* ===== verification/Ast.thy ===== *)
theory Ast
  imports Sym
begin

text \<open>
  The syntax tree (ast/ast.h): one constructor per node class, its arguments the members of
  the class in the order of the constructor. A pointer that a visitor tests for null is an option.
  A null pointer in another place, which the visitors follow, is the node \<open>ASTNull\<close>. The
  expression list of a call and of a return, the statements of a function and the range of a
  loop have a static class in the source and are stored without their own node.
\<close>

datatype CompOp = CMP_EQU | CMP_NEQ | CMP_GT | CMP_LT | CMP_GEQ | CMP_LEQ

datatype BoolOp = BOOL_NOT | BOOL_AND | BOOL_OR | BOOL_XOR

type_synonym argname = "t_str \<times> SymbolType \<times> nat list"

datatype ast =
    ASTUMinus ast
  | ASTPlus ast ast bool
  | ASTMult ast ast bool
  | ASTMod ast ast
  | ASTPow ast ast
  | ASTNorm ast
  | ASTVar t_str
  | ASTLabel t_str
  | ASTJump t_str bool
  | ASTStmts "ast list"
  | ASTVarDecl "t_str list" "ast option" bool bool
  | ASTFunc t_str "argname list" "ast list" "argname list"
  | ASTReturn "ast list option" bool
  | ASTExprList "ast list" SymbolType
  | ASTCall t_str "ast list"
  | ASTAssign "t_str list" "ast option"
  | ASTVarRange t_str ast ast "ast option"
  | ASTComp ast ast CompOp
  | ASTBool ast "ast option" BoolOp
  | ASTCond ast ast "ast option"
  | ASTCases ast "(ast \<times> ast) list" "ast option"
  | ASTLoop ast ast
  | ASTRangedLoop t_str ast ast "ast option" ast
  | ASTLoopBreak t_int
  | ASTLoopNext t_int
  | ASTArrayAccess ast "ast option" "ast option" bool
  | ASTArrayAssign t_str ast "ast option" "ast option" bool
  | ASTNumReal t_real
  | ASTNumInt t_int
  | ASTNumCplx t_cplx
  | ASTNumQuat t_quat
  | ASTNumBool bool
  | ASTNumConstList "t_int list"
  | ASTStrConst t_str
  | ASTInternalArgNames "argname list"
  | ASTInternalMisc bool bool bool
  | ASTNull

text \<open>A pointer kept where it is tested for null.\<close>

fun opt_node :: "ast \<Rightarrow> ast option" where
  "opt_node ASTNull = None"
| "opt_node a = Some a"

lemma opt_node_Some: "opt_node a = Some b \<Longrightarrow> b = a \<and> a \<noteq> ASTNull"
  by (cases a) auto

lemma opt_node_some [simp]: "a \<noteq> ASTNull \<Longrightarrow> opt_node a = Some a"
  by (cases a) auto

fun is_expr_list :: "ast \<Rightarrow> bool" where
  "is_expr_list (ASTExprList _ _) = True"
| "is_expr_list _ = False"

text \<open>An expression list used as an array has an array type other than void.\<close>

definition ast_is_array :: "SymbolType \<Rightarrow> bool" where
  "ast_is_array array_type \<longleftrightarrow> array_type \<noteq> ST_VOID"

text \<open>The children held in lists are smaller than their node.\<close>

lemma size_mem: "x \<in> set xs \<Longrightarrow> size (x :: ast) \<le> size_list size xs"
  by (simp add: size_list_estimation')

lemma size_case:
  "(a, b) \<in> set cases \<Longrightarrow> size (a :: ast) + size (b :: ast) \<le> size_list (size_prod size size) cases"
  by (induction cases) auto

end
