(* ===== verification/ConstTab.thy ===== *)
theory ConstTab
  imports VmData
begin

text \<open>
  The table of constants (codegen/consttab.h, codegen/consttab.cpp): the bytes that are
  appended to the program and the position of each constant in them. Constants are compared
  as the variant compares them, reals by their IEEE equality.
\<close>

datatype t_constval = NoConst | RealC t_real | IntC t_int | StrC t_str

fun constval_eq :: "t_constval \<Rightarrow> t_constval \<Rightarrow> bool" where
  "constval_eq NoConst NoConst = True"
| "constval_eq (RealC a) (RealC b) = r_eq a b"
| "constval_eq (IntC a) (IntC b) = (a = b)"
| "constval_eq (StrC a) (StrC b) = (a = b)"
| "constval_eq _ _ = False"

record consttab =
  ct_consts :: "(t_constval \<times> nat) list"
  ct_ostr :: "byte list"

definition ConstTab0 :: consttab where
  "ConstTab0 = \<lparr>ct_consts = [], ct_ostr = []\<rparr>"

fun find_const :: "t_constval \<Rightarrow> (t_constval \<times> nat) list \<Rightarrow> nat option" where
  "find_const v [] = None"
| "find_const v ((w, pos) # cs) = (if constval_eq v w then Some pos else find_const v cs)"

text \<open>Descriptor and data of a constant; a string has its length in front.\<close>

fun const_bytes :: "t_constval \<Rightarrow> byte list result" where
  "const_bytes (RealC realval) = Ok (byte_of_vmtype VM_REAL # enc64 realval)"
| "const_bytes (IntC intval) = Ok (byte_of_vmtype VM_INT # enc64 intval)"
| "const_bytes (StrC strval) =
     Ok (byte_of_vmtype VM_STR # enc_addr (int (length strval)) @
       map of_char (take (nat (wrap32 (int (length strval)))) strval))"
| "const_bytes NoConst = Throw (RuntimeError ''Unknown constant type.'')"

definition AddConst :: "t_constval \<Rightarrow> consttab \<Rightarrow> (nat \<times> consttab) result" where
  "AddConst constval ct =
     (case find_const constval (ct_consts ct) of
        Some pos \<Rightarrow> Ok (pos, ct)
      | None \<Rightarrow>
          rbind (const_bytes constval) (\<lambda>bs.
          let streampos = length (ct_ostr ct) in
          Ok (streampos, ct\<lparr>ct_consts := ct_consts ct @ [(constval, streampos)],
            ct_ostr := ct_ostr ct @ bs\<rparr>)))"

definition GetBytes :: "consttab \<Rightarrow> nat \<times> byte list option" where
  "GetBytes ct =
     (if ct_ostr ct = [] then (0, None) else (length (ct_ostr ct), Some (ct_ostr ct)))"

section \<open>Laws\<close>

text \<open>
  Every constant of the table stands, encoded, at its position in the bytes; adding a
  constant keeps the positions given out before.
\<close>

definition const_at :: "consttab \<Rightarrow> nat \<Rightarrow> t_constval \<Rightarrow> bool" where
  "const_at ct pos v \<longleftrightarrow> (\<exists>bs pre post. const_bytes v = Ok bs \<and> ct_ostr ct = pre @ bs @ post \<and> length pre = pos)"

definition consttab_inv :: "consttab \<Rightarrow> bool" where
  "consttab_inv ct \<longleftrightarrow> (\<forall>(v, pos) \<in> set (ct_consts ct). const_at ct pos v)"

lemma consttab_inv_empty [simp]: "consttab_inv ConstTab0"
  by (simp add: consttab_inv_def ConstTab0_def)

lemma const_at_append: "const_at ct pos v \<Longrightarrow> const_at (ct\<lparr>ct_consts := cs, ct_ostr := ct_ostr ct @ bs\<rparr>) pos v"
  by (fastforce simp: const_at_def)

lemma find_const_str: "find_const (StrC str) cs = Some pos \<Longrightarrow> (StrC str, pos) \<in> set cs"
  by (induction "StrC str" cs rule: find_const.induct) (auto split: if_splits elim: constval_eq.elims)

lemma find_const_eq: "find_const v cs = Some pos \<Longrightarrow> \<exists>w. (w, pos) \<in> set cs \<and> constval_eq v w"
  by (induction v cs rule: find_const.induct) (auto split: if_splits)

lemma AddConst_inv: "AddConst v ct = Ok (pos, ct') \<Longrightarrow> consttab_inv ct \<Longrightarrow> consttab_inv ct'"
proof (cases "find_const v (ct_consts ct)")
  case None
  assume "AddConst v ct = Ok (pos, ct')" and i: "consttab_inv ct"
  then obtain bs where bs: "const_bytes v = Ok bs"
      "ct' = ct\<lparr>ct_consts := ct_consts ct @ [(v, pos)], ct_ostr := ct_ostr ct @ bs\<rparr>" "pos = length (ct_ostr ct)"
    using None by (auto simp: AddConst_def Let_def rbind_eq_Ok)
  have "ct_ostr ct' = ct_ostr ct @ bs @ []" using bs by simp
  then have "const_at ct' pos v" unfolding const_at_def using bs(1,3) by blast
  then show ?thesis using i const_at_append bs(2) by (fastforce simp: consttab_inv_def)
qed (auto simp: AddConst_def)

lemma AddConst_keeps: "AddConst v ct = Ok (pos, ct') \<Longrightarrow> const_at ct k w \<Longrightarrow> const_at ct' k w"
  by (auto simp: AddConst_def Let_def rbind_eq_Ok const_at_append split: option.splits)

lemma AddConst_str_at:
  assumes "AddConst (StrC str) ct = Ok (pos, ct')" "consttab_inv ct"
  shows "const_at ct' pos (StrC str)"
proof (cases "find_const (StrC str) (ct_consts ct)")
  case None
  then show ?thesis
    using assms(1) unfolding const_at_def by (fastforce simp: AddConst_def Let_def)
next
  case (Some p)
  then have "p = pos" "ct' = ct" using assms(1) by (auto simp: AddConst_def)
  then show ?thesis using find_const_str [OF Some] assms(2) by (auto simp: consttab_inv_def)
qed

lemma AddConst_again:
  assumes "AddConst (StrC str) ct = Ok (pos, ct')"
  shows "AddConst (StrC str) ct' = Ok (pos, ct')"
proof -
  have "find_const v (xs @ [(v, p)]) = Some p" if "find_const v xs = None" "constval_eq v v" for v xs p
    using that by (induction v xs rule: find_const.induct) (auto split: if_splits)
  then show ?thesis
    using assms by (auto simp: AddConst_def Let_def split: option.splits)
qed

end
