(* ===== verification/CgState.thy ===== *)
theory CgState
  imports Ast ConstTab VmOps
begin

text \<open>
  State and helper functions of the code generator (codegen/codegen.h, and the functions of
  codegen/var.cpp, ops.cpp, func.cpp and arr.cpp that are no visitors). The output stream is
  the list of the bytes written; between two visits its position is the end, and a position
  that is sought to write an address is a \<open>patch\<close> of bytes already written. A generator of
  code is a function of type \<open>cgm\<close>: it returns the symbol a visitor returns (only used for
  its type) and the new state.
\<close>

record cg =
  cg_syms :: symtab
  cg_consttab :: consttab
  cg_ostr :: "byte list"
  cg_curscope :: "t_str list"
  cg_local_stack :: "t_str \<rightharpoonup> t_addr"
  cg_global_stack :: t_addr
  cg_func_comefroms :: "(t_str \<times> nat \<times> int) list"
  cg_pushret_comefroms :: "nat list"
  cg_endfunc_comefroms :: "nat list"
  cg_const_addrs :: "(nat \<times> int) list"
  cg_loop_ident :: nat
  cg_cur_loop :: "nat list"
  cg_loop_begin_comefroms :: "(nat \<times> nat) list"
  cg_loop_end_comefroms :: "(nat \<times> nat) list"
  cg_labels :: "(t_str \<times> nat) list"
  cg_goto_comefroms :: "(t_str \<times> nat) list"

definition Codegen0 :: "symtab \<Rightarrow> cg" where
  "Codegen0 syms = \<lparr>cg_syms = syms, cg_consttab = ConstTab0, cg_ostr = [], cg_curscope = [],
     cg_local_stack = Map.empty, cg_global_stack = 0, cg_func_comefroms = [],
     cg_pushret_comefroms = [], cg_endfunc_comefroms = [], cg_const_addrs = [],
     cg_loop_ident = 0, cg_cur_loop = [], cg_loop_begin_comefroms = [],
     cg_loop_end_comefroms = [], cg_labels = [], cg_goto_comefroms = []\<rparr>"

type_synonym cgm = "cg \<Rightarrow> (symbol option \<times> cg) result"

section \<open>The output stream\<close>

definition emit :: "byte list \<Rightarrow> cg \<Rightarrow> cg" where
  "emit bs c = c\<lparr>cg_ostr := cg_ostr c @ bs\<rparr>"

definition tellp :: "cg \<Rightarrow> nat" where
  "tellp c = length (cg_ostr c)"

definition overwrite :: "nat \<Rightarrow> byte list \<Rightarrow> byte list \<Rightarrow> byte list" where
  "overwrite pos bs code = take pos code @ bs @ drop (pos + length bs) code"

definition patch :: "nat \<Rightarrow> byte list \<Rightarrow> cg \<Rightarrow> cg" where
  "patch pos bs c = c\<lparr>cg_ostr := overwrite pos bs (cg_ostr c)\<rparr>"

abbreviation opb :: "OpCode \<Rightarrow> byte" where "opb \<equiv> byte_of_opcode"
abbreviation tyb :: "VMType \<Rightarrow> byte" where "tyb \<equiv> byte_of_vmtype"

text \<open>\<open>PUSH\<close> of an address with its base register, and of an integer.\<close>

definition push_addr :: "VMType \<Rightarrow> int \<Rightarrow> byte list" where
  "push_addr ty a = opb OP_PUSH # tyb ty # enc_addr a"

definition push_int :: "t_int \<Rightarrow> byte list" where
  "push_int i = opb OP_PUSH # tyb VM_INT # enc64 i"

text \<open>
  The distance to jump from the address at position \<open>pos\<close>: address and jump instruction
  have already been skipped.
\<close>

definition skip_bytes :: "int \<Rightarrow> nat \<Rightarrow> byte list" where
  "skip_bytes target pos = enc_addr (target - int pos - vm_type_size VM_ADDR_IP True)"

section \<open>Symbols and types\<close>

definition quoted :: "t_str \<Rightarrow> t_str" where
  "quoted str = CHR 0x22 # str @ [CHR 0x22]"

definition of_type :: "SymbolType option \<Rightarrow> symbol option \<Rightarrow> symbol option" where
  "of_type ty sy =
     (case (ty, sy) of (Some t, Some s) \<Rightarrow> if sy_ty s \<noteq> t then None else sy | _ \<Rightarrow> sy)"

definition GetSym :: "t_str \<Rightarrow> bool \<Rightarrow> SymbolType option \<Rightarrow> cg \<Rightarrow> symbol result" where
  "GetSym name name_already_scoped ty c =
     (let scoped = (if name_already_scoped then []
            else concat (map (\<lambda>scope. scope @ get_scopenameseparator) (cg_curscope c)) @ name);
          sy = of_type ty (if scoped \<noteq> [] then FindSymbol (cg_syms c) scoped else None)
      in case sy of
        Some s \<Rightarrow> Ok s
      | None \<Rightarrow>
          (case of_type ty (FindSymbol (cg_syms c) name) of
             Some s \<Rightarrow> Ok s
           | None \<Rightarrow> Throw (RuntimeError
               (''GetSym: '' @ quoted scoped @ '' does not have an associated symbol.''))))"

definition dummy_sym :: "SymbolType \<Rightarrow> t_str \<Rightarrow> symbol" where
  "dummy_sym ty name = Symbol0\<lparr>sy_ty := ty, is_tmp := True, sy_name := name\<rparr>"

definition m_real_const :: symbol where "m_real_const = dummy_sym ST_REAL ''<real>''"
definition m_int_const :: symbol where "m_int_const = dummy_sym ST_INT ''<integer>''"
definition m_cplx_const :: symbol where "m_cplx_const = dummy_sym ST_CPLX ''<complex>''"
definition m_quat_const :: symbol where "m_quat_const = dummy_sym ST_QUAT ''<quaternion>''"
definition m_bool_const :: symbol where "m_bool_const = dummy_sym ST_BOOL ''<bool>''"
definition m_str_const :: symbol where "m_str_const = dummy_sym ST_STRING ''<string>''"
definition m_real_array_const :: symbol where
  "m_real_array_const = dummy_sym ST_REAL_ARRAY ''<array_real>''"
definition m_int_array_const :: symbol where
  "m_int_array_const = dummy_sym ST_INT_ARRAY ''<array_integer>''"
definition m_cplx_array_const :: symbol where
  "m_cplx_array_const = dummy_sym ST_CPLX_ARRAY ''<array_complex>''"
definition m_quat_array_const :: symbol where
  "m_quat_array_const = dummy_sym ST_QUAT_ARRAY ''<array_quaternion>''"

fun GetTypeConst :: "SymbolType \<Rightarrow> symbol option" where
  "GetTypeConst ST_REAL = Some m_real_const"
| "GetTypeConst ST_INT = Some m_int_const"
| "GetTypeConst ST_CPLX = Some m_cplx_const"
| "GetTypeConst ST_QUAT = Some m_quat_const"
| "GetTypeConst ST_REAL_ARRAY = Some m_real_array_const"
| "GetTypeConst ST_INT_ARRAY = Some m_int_array_const"
| "GetTypeConst ST_CPLX_ARRAY = Some m_cplx_array_const"
| "GetTypeConst ST_QUAT_ARRAY = Some m_quat_array_const"
| "GetTypeConst ST_BOOL = Some m_bool_const"
| "GetTypeConst ST_STRING = Some m_str_const"
| "GetTypeConst _ = None"

fun IsArray :: "SymbolType \<Rightarrow> bool" where
  "IsArray ST_REAL_ARRAY = True"
| "IsArray ST_INT_ARRAY = True"
| "IsArray ST_CPLX_ARRAY = True"
| "IsArray ST_QUAT_ARRAY = True"
| "IsArray _ = False"

text \<open>Array type and element type; both are null for a type that cannot be indexed.\<close>

fun GetArrayTypeConst :: "SymbolType \<Rightarrow> (symbol \<times> symbol) option" where
  "GetArrayTypeConst ST_STRING = Some (m_str_const, m_str_const)"
| "GetArrayTypeConst ST_REAL_ARRAY = Some (m_real_array_const, m_real_const)"
| "GetArrayTypeConst ST_INT_ARRAY = Some (m_int_array_const, m_int_const)"
| "GetArrayTypeConst ST_CPLX_ARRAY = Some (m_cplx_array_const, m_cplx_const)"
| "GetArrayTypeConst ST_QUAT_ARRAY = Some (m_quat_array_const, m_quat_const)"
| "GetArrayTypeConst _ = None"

section \<open>Sizes of variables and frames\<close>

text \<open>The sizes of the VM are 32-bit numbers, converted to \<open>std::size_t\<close>.\<close>

definition to_size :: "int \<Rightarrow> int" where
  "to_size n = n mod 2 ^ 64"

definition arr_size :: "(int \<Rightarrow> bool \<Rightarrow> bool \<Rightarrow> int) \<Rightarrow> symbol \<Rightarrow> int result" where
  "arr_size sz sy = rbind (get_total_size 0 sy) (\<lambda>n. Ok (to_size (sz (wrap32 n) True True)))"

definition GetSymSize :: "symbol \<Rightarrow> int result" where
  "GetSymSize sy =
     (case sy_ty sy of
        ST_REAL \<Rightarrow> Ok (vm_type_size VM_REAL True)
      | ST_INT \<Rightarrow> Ok (vm_type_size VM_INT True)
      | ST_CPLX \<Rightarrow> Ok (vm_type_size VM_CPLX True)
      | ST_QUAT \<Rightarrow> Ok (vm_type_size VM_QUAT True)
      | ST_REAL_ARRAY \<Rightarrow> arr_size get_vm_vec_real_size sy
      | ST_INT_ARRAY \<Rightarrow> arr_size get_vm_vec_int_size sy
      | ST_CPLX_ARRAY \<Rightarrow> arr_size get_vm_vec_cplx_size sy
      | ST_QUAT_ARRAY \<Rightarrow> arr_size get_vm_vec_quat_size sy
      | ST_BOOL \<Rightarrow> Ok (vm_type_size VM_BOOL True)
      | ST_STRING \<Rightarrow>
          (case sy_dims sy of
             [] \<Rightarrow> Undefined (UB_Index 0)
           | d # _ \<Rightarrow> Ok (to_size (get_vm_str_size (wrap32 (int d)) True True)))
      | _ \<Rightarrow> Throw (RuntimeError (''Invalid symbol type for '' @ quoted (sy_name sy) @ ''.'')))"

primrec sum_sizes :: "symbol list \<Rightarrow> int \<Rightarrow> int result" where
  "sum_sizes [] needed_size = Ok needed_size"
| "sum_sizes (sy # syms) needed_size =
     (if sy_ty sy = ST_FUNC then sum_sizes syms needed_size
      else rbind (GetSymSize sy) (\<lambda>n. sum_sizes syms (to_size (needed_size + n))))"

text \<open>The local variables of a function, the global ones without a function.\<close>

definition GetStackFrameSize :: "symbol option \<Rightarrow> cg \<Rightarrow> int result" where
  "GetStackFrameSize func c =
     sum_sizes (FindSymbolsWithSameScope
       (case func of Some f \<Rightarrow> scoped_name f @ get_scopenameseparator | None \<Rightarrow> []) True (cg_syms c)) 0"

section \<open>Casts\<close>

text \<open>
  Types to cast the first and the second operand to, and the type of the result. A function
  is replaced by its return type, but the decisions still use the type of the symbol.
\<close>

definition GetCastSymType :: "symbol option \<Rightarrow> symbol option \<Rightarrow>
    symbol option \<times> symbol option \<times> symbol option" where
  "GetCastSymType t1 t2 =
     (case (t1, t2) of
        (Some s1, Some s2) \<Rightarrow>
          (let ty1 = sy_ty s1; ty2 = sy_ty s2;
               term1 = (if ty1 = ST_FUNC then GetTypeConst (retty s1) else Some s1);
               term2 = (if ty2 = ST_FUNC then GetTypeConst (retty s2) else Some s2)
           in if ty1 = ty2 then (None, None, term1)
              else if ty1 = ST_INT \<and> ty2 = ST_REAL then (term2, None, term2)
              else if ty1 = ST_REAL \<and> ty2 = ST_INT then (None, term1, term1)
              else if ty1 = ST_INT \<and> ty2 = ST_CPLX then (term2, None, term2)
              else if ty1 = ST_CPLX \<and> ty2 = ST_INT then (None, term1, term1)
              else if ty1 = ST_REAL \<and> ty2 = ST_CPLX then (term2, None, term2)
              else if ty1 = ST_CPLX \<and> ty2 = ST_REAL then (None, term1, term1)
              else if ty1 = ST_STRING \<and> ty2 = ST_REAL then (None, term1, term1)
              else if ty1 = ST_STRING \<and> ty2 = ST_INT then (None, term1, term1)
              else if ty1 = ST_REAL \<and> ty2 = ST_STRING then (term2, None, term2)
              else if ty1 = ST_INT \<and> ty2 = ST_STRING then (term2, None, term2)
              else if ty1 = ST_REAL_ARRAY \<and> ty2 = ST_REAL then (None, None, term1)
              else if ty1 = ST_REAL_ARRAY \<and> ty2 = ST_INT then (None, Some m_real_const, term1)
              else if ty1 = ST_REAL \<and> ty2 = ST_REAL_ARRAY then (None, None, term2)
              else if ty1 = ST_INT \<and> ty2 = ST_REAL_ARRAY then (Some m_real_const, None, term2)
              else if ty1 = ST_INT_ARRAY \<and> ty2 = ST_INT then (None, None, term1)
              else if ty1 = ST_INT_ARRAY \<and> ty2 = ST_REAL then (None, Some m_int_const, term1)
              else if ty1 = ST_INT \<and> ty2 = ST_INT_ARRAY then (None, None, term2)
              else if ty1 = ST_REAL \<and> ty2 = ST_INT_ARRAY then (Some m_int_const, None, term2)
              else if ty1 = ST_CPLX_ARRAY \<and> ty2 = ST_CPLX then (None, None, term1)
              else if ty1 = ST_CPLX_ARRAY \<and> ty2 = ST_INT then (None, Some m_cplx_const, term1)
              else if ty1 = ST_CPLX_ARRAY \<and> ty2 = ST_REAL then (None, Some m_cplx_const, term1)
              else if ty1 = ST_CPLX \<and> ty2 = ST_CPLX_ARRAY then (None, None, term2)
              else if ty1 = ST_INT \<and> ty2 = ST_CPLX_ARRAY then (Some m_cplx_const, None, term2)
              else if ty1 = ST_REAL \<and> ty2 = ST_CPLX_ARRAY then (Some m_cplx_const, None, term2)
              else if ty1 = ST_QUAT \<and> ty2 = ST_REAL_ARRAY then (None, None, term2)
              else (None, term1, term1))
      | _ \<Rightarrow> (None, None, None))"

text \<open>The instruction of a cast, and whether it needs the size of an array.\<close>

definition cast_op :: "SymbolType \<Rightarrow> bool \<Rightarrow> OpCode \<times> bool" where
  "cast_op ty allow_array_cast =
     (case ty of
        ST_REAL \<Rightarrow> (OP_TOR, False)
      | ST_INT \<Rightarrow> (OP_TOI, False)
      | ST_CPLX \<Rightarrow> (OP_TOC, False)
      | ST_QUAT \<Rightarrow> (OP_TOQ, False)
      | ST_STRING \<Rightarrow> (OP_TOS, False)
      | ST_BOOL \<Rightarrow> (OP_TOB, False)
      | ST_REAL_ARRAY \<Rightarrow> if allow_array_cast then (OP_TOREALARR, True) else (OP_NOP, False)
      | ST_INT_ARRAY \<Rightarrow> if allow_array_cast then (OP_TOINTARR, True) else (OP_NOP, False)
      | ST_CPLX_ARRAY \<Rightarrow> if allow_array_cast then (OP_TOCPLXARR, True) else (OP_NOP, False)
      | ST_QUAT_ARRAY \<Rightarrow> if allow_array_cast then (OP_TOQUATARR, True) else (OP_NOP, False)
      | _ \<Rightarrow> (OP_NOP, False))"

definition CastTo :: "symbol option \<Rightarrow> nat option \<Rightarrow> bool \<Rightarrow> cg \<Rightarrow> cg result" where
  "CastTo ty_to pos allow_array_cast c =
     (case ty_to of
        None \<Rightarrow> Ok c
      | Some ty \<Rightarrow>
          (case cast_op (sy_ty ty) allow_array_cast of (op, to_arr) \<Rightarrow>
             rbind (if to_arr
                then rbind (get_total_size 0 ty) (\<lambda>cols. Ok (emit (push_addr VM_ADDR_MEM cols) c))
                else Ok c) (\<lambda>c.
             Ok (case pos of None \<Rightarrow> emit [opb op] c | Some p \<Rightarrow> patch p [opb op] c))))"

section \<open>Constants\<close>

definition PushRealConst :: "t_real \<Rightarrow> cg \<Rightarrow> cg" where
  "PushRealConst val = emit (opb OP_PUSH # tyb VM_REAL # enc64 val)"

definition PushIntConst :: "t_int \<Rightarrow> cg \<Rightarrow> cg" where
  "PushIntConst val = emit (push_int val)"

definition PushCplxConst :: "t_cplx \<Rightarrow> cg \<Rightarrow> cg" where
  "PushCplxConst val = emit (opb OP_PUSH # tyb VM_CPLX # enc64 (fst val) @ enc64 (snd val))"

definition PushQuatConst :: "t_quat \<Rightarrow> cg \<Rightarrow> cg" where
  "PushQuatConst val =
     (case val of (real, imag1, imag2, imag3) \<Rightarrow>
        emit (opb OP_PUSH # tyb VM_QUAT # enc64 real @ enc64 imag1 @ enc64 imag2 @ enc64 imag3))"

definition PushBoolConst :: "t_bool \<Rightarrow> cg \<Rightarrow> cg" where
  "PushBoolConst val = emit [opb OP_PUSH, tyb VM_BOOL, val]"

text \<open>
  The address of a constant relative to the code behind the instruction that dereferences
  it; the position of the table is added when the code is finished.
\<close>

definition push_const_addr :: "t_str \<Rightarrow> cg \<Rightarrow> cg result" where
  "push_const_addr str c =
     rbind (AddConst (StrC str) (cg_consttab c)) (\<lambda>(str_addr, ct).
     let c = emit [opb OP_PUSH, tyb VM_ADDR_IP] (c\<lparr>cg_consttab := ct\<rparr>);
         addr_pos = tellp c;
         addr = int str_addr - int addr_pos - vm_type_size VM_ADDR_IP True
     in Ok (emit (enc_addr addr @ [opb OP_RDMEM])
          (c\<lparr>cg_const_addrs := cg_const_addrs c @ [(addr_pos, addr)]\<rparr>)))"

definition PushStrConst :: "t_str \<Rightarrow> cg \<Rightarrow> cg result" where
  "PushStrConst val c = push_const_addr val c"

definition cg_CallExternal :: "t_str \<Rightarrow> cg \<Rightarrow> cg result" where
  "cg_CallExternal funcname c =
     rbind (push_const_addr funcname c) (\<lambda>c. Ok (emit [opb OP_EXTCALL] c))"

definition PushVecSize :: "nat \<Rightarrow> cg \<Rightarrow> cg" where
  "PushVecSize n = emit (push_addr VM_ADDR_MEM (int n))"

definition push_vec :: "('e \<Rightarrow> cg \<Rightarrow> cg) \<Rightarrow> OpCode \<Rightarrow> 'e list \<Rightarrow> cg \<Rightarrow> cg" where
  "push_vec push op vec c = emit [opb op] (PushVecSize (length vec) (fold push vec c))"

definition PushRealVecConst :: "t_real list \<Rightarrow> cg \<Rightarrow> cg" where
  "PushRealVecConst = push_vec PushRealConst OP_MAKEREALARR"

definition PushIntVecConst :: "t_int list \<Rightarrow> cg \<Rightarrow> cg" where
  "PushIntVecConst = push_vec PushIntConst OP_MAKEINTARR"

definition PushCplxVecConst :: "t_cplx list \<Rightarrow> cg \<Rightarrow> cg" where
  "PushCplxVecConst = push_vec PushCplxConst OP_MAKECPLXARR"

definition PushQuatVecConst :: "t_quat list \<Rightarrow> cg \<Rightarrow> cg" where
  "PushQuatVecConst = push_vec PushQuatConst OP_MAKEQUATARR"

section \<open>Variables\<close>

definition base_reg :: "symbol \<Rightarrow> VMType" where
  "base_reg sy = (if is_global sy then VM_ADDR_GBP else VM_ADDR_BP)"

text \<open>An optional address that is dereferenced without a value is undefined.\<close>

definition the_addr :: "symbol \<Rightarrow> int result" where
  "the_addr sy = (case sy_addr sy of None \<Rightarrow> Undefined UB_Null | Some a \<Rightarrow> Ok a)"

definition not_declared :: "string \<Rightarrow> t_str \<Rightarrow> exc" where
  "not_declared node varname =
     RuntimeError (node @ '': Variable '' @ quoted varname @ '' has not been declared.'')"

definition PushVar :: "t_str \<Rightarrow> cgm" where
  "PushVar varname c =
     rbind (GetSym varname False None c) (\<lambda>sy.
     case sy_addr sy of
       None \<Rightarrow> Throw (not_declared ''ASTVar'' varname)
     | Some addr \<Rightarrow>
         let c = emit (push_addr (base_reg sy) addr) c in
         Ok (Some sy, if sy_ty sy \<noteq> ST_FUNC then emit [opb OP_RDMEM] c else c))"

definition AssignVar :: "symbol \<Rightarrow> cg \<Rightarrow> cg result" where
  "AssignVar sy c =
     rbind (the_addr sy) (\<lambda>addr. Ok (emit (push_addr (base_reg sy) addr @ [opb OP_WRMEM]) c))"

end
