(* ===== verification/Codegen.thy ===== *)
theory Codegen
  imports CgState
begin

text \<open>
  The visitors of the code generator (codegen/ops.cpp, var.cpp, arr.cpp, func.cpp, loops.cpp)
  and its start and finish (codegen/codegen.cpp). A visitor is a function of the generators
  of its children, so each is a definition of its own; \<open>gen\<close> ties them together. Checks
  behind a \<open>GetSym\<close> that has already thrown are left out, and so are debug messages.
\<close>

section \<open>Operators (ops.cpp)\<close>

definition visit_UMinus :: "cgm \<Rightarrow> cgm" where
  "visit_UMinus gterm c =
     rbind (gterm c) (\<lambda>(term, c). Ok (term, emit [opb OP_USUB] c))"

text \<open>
  Both operands with their casts: a \<open>NOP\<close> behind the first one is the place for its cast, the
  cast of the second one is appended.
\<close>

definition gen_operands :: "cgm \<Rightarrow> cgm \<Rightarrow> cg \<Rightarrow>
    ((symbol option \<times> symbol option \<times> symbol option) \<times> cg) result" where
  "gen_operands gterm1 gterm2 c =
     rbind (gterm1 c) (\<lambda>(term1, c).
     let term1_pos = tellp c in
     rbind (gterm2 (emit [opb OP_NOP] c)) (\<lambda>(term2, c).
     let term2_pos = tellp c in
     case GetCastSymType term1 term2 of (first_ty, second_ty, res_ty) \<Rightarrow>
     rbind (CastTo first_ty (Some term1_pos) False c) (\<lambda>c.
     rbind (CastTo second_ty (Some term2_pos) False c) (\<lambda>c.
     Ok ((term1, term2, res_ty), c)))))"

definition gen_binary :: "OpCode \<Rightarrow> cgm \<Rightarrow> cgm \<Rightarrow> cgm" where
  "gen_binary op gterm1 gterm2 c =
     rbind (gen_operands gterm1 gterm2 c) (\<lambda>((term1, term2, common_type), c).
     Ok (common_type, emit [opb op] c))"

definition visit_Plus :: "cgm \<Rightarrow> cgm \<Rightarrow> bool \<Rightarrow> cgm" where
  "visit_Plus gterm1 gterm2 inverted = gen_binary (if inverted then OP_SUB else OP_ADD) gterm1 gterm2"

definition visit_Mod :: "cgm \<Rightarrow> cgm \<Rightarrow> cgm" where
  "visit_Mod = gen_binary OP_MOD"

definition visit_Pow :: "cgm \<Rightarrow> cgm \<Rightarrow> cgm" where
  "visit_Pow = gen_binary OP_POW"

text \<open>Rows and columns of the factors of a matrix product; none for other products.\<close>

definition mat_dims :: "symbol option \<Rightarrow> symbol option \<Rightarrow> symbol option \<Rightarrow> nat list option" where
  "mat_dims common_type term1 term2 =
     (case (common_type, term1, term2) of
        (Some ct, Some t1, Some t2) \<Rightarrow>
          if \<not> IsArray (sy_ty ct) then None
          else (case (sy_dims t1, sy_dims t2) of
              ([r1, c1], [r2]) \<Rightarrow> Some [r1, c1, r2, 1]
            | ([c1], [r2, c2]) \<Rightarrow> Some [1, c1, r2, c2]
            | ([r1, c1], [r2, c2]) \<Rightarrow> Some [r1, c1, r2, c2]
            | _ \<Rightarrow> None)
      | _ \<Rightarrow> None)"

definition visit_Mult :: "cgm \<Rightarrow> cgm \<Rightarrow> bool \<Rightarrow> cgm" where
  "visit_Mult gterm1 gterm2 inverted c =
     rbind (gen_operands gterm1 gterm2 c) (\<lambda>((term1, term2, common_type), c).
     if inverted then
       (if (case term2 of Some t2 \<Rightarrow> IsArray (sy_ty t2) | None \<Rightarrow> False)
        then Throw (RuntimeError ''ASTMult: Cannot divide by array.'')
        else Ok (common_type, emit [opb OP_DIV] c))
     else
       (case mat_dims common_type term1 term2 of
          Some ds \<Rightarrow> Ok (common_type,
            emit (concat (map (\<lambda>d. push_int (word_of_int (int d))) ds) @ [opb OP_MATMUL]) c)
        | None \<Rightarrow> Ok (common_type, emit [opb OP_MUL] c)))"

definition visit_Norm :: "cgm \<Rightarrow> cgm" where
  "visit_Norm gterm c =
     rbind (gterm c) (\<lambda>(term, c). rbind (cg_CallExternal ''norm'' c) (\<lambda>c. Ok (term, c)))"

fun comp_op :: "CompOp \<Rightarrow> OpCode" where
  "comp_op CMP_EQU = OP_EQU"
| "comp_op CMP_NEQ = OP_NEQU"
| "comp_op CMP_GT = OP_GT"
| "comp_op CMP_LT = OP_LT"
| "comp_op CMP_GEQ = OP_GEQU"
| "comp_op CMP_LEQ = OP_LEQU"

definition visit_Comp :: "cgm \<Rightarrow> cgm \<Rightarrow> CompOp \<Rightarrow> cgm" where
  "visit_Comp gterm1 gterm2 op = gen_binary (comp_op op) gterm1 gterm2"

fun bool_op :: "BoolOp \<Rightarrow> OpCode" where
  "bool_op BOOL_XOR = OP_XOR"
| "bool_op BOOL_OR = OP_OR"
| "bool_op BOOL_AND = OP_AND"
| "bool_op BOOL_NOT = OP_NOT"

definition gen_opt :: "cgm option \<Rightarrow> cgm" where
  "gen_opt g c = (case g of None \<Rightarrow> Ok (None, c) | Some g \<Rightarrow> g c)"

definition visit_Bool :: "cgm \<Rightarrow> cgm option \<Rightarrow> BoolOp \<Rightarrow> cgm" where
  "visit_Bool gterm1 gterm2 op c =
     rbind (gterm1 c) (\<lambda>(_, c).
     rbind (gen_opt gterm2 c) (\<lambda>(_, c). Ok (None, emit [opb (bool_op op)] c)))"

section \<open>Variables and constants (var.cpp)\<close>

text \<open>A vector of \<open>n\<close> zeros; its constructor throws when \<open>n\<close> exceeds the largest size.\<close>

definition zero_vec :: "int \<Rightarrow> 'e \<Rightarrow> symbol \<Rightarrow> ('e list \<Rightarrow> cg \<Rightarrow> cg) \<Rightarrow> cg \<Rightarrow> cg result" where
  "zero_vec elem_size z sy push c =
     rbind (get_total_size 0 sy) (\<lambda>n.
     if n * elem_size > 2 ^ 63 - 1 then Throw LengthError
     else AssignVar sy (push (replicate (nat n) z) c))"

definition init_var :: "symbol \<Rightarrow> cg \<Rightarrow> cg result" where
  "init_var sy c =
     (case sy_ty sy of
        ST_INT \<Rightarrow> AssignVar sy (PushIntConst 0 c)
      | ST_REAL \<Rightarrow> AssignVar sy (PushRealConst 0 c)
      | ST_CPLX \<Rightarrow> AssignVar sy (PushCplxConst (0, 0) c)
      | ST_QUAT \<Rightarrow> AssignVar sy (PushQuatConst (0, 0, 0, 0) c)
      | ST_BOOL \<Rightarrow> AssignVar sy (PushBoolConst 0 c)
      | ST_STRING \<Rightarrow> rbind (PushStrConst [] c) (AssignVar sy)
      | ST_REAL_ARRAY \<Rightarrow> zero_vec 8 0 sy PushRealVecConst c
      | ST_INT_ARRAY \<Rightarrow> zero_vec 8 0 sy PushIntVecConst c
      | ST_CPLX_ARRAY \<Rightarrow> zero_vec 16 (0, 0) sy PushCplxVecConst c
      | ST_QUAT_ARRAY \<Rightarrow> zero_vec 32 (0, 0, 0, 0) sy PushQuatVecConst c
      | _ \<Rightarrow> Ok c)"

text \<open>The address of a new variable: below those of its scope declared before.\<close>

definition place_var :: "symbol \<Rightarrow> cg \<Rightarrow> (symbol \<times> cg) result" where
  "place_var sy c =
     rbind (GetSymSize sy) (\<lambda>n.
     let is_glob = (cg_curscope c = []);
         cur_func = last (cg_curscope c);
         top = (if is_glob then cg_global_stack c
                else case cg_local_stack c cur_func of None \<Rightarrow> 0 | Some a \<Rightarrow> a);
         new_top = wrap32 (top + n);
         place = (\<lambda>sy. sy\<lparr>is_global := is_glob, sy_addr := Some (wrap32 (- new_top))\<rparr>);
         c = (if is_glob then c\<lparr>cg_global_stack := new_top\<rparr>
              else c\<lparr>cg_local_stack := (cg_local_stack c)(cur_func \<mapsto> new_top)\<rparr>)
     in Ok (place sy, c\<lparr>cg_syms := upd_sym (scoped_name sy) place (cg_syms c)\<rparr>))"

definition check_decl :: "t_str \<Rightarrow> symbol \<Rightarrow> bool \<Rightarrow> bool \<Rightarrow> unit result" where
  "check_decl varname sy intent_in intent_out =
     (let err = (\<lambda>msg. Throw (RuntimeError (''ASTVarDecl: Variable '' @ quoted varname @ msg))) in
      if \<not> (is_arg sy \<or> is_ret sy) \<and> (intent_in \<or> intent_out)
      then err '' is not a function argument or return value, but has an intent declaration.''
      else if is_ret sy \<and> intent_in
      then err '' is a function return value, but has an intent(in) declaration.''
      else if sy_addr sy \<noteq> None then err '' already declared.''
      else Ok ())"

definition declare_var :: "cgm option \<Rightarrow> bool \<Rightarrow> bool \<Rightarrow> t_str \<Rightarrow> cgm" where
  "declare_var gassign intent_in intent_out varname c =
     rbind (GetSym varname True None c) (\<lambda>sy.
     if is_arg sy then Ok (None, c)
     else
       rbind (check_decl varname sy intent_in intent_out) (\<lambda>_.
       rbind (place_var sy c) (\<lambda>(sy, c).
       rbind (case gassign of
           Some g \<Rightarrow> rbind (g c) (\<lambda>(_, c). Ok c)
         | None \<Rightarrow> init_var sy c) (\<lambda>c.
       Ok (Some sy, c)))))"

text \<open>The first symbol that is not null.\<close>

definition first_sym :: "symbol option \<Rightarrow> symbol option \<Rightarrow> symbol option" where
  "first_sym sym_ret sy = (case sym_ret of None \<Rightarrow> sy | Some _ \<Rightarrow> sym_ret)"

primrec gen_seq :: "cgm list \<Rightarrow> symbol option \<Rightarrow> cgm" where
  "gen_seq [] sym_ret c = Ok (sym_ret, c)"
| "gen_seq (g # gs) sym_ret c = rbind (g c) (\<lambda>(sy, c). gen_seq gs (first_sym sym_ret sy) c)"

definition visit_VarDecl :: "t_str list \<Rightarrow> cgm option \<Rightarrow> bool \<Rightarrow> bool \<Rightarrow> cgm" where
  "visit_VarDecl vars gassign intent_in intent_out =
     gen_seq (map (declare_var gassign intent_in intent_out) vars) None"

definition assign_to :: "t_str \<Rightarrow> cgm" where
  "assign_to varname c =
     rbind (GetSym varname False None c) (\<lambda>sy.
     if sy_addr sy = None then Throw (not_declared ''ASTAssign'' varname)
     else rbind (CastTo (Some sy) None True c) (\<lambda>c.
       rbind (AssignVar sy c) (\<lambda>c. Ok (Some sy, c))))"

definition visit_Assign :: "t_str list \<Rightarrow> cgm option \<Rightarrow> cgm" where
  "visit_Assign idents gexpr c =
     rbind (gen_opt gexpr c) (\<lambda>(_, c). gen_seq (map assign_to idents) None c)"

definition visit_NumConst :: "symbol \<Rightarrow> ('e \<Rightarrow> cg \<Rightarrow> cg) \<Rightarrow> 'e \<Rightarrow> cgm" where
  "visit_NumConst sy push val c = Ok (Some sy, push val c)"

definition visit_StrConst :: "t_str \<Rightarrow> cgm" where
  "visit_StrConst val c = rbind (PushStrConst val c) (\<lambda>c. Ok (Some m_str_const, c))"

section \<open>Arrays (arr.cpp)\<close>

text \<open>An index expression, cast to an integer when its type is another one.\<close>

definition gen_index :: "cgm \<Rightarrow> cg \<Rightarrow> cg result" where
  "gen_index gnum c =
     rbind (gnum c) (\<lambda>(numsym, c).
     case numsym of
       None \<Rightarrow> Undefined UB_Null
     | Some s \<Rightarrow> if sy_ty s \<noteq> ST_INT then CastTo (Some m_int_const) None False c else Ok c)"

text \<open>The indices of several dimensions: each is scaled by the size of the dimensions behind it.\<close>

primrec gen_indices :: "symbol \<Rightarrow> cgm list \<Rightarrow> nat \<Rightarrow> cg \<Rightarrow> cg result" where
  "gen_indices arr [] cur_dim c = Ok (emit (replicate (cur_dim - 1) (opb OP_ADD)) c)"
| "gen_indices arr (g # gs) cur_dim c =
     rbind (gen_index g c) (\<lambda>c.
     rbind (get_total_size (cur_dim + 1) arr) (\<lambda>n.
     let dims_rest = word_of_int n :: t_int in
     gen_indices arr gs (cur_dim + 1)
       (if sint dims_rest > 1 then emit [opb OP_MUL] (PushIntConst dims_rest c) else c)))"

text \<open>
  The generators of an index: several for an expression list, else one. Without dimensions
  the loop that adds the indices would not end.
\<close>

definition gen_elem_index :: "string \<Rightarrow> symbol option \<Rightarrow> bool \<Rightarrow> cgm list \<Rightarrow> cg \<Rightarrow> cg result" where
  "gen_elem_index node term multi gnums c =
     (if \<not> multi then gen_index (hd gnums) c
      else case term of
        None \<Rightarrow> Undefined UB_Null
      | Some arr \<Rightarrow>
          if length (sy_dims arr) \<noteq> length gnums
          then Throw (RuntimeError (node @ '': Dimension mismatch.''))
          else if gnums = [] then Undefined UB_Overflow
          else gen_indices arr gnums 0 c)"

definition array_type :: "bool \<Rightarrow> symbol option \<Rightarrow> symbol result" where
  "array_type elem term =
     (case term of
        None \<Rightarrow> Undefined UB_Null
      | Some arr \<Rightarrow>
          (case GetArrayTypeConst (sy_ty arr) of
             Some (arr_ty, arr_elem_ty) \<Rightarrow> Ok (if elem then arr_elem_ty else arr_ty)
           | None \<Rightarrow> Throw (RuntimeError
               (''ASTArrayAccess: Invalid array type of '' @ quoted (sy_name arr) @ ''.''))))"

definition visit_ArrayAccess :: "cgm \<Rightarrow> (bool \<times> cgm list) option \<Rightarrow> (bool \<times> cgm list) option \<Rightarrow> bool \<Rightarrow> cgm" where
  "visit_ArrayAccess gterm num1 num2 ranged12 c =
     rbind (gterm c) (\<lambda>(term, c).
     case (ranged12, num1, num2) of
       (False, Some (multi, gnums), None) \<Rightarrow>
         rbind (gen_elem_index ''ASTArrayAccess'' term multi gnums c) (\<lambda>c.
         let c = emit [opb OP_RDARR] c in
         rbind (array_type True term) (\<lambda>ty. Ok (Some ty, c)))
     | (True, Some (multi1, gnums1), Some (multi2, gnums2)) \<Rightarrow>
         if multi1 \<or> multi2
         then Throw (RuntimeError ''ASTArrayAccess: Ranged multi-dimensional array access not yet supported.'')
         else
           rbind (gen_index (hd gnums1) c) (\<lambda>c.
           rbind (gen_index (hd gnums2) c) (\<lambda>c.
           let c = emit [opb OP_RDARRR] c in
           rbind (array_type False term) (\<lambda>ty. Ok (Some ty, c))))
     | _ \<Rightarrow>
         (case term of
            None \<Rightarrow> Undefined UB_Null
          | Some arr \<Rightarrow> Throw (RuntimeError
              (''ASTArrayAccess: Invalid array access to '' @ quoted (sy_name arr) @ ''.''))))"

definition visit_ArrayAssign :: "t_str \<Rightarrow> cgm \<Rightarrow> (bool \<times> cgm list) option \<Rightarrow> (bool \<times> cgm list) option \<Rightarrow> bool \<Rightarrow> cgm" where
  "visit_ArrayAssign varname gexpr num1 num2 ranged12 c =
     rbind (GetSym varname False None c) (\<lambda>sy.
     case sy_addr sy of
       None \<Rightarrow> Throw (not_declared ''ASTArrayAssign'' varname)
     | Some addr \<Rightarrow>
         rbind (gexpr (emit (push_addr (base_reg sy) addr) c)) (\<lambda>(expr, c).
         case (ranged12, num1, num2) of
           (False, Some (multi, gnums), None) \<Rightarrow>
             (case GetArrayTypeConst (sy_ty sy) of
                None \<Rightarrow> Throw (RuntimeError
                  (''ASTArrayAssign: Invalid array element type in '' @ quoted varname @ ''.''))
              | Some (_, elem_sym_type) \<Rightarrow>
                  (case expr of
                     None \<Rightarrow> Undefined UB_Null
                   | Some ex \<Rightarrow>
                       rbind (if sy_ty ex \<noteq> sy_ty sy then CastTo (Some elem_sym_type) None False c else Ok c) (\<lambda>c.
                       rbind (gen_elem_index ''ASTArrayAssign'' (Some sy) multi gnums c) (\<lambda>c.
                       Ok (expr, emit [opb OP_WRARR] c)))))
         | (True, Some (multi1, gnums1), Some (multi2, gnums2)) \<Rightarrow>
             if multi1 \<or> multi2
             then Throw (RuntimeError ''ASTArrayAssign: Ranged multi-dimensional array access not yet supported.'')
             else
               rbind (gen_index (hd gnums1) c) (\<lambda>c.
               rbind (gen_index (hd gnums2) c) (\<lambda>c.
               Ok (expr, emit [opb OP_WRARRR] c)))
         | _ \<Rightarrow> Ok (expr, c)))"

fun make_arr_op :: "SymbolType \<Rightarrow> OpCode option" where
  "make_arr_op ST_REAL_ARRAY = Some OP_MAKEREALARR"
| "make_arr_op ST_INT_ARRAY = Some OP_MAKEINTARR"
| "make_arr_op ST_CPLX_ARRAY = Some OP_MAKECPLXARR"
| "make_arr_op ST_QUAT_ARRAY = Some OP_MAKEQUATARR"
| "make_arr_op _ = None"

definition gen_elem :: "symbol \<Rightarrow> cgm \<Rightarrow> cgm" where
  "gen_elem arr_elem_ty g c =
     rbind (g c) (\<lambda>(sy, c). rbind (CastTo (Some arr_elem_ty) None False c) (\<lambda>c. Ok (sy, c)))"

definition visit_ExprList :: "cgm list \<Rightarrow> SymbolType \<Rightarrow> cgm" where
  "visit_ExprList gelems arr_sym_ty c =
     (if \<not> ast_is_array arr_sym_ty then gen_seq gelems None c
      else
        (case (case GetArrayTypeConst arr_sym_ty of Some p \<Rightarrow> p | None \<Rightarrow> (m_real_array_const, m_real_const)) of
           (arr_ty, arr_elem_ty) \<Rightarrow>
             rbind (gen_seq (map (gen_elem arr_elem_ty) gelems) None c) (\<lambda>(_, c).
             let num_elems = length gelems; c = emit (push_addr VM_ADDR_MEM (int num_elems)) c in
             case make_arr_op arr_sym_ty of
               None \<Rightarrow> Throw (RuntimeError ''ASTExprList: Invalid array type.'')
             | Some op \<Rightarrow> Ok (Some (arr_ty\<lparr>sy_dims := [num_elems]\<rparr>), emit [opb op] c))))"

section \<open>Functions (func.cpp)\<close>

text \<open>The arguments of a function lie above the saved base pointer and return address.\<close>

primrec place_args :: "t_str \<Rightarrow> argname list \<Rightarrow> nat \<Rightarrow> int \<Rightarrow> cg \<Rightarrow> cg result" where
  "place_args funcname [] idx frame_addr c = Ok c"
| "place_args funcname (arg # args) idx frame_addr c =
     (case arg of (argname, argtype, dims) \<Rightarrow>
        rbind (GetSym argname False None c) (\<lambda>sy.
        let err = (\<lambda>what msg. Throw (RuntimeError
              (''ASTFunc: Function '' @ quoted funcname @ what @ quoted argname @ msg))) in
        if sy_addr sy \<noteq> None then err '' argument '' '' already declared.''
        else if \<not> is_arg sy then err '' variable '' '' is not an argument.''
        else if sy_ty sy \<noteq> argtype then err '' argument '' '' type mismatch.''
        else if argidx sy \<noteq> idx then err '' argument '' '' index mismatch.''
        else
          rbind (GetSymSize sy) (\<lambda>n.
          place_args funcname args (idx + 1) (wrap32 (frame_addr + n))
            (c\<lparr>cg_syms := upd_sym (scoped_name sy) (\<lambda>s. s\<lparr>sy_addr := Some frame_addr\<rparr>) (cg_syms c)\<rparr>))))"

definition patch_all :: "nat \<Rightarrow> nat list \<Rightarrow> cg \<Rightarrow> cg" where
  "patch_all target poss c = fold (\<lambda>pos. patch pos (skip_bytes (int target) pos)) poss c"

text \<open>The end of a function: return values, \<open>RET\<close>, and the jumps to where they begin and end.\<close>

definition end_func :: "symbol \<Rightarrow> nat \<Rightarrow> argname list \<Rightarrow> nat \<Rightarrow> cg \<Rightarrow> cg result" where
  "end_func func num_args retnames safety_jmp_pos c =
     (let pushret_pos = tellp c in
      rbind (gen_seq (map (\<lambda>(retname, _). PushVar retname) retnames) None c) (\<lambda>(_, c).
      let ret_pos = tellp c in
      rbind (GetStackFrameSize (Some func) c) (\<lambda>framesize.
      let c = emit (push_int (word_of_int framesize) @ push_int (word_of_int (int num_args)) @ [opb OP_RET]) c;
          end_pos = tellp c;
          c = c\<lparr>cg_syms := upd_sym (scoped_name func) (\<lambda>s. s\<lparr>end_addr := Some (int end_pos)\<rparr>) (cg_syms c)\<rparr>;
          c = patch_all pushret_pos (cg_pushret_comefroms c) c;
          c = patch_all ret_pos (cg_endfunc_comefroms c) (c\<lparr>cg_pushret_comefroms := []\<rparr>);
          c = patch_all end_pos [safety_jmp_pos] (c\<lparr>cg_endfunc_comefroms := []\<rparr>)
      in Ok (c\<lparr>cg_cur_loop := [], cg_curscope := butlast (cg_curscope c)\<rparr>))))"

definition visit_Func :: "t_str \<Rightarrow> argname list \<Rightarrow> cgm \<Rightarrow> argname list \<Rightarrow> cgm" where
  "visit_Func funcname argnames gstmts retnames c =
     (let c = emit [opb OP_PUSH, tyb VM_ADDR_IP] (c\<lparr>cg_curscope := cg_curscope c @ [funcname]\<rparr>);
          safety_jmp_pos = tellp c;
          c = emit (enc_addr 0 @ [opb OP_JMP]) c
      in
      rbind (place_args funcname argnames 0 (2 * vm_type_size VM_ADDR_IP True) c) (\<lambda>c.
      rbind (GetSym funcname False None c) (\<lambda>func.
      let c = c\<lparr>cg_syms := upd_sym (scoped_name func) (\<lambda>s. s\<lparr>sy_addr := Some (int (tellp c))\<rparr>) (cg_syms c)\<rparr> in
      rbind (gstmts c) (\<lambda>(_, c).
      rbind (end_func func (length argnames) retnames safety_jmp_pos c) (\<lambda>c. Ok (None, c))))))"

text \<open>Arguments are generated last to first. The frame size and the address are pushed for \<open>CALL\<close>.\<close>

definition visit_Call :: "t_str \<Rightarrow> cgm list \<Rightarrow> cgm" where
  "visit_Call funcname gargs c =
     rbind (GetSym funcname False (Some ST_FUNC) c) (\<lambda>func.
     if length gargs \<noteq> length (argty func)
     then Throw (RuntimeError (''ASTCall: Invalid number of function arguments for '' @ quoted funcname @
       '': expected '' @ show_nat (length (argty func)) @ '', got '' @ show_nat (length gargs) @ ''.''))
     else
       rbind (gen_seq (rev gargs) None c) (\<lambda>(_, c).
       if is_external func then rbind (cg_CallExternal funcname c) (\<lambda>c. Ok (Some func, c))
       else
         rbind (GetStackFrameSize (Some func) c) (\<lambda>framesize.
         let c = emit (push_int (word_of_int framesize) @ [opb OP_PUSH, tyb VM_ADDR_IP]) c;
             addr_pos = tellp c
         in Ok (Some func,
              (emit (skip_bytes 0 addr_pos @ [opb OP_CALL]) c)\<lparr>cg_func_comefroms :=
                cg_func_comefroms c @ [(funcname, addr_pos, int (length (argty func)))]\<rparr>))))"

definition visit_Return :: "cgm list option \<Rightarrow> bool \<Rightarrow> cgm" where
  "visit_Return grets only_jump c =
     (if cg_curscope c = [] then Throw (RuntimeError ''ASTReturn: Not in a function.'')
      else if only_jump then
        (if grets \<noteq> None
         then Throw (RuntimeError (''ASTReturn: Given return values are not handled here,'' @
           '' but automatically pushed at the end of the function.''))
         else let c = emit [opb OP_PUSH, tyb VM_ADDR_IP] c in
           Ok (None, (emit (enc_addr 0 @ [opb OP_JMP]) c)\<lparr>cg_pushret_comefroms :=
             cg_pushret_comefroms c @ [tellp c]\<rparr>))
      else
        (case grets of
           None \<Rightarrow> Undefined UB_Null
         | Some gs \<Rightarrow>
             rbind (gen_seq gs None c) (\<lambda>(sym_ret, c).
             let c = emit [opb OP_PUSH, tyb VM_ADDR_IP] c in
             Ok (sym_ret, (emit (enc_addr 0 @ [opb OP_JMP]) c)\<lparr>cg_endfunc_comefroms :=
               cg_endfunc_comefroms c @ [tellp c]\<rparr>))))"

definition visit_Stmts :: "cgm list \<Rightarrow> cgm" where
  "visit_Stmts gs c = rbind (gen_seq gs None c) (\<lambda>(_, c). Ok (None, c))"

section \<open>Conditionals, loops and jumps (loops.cpp)\<close>

text \<open>A jump whose distance is patched in later; also gives the position of the distance.\<close>

definition emit_jump :: "OpCode \<Rightarrow> cg \<Rightarrow> nat \<times> cg" where
  "emit_jump op c =
     (let c = emit [opb OP_PUSH, tyb VM_ADDR_IP] c in (tellp c, emit (enc_addr 0 @ [opb op]) c))"

definition visit_Cond :: "cgm \<Rightarrow> cgm \<Rightarrow> cgm option \<Rightarrow> cgm" where
  "visit_Cond gcond gif gelse c =
     rbind (gcond c) (\<lambda>(_, c).
     let (skip_addr, c) = emit_jump OP_JMPCND (emit [opb OP_NOT] c); before_if = tellp c in
     rbind (gif c) (\<lambda>(_, c).
     case gelse of
       None \<Rightarrow> Ok (None, patch skip_addr (enc_addr (int (tellp c) - int before_if)) c)
     | Some g \<Rightarrow>
         let (skip_else_addr, c) = emit_jump OP_JMP c;
             c = patch skip_addr (enc_addr (int (tellp c) - int before_if)) c;
             before_else = tellp c
         in rbind (g c) (\<lambda>(_, c).
            Ok (None, patch skip_else_addr (enc_addr (int (tellp c) - int before_else)) c))))"

text \<open>One case: the selected expression is generated again for each of them.\<close>

definition gen_case :: "cgm \<Rightarrow> cgm \<Rightarrow> cgm \<Rightarrow> cg \<Rightarrow> ((nat \<times> nat) \<times> cg) result" where
  "gen_case gexpr gcond gstmts c =
     rbind (gexpr c) (\<lambda>(_, c).
     rbind (gcond c) (\<lambda>(_, c).
     let (skip_case_addr, c) = emit_jump OP_JMPCND (emit [opb OP_EQU, opb OP_NOT] c);
         before_case = tellp c
     in rbind (gstmts c) (\<lambda>(_, c).
        let (skip_after_addr, c) = emit_jump OP_JMP c
        in Ok ((skip_after_addr, tellp c),
             patch skip_case_addr (enc_addr (int (tellp c) - int before_case)) c))))"

primrec gen_cases :: "cgm \<Rightarrow> (cgm \<times> cgm) list \<Rightarrow> (nat \<times> nat) list \<Rightarrow> cg \<Rightarrow> ((nat \<times> nat) list \<times> cg) result" where
  "gen_cases gexpr [] jump_addrs c = Ok (jump_addrs, c)"
| "gen_cases gexpr (g # gs) jump_addrs c =
     rbind (gen_case gexpr (fst g) (snd g) c) (\<lambda>(j, c). gen_cases gexpr gs (jump_addrs @ [j]) c)"

definition visit_Cases :: "cgm \<Rightarrow> (cgm \<times> cgm) list \<Rightarrow> cgm option \<Rightarrow> cgm" where
  "visit_Cases gexpr cases gdefault c =
     rbind (gen_cases gexpr cases [] c) (\<lambda>(jump_addrs, c).
     rbind (gen_opt gdefault c) (\<lambda>(_, c).
     Ok (None, fold (\<lambda>(label_addr, jump_addr).
       patch label_addr (enc_addr (int (tellp c) - int jump_addr))) jump_addrs c)))"

definition enter_loop :: "cg \<Rightarrow> nat \<times> cg" where
  "enter_loop c =
     (let loop_ident = cg_loop_ident c + 1 in
      (loop_ident, c\<lparr>cg_loop_ident := loop_ident, cg_cur_loop := cg_cur_loop c @ [loop_ident]\<rparr>))"

text \<open>The jumps of a loop that were left open, by the loop they belong to.\<close>

definition comefroms :: "nat \<Rightarrow> (nat \<times> nat) list \<Rightarrow> nat list" where
  "comefroms loop_ident cs = map snd (filter (\<lambda>(i, _). i = loop_ident) cs)"

definition drop_comefroms :: "nat \<Rightarrow> (nat \<times> nat) list \<Rightarrow> (nat \<times> nat) list" where
  "drop_comefroms loop_ident cs = filter (\<lambda>(i, _). i \<noteq> loop_ident) cs"

text \<open>The end of a loop: jump back, patch the exit, the continues and the breaks.\<close>

definition finish_loop :: "nat \<Rightarrow> nat \<Rightarrow> nat \<Rightarrow> nat \<Rightarrow> cgm" where
  "finish_loop loop_ident loop_begin skip_addr before_block c =
     (let c = emit [opb OP_PUSH, tyb VM_ADDR_IP] c;
          c = emit (skip_bytes (int loop_begin) (tellp c) @ [opb OP_JMP]) c;
          after_block = tellp c;
          c = patch skip_addr (enc_addr (int after_block - int before_block)) c;
          c = patch_all loop_begin (comefroms loop_ident (cg_loop_begin_comefroms c)) c;
          c = patch_all after_block (comefroms loop_ident (cg_loop_end_comefroms c)) c;
          c = c\<lparr>cg_loop_begin_comefroms := drop_comefroms loop_ident (cg_loop_begin_comefroms c),
                cg_loop_end_comefroms := drop_comefroms loop_ident (cg_loop_end_comefroms c)\<rparr>
      in if cg_cur_loop c = [] then Undefined (UB_Index (-1))
         else Ok (None, c\<lparr>cg_cur_loop := butlast (cg_cur_loop c)\<rparr>))"

definition visit_Loop :: "cgm \<Rightarrow> cgm \<Rightarrow> cgm" where
  "visit_Loop gcond gstmt c =
     (let (loop_ident, c) = enter_loop c; loop_begin = tellp c in
      rbind (gcond c) (\<lambda>(_, c).
      let (skip_addr, c) = emit_jump OP_JMPCND (emit [opb OP_NOT] c); before_block = tellp c in
      rbind (gstmt c) (\<lambda>(_, c). finish_loop loop_ident loop_begin skip_addr before_block c)))"

definition visit_RangedLoop :: "t_str \<Rightarrow> cgm \<Rightarrow> cgm \<Rightarrow> cgm option \<Rightarrow> cgm \<Rightarrow> cgm" where
  "visit_RangedLoop ctrvar gbegin gend ginc gstmt c =
     rbind (gbegin c) (\<lambda>(_, c).
     rbind (GetSym ctrvar False None c) (\<lambda>ctr_sym.
     case sy_addr ctr_sym of
       None \<Rightarrow> Throw (RuntimeError
         (''ASTRangedLoop: Counter variable '' @ quoted ctrvar @ '' has not been declared.''))
     | Some addr \<Rightarrow>
         rbind (CastTo (Some ctr_sym) None True c) (\<lambda>c.
         rbind (AssignVar ctr_sym c) (\<lambda>c.
         let (loop_ident, c) = enter_loop c; loop_begin = tellp c;
             push_ctr = push_addr (base_reg ctr_sym) addr @ [opb OP_RDMEM]
         in
         rbind (gend (emit push_ctr c)) (\<lambda>(_, c).
         let (skip_addr, c) = emit_jump OP_JMPCND (emit [opb OP_LEQU, opb OP_NOT] c);
             before_block = tellp c
         in
         rbind (gstmt c) (\<lambda>(_, c).
         rbind (case ginc of Some g \<Rightarrow> rbind (g c) (\<lambda>(_, c). Ok c) | None \<Rightarrow> Ok (PushIntConst 1 c)) (\<lambda>c.
         rbind (AssignVar ctr_sym (emit (push_ctr @ [opb OP_ADD]) c)) (\<lambda>c.
         finish_loop loop_ident loop_begin skip_addr before_block c))))))))"

text \<open>The loop a break or a continue leaves, its depth limited to the loops there are.\<close>

definition target_loop :: "nat list \<Rightarrow> t_int \<Rightarrow> nat" where
  "target_loop cur_loop num_loops =
     (let n = length cur_loop;
          loop_depth = (if sint num_loops < 0 \<or> sint num_loops \<ge> int n then n - 1 else nat (sint num_loops))
      in cur_loop ! (n - loop_depth - 1))"

definition visit_LoopBreak :: "t_int \<Rightarrow> cgm" where
  "visit_LoopBreak num_loops c =
     (if cg_cur_loop c = [] then Throw (RuntimeError ''ASTLoopBreak: Not in a loop.'')
      else case emit_jump OP_JMP c of (pos, c) \<Rightarrow>
        Ok (None, c\<lparr>cg_loop_end_comefroms :=
          cg_loop_end_comefroms c @ [(target_loop (cg_cur_loop c) num_loops, pos)]\<rparr>))"

definition visit_LoopNext :: "t_int \<Rightarrow> cgm" where
  "visit_LoopNext num_loops c =
     (if cg_cur_loop c = [] then Throw (RuntimeError ''ASTLoopNext: Not in a loop.'')
      else case emit_jump OP_JMP c of (pos, c) \<Rightarrow>
        Ok (None, c\<lparr>cg_loop_begin_comefroms :=
          cg_loop_begin_comefroms c @ [(target_loop (cg_cur_loop c) num_loops, pos)]\<rparr>))"

text \<open>A label that is already known keeps its first address.\<close>

definition visit_Label :: "t_str \<Rightarrow> cgm" where
  "visit_Label ident c =
     Ok (None, if map_of (cg_labels c) ident = None
       then c\<lparr>cg_labels := cg_labels c @ [(ident, tellp c)]\<rparr> else c)"

definition visit_Jump :: "t_str \<Rightarrow> bool \<Rightarrow> cgm" where
  "visit_Jump label is_comefrom c =
     (if is_comefrom then Throw (RuntimeError ''Comefrom is not (yet) implemented...'')
      else case emit_jump OP_JMP c of (pos, c) \<Rightarrow>
        Ok (None, c\<lparr>cg_goto_comefroms := cg_goto_comefroms c @ [(label, pos)]\<rparr>))"

section \<open>The generator\<close>

text \<open>The expressions of an index.\<close>

fun index_asts :: "ast \<Rightarrow> ast list" where
  "index_asts (ASTExprList es _) = es"
| "index_asts num = [num]"

lemma size_index_asts: "x \<in> set (index_asts num) \<Longrightarrow> size x \<le> size num"
proof (cases num)
  case (ASTExprList es ty)
  assume "x \<in> set (index_asts num)"
  then have "size x \<le> size_list size es" using ASTExprList by (simp add: size_list_estimation')
  then show ?thesis using ASTExprList by simp
qed auto

function gen :: "ast \<Rightarrow> cgm" where
  "gen (ASTUMinus term) = visit_UMinus (gen term)"
| "gen (ASTPlus term1 term2 inverted) = visit_Plus (gen term1) (gen term2) inverted"
| "gen (ASTMult term1 term2 inverted) = visit_Mult (gen term1) (gen term2) inverted"
| "gen (ASTMod term1 term2) = visit_Mod (gen term1) (gen term2)"
| "gen (ASTPow term1 term2) = visit_Pow (gen term1) (gen term2)"
| "gen (ASTNorm term) = visit_Norm (gen term)"
| "gen (ASTVar ident) = PushVar ident"
| "gen (ASTLabel ident) = visit_Label ident"
| "gen (ASTJump label is_comefrom) = visit_Jump label is_comefrom"
| "gen (ASTStmts stmts) = visit_Stmts (map gen stmts)"
| "gen (ASTVarDecl vars optAssign intent_in intent_out) =
     visit_VarDecl vars (map_option gen optAssign) intent_in intent_out"
| "gen (ASTFunc ident args stmts rets) = visit_Func ident args (visit_Stmts (map gen stmts)) rets"
| "gen (ASTReturn rets only_jump) = visit_Return (map_option (map gen) rets) only_jump"
| "gen (ASTExprList exprs arr_ty) = visit_ExprList (map gen exprs) arr_ty"
| "gen (ASTCall ident args) = visit_Call ident (map gen args)"
| "gen (ASTAssign idents expr) = visit_Assign idents (map_option gen expr)"
| "gen (ASTVarRange ident b e inc) = (\<lambda>c. Ok (None, c))"
| "gen (ASTComp term1 term2 op) = visit_Comp (gen term1) (gen term2) op"
| "gen (ASTBool term1 term2 op) = visit_Bool (gen term1) (map_option gen term2) op"
| "gen (ASTCond cond if_stmt else_stmt) = visit_Cond (gen cond) (gen if_stmt) (map_option gen else_stmt)"
| "gen (ASTCases expr cases default_stmts) =
     visit_Cases (gen expr) (map (\<lambda>(cond, stmts). (gen cond, gen stmts)) cases) (map_option gen default_stmts)"
| "gen (ASTLoop cond stmt) = visit_Loop (gen cond) (gen stmt)"
| "gen (ASTRangedLoop ident b e inc stmt) =
     visit_RangedLoop ident (gen b) (gen e) (map_option gen inc) (gen stmt)"
| "gen (ASTLoopBreak num_loops) = visit_LoopBreak num_loops"
| "gen (ASTLoopNext num_loops) = visit_LoopNext num_loops"
| "gen (ASTArrayAccess term num1 num2 ranged12) =
     visit_ArrayAccess (gen term)
       (map_option (\<lambda>num. (is_expr_list num, map gen (index_asts num))) num1)
       (map_option (\<lambda>num. (is_expr_list num, map gen (index_asts num))) num2)
       ranged12"
| "gen (ASTArrayAssign ident expr num1 num2 ranged12) =
     visit_ArrayAssign ident (gen expr)
       (map_option (\<lambda>num. (is_expr_list num, map gen (index_asts num))) num1)
       (map_option (\<lambda>num. (is_expr_list num, map gen (index_asts num))) num2)
       ranged12"
| "gen (ASTNumReal val) = visit_NumConst m_real_const PushRealConst val"
| "gen (ASTNumInt val) = visit_NumConst m_int_const PushIntConst val"
| "gen (ASTNumCplx val) = visit_NumConst m_cplx_const PushCplxConst val"
| "gen (ASTNumQuat val) = visit_NumConst m_quat_const PushQuatConst val"
| "gen (ASTNumBool val) = visit_NumConst m_bool_const PushBoolConst (if val then 1 else 0)"
| "gen (ASTNumConstList vals) = (\<lambda>c. Ok (None, c))"
| "gen (ASTStrConst val) = visit_StrConst val"
| "gen (ASTInternalArgNames args) = (\<lambda>c. Ok (None, c))"
| "gen (ASTInternalMisc recursive intent_in intent_out) = (\<lambda>c. Ok (None, c))"
| "gen ASTNull = (\<lambda>c. Undefined UB_Null)"
  by pat_completeness auto

termination
  by (relation "measure size") (force dest: size_mem size_case size_index_asts)+

section \<open>Start and finish (codegen.cpp)\<close>

text \<open>
  The frame of the global variables is made and removed by an instruction of its own when
  it is not empty. There is no start function: the name of it is empty.
\<close>

definition emit_frame :: "OpCode \<Rightarrow> cg \<Rightarrow> cg result" where
  "emit_frame op c =
     rbind (GetStackFrameSize None c) (\<lambda>n.
     let global_framesize = word_of_int n :: t_int in
     Ok (if sint global_framesize > 0 then emit (push_int global_framesize @ [opb op]) c else c))"

definition cg_Start :: "cg \<Rightarrow> cg result" where
  "cg_Start c = emit_frame OP_ADDFRAME c"

definition patch_consts :: "nat \<Rightarrow> cg \<Rightarrow> cg" where
  "patch_consts consttab_pos c =
     fold (\<lambda>(addr_pos, const_addr). patch addr_pos (enc_addr (const_addr + int consttab_pos)))
       (cg_const_addrs c) c"

primrec patch_funcs :: "(t_str \<times> nat \<times> int) list \<Rightarrow> cg \<Rightarrow> cg result" where
  "patch_funcs [] c = Ok c"
| "patch_funcs (f # fs) c =
     (case f of (func_name, pos, num_args) \<Rightarrow>
        rbind (GetSym func_name False None c) (\<lambda>sy.
        case sy_addr sy of
          None \<Rightarrow> Throw (RuntimeError (''Function address for '' @ quoted func_name @ '' not known.''))
        | Some addr \<Rightarrow>
            if num_args \<noteq> int (length (argty sy))
            then Throw (RuntimeError (''Function '' @ quoted func_name @ '' takes '' @
              show_nat (length (argty sy)) @ '' arguments, but '' @ show_nat (nat num_args) @ '' were given.''))
            else patch_funcs fs (patch pos (skip_bytes addr pos) c)))"

primrec patch_gotos :: "(t_str \<times> nat) list \<Rightarrow> cg \<Rightarrow> cg result" where
  "patch_gotos [] c = Ok c"
| "patch_gotos (j # js) c =
     (case j of (label, goto_pos) \<Rightarrow>
        (case map_of (cg_labels c) label of
           None \<Rightarrow> Throw (RuntimeError (''Label '' @ quoted label @ '' not found.''))
         | Some label_pos \<Rightarrow> patch_gotos js (patch goto_pos (skip_bytes (int label_pos) goto_pos) c)))"

definition cg_Finish :: "cg \<Rightarrow> (nat \<times> cg) result" where
  "cg_Finish c =
     rbind (emit_frame OP_REMFRAME c) (\<lambda>c.
     let c = emit [opb OP_HALT] c;
         consttab_pos = tellp c;
         c = (case GetBytes (cg_consttab c) of (_, Some bs) \<Rightarrow> emit bs c | _ \<Rightarrow> c);
         c = patch_consts consttab_pos c
     in
     rbind (patch_funcs (cg_func_comefroms c) c) (\<lambda>c.
     rbind (patch_gotos (cg_goto_comefroms c) c) (\<lambda>c.
     Ok (tellp c, c\<lparr>cg_goto_comefroms := [], cg_labels := []\<rparr>))))"

text \<open>
  The whole program (codegen/main.cpp): the statements between start and finish. The
  program is the stream of the state that is left.
\<close>

definition compile_program :: "symtab \<Rightarrow> ast list \<Rightarrow> cg result" where
  "compile_program syms stmts =
     rbind (cg_Start (Codegen0 syms)) (\<lambda>c.
     rbind (gen_seq (map gen stmts) None c) (\<lambda>(_, c).
     rbind (cg_Finish c) (\<lambda>(_, c). Ok c)))"

end
