(* ===== verification/CodeRun.thy ===== *)
theory CodeRun
  imports VmLoopFacts CgState
begin

text \<open>
  Runs of the machine through a piece of code. The stack lives in an arena of memory between
  the code and the variables; an instance of the operand stack contract shows that the
  operators change nothing outside of it. \<open>runs\<close> is the effect of a piece of code on the
  values on the stack; pieces compose.
\<close>

section \<open>Several iterations of the loop\<close>

definition steps :: "env \<Rightarrow> vm \<Rightarrow> vm \<Rightarrow> bool" where
  "steps e s s' \<longleftrightarrow> (\<exists>n. run e n s = Ok (Running, s'))"

lemma run_add: "run e n s = Ok (Running, t) \<Longrightarrow> run e (n + k) s = run e k t"
proof (induction n arbitrary: s)
  case (Suc n)
  then obtain u where "step e s = Ok (Running, u)" "run e n u = Ok (Running, t)"
    by (auto simp: rbind_eq_Ok split: if_splits prod.splits)
  then show ?case using Suc.IH by simp
qed simp

lemma steps_refl [simp]: "steps e s s"
  unfolding steps_def by (rule exI [of _ 0]) simp

lemma steps_trans [trans]: "steps e s t \<Longrightarrow> steps e t u \<Longrightarrow> steps e s u"
  unfolding steps_def using run_add by metis

lemma steps_step: "step e s = Ok (Running, t) \<Longrightarrow> steps e s t"
  unfolding steps_def by (rule exI [of _ 1]) simp

lemma steps_halt:
  assumes "steps e s t" "step e t = Ok (Halted, u)"
  shows "\<exists>n. run e n s = Ok (Halted, u)"
proof -
  obtain n where "run e n s = Ok (Running, t)" using assms(1) by (auto simp: steps_def)
  then have "run e (n + 1) s = Ok (Halted, u)" using run_add [of e n s t 1] assms(2) by simp
  then show ?thesis ..
qed

section \<open>The arena of the stack\<close>

definition dsize :: "t_data list \<Rightarrow> nat" where
  "dsize ds = length (enc_stack (map cell_of ds))"

lemma dsize_simps [simp]: "dsize [] = 0" "dsize (d # ds) = data_bytes d + dsize ds"
  by (simp_all add: dsize_def data_bytes_def)

definition stk_in :: "int \<Rightarrow> vm \<Rightarrow> t_data list \<Rightarrow> bool" where
  "stk_in L s ds \<longleftrightarrow> stack_of s ds \<and> m_sp s + int (dsize ds) = L"

definition room_in :: "int \<Rightarrow> vm \<Rightarrow> nat \<Rightarrow> bool" where
  "room_in B s n \<longleftrightarrow> 0 \<le> B \<and> B + int n \<le> m_sp s"

text \<open>Everything but the stack: the registers, the configuration and the memory around it.\<close>

definition outside :: "int \<Rightarrow> int \<Rightarrow> vm \<Rightarrow> vm \<times> (int \<Rightarrow> byte)" where
  "outside B L s = (ctl s, \<lambda>x. if B \<le> x \<and> x < L then 0 else m_mem s x)"

lemma room_in_stack_room: "room_in B s n \<Longrightarrow> stack_room s n"
  by (simp add: room_in_def stack_room_def)

lemma outside_push:
  "B + int (length bs) \<le> m_sp s \<Longrightarrow> m_sp s \<le> L \<Longrightarrow> outside B L (push_state bs s) = outside B L s"
  by (auto simp: outside_def fun_eq_iff push_state_mem)

lemma outside_pop:
  "B \<le> m_sp s \<Longrightarrow> m_sp s + int n \<le> L \<Longrightarrow> outside B L (pop_state n s) = outside B L s"
  by (auto simp: outside_def fun_eq_iff pop_state_mem)

interpretation ar: operand_stack "stk_in L" "room_in B" "outside B L" for B L
proof unfold_locales
  fix s d ds n
  assume a: "stk_in L s ds" "plain d" "room_in B s n" "data_bytes d \<le> n"
  have st: "cells_on s (map cell_of ds)" "stack_room s (data_bytes d)"
    using a by (auto simp: stk_in_def stack_of_def room_in_def stack_room_def)
  let ?s = "push_state (enc_cell (cell_of d)) s"
  have "push_data d s = Ok ?s"
    using push_data_ok [OF a(2), of s] cells_on_room [OF st] by (simp add: data_bytes_def)
  moreover have "stk_in L ?s (d # ds)"
    using a cells_on_push [OF st(1), of "cell_of d"] st(2)
    by (simp add: stk_in_def stack_of_def data_bytes_def)
  moreover have "room_in B ?s (n - data_bytes d)" "outside B L ?s = outside B L s"
    using a by (auto simp: room_in_def data_bytes_def stk_in_def intro!: outside_push)
  ultimately show "\<exists>s'. push_data d s = Ok s' \<and> stk_in L s' (d # ds) \<and> room_in B s' (n - data_bytes d) \<and>
      outside B L s' = outside B L s" by blast
next
  fix s d ds n
  assume a: "stk_in L s (d # ds)" "room_in B s n"
  then have st: "cells_on s (cell_of d # map cell_of ds)" by (simp add: stk_in_def stack_of_def)
  let ?s = "pop_state (data_bytes d) s"
  have "PopData s = Ok (d, ?s)" using cells_on_pop(1) [OF st] by (simp add: data_bytes_def)
  moreover have "stk_in L ?s ds"
    using a cells_on_pop(2) [OF st] by (simp add: stk_in_def stack_of_def data_bytes_def)
  moreover have "room_in B ?s (n + data_bytes d)" "outside B L ?s = outside B L s"
    using a by (auto simp: room_in_def stk_in_def intro!: outside_pop)
  ultimately show "\<exists>s'. PopData s = Ok (d, s') \<and> stk_in L s' ds \<and> room_in B s' (n + data_bytes d) \<and>
      outside B L s' = outside B L s" by blast
next
  fix s d ds
  assume "stk_in L s (d # ds)"
  then show "TopData s = Ok d" by (auto simp: stk_in_def dest: stack_of_top)
next
  fix s ds d
  assume "stk_in L s ds" "d \<in> set ds"
  then show "plain d" by (auto simp: stk_in_def dest: stack_of_plain)
next
  fix s s' :: vm
  assume "outside B L s' = outside B L s"
  then have "ctl s' = ctl s" by (simp add: outside_def)
  then show "m_eps s' = m_eps s" by (metis ctl_fields(1))
qed

lemma outsideD:
  assumes "outside B L s' = outside B L (s\<lparr>m_ip := a\<rparr>)"
  shows "m_ip s' = a" "m_bp s' = m_bp s" "m_gbp s' = m_gbp s" "m_memsize s' = m_memsize s"
    "m_code_range s' = m_code_range s" "m_irqs s' = m_irqs s" "m_checks s' = m_checks s"
    "m_eps s' = m_eps s" "m_prec s' = m_prec s" "m_zeropoppedvals s' = m_zeropoppedvals s"
    "x < B \<or> L \<le> x \<Longrightarrow> m_mem s' x = m_mem s x"
proof -
  have c: "ctl s' = ctl (s\<lparr>m_ip := a\<rparr>)" using assms by (simp add: outside_def)
  note f = arg_cong [OF c]
  show "m_ip s' = a" "m_bp s' = m_bp s" "m_gbp s' = m_gbp s" "m_memsize s' = m_memsize s"
    "m_code_range s' = m_code_range s" "m_irqs s' = m_irqs s" "m_checks s' = m_checks s"
    "m_eps s' = m_eps s" "m_prec s' = m_prec s" "m_zeropoppedvals s' = m_zeropoppedvals s"
    using f [of m_ip] f [of m_bp] f [of m_gbp] f [of m_memsize] f [of m_code_range] f [of m_irqs]
      f [of m_checks] f [of m_eps] f [of m_prec] f [of m_zeropoppedvals] by simp_all
  have "snd (outside B L s') x = snd (outside B L s) x"
    using assms by (simp add: outside_def)
  then show "x < B \<or> L \<le> x \<Longrightarrow> m_mem s' x = m_mem s x" by (auto simp: outside_def)
qed

lemma ctl_ip: "ctl (s\<lparr>m_ip := a\<rparr>) = (ctl s)\<lparr>m_ip := a\<rparr>"
  by (simp add: ctl_def)

lemma outside_ip:
  "outside B L s' = outside B L s \<Longrightarrow> outside B L (s'\<lparr>m_ip := a\<rparr>) = outside B L (s\<lparr>m_ip := a\<rparr>)"
  by (simp add: outside_def ctl_ip cong: if_cong)

section \<open>Pieces of code\<close>

text \<open>
  The machine has no pending interrupts, its pointers are valid, and the arena lies between
  the code and the end of the memory; a piece of code lies below the arena and, when a code
  range is known, in it.
\<close>

definition arena :: "int \<Rightarrow> int \<Rightarrow> vm \<Rightarrow> bool" where
  "arena B L s \<longleftrightarrow> quiet s \<and> 0 \<le> B \<and> L + 8 \<le> m_memsize s \<and> m_memsize s < 2 ^ 31 \<and>
     B \<le> m_bp s \<and> m_bp s \<le> m_memsize s \<and> B \<le> m_gbp s \<and> m_gbp s \<le> m_memsize s \<and>
     snd (m_code_range s) \<le> B"

definition code_in :: "int \<Rightarrow> vm \<Rightarrow> int \<Rightarrow> byte list \<Rightarrow> bool" where
  "code_in B s pc code \<longleftrightarrow> bytes_at s pc code \<and> pc + int (length code) \<le> B \<and>
     (0 \<le> fst (m_code_range s) \<and> 0 \<le> snd (m_code_range s) \<longrightarrow>
        fst (m_code_range s) \<le> pc \<and> pc + int (length code) \<le> snd (m_code_range s))"

definition ready :: "int \<Rightarrow> int \<Rightarrow> vm \<Rightarrow> byte list \<Rightarrow> t_data list \<Rightarrow> bool" where
  "ready B L s code ds \<longleftrightarrow>
     arena B L s \<and> code_in B s (m_ip s) code \<and> stk_in L s ds \<and> B + int (dsize ds) \<le> L"

definition runs :: "env \<Rightarrow> int \<Rightarrow> int \<Rightarrow> vm \<Rightarrow> byte list \<Rightarrow> vm \<Rightarrow> t_data list \<Rightarrow> bool" where
  "runs e B L s code s' ds' \<longleftrightarrow> steps e s s' \<and> stk_in L s' ds' \<and>
     outside B L s' = outside B L (s\<lparr>m_ip := m_ip s + int (length code)\<rparr>)"

lemma code_in_append:
  "code_in B s pc (xs @ ys) \<longleftrightarrow> code_in B s pc xs \<and> code_in B s (pc + int (length xs)) ys"
  by (auto simp: code_in_def bytes_at_append)

lemma code_in_bound: "code_in B s pc code \<Longrightarrow> 0 \<le> pc \<and> pc + int (length code) \<le> B"
  by (auto simp: code_in_def bytes_at_def in_mem_def)

lemma arena_outside:
  assumes "outside B L s' = outside B L (s\<lparr>m_ip := a\<rparr>)" "arena B L s"
  shows "arena B L s'"
  using assms(2) by (simp add: arena_def quiet_def outsideD [OF assms(1)])

lemma code_in_outside:
  assumes "outside B L s' = outside B L (s\<lparr>m_ip := a\<rparr>)" "code_in B s pc code"
  shows "code_in B s' pc code"
  using assms(2) outsideD [OF assms(1)] by (auto simp: code_in_def elim!: bytes_at_cong)

lemma ready_after:
  assumes "ready B L s (xs @ ys) ds" "runs e B L s xs s' ds'" "B + int (dsize ds') \<le> L"
  shows "ready B L s' ys ds'"
proof -
  have o: "outside B L s' = outside B L (s\<lparr>m_ip := m_ip s + int (length xs)\<rparr>)"
    using assms(2) by (simp add: runs_def)
  show ?thesis
    using assms arena_outside [OF o] code_in_outside [OF o] outsideD(1) [OF o]
    by (simp add: ready_def runs_def code_in_append)
qed

lemma ready_first: "ready B L s (xs @ ys) ds \<Longrightarrow> ready B L s xs ds"
  by (simp add: ready_def code_in_append)

lemma runs_trans:
  assumes "runs e B L s xs s' ds'" "runs e B L s' ys s'' ds''"
  shows "runs e B L s (xs @ ys) s'' ds''"
proof -
  have o: "outside B L s' = outside B L (s\<lparr>m_ip := m_ip s + int (length xs)\<rparr>)"
    using assms(1) by (simp add: runs_def)
  have "outside B L (s'\<lparr>m_ip := m_ip s' + int (length ys)\<rparr>)
      = outside B L (s\<lparr>m_ip := m_ip s + int (length (xs @ ys))\<rparr>)"
    using outside_ip [OF o, of "m_ip s' + int (length ys)"] by (simp add: outsideD(1) [OF o] add.assoc)
  then show ?thesis using assms by (auto simp: runs_def intro: steps_trans)
qed

text \<open>Two pieces one after the other.\<close>

lemma runs_seq:
  assumes "ready B L s (xs @ ys) ds" "\<exists>s'. runs e B L s xs s' ds'" "B + int (dsize ds') \<le> L"
    and "\<And>s'. runs e B L s xs s' ds' \<Longrightarrow> ready B L s' ys ds' \<Longrightarrow> \<exists>s''. runs e B L s' ys s'' ds''"
  shows "\<exists>s''. runs e B L s (xs @ ys) s'' ds''"
  using assms ready_after runs_trans by meson

lemma runs_nil: "ready B L s [] ds \<Longrightarrow> runs e B L s [] s ds"
  by (simp add: ready_def runs_def)

section \<open>One instruction\<close>

lemma step_code:
  assumes "arena B L s" "B \<le> m_sp s" "m_sp s \<le> L" "code_in B s (m_ip s) [opb op]" "op \<in> set opcodes"
    and "exec e op (s\<lparr>m_ip := m_ip s + 1\<rparr>) = Ok (Running, s')" "m_ip s' \<le> B" "m_memsize s' = m_memsize s"
  shows "step e s = Ok (Running, s')"
proof (rule step_quiet [OF _ _ _ assms(5,6)])
  have b: "bytes_at s (m_ip s) [opb op]" "m_ip s + 1 \<le> B" using assms(4) by (auto simp: code_in_def)
  show "CheckPointerBounds s = Ok ()"
    using assms(1-4) bytes_at_range [OF b(1)] b(2)
    by (auto simp: CheckPointerBounds_def Let_def arena_def code_in_def)
  show "quiet s" "m_ip s' < m_memsize s'" using assms by (auto simp: arena_def)
qed (use assms(4) in \<open>simp add: code_in_def\<close>)

lemma run_op:
  assumes "ready B L s [opb op] ds" "op \<in> set opcodes"
    and ex: "\<And>t. stk_in L t ds \<Longrightarrow> outside B L t = outside B L (s\<lparr>m_ip := m_ip s + 1\<rparr>) \<Longrightarrow>
      room_in B t (nat (L - B - int (dsize ds))) \<Longrightarrow>
      \<exists>s'. exec e op t = Ok (Running, s') \<and> stk_in L s' ds' \<and> outside B L s' = outside B L t"
  shows "\<exists>s'. runs e B L s [opb op] s' ds'"
proof -
  let ?t = "s\<lparr>m_ip := m_ip s + 1\<rparr>"
  have r: "arena B L s" "code_in B s (m_ip s) [opb op]" "stk_in L s ds" "B + int (dsize ds) \<le> L"
    using assms(1) by (simp_all add: ready_def)
  have "stk_in L ?t ds"
    using r(3) by (simp add: stk_in_def stack_of_def cells_on_def holds_def bytes_at_def in_mem_def)
  moreover have "room_in B ?t (nat (L - B - int (dsize ds)))"
    using r by (auto simp: room_in_def stk_in_def arena_def)
  ultimately obtain s' where s': "exec e op ?t = Ok (Running, s')" "stk_in L s' ds'"
      "outside B L s' = outside B L ?t" using ex by blast
  have "step e s = Ok (Running, s')"
  proof (rule step_code [OF r(1) _ _ r(2) assms(2) s'(1)])
    show "B \<le> m_sp s" "m_sp s \<le> L" using r(3,4) by (auto simp: stk_in_def)
    show "m_ip s' \<le> B" "m_memsize s' = m_memsize s"
      using outsideD [OF s'(3)] code_in_bound [OF r(2)] by auto
  qed
  then have "runs e B L s [opb op] s' ds'" using s' by (simp add: runs_def steps_step)
  then show ?thesis ..
qed

section \<open>Operators, constants and variables\<close>

lemma exec_arith [simp]:
  "exec e OP_ADD s = cont (OpArithmetic e CHR ''+'' s)" "exec e OP_SUB s = cont (OpArithmetic e CHR ''-'' s)"
  "exec e OP_MUL s = cont (OpArithmetic e CHR ''*'' s)" "exec e OP_DIV s = cont (OpArithmetic e CHR ''/'' s)"
  "exec e OP_MOD s = cont (OpArithmetic e CHR ''%'' s)" "exec e OP_POW s = cont (OpArithmetic e CHR ''^'' s)"
  "exec e OP_USUB s = cont (OpUSub e s)" "exec e OP_NOT s = cont (OpNot s)"
  "exec e OP_AND s = cont (OpLogical CHR ''&'' s)" "exec e OP_OR s = cont (OpLogical CHR ''|'' s)"
  "exec e OP_XOR s = cont (OpLogical CHR ''^'' s)" "exec e OP_NOP s = Ok (Running, s)"
  "exec e OP_PUSH s = cont (op_push s)" "exec e OP_RDMEM s = cont (op_rdmem s)"
  "exec e OP_WRMEM s = cont (op_wrmem s)" "exec e OP_JMP s = cont (op_jmp s)"
  "exec e OP_JMPCND s = cont (op_jmpcnd s)" "exec e OP_ADDFRAME s = cont (op_addframe s)"
  "exec e OP_REMFRAME s = cont (op_remframe s)" "exec e OP_HALT s = Ok (Halted, s)"
  by (simp_all add: exec_def)

lemma cont_Ok [simp]: "cont (Ok s) = Ok (Running, s)"
  by (simp add: cont_def)

lemma run_arith:
  assumes rd: "ready B L s [opb op] (d2 # d1 # ds)" and op: "op \<in> set opcodes"
    and ex: "\<And>t. exec e op t = cont (OpArithmetic e ch t)" and r: "arith e ch d1 d2 = Ok r"
    and room: "B + int (data_bytes r + dsize ds) \<le> L"
  shows "\<exists>s'. runs e B L s [opb op] s' (r # ds)"
proof (rule run_op [OF rd op])
  fix t
  assume "stk_in L t (d2 # d1 # ds)" "room_in B t (nat (L - B - int (dsize (d2 # d1 # ds))))"
  from ar.op_arithmetic [OF this r] room rd
  show "\<exists>s'. exec e op t = Ok (Running, s') \<and> stk_in L s' (r # ds) \<and> outside B L s' = outside B L t"
    by (fastforce simp: ex ready_def)
qed

lemma run_usub:
  assumes rd: "ready B L s [opb OP_USUB] (d # ds)" and r: "negate e d = Ok r"
    and room: "B + int (data_bytes r + dsize ds) \<le> L"
  shows "\<exists>s'. runs e B L s [opb OP_USUB] s' (r # ds)"
proof (rule run_op [OF rd])
  fix t
  assume "stk_in L t (d # ds)" "room_in B t (nat (L - B - int (dsize (d # ds))))"
  from ar.op_usub [OF this r] room rd
  show "\<exists>s'. exec e OP_USUB t = Ok (Running, s') \<and> stk_in L s' (r # ds) \<and> outside B L s' = outside B L t"
    by (fastforce simp: ready_def)
qed (simp add: opcodes_def)

lemma run_cmp:
  assumes rd: "ready B L s [opb op] (d2 # d1 # ds)" and op: "op \<in> set opcodes"
    and ex: "\<And>t. exec e op t = cont (OpComparison e op t)" and r: "compare_data e (m_eps s) op d1 d2 = Ok r"
  shows "\<exists>s'. runs e B L s [opb op] s' (BoolD (if r then 1 else 0) # ds)"
proof (rule run_op [OF rd op])
  fix t
  assume t: "stk_in L t (d2 # d1 # ds)" "room_in B t (nat (L - B - int (dsize (d2 # d1 # ds))))"
    and o: "outside B L t = outside B L (s\<lparr>m_ip := m_ip s + 1\<rparr>)"
  show "\<exists>s'. exec e op t = Ok (Running, s') \<and> stk_in L s' (BoolD (if r then 1 else 0) # ds) \<and>
      outside B L s' = outside B L t"
    using ar.op_comparison [OF t, of e op r] r by (fastforce simp: ex outsideD(8) [OF o])
qed

lemma run_logical:
  assumes rd: "ready B L s [opb op] (d2 # d1 # ds)" and op: "op \<in> set opcodes"
    and ex: "\<And>t. exec e op t = cont (OpLogical ch t)" and b: "truth d1 = Some a" "truth d2 = Some b"
  shows "\<exists>s'. runs e B L s [opb op] s' (BoolD (if logical ch a b then 1 else 0) # ds)"
proof (rule run_op [OF rd op])
  fix t
  assume "stk_in L t (d2 # d1 # ds)" "room_in B t (nat (L - B - int (dsize (d2 # d1 # ds))))"
  from ar.op_logical [OF this b, of ch]
  show "\<exists>s'. exec e op t = Ok (Running, s') \<and> stk_in L s' (BoolD (if logical ch a b then 1 else 0) # ds) \<and>
      outside B L s' = outside B L t" by (fastforce simp: ex)
qed

lemma run_not:
  assumes rd: "ready B L s [opb OP_NOT] (d # ds)" and b: "truth d = Some a"
  shows "\<exists>s'. runs e B L s [opb OP_NOT] s' (BoolD (if a then 0 else 1) # ds)"
proof (rule run_op [OF rd])
  fix t
  assume "stk_in L t (d # ds)" "room_in B t (nat (L - B - int (dsize (d # ds))))"
  from ar.op_not [OF this b]
  show "\<exists>s'. exec e OP_NOT t = Ok (Running, s') \<and> stk_in L s' (BoolD (if a then 0 else 1) # ds) \<and>
      outside B L s' = outside B L t" by fastforce
qed (simp add: opcodes_def)

lemma run_nop: "ready B L s [opb OP_NOP] ds \<Longrightarrow> \<exists>s'. runs e B L s [opb OP_NOP] s' ds"
  by (rule run_op) (auto simp: opcodes_def)

lemma run_cast:
  assumes rd: "ready B L s [opb op] (d # ds)" and op: "op \<in> set opcodes"
    and ex: "\<And>t. exec e op t = cont (OpCast e idx t)"
    and r: "cast_data e (m_eps s) (m_prec s) idx d = Ok r" and r': "d' = (case r of None \<Rightarrow> d | Some w \<Rightarrow> w)"
    and room: "B + int (data_bytes d' + dsize ds) \<le> L"
  shows "\<exists>s'. runs e B L s [opb op] s' (d' # ds)"
proof (rule run_op [OF rd op])
  fix t
  assume t: "stk_in L t (d # ds)" "room_in B t (nat (L - B - int (dsize (d # ds))))"
    and o: "outside B L t = outside B L (s\<lparr>m_ip := m_ip s + 1\<rparr>)"
  have r2: "cast_data e (m_eps t) (m_prec t) idx d = Ok r" by (simp add: r outsideD(8,9) [OF o])
  show "\<exists>s'. exec e op t = Ok (Running, s') \<and> stk_in L s' (d' # ds) \<and> outside B L s' = outside B L t"
  proof (cases r)
    case None
    then show ?thesis using ar.op_cast_same [OF t(1), of e idx] r2 r' t(1) by (simp add: ex)
  next
    case (Some w)
    have "data_bytes w \<le> nat (L - B - int (dsize (d # ds))) + data_bytes d"
      using room rd by (auto simp: Some r' ready_def)
    then show ?thesis using ar.op_cast [OF t, of e idx w] r2 r' by (fastforce simp: ex Some)
  qed
qed

text \<open>
  An immediate cell on top of the stack; the state is explicit, for addresses that the next
  instruction consumes.
\<close>

lemma stk_in_iff:
  "stk_in L s ds \<longleftrightarrow> (\<forall>d \<in> set ds. plain d) \<and> cells_on s (map cell_of ds) \<and> m_sp s + int (dsize ds) = L"
  by (auto simp: stk_in_def stack_of_def)

definition pushed :: "cell \<Rightarrow> vm \<Rightarrow> vm" where
  "pushed p s = push_state (enc_cell p) (s\<lparr>m_ip := m_ip s + 1 + int (length (enc_cell p))\<rparr>)"

lemma step_push:
  assumes rd: "ready B L s (opb OP_PUSH # enc_cell p @ rest) ds" and p: "cell_ok p" "GetDataSize (snd p) = Ok n"
    and room: "B + int (length (enc_cell p) + dsize ds) \<le> L"
  shows "step e s = Ok (Running, pushed p s)"
    and "cells_on (pushed p s) (p # map cell_of ds)"
    and "outside B L (pushed p s) = outside B L (s\<lparr>m_ip := m_ip s + 1 + int (length (enc_cell p))\<rparr>)"
    and "code_in B (pushed p s) (m_ip (pushed p s)) rest"
proof -
  have r: "arena B L s" "code_in B s (m_ip s) (opb OP_PUSH # enc_cell p @ rest)" "stk_in L s ds"
    using rd by (simp_all add: ready_def)
  have split: "opb OP_PUSH # enc_cell p @ rest = [opb OP_PUSH] @ enc_cell p @ rest" by simp
  note c = r(2) [unfolded split code_in_append]
  let ?t = "s\<lparr>m_ip := m_ip s + 1\<rparr>"
  have st: "cells_on ?t (map cell_of ds)" "stack_room ?t (length (enc_cell p))"
    "bytes_at ?t (m_ip ?t) (enc_cell p)"
    using r c room
    by (auto simp: stk_in_iff cells_on_def holds_def bytes_at_def in_mem_def stack_room_def arena_def code_in_def)
  note ps = op_push_cell [OF st p]
  show o: "outside B L (pushed p s) = outside B L (s\<lparr>m_ip := m_ip s + 1 + int (length (enc_cell p))\<rparr>)"
    unfolding pushed_def using r room by (intro outside_push) (auto simp: stk_in_iff)
  show "step e s = Ok (Running, pushed p s)"
  proof (rule step_code [OF r(1)])
    show "B \<le> m_sp s" "m_sp s \<le> L" using r(3) rd by (auto simp: stk_in_iff ready_def)
    show "code_in B s (m_ip s) [opb OP_PUSH]" using c by simp
    show "exec e OP_PUSH ?t = Ok (Running, pushed p s)" using ps(1) by (simp add: pushed_def)
    show "m_ip (pushed p s) \<le> B" using code_in_bound [OF r(2)] by (simp add: pushed_def)
  qed (simp_all add: opcodes_def pushed_def)
  show "cells_on (pushed p s) (p # map cell_of ds)" using ps(2) by (simp add: pushed_def)
  show "code_in B (pushed p s) (m_ip (pushed p s)) rest"
    using code_in_outside [OF o, of "m_ip s + 1 + int (length (enc_cell p))" rest] c
    by (simp add: pushed_def add.assoc)
qed

lemma run_push:
  assumes rd: "ready B L s (opb OP_PUSH # enc_cell (cell_of d)) ds" and "plain d" "GetDataSize d = Ok n"
    and room: "B + int (data_bytes d + dsize ds) \<le> L"
  shows "\<exists>s'. runs e B L s (opb OP_PUSH # enc_cell (cell_of d)) s' (d # ds)"
proof -
  have c: "cell_ok (cell_of d)" "GetDataSize (snd (cell_of d)) = Ok n" using assms(2,3) by simp_all
  have "ready B L s (opb OP_PUSH # enc_cell (cell_of d) @ []) ds" using rd by simp
  note st = step_push [OF this c room [unfolded data_bytes_def]]
  have "stk_in L (pushed (cell_of d) s) (d # ds)"
    using st(2) rd assms(2) by (simp add: stk_in_iff ready_def pushed_def data_bytes_def)
  then have "runs e B L s (opb OP_PUSH # enc_cell (cell_of d)) (pushed (cell_of d) s) (d # ds)"
    using st(1,3) by (simp add: runs_def steps_step add.assoc)
  then show ?thesis ..
qed

text \<open>An address that is pushed and consumed by the next instruction.\<close>

lemma push_addr_cell: "push_addr ty a = opb OP_PUSH # enc_cell (addr_cell ty a)"
  by (simp add: push_addr_def addr_cell_def enc_cell_def)

lemma step_addr:
  assumes rd: "ready B L s (push_addr ty a @ opb op # rest) ds" and a: "ty \<in> addr_types" "addr_range a"
    and room: "B + int (5 + dsize ds) \<le> L" and op: "op \<in> set opcodes"
  obtains t where "step e s = Ok (Running, t)" "cells_on t (addr_cell ty a # map cell_of ds)"
    "outside B L t = outside B L (s\<lparr>m_ip := m_ip s + 6\<rparr>)" "m_sp t = m_sp s - 5"
    "code_in B t (m_ip t) [opb op]" "code_in B t (m_ip t + 1) rest"
    "\<And>t'. exec e op (t\<lparr>m_ip := m_ip t + 1\<rparr>) = Ok (Running, t') \<Longrightarrow> m_ip t' \<le> B \<Longrightarrow>
      m_memsize t' = m_memsize t \<Longrightarrow> steps e s t'"
proof -
  let ?p = "addr_cell ty a"
  have rd': "ready B L s (opb OP_PUSH # enc_cell ?p @ (opb op # rest)) ds"
    using rd by (simp add: push_addr_cell)
  have sz: "GetDataSize (snd ?p) = Ok 4" by (simp add: addr_cell_def)
  have "B + int (length (enc_cell ?p) + dsize ds) \<le> L" using room by simp
  note sp = step_push [OF rd' addr_cell_ok [OF a] sz this]
  have st: "step e s = Ok (Running, pushed ?p s)" "cells_on (pushed ?p s) (?p # map cell_of ds)"
    "outside B L (pushed ?p s) = outside B L (s\<lparr>m_ip := m_ip s + 6\<rparr>)"
    "code_in B (pushed ?p s) (m_ip (pushed ?p s)) ([opb op] @ rest)"
    using sp(2-4) by (simp_all add: sp(1) add.commute)
  have ar: "arena B L (pushed ?p s)" using arena_outside [OF st(3)] rd by (simp add: ready_def)
  have sp': "m_sp (pushed ?p s) = m_sp s - 5" by (simp add: pushed_def)
  note c = st(4) [unfolded code_in_append]
  show ?thesis
  proof (rule that [OF st(1,2,3) sp'])
    show "code_in B (pushed ?p s) (m_ip (pushed ?p s)) [opb op]"
      "code_in B (pushed ?p s) (m_ip (pushed ?p s) + 1) rest" using c by simp_all
    fix t'
    assume t': "exec e op ((pushed ?p s)\<lparr>m_ip := m_ip (pushed ?p s) + 1\<rparr>) = Ok (Running, t')"
      "m_ip t' \<le> B" "m_memsize t' = m_memsize (pushed ?p s)"
    have "B \<le> m_sp (pushed ?p s)" "m_sp (pushed ?p s) \<le> L"
      using sp' rd room by (auto simp: ready_def stk_in_iff)
    from step_code [OF ar this _ op t'] c
    show "steps e s t'" using steps_trans [OF steps_step [OF st(1)] steps_step] by simp
  qed
qed

section \<open>Variables and jumps\<close>

lemma addr_base_regs [simp]:
  "VM_ADDR_GBP \<in> addr_types" "VM_ADDR_BP \<in> addr_types" "VM_ADDR_IP \<in> addr_types"
  by (simp_all add: addr_types_def)

lemma base_outside:
  "outside B L t = outside B L (s\<lparr>m_ip := i\<rparr>) \<Longrightarrow> ty \<in> {VM_ADDR_GBP, VM_ADDR_BP} \<Longrightarrow>
   base_of ty t = base_of ty s"
  by (auto dest: outsideD)

lemma base_of_states [simp]:
  "ty \<in> {VM_ADDR_GBP, VM_ADDR_BP} \<Longrightarrow> base_of ty (pop_state n s) = base_of ty s"
  "ty \<in> {VM_ADDR_GBP, VM_ADDR_BP} \<Longrightarrow> base_of ty (s\<lparr>m_ip := i\<rparr>) = base_of ty s"
  by auto

lemma run_var:
  assumes rd: "ready B L s (push_addr ty a @ [opb OP_RDMEM]) ds"
    and ty: "ty \<in> {VM_ADDR_GBP, VM_ADDR_BP}" "addr_range a"
    and v: "bytes_at s (base_of ty s + a) (enc_cell (cell_of v))" "plain v" "L \<le> base_of ty s + a"
    and room: "B + int (max 5 (data_bytes v) + dsize ds) \<le> L"
  shows "\<exists>s'. runs e B L s (push_addr ty a @ [opb OP_RDMEM]) s' (v # ds)"
proof -
  have ty': "ty \<in> addr_types" using ty(1) by auto
  have room5: "B + int (5 + dsize ds) \<le> L" using room by simp
  obtain t where t: "step e s = Ok (Running, t)" "cells_on t (addr_cell ty a # map cell_of ds)"
    "outside B L t = outside B L (s\<lparr>m_ip := m_ip s + 6\<rparr>)" "m_sp t = m_sp s - 5"
    "code_in B t (m_ip t) [opb OP_RDMEM]"
    and run: "\<And>t'. exec e OP_RDMEM (t\<lparr>m_ip := m_ip t + 1\<rparr>) = Ok (Running, t') \<Longrightarrow> m_ip t' \<le> B \<Longrightarrow>
      m_memsize t' = m_memsize t \<Longrightarrow> steps e s t'"
    using step_addr [OF rd ty' ty(2) room5, of e] by (auto simp: opcodes_def)
  define u where "u = t\<lparr>m_ip := m_ip t + 1\<rparr>"
  have sp: "m_sp s = L - int (dsize ds)" "0 \<le> B" using rd by (auto simp: ready_def stk_in_iff arena_def)
  have u: "cells_on u (addr_cell ty a # map cell_of ds)"
    using t(2) by (simp add: u_def cells_on_def holds_def bytes_at_def in_mem_def)
  let ?A = "base_of ty s + a" and ?u = "pop_state 5 u"
  have A: "?A = wrap32 (a + base_of ty ?u)"
    using bytes_at_wrap [OF v(1)] base_outside [OF t(3) ty(1)] ty(1) by (simp add: u_def add.commute)
  have b: "bytes_at ?u ?A (enc_cell (cell_of v))"
  proof (rule bytes_at_cong [OF v(1)])
    show "m_memsize ?u = m_memsize s" using outsideD(4) [OF t(3)] by (simp add: u_def)
    fix x
    assume "?A \<le> x"
    then have "L \<le> x" using v(3) by simp
    then show "m_mem ?u x = m_mem s x"
      using outsideD(11) [OF t(3), of x] sp t(4) by (simp add: pop_state_mem u_def)
  qed
  have r: "stack_room ?u (length (enc_cell (cell_of v)))"
    using room sp t(4) by (simp add: stack_room_def u_def data_bytes_def)
  define s' where "s' = push_state (enc_cell (cell_of v)) ?u"
  note m = op_rdmem_cell [OF u ty' ty(2) A b _ r, folded s'_def]
  have ex: "exec e OP_RDMEM u = Ok (Running, s')" using m(1) v(2) by simp
  have o: "outside B L s' = outside B L u"
    unfolding s'_def using sp t(4) room
    by (subst outside_push) (auto simp: u_def data_bytes_def intro!: outside_pop)
  have o': "outside B L s' = outside B L (s\<lparr>m_ip := m_ip s + 7\<rparr>)"
    using outside_ip [OF t(3), of "m_ip s + 7"] o outsideD(1) [OF t(3)] by (simp add: u_def add.commute)
  have "steps e s s'"
    using run [OF ex [unfolded u_def]] code_in_bound [OF t(5)] by (simp add: s'_def u_def)
  moreover have "stk_in L s' (v # ds)"
    using m(2) v(2) sp t(4) rd by (simp add: stk_in_iff s'_def u_def data_bytes_def ready_def)
  ultimately have "runs e B L s (push_addr ty a @ [opb OP_RDMEM]) s' (v # ds)"
    using o' by (simp add: runs_def push_addr_cell add.assoc)
  then show ?thesis ..
qed

text \<open>
  An assignment takes the value off the stack into the place of the variable; memory outside
  the arena and that place is kept.
\<close>

definition stored :: "int \<Rightarrow> t_data \<Rightarrow> vm \<Rightarrow> vm" where
  "stored A v s = s\<lparr>m_mem := put_bytes (m_mem s) A (enc_cell (cell_of v))\<rparr>"

lemma outside_stored:
  assumes "outside B L t = outside B L s"
  shows "outside B L (stored A v t) = outside B L (stored A v s)"
proof -
  have "ctl t = ctl s" using assms by (simp add: outside_def)
  moreover have "m_mem t x = m_mem s x" if "x < B \<or> L \<le> x" for x
    using fun_cong [OF arg_cong [OF assms, of snd], of x] that by (auto simp: outside_def)
  ultimately show ?thesis
    by (auto simp: outside_def stored_def put_bytes_def fun_eq_iff ctl_def)
qed

lemma stk_in_stored: "stk_in L t ds \<Longrightarrow> L \<le> A \<Longrightarrow> stk_in L (stored A v t) ds"
  by (auto simp: stk_in_iff cells_on_def holds_def stored_def put_bytes_outside dsize_def elim!: bytes_at_cong)

lemma run_assign:
  assumes rd: "ready B L s (push_addr ty a @ [opb OP_WRMEM]) (v # ds)"
    and ty: "ty \<in> {VM_ADDR_GBP, VM_ADDR_BP}" "addr_range a"
    and A: "in_mem s (base_of ty s + a) (int (data_bytes v))" "L \<le> base_of ty s + a"
    and room: "B + int (data_bytes v + 5 + dsize ds) \<le> L"
  shows "\<exists>s'. steps e s s' \<and> stk_in L s' ds \<and>
    outside B L s' = outside B L (stored (base_of ty s + a) v (s\<lparr>m_ip := m_ip s + 7\<rparr>))"
proof -
  have ty': "ty \<in> addr_types" using ty(1) by auto
  have room5: "B + int (5 + dsize (v # ds)) \<le> L" using room by simp
  obtain t where t: "step e s = Ok (Running, t)" "cells_on t (addr_cell ty a # map cell_of (v # ds))"
    "outside B L t = outside B L (s\<lparr>m_ip := m_ip s + 6\<rparr>)" "m_sp t = m_sp s - 5"
    "code_in B t (m_ip t) [opb OP_WRMEM]"
    and run: "\<And>t'. exec e OP_WRMEM (t\<lparr>m_ip := m_ip t + 1\<rparr>) = Ok (Running, t') \<Longrightarrow> m_ip t' \<le> B \<Longrightarrow>
      m_memsize t' = m_memsize t \<Longrightarrow> steps e s t'"
    using step_addr [OF rd ty' ty(2) room5, of e] by (auto simp: opcodes_def)
  define u where "u = t\<lparr>m_ip := m_ip t + 1\<rparr>"
  have sp: "m_sp s = L - int (dsize (v # ds))" "0 \<le> B" and pl: "plain v" "\<forall>d \<in> set ds. plain d"
    using rd by (auto simp: ready_def stk_in_iff arena_def)
  have u: "cells_on u (addr_cell ty a # cell_of v # map cell_of ds)"
    using t(2) by (simp add: u_def cells_on_def holds_def bytes_at_def in_mem_def)
  let ?A = "base_of ty s + a" and ?u = "pop_state (5 + data_bytes v) u"
  have w: "wrap32 ?A = ?A" using A(1) by (intro addr_rangeD) (auto simp: in_mem_def addr_range_def)
  have eq: "?A = wrap32 (a + base_of ty (pop_state 5 u))"
    using w base_outside [OF t(3) ty(1)] ty(1) by (simp add: u_def add.commute)
  have room': "in_mem u ?A (int (data_bytes v))"
    using A(1) outsideD(4) [OF t(3)] by (simp add: in_mem_def u_def)
  define s' where "s' = stored ?A v ?u"
  have ex: "exec e OP_WRMEM u = Ok (Running, s')"
    using op_wrmem_cell [OF u ty' ty(2) pl(1) eq room'] by (simp add: s'_def stored_def)
  have o: "outside B L ?u = outside B L u"
    using sp t(4) room by (intro outside_pop) (auto simp: u_def)
  have o1: "outside B L ?u = outside B L (s\<lparr>m_ip := m_ip s + 7\<rparr>)"
    using outside_ip [OF t(3), of "m_ip s + 7"] o outsideD(1) [OF t(3)] by (simp add: u_def add.commute)
  have "outside B L s' = outside B L (stored ?A v (s\<lparr>m_ip := m_ip s + 7\<rparr>))"
    unfolding s'_def by (rule outside_stored [OF o1])
  moreover have "steps e s s'"
    using run [OF ex [unfolded u_def]] code_in_bound [OF t(5)] by (simp add: s'_def u_def stored_def)
  moreover have "stk_in L s' ds"
    unfolding s'_def
  proof (rule stk_in_stored [OF _ A(2)])
    have "cells_on ?u (map cell_of ds)"
      using cells_on_pop(2) [OF cells_on_pop(2) [OF u]] by (simp add: pop_state_pop_state data_bytes_def)
    then show "stk_in L ?u ds" using pl(2) sp t(4) by (simp add: stk_in_iff u_def)
  qed
  ultimately show ?thesis by blast
qed

text \<open>Relative jumps, counted from behind the jump instruction.\<close>

lemma run_jump:
  assumes rd: "ready B L s (push_addr VM_ADDR_IP off @ [opb OP_JMP]) ds" and off: "addr_range off"
    and target: "0 \<le> m_ip s + 7 + off" "m_ip s + 7 + off \<le> B"
    and room: "B + int (5 + dsize ds) \<le> L"
  shows "\<exists>s'. steps e s s' \<and> stk_in L s' ds \<and> outside B L s' = outside B L (s\<lparr>m_ip := m_ip s + 7 + off\<rparr>)"
proof -
  obtain t where t: "step e s = Ok (Running, t)" "cells_on t (addr_cell VM_ADDR_IP off # map cell_of ds)"
    "outside B L t = outside B L (s\<lparr>m_ip := m_ip s + 6\<rparr>)" "m_sp t = m_sp s - 5"
    "code_in B t (m_ip t) [opb OP_JMP]"
    and run: "\<And>t'. exec e OP_JMP (t\<lparr>m_ip := m_ip t + 1\<rparr>) = Ok (Running, t') \<Longrightarrow> m_ip t' \<le> B \<Longrightarrow>
      m_memsize t' = m_memsize t \<Longrightarrow> steps e s t'"
    using step_addr [OF rd addr_base_regs(3) off room, of e] by (auto simp: opcodes_def)
  define u where "u = t\<lparr>m_ip := m_ip t + 1\<rparr>"
  have sp: "m_sp s = L - int (dsize ds)" "B \<le> L" "B < 2 ^ 31" and pl: "\<forall>d \<in> set ds. plain d"
    using rd by (auto simp: ready_def stk_in_iff arena_def)
  have u: "cells_on u (addr_cell VM_ADDR_IP off # map cell_of ds)"
    using t(2) by (simp add: u_def cells_on_def holds_def bytes_at_def in_mem_def)
  have ip: "wrap32 (off + m_ip u) = m_ip s + 7 + off"
    using target sp outsideD(1) [OF t(3)] by (subst addr_rangeD) (auto simp: u_def addr_range_def)
  define s' where "s' = (pop_state 5 u)\<lparr>m_ip := m_ip s + 7 + off\<rparr>"
  have ex: "exec e OP_JMP u = Ok (Running, s')"
    using op_jmp_cell [OF u addr_base_regs(3) off] ip by (simp add: s'_def)
  have "outside B L (pop_state 5 u) = outside B L u"
    using sp t(4) room by (intro outside_pop) (auto simp: u_def)
  then have "outside B L s' = outside B L (s\<lparr>m_ip := m_ip s + 7 + off\<rparr>)"
    using outside_ip [OF t(3), of "m_ip s + 7 + off"] outside_ip [of B L "pop_state 5 u" u "m_ip s + 7 + off"]
    by (simp add: s'_def u_def)
  moreover have "steps e s s'" using run [OF ex [unfolded u_def]] target by (simp add: s'_def u_def)
  moreover have "stk_in L s' ds"
    using cells_on_pop(2) [OF u] pl sp t(4)
    by (simp add: stk_in_iff s'_def u_def cells_on_def holds_def bytes_at_def in_mem_def)
  ultimately show ?thesis by blast
qed

lemma run_jump_cond:
  assumes rd: "ready B L s (push_addr VM_ADDR_IP off @ [opb OP_JMPCND]) (BoolD b # ds)" and off: "addr_range off"
    and target: "0 \<le> m_ip s + 7 + off" "m_ip s + 7 + off \<le> B"
    and room: "B + int (7 + dsize ds) \<le> L"
  shows "\<exists>s'. steps e s s' \<and> stk_in L s' ds \<and>
    outside B L s' = outside B L (s\<lparr>m_ip := m_ip s + 7 + (if b \<noteq> 0 then off else 0)\<rparr>)"
proof -
  have room5: "B + int (5 + dsize (BoolD b # ds)) \<le> L" using room by simp
  obtain t where t: "step e s = Ok (Running, t)"
    "cells_on t (addr_cell VM_ADDR_IP off # map cell_of (BoolD b # ds))"
    "outside B L t = outside B L (s\<lparr>m_ip := m_ip s + 6\<rparr>)" "m_sp t = m_sp s - 5"
    "code_in B t (m_ip t) [opb OP_JMPCND]"
    and run: "\<And>t'. exec e OP_JMPCND (t\<lparr>m_ip := m_ip t + 1\<rparr>) = Ok (Running, t') \<Longrightarrow> m_ip t' \<le> B \<Longrightarrow>
      m_memsize t' = m_memsize t \<Longrightarrow> steps e s t'"
    using step_addr [OF rd addr_base_regs(3) off room5, of e] by (auto simp: opcodes_def)
  define u where "u = t\<lparr>m_ip := m_ip t + 1\<rparr>"
  define i where "i = m_ip s + 7 + (if b \<noteq> 0 then off else 0)"
  have sp: "m_sp s = L - int (2 + dsize ds)" "B \<le> L" "B < 2 ^ 31" and pl: "\<forall>d \<in> set ds. plain d"
    using rd by (auto simp: ready_def stk_in_iff arena_def)
  have u: "cells_on u (addr_cell VM_ADDR_IP off # cell_of (BoolD b) # map cell_of ds)"
    using t(2) by (simp add: u_def cells_on_def holds_def bytes_at_def in_mem_def)
  have ip: "wrap32 (off + m_ip u) = m_ip s + 7 + off" "m_ip u = m_ip s + 7"
    using target sp outsideD(1) [OF t(3)] by ((subst addr_rangeD)?, auto simp: u_def addr_range_def)+
  define s' where "s' = (pop_state 7 u)\<lparr>m_ip := i\<rparr>"
  have ex: "exec e OP_JMPCND u = Ok (Running, s')"
    using op_jmpcnd_cell [OF u addr_base_regs(3) off] ip by (auto simp: s'_def i_def pop_state_def)
  have "outside B L (pop_state 7 u) = outside B L u"
    using sp t(4) room by (intro outside_pop) (auto simp: u_def)
  then have "outside B L s' = outside B L (s\<lparr>m_ip := i\<rparr>)"
    using outside_ip [OF t(3), of i] outside_ip [of B L "pop_state 7 u" u i]
    by (simp add: s'_def u_def)
  moreover have "m_ip s + 7 \<le> B"
    using code_in_bound [OF t(5)] outsideD(1) [OF t(3)] by simp
  then have "steps e s s'"
    using run [OF ex [unfolded u_def]] target by (simp add: s'_def u_def i_def split: if_splits)
  moreover have "stk_in L s' ds"
  proof -
    have "length (enc_cell (cell_of (BoolD b))) = 2" by (simp add: enc_cell_def cell_of_def)
    then have "cells_on (pop_state 7 u) (map cell_of ds)"
      using cells_on_pop(2) [OF cells_on_pop(2) [OF u]] by (simp add: pop_state_pop_state)
    then show ?thesis using pl sp t(4)
      by (simp add: stk_in_iff s'_def u_def cells_on_def holds_def bytes_at_def in_mem_def)
  qed
  ultimately show ?thesis unfolding i_def by blast
qed

end
