(* ===== verification/Semantics.thy ===== *)
theory Semantics
  imports Codegen CodeRun
begin

text \<open>
  A reference semantics of a part of the language: expressions over variables and numbers,
  assignments, declarations, conditionals and loops, as a function of an expression and a
  store and a relation between stores. It says what a program means without code, stack or
  memory, except for the number of bytes that must be free for the stack; the code generator
  is proved against it. The operators are the functions on values of the operators' theory.
\<close>

section \<open>Common types\<close>

text \<open>
  The conversions of two operands and the type of the result: numbers are promoted to the
  larger of their types, numbers next to strings become strings, and the scalar next to an
  array becomes an element of it. Other pairs convert the second operand, and a quaternion next
  to an array of reals is not converted at all. The language has no other definition of its
  conversions than the table of the compiler, and this function states them: what is proved
  about values is relative to it.
\<close>

fun num_rank :: "SymbolType \<Rightarrow> nat option" where
  "num_rank ST_INT = Some 0"
| "num_rank ST_REAL = Some 1"
| "num_rank ST_CPLX = Some 2"
| "num_rank _ = None"

definition scales :: "SymbolType \<Rightarrow> SymbolType \<Rightarrow> SymbolType option" where
  "scales arr t =
     (case arr of
        ST_REAL_ARRAY \<Rightarrow> if t \<in> {ST_REAL, ST_INT} then Some ST_REAL else None
      | ST_INT_ARRAY \<Rightarrow> if t \<in> {ST_REAL, ST_INT} then Some ST_INT else None
      | ST_CPLX_ARRAY \<Rightarrow> if t \<in> {ST_CPLX, ST_REAL, ST_INT} then Some ST_CPLX else None
      | _ \<Rightarrow> None)"

definition needs :: "SymbolType \<Rightarrow> SymbolType \<Rightarrow> SymbolType option" where
  "needs t u = (if t = u then None else Some u)"

definition promote :: "SymbolType \<Rightarrow> SymbolType \<Rightarrow> SymbolType option \<times> SymbolType option \<times> SymbolType" where
  "promote t1 t2 =
     (case (num_rank t1, num_rank t2) of
        (Some r1, Some r2) \<Rightarrow> let t = (if r1 < r2 then t2 else t1) in (needs t1 t, needs t2 t, t)
      | _ \<Rightarrow>
          if t1 = ST_STRING \<and> t2 \<in> {ST_REAL, ST_INT} then (None, Some ST_STRING, ST_STRING)
          else if t2 = ST_STRING \<and> t1 \<in> {ST_REAL, ST_INT} then (Some ST_STRING, None, ST_STRING)
          else if t1 = ST_QUAT \<and> t2 = ST_REAL_ARRAY then (None, None, t2)
          else (case (scales t1 t2, scales t2 t1) of
              (Some el, _) \<Rightarrow> (None, needs t2 el, t1)
            | (None, Some el) \<Rightarrow> (needs t1 el, None, t2)
            | (None, None) \<Rightarrow> (None, needs t2 t1, t1)))"

definition promote_opt :: "SymbolType option \<Rightarrow> SymbolType option \<Rightarrow>
    SymbolType option \<times> SymbolType option \<times> SymbolType option" where
  "promote_opt t1 t2 =
     (case (t1, t2) of
        (Some a, Some b) \<Rightarrow> (case promote a b of (c1, c2, t) \<Rightarrow> (c1, c2, Some t))
      | _ \<Rightarrow> (None, None, None))"

section \<open>Expressions\<close>

type_synonym store = "t_str \<rightharpoonup> t_data"

text \<open>
  The configuration of the machine that operators depend on, and the variables with their
  types and the sizes of their places in memory.
\<close>

record cfg =
  cfg_env :: env
  cfg_eps :: t_real
  cfg_prec :: t_int
  cfg_vars :: "t_str \<rightharpoonup> SymbolType \<times> nat"

definition to_opt :: "'a result \<Rightarrow> 'a option" where
  "to_opt r = (case r of Ok x \<Rightarrow> Some x | _ \<Rightarrow> None)"

lemma to_opt_Some [simp]: "to_opt r = Some x \<longleftrightarrow> r = Ok x"
  by (cases r) (simp_all add: to_opt_def)

fun cast_idx :: "SymbolType \<Rightarrow> nat option" where
  "cast_idx ST_REAL = Some m_realidx"
| "cast_idx ST_INT = Some m_intidx"
| "cast_idx ST_CPLX = Some m_cplxidx"
| "cast_idx ST_QUAT = Some m_quatidx"
| "cast_idx ST_BOOL = Some m_boolidx"
| "cast_idx ST_STRING = Some m_stridx"
| "cast_idx _ = None"

definition conv :: "cfg \<Rightarrow> SymbolType option \<Rightarrow> t_data \<Rightarrow> t_data option" where
  "conv K ty v =
     (case Option.bind ty cast_idx of
        None \<Rightarrow> Some v
      | Some idx \<Rightarrow>
          map_option (\<lambda>r. case r of None \<Rightarrow> v | Some w \<Rightarrow> w)
            (to_opt (cast_data (cfg_env K) (cfg_eps K) (cfg_prec K) idx v)))"

text \<open>The type, the value, and the bytes of stack the evaluation needs.\<close>

type_synonym evald = "SymbolType option \<times> t_data \<times> nat"

definition eval_const :: "SymbolType \<Rightarrow> t_data \<Rightarrow> evald option" where
  "eval_const ty v = Some (Some ty, v, data_bytes v)"

definition eval_var :: "cfg \<Rightarrow> store \<Rightarrow> t_str \<Rightarrow> evald option" where
  "eval_var K \<rho> x =
     (case (cfg_vars K x, \<rho> x) of
        (Some (ty, _), Some v) \<Rightarrow> Some (Some ty, v, max 5 (data_bytes v))
      | _ \<Rightarrow> None)"

definition eval_unary :: "(t_data \<Rightarrow> t_data option) \<Rightarrow> evald option \<Rightarrow> evald option" where
  "eval_unary f r1 =
     Option.bind r1 (\<lambda>(t1, v1, m1).
     Option.bind (f v1) (\<lambda>v. Some (t1, v, max m1 (data_bytes v))))"

definition eval_binary :: "cfg \<Rightarrow> (t_data \<Rightarrow> t_data \<Rightarrow> t_data option) \<Rightarrow> evald option \<Rightarrow> evald option \<Rightarrow> evald option" where
  "eval_binary K f r1 r2 =
     Option.bind r1 (\<lambda>(t1, v1, m1).
     Option.bind r2 (\<lambda>(t2, v2, m2).
     case promote_opt t1 t2 of (c1, c2, t) \<Rightarrow>
     Option.bind (conv K c1 v1) (\<lambda>w1.
     Option.bind (conv K c2 v2) (\<lambda>w2.
     Option.bind (f w1 w2) (\<lambda>v.
     Some (t, v, Max {m1, data_bytes w1 + m2, data_bytes w1 + data_bytes w2, data_bytes v}))))))"

definition bool_data :: "bool \<Rightarrow> t_data" where
  "bool_data b = BoolD (if b then 1 else 0)"

definition compare_op :: "cfg \<Rightarrow> CompOp \<Rightarrow> t_data \<Rightarrow> t_data \<Rightarrow> t_data option" where
  "compare_op K op v1 v2 =
     map_option bool_data (to_opt (compare_data (cfg_env K) (cfg_eps K) (comp_op op) v1 v2))"

fun logic_char :: "BoolOp \<Rightarrow> char" where
  "logic_char BOOL_AND = CHR ''&''"
| "logic_char BOOL_OR = CHR ''|''"
| "logic_char BOOL_XOR = CHR ''^''"
| "logic_char BOOL_NOT = CHR ''!''"

text \<open>Boolean operators take booleans and integers as they are; their result has no type.\<close>

definition eval_bool :: "BoolOp \<Rightarrow> evald option \<Rightarrow> evald option \<Rightarrow> evald option" where
  "eval_bool op r1 r2 =
     Option.bind r1 (\<lambda>(t1, v1, m1).
     Option.bind r2 (\<lambda>(t2, v2, m2).
     Option.bind (truth v1) (\<lambda>b1.
     Option.bind (truth v2) (\<lambda>b2.
     Some (None, bool_data (logical (logic_char op) b1 b2), max m1 (data_bytes v1 + m2))))))"

definition eval_not :: "evald option \<Rightarrow> evald option" where
  "eval_not r1 =
     Option.bind r1 (\<lambda>(t1, v1, m1).
     Option.bind (truth v1) (\<lambda>b1. Some (None, bool_data (\<not> b1), m1)))"

definition arith_op :: "cfg \<Rightarrow> char \<Rightarrow> t_data \<Rightarrow> t_data \<Rightarrow> t_data option" where
  "arith_op K op v1 v2 = to_opt (arith (cfg_env K) op v1 v2)"

text \<open>A product or quotient of arrays has other rules and is not covered.\<close>

definition no_array :: "evald option \<Rightarrow> evald option" where
  "no_array r =
     Option.bind r (\<lambda>(t, v, m).
     if (case t of Some t \<Rightarrow> IsArray t | None \<Rightarrow> False) then None else Some (t, v, m))"

function (sequential) eval :: "cfg \<Rightarrow> store \<Rightarrow> ast \<Rightarrow> evald option" where
  "eval K \<rho> (ASTNumReal r) = eval_const ST_REAL (RealD r)"
| "eval K \<rho> (ASTNumInt i) = eval_const ST_INT (IntD i)"
| "eval K \<rho> (ASTNumCplx z) = eval_const ST_CPLX (CplxD z)"
| "eval K \<rho> (ASTNumQuat q) = eval_const ST_QUAT (QuatD q)"
| "eval K \<rho> (ASTNumBool b) = eval_const ST_BOOL (bool_data b)"
| "eval K \<rho> (ASTStrConst str) =
     map_option (\<lambda>(t, v, m). (t, v, max 5 m)) (eval_const ST_STRING (StrD str))"
| "eval K \<rho> (ASTVar x) = eval_var K \<rho> x"
| "eval K \<rho> (ASTUMinus a) = eval_unary (\<lambda>v. to_opt (negate (cfg_env K) v)) (eval K \<rho> a)"
| "eval K \<rho> (ASTPlus a b inverted) =
     eval_binary K (arith_op K (if inverted then CHR ''-'' else CHR ''+'')) (eval K \<rho> a) (eval K \<rho> b)"
| "eval K \<rho> (ASTMult a b inverted) =
     no_array (eval_binary K (arith_op K (if inverted then CHR ''/'' else CHR ''*'')) (eval K \<rho> a) (eval K \<rho> b))"
| "eval K \<rho> (ASTMod a b) = eval_binary K (arith_op K CHR ''%'') (eval K \<rho> a) (eval K \<rho> b)"
| "eval K \<rho> (ASTPow a b) = eval_binary K (arith_op K CHR ''^'') (eval K \<rho> a) (eval K \<rho> b)"
| "eval K \<rho> (ASTComp a b op) = eval_binary K (compare_op K op) (eval K \<rho> a) (eval K \<rho> b)"
| "eval K \<rho> (ASTBool a b op) =
     (case b of
        None \<Rightarrow> if op = BOOL_NOT then eval_not (eval K \<rho> a) else None
      | Some b \<Rightarrow> if op = BOOL_NOT then None else eval_bool op (eval K \<rho> a) (eval K \<rho> b))"
| "eval K \<rho> _ = None"
  by pat_completeness auto

termination
  by (relation "measure (\<lambda>(K, \<rho>, a). size a)") auto

section \<open>Statements\<close>

text \<open>
  The value a variable gets: converted to its type, and no longer than its place. A string
  is as long as its contents, and the code does not check that it fits.
\<close>

definition assigned :: "cfg \<Rightarrow> t_str \<Rightarrow> t_data \<Rightarrow> t_data option" where
  "assigned K x v =
     Option.bind (cfg_vars K x) (\<lambda>(ty, n).
     if IsArray ty then None
     else Option.bind (conv K (Some ty) v) (\<lambda>w. if data_bytes w \<le> n then Some w else None))"

text \<open>The value of a variable that is declared without one.\<close>

fun zero_data :: "SymbolType \<Rightarrow> t_data option" where
  "zero_data ST_REAL = Some (RealD 0)"
| "zero_data ST_INT = Some (IntD 0)"
| "zero_data ST_CPLX = Some (CplxD (0, 0))"
| "zero_data ST_QUAT = Some (QuatD (0, 0, 0, 0))"
| "zero_data ST_BOOL = Some (BoolD 0)"
| "zero_data _ = None"

text \<open>
  \<open>sem K \<rho> a m \<rho>'\<close>: the statement \<open>a\<close> ends, takes the store \<open>\<rho>\<close> to \<open>\<rho>'\<close>, and needs \<open>m\<close> bytes of stack.
  A jump needs seven bytes, for a condition and an address.
\<close>

inductive sem :: "cfg \<Rightarrow> store \<Rightarrow> ast \<Rightarrow> nat \<Rightarrow> store \<Rightarrow> bool" for K where
  Stmts_Nil: "sem K \<rho> (ASTStmts []) 0 \<rho>"
| Stmts_Cons: "sem K \<rho> a m1 \<rho>1 \<Longrightarrow> sem K \<rho>1 (ASTStmts as) m2 \<rho>2 \<Longrightarrow>
    sem K \<rho> (ASTStmts (a # as)) (max m1 m2) \<rho>2"
| Assign: "eval K \<rho> a = Some (t, v, m) \<Longrightarrow> assigned K x v = Some w \<Longrightarrow>
    sem K \<rho> (ASTAssign [x] (Some a)) (max m (data_bytes w + 5)) (\<rho>(x \<mapsto> w))"
| Decl_Nil: "sem K \<rho> (ASTVarDecl [] asg False False) 0 \<rho>"
| Decl_Zero: "cfg_vars K x = Some (ty, n) \<Longrightarrow> zero_data ty = Some w \<Longrightarrow>
    sem K (\<rho>(x \<mapsto> w)) (ASTVarDecl xs None False False) m \<rho>' \<Longrightarrow>
    sem K \<rho> (ASTVarDecl (x # xs) None False False) (max (data_bytes w + 5) m) \<rho>'"
| Decl_Assign: "sem K \<rho> asg m1 \<rho>1 \<Longrightarrow> sem K \<rho>1 (ASTVarDecl xs (Some asg) False False) m2 \<rho>2 \<Longrightarrow>
    sem K \<rho> (ASTVarDecl (x # xs) (Some asg) False False) (max m1 m2) \<rho>2"
| If_True: "eval K \<rho> c = Some (t, v, m1) \<Longrightarrow> truth v = Some True \<Longrightarrow> sem K \<rho> a m2 \<rho>' \<Longrightarrow>
    sem K \<rho> (ASTCond c a els) (max (max m1 7) m2) \<rho>'"
| If_False: "eval K \<rho> c = Some (t, v, m1) \<Longrightarrow> truth v = Some False \<Longrightarrow>
    sem K \<rho> (ASTCond c a None) (max m1 7) \<rho>"
| If_Else: "eval K \<rho> c = Some (t, v, m1) \<Longrightarrow> truth v = Some False \<Longrightarrow> sem K \<rho> b m2 \<rho>' \<Longrightarrow>
    sem K \<rho> (ASTCond c a (Some b)) (max (max m1 7) m2) \<rho>'"
| Loop_False: "eval K \<rho> c = Some (t, v, m1) \<Longrightarrow> truth v = Some False \<Longrightarrow>
    sem K \<rho> (ASTLoop c a) (max m1 7) \<rho>"
| Loop_True: "eval K \<rho> c = Some (t, v, m1) \<Longrightarrow> truth v = Some True \<Longrightarrow> sem K \<rho> a m2 \<rho>1 \<Longrightarrow>
    sem K \<rho>1 (ASTLoop c a) m3 \<rho>2 \<Longrightarrow> sem K \<rho> (ASTLoop c a) (max (max m1 7) (max m2 m3)) \<rho>2"

inductive_cases sem_StmtsE: "sem K \<rho> (ASTStmts as) m \<rho>'"
inductive_cases sem_AssignE: "sem K \<rho> (ASTAssign xs a) m \<rho>'"
inductive_cases sem_DeclE: "sem K \<rho> (ASTVarDecl xs a b1 b2) m \<rho>'"
inductive_cases sem_CondE: "sem K \<rho> (ASTCond c a b) m \<rho>'"
inductive_cases sem_LoopE: "sem K \<rho> (ASTLoop c a) m \<rho>'"

text \<open>The relation is a partial function of the store and the statement.\<close>

lemma sem_fun: "sem K \<rho> a m \<rho>1 \<Longrightarrow> sem K \<rho> a m' \<rho>2 \<Longrightarrow> \<rho>1 = \<rho>2"
proof (induction arbitrary: m' \<rho>2 rule: sem.induct)
  case (Stmts_Nil \<rho>)
  show ?case by (rule sem_StmtsE [OF Stmts_Nil]) auto
next
  case (Stmts_Cons \<rho> a m1 \<rho>1 as m2 \<rho>2')
  show ?case by (rule sem_StmtsE [OF Stmts_Cons.prems]) (use Stmts_Cons.IH in blast)+
next
  case (Assign \<rho> a t v m x w)
  show ?case by (rule sem_AssignE [OF Assign.prems]) (use Assign.hyps in auto)
next
  case (Decl_Nil \<rho> asg)
  show ?case by (rule sem_DeclE [OF Decl_Nil]) auto
next
  case (Decl_Zero x ty n w \<rho> xs m \<rho>')
  show ?case by (rule sem_DeclE [OF Decl_Zero.prems]) (use Decl_Zero.hyps in \<open>auto intro: Decl_Zero.IH\<close>)
next
  case (Decl_Assign \<rho> asg m1 \<rho>1 xs m2 \<rho>2' x)
  show ?case by (rule sem_DeclE [OF Decl_Assign.prems]) (use Decl_Assign.IH in blast)+
next
  case (If_True \<rho> c t v m1 a m2 \<rho>' els)
  show ?case by (rule sem_CondE [OF If_True.prems]) (use If_True.hyps in \<open>auto intro: If_True.IH\<close>)
next
  case (If_False \<rho> c t v m1 a)
  show ?case by (rule sem_CondE [OF If_False.prems]) (use If_False.hyps in auto)
next
  case (If_Else \<rho> c t v m1 b m2 \<rho>' a)
  show ?case by (rule sem_CondE [OF If_Else.prems]) (use If_Else.hyps in \<open>auto intro: If_Else.IH\<close>)
next
  case (Loop_False \<rho> c t v m1 a)
  show ?case by (rule sem_LoopE [OF Loop_False.prems]) (use Loop_False.hyps in auto)
next
  case (Loop_True \<rho> c t v m1 a m2 \<rho>1 m3 \<rho>2')
  show ?case
    by (rule sem_LoopE [OF Loop_True.prems], use Loop_True.hyps in simp, use Loop_True.IH in blast)
qed

end
