(* ===== verification/CompileExpr.thy ===== *)
theory CompileExpr
  imports Semantics
begin

text \<open>
  The code of an expression computes the value of the expression: run from its first byte,
  it leaves the value on the stack, the instruction pointer behind its last byte, and
  everything outside the arena of the stack as it was.
\<close>

section \<open>Generated casts\<close>

abbreviation ety :: "symbol option \<Rightarrow> SymbolType option" where
  "ety r \<equiv> map_option sy_ty r"

definition no_func :: "symbol option \<Rightarrow> bool" where
  "no_func r \<longleftrightarrow> ety r \<noteq> Some ST_FUNC"

lemma m_const_ty [simp]:
  "sy_ty m_real_const = ST_REAL" "sy_ty m_int_const = ST_INT" "sy_ty m_cplx_const = ST_CPLX"
  "sy_ty m_quat_const = ST_QUAT" "sy_ty m_bool_const = ST_BOOL" "sy_ty m_str_const = ST_STRING"
  by (simp_all add: m_real_const_def m_int_const_def m_cplx_const_def m_quat_const_def
      m_bool_const_def m_str_const_def dummy_sym_def)

text \<open>The casts and the type the code generator chooses are the promotions.\<close>

lemma promote_table:
  "promote t1 t2 =
     (if t1 = t2 then (None, None, t1)
      else if t1 = ST_INT \<and> t2 = ST_REAL then (Some t2, None, t2)
      else if t1 = ST_REAL \<and> t2 = ST_INT then (None, Some t1, t1)
      else if t1 = ST_INT \<and> t2 = ST_CPLX then (Some t2, None, t2)
      else if t1 = ST_CPLX \<and> t2 = ST_INT then (None, Some t1, t1)
      else if t1 = ST_REAL \<and> t2 = ST_CPLX then (Some t2, None, t2)
      else if t1 = ST_CPLX \<and> t2 = ST_REAL then (None, Some t1, t1)
      else if t1 = ST_STRING \<and> t2 = ST_REAL then (None, Some t1, t1)
      else if t1 = ST_STRING \<and> t2 = ST_INT then (None, Some t1, t1)
      else if t1 = ST_REAL \<and> t2 = ST_STRING then (Some t2, None, t2)
      else if t1 = ST_INT \<and> t2 = ST_STRING then (Some t2, None, t2)
      else if t1 = ST_REAL_ARRAY \<and> t2 = ST_REAL then (None, None, t1)
      else if t1 = ST_REAL_ARRAY \<and> t2 = ST_INT then (None, Some ST_REAL, t1)
      else if t1 = ST_REAL \<and> t2 = ST_REAL_ARRAY then (None, None, t2)
      else if t1 = ST_INT \<and> t2 = ST_REAL_ARRAY then (Some ST_REAL, None, t2)
      else if t1 = ST_INT_ARRAY \<and> t2 = ST_INT then (None, None, t1)
      else if t1 = ST_INT_ARRAY \<and> t2 = ST_REAL then (None, Some ST_INT, t1)
      else if t1 = ST_INT \<and> t2 = ST_INT_ARRAY then (None, None, t2)
      else if t1 = ST_REAL \<and> t2 = ST_INT_ARRAY then (Some ST_INT, None, t2)
      else if t1 = ST_CPLX_ARRAY \<and> t2 = ST_CPLX then (None, None, t1)
      else if t1 = ST_CPLX_ARRAY \<and> t2 = ST_INT then (None, Some ST_CPLX, t1)
      else if t1 = ST_CPLX_ARRAY \<and> t2 = ST_REAL then (None, Some ST_CPLX, t1)
      else if t1 = ST_CPLX \<and> t2 = ST_CPLX_ARRAY then (None, None, t2)
      else if t1 = ST_INT \<and> t2 = ST_CPLX_ARRAY then (Some ST_CPLX, None, t2)
      else if t1 = ST_REAL \<and> t2 = ST_CPLX_ARRAY then (Some ST_CPLX, None, t2)
      else if t1 = ST_QUAT \<and> t2 = ST_REAL_ARRAY then (None, None, t2)
      else (None, Some t1, t1))"
  by (cases t1; cases t2) (simp_all add: promote_def needs_def scales_def)

lemma GetCast_Some:
  assumes "sy_ty s1 \<noteq> ST_FUNC" "sy_ty s2 \<noteq> ST_FUNC"
  shows "map_prod ety (map_prod ety ety) (GetCastSymType (Some s1) (Some s2)) =
    map_prod id (map_prod id Some) (promote (sy_ty s1) (sy_ty s2))"
  unfolding promote_table GetCastSymType_def using assms
  by (simp add: Let_def)

lemma promote_func: "promote t1 t2 = (a, b, t) \<Longrightarrow> t1 \<noteq> ST_FUNC \<Longrightarrow> t2 \<noteq> ST_FUNC \<Longrightarrow> t \<noteq> ST_FUNC"
  by (auto simp: promote_table split: if_splits)

lemma GetCastSymType_promote:
  assumes "no_func r1" "no_func r2" "GetCastSymType r1 r2 = (a, b, t)"
  shows "promote_opt (ety r1) (ety r2) = (ety a, ety b, ety t)" "no_func t"
proof -
  have "promote_opt (ety r1) (ety r2) = (ety a, ety b, ety t) \<and> no_func t"
  proof (cases "\<exists>s1 s2. r1 = Some s1 \<and> r2 = Some s2")
    case True
    then obtain s1 s2 where r: "r1 = Some s1" "r2 = Some s2" by blast
    then have nf: "sy_ty s1 \<noteq> ST_FUNC" "sy_ty s2 \<noteq> ST_FUNC" using assms(1,2) by (simp_all add: no_func_def)
    obtain x y z where p: "promote (sy_ty s1) (sy_ty s2) = (x, y, z)" by (metis prod_cases3)
    have "ety a = x" "ety b = y" "ety t = Some z"
      using GetCast_Some [OF nf] assms(3) by (simp_all add: r p)
    then show ?thesis using promote_func [OF p nf] by (auto simp: r p promote_opt_def no_func_def)
  next
    case False
    then have "r1 = None \<or> r2 = None" by (cases r1; cases r2) auto
    then show ?thesis using assms(3)
      by (auto simp: GetCastSymType_def promote_opt_def no_func_def split: option.splits)
  qed
  then show "promote_opt (ety r1) (ety r2) = (ety a, ety b, ety t)" "no_func t" by blast+
qed

definition cast_code :: "SymbolType option \<Rightarrow> OpCode" where
  "cast_code ty = (case ty of None \<Rightarrow> OP_NOP | Some t \<Rightarrow> fst (cast_op t False))"

lemma CastTo_scalar:
  "CastTo None pos False c = Ok c"
  "CastTo (Some t) None False c = Ok (emit [opb (cast_code (Some (sy_ty t)))] c)"
  "CastTo (Some t) (Some p) False c = Ok (patch p [opb (cast_code (Some (sy_ty t)))] c)"
proof -
  obtain op where "cast_op (sy_ty t) False = (op, False)" by (cases "sy_ty t") (simp_all add: cast_op_def)
  then show "CastTo None pos False c = Ok c"
    "CastTo (Some t) None False c = Ok (emit [opb (cast_code (Some (sy_ty t)))] c)"
    "CastTo (Some t) (Some p) False c = Ok (patch p [opb (cast_code (Some (sy_ty t)))] c)"
    by (simp_all add: CastTo_def cast_code_def)
qed

lemma overwrite_at: "length xs = n \<Longrightarrow> overwrite n [b] (xs @ [a] @ ys) = xs @ [b] @ ys"
  by (simp add: overwrite_def)

lemma overwrite_end: "length xs = n \<Longrightarrow> overwrite n [b] xs = xs @ [b]"
  by (simp add: overwrite_def)

lemma emit_emit [simp]: "emit ys (emit xs c) = emit (xs @ ys) c"
  by (simp add: emit_def)

lemma emit_nil [simp]: "emit [] c = c"
  by (simp add: emit_def)

lemma emit_fields [simp]:
  "cg_syms (emit bs c) = cg_syms c" "cg_curscope (emit bs c) = cg_curscope c"
  "cg_ostr (emit bs c) = cg_ostr c @ bs"
  by (simp_all add: emit_def)

lemma emit_inj: "emit xs c = emit ys c \<longleftrightarrow> xs = ys"
  by (metis emit_fields(3) same_append_eq)

definition opt_cast :: "symbol option \<Rightarrow> byte list" where
  "opt_cast b = (case b of None \<Rightarrow> [] | Some _ \<Rightarrow> [opb (cast_code (ety b))])"

lemma CastTo_end: "CastTo b None False c = Ok (emit (opt_cast b) c)"
  by (cases b) (simp_all add: CastTo_scalar opt_cast_def)

text \<open>The cast of the first operand overwrites the \<open>NOP\<close>, the one of the second is appended.\<close>

lemma gen_operands_shape:
  assumes "g1 c = Ok (r1, emit k1 c)" "g2 (emit (k1 @ [opb OP_NOP]) c) = Ok (r2, emit (k1 @ [opb OP_NOP] @ k2) c)"
    and "GetCastSymType r1 r2 = (a, b, t)"
  shows "gen_operands g1 g2 c = Ok ((r1, r2, t), emit (k1 @ [opb (cast_code (ety a))] @ k2 @ opt_cast b) c)"
proof -
  have 1: "CastTo a (Some (length (cg_ostr c) + length k1)) False (emit (k1 @ [opb OP_NOP] @ k2) c)
      = Ok (emit (k1 @ [opb (cast_code (ety a))] @ k2) c)"
    using overwrite_at [of "cg_ostr c @ k1" "length (cg_ostr c) + length k1" _ "opb OP_NOP" k2]
    by (cases a) (simp_all add: CastTo_scalar cast_code_def patch_def emit_def)
  have 2: "CastTo b (Some (length (cg_ostr c) + length k1 + 1 + length k2)) False
        (emit (k1 @ [opb (cast_code (ety a))] @ k2) c)
      = Ok (emit (k1 @ [opb (cast_code (ety a))] @ k2 @ opt_cast b) c)"
    using overwrite_end [of "cg_ostr c @ k1 @ [opb (cast_code (ety a))] @ k2"
        "length (cg_ostr c) + length k1 + 1 + length k2"]
    by (cases b) (simp_all add: CastTo_scalar opt_cast_def patch_def emit_def)
  show ?thesis
    using assms 1 2 by (simp add: gen_operands_def Let_def tellp_def add.assoc)
qed

section \<open>Generators that only append\<close>

definition emits :: "cgm \<Rightarrow> bool" where
  "emits g \<longleftrightarrow> (\<forall>c r c'. g c = Ok (r, c') \<longrightarrow> (\<exists>code. c' = emit code c))"

lemma emitsE:
  assumes "emits g" "g c = Ok (r, c')"
  obtains code where "c' = emit code c"
  using assms unfolding emits_def by blast

lemma gen_operandsE:
  assumes "emits g1" "emits g2" "gen_operands g1 g2 c = Ok (x, c')"
  obtains r1 k1 r2 k2 a b t where "g1 c = Ok (r1, emit k1 c)"
    "g2 (emit (k1 @ [opb OP_NOP]) c) = Ok (r2, emit (k1 @ [opb OP_NOP] @ k2) c)"
    "GetCastSymType r1 r2 = (a, b, t)" "x = (r1, r2, t)"
    "c' = emit (k1 @ [opb (cast_code (ety a))] @ k2 @ opt_cast b) c"
proof -
  obtain r1 c1 where 1: "g1 c = Ok (r1, c1)"
    using assms(3) by (auto simp: gen_operands_def rbind_eq_Ok split: prod.splits)
  obtain k1 where k1: "c1 = emit k1 c" using emitsE [OF assms(1) 1] .
  have "is_ok (g2 (emit (k1 @ [opb OP_NOP]) c))"
    using assms(3) 1 by (cases "g2 (emit (k1 @ [opb OP_NOP]) c)") (auto simp: gen_operands_def k1 Let_def)
  then obtain r2 c2 where 2: "g2 (emit (k1 @ [opb OP_NOP]) c) = Ok (r2, c2)"
    by (cases "g2 (emit (k1 @ [opb OP_NOP]) c)") auto
  obtain k2 where k2: "c2 = emit k2 (emit (k1 @ [opb OP_NOP]) c)" using emitsE [OF assms(2) 2] .
  obtain a b t where t: "GetCastSymType r1 r2 = (a, b, t)" by (metis prod_cases3)
  have 2: "g2 (emit (k1 @ [opb OP_NOP]) c) = Ok (r2, emit (k1 @ [opb OP_NOP] @ k2) c)"
    using 2 k2 by simp
  have sh: "gen_operands g1 g2 c = Ok ((r1, r2, t), emit (k1 @ [opb (cast_code (ety a))] @ k2 @ opt_cast b) c)"
    by (rule gen_operands_shape) (use 1 k1 2 t in simp_all)
  show ?thesis by (rule that [OF 1 [unfolded k1] 2 t]) (use sh assms(3) in simp_all)
qed

lemma gen_binaryE:
  assumes "emits g1" "emits g2" "gen_binary op g1 g2 c = Ok (r, c')"
  obtains r1 k1 r2 k2 a b where "g1 c = Ok (r1, emit k1 c)"
    "g2 (emit (k1 @ [opb OP_NOP]) c) = Ok (r2, emit (k1 @ [opb OP_NOP] @ k2) c)"
    "GetCastSymType r1 r2 = (a, b, r)"
    "c' = emit (k1 @ [opb (cast_code (ety a))] @ k2 @ opt_cast b @ [opb op]) c"
  using assms
  by (auto simp: gen_binary_def rbind_eq_Ok elim!: gen_operandsE [OF assms(1,2)] split: prod.splits)

section \<open>Variables in memory\<close>

text \<open>
  \<open>layout\<close>: the places of the global variables lie in a frame of \<open>F\<close> bytes below the global
  base pointer and do not overlap. \<open>store_at\<close>: the cell of every variable of the store lies
  at its place. \<open>env_at\<close> collects what the code of an expression relies on, for a symbol
  table \<open>T\<close> that has at least the addresses of \<open>tab\<close>.
\<close>

definition syms_le :: "symtab \<Rightarrow> symtab \<Rightarrow> bool" where
  "syms_le tab T \<longleftrightarrow>
     (\<forall>x sy. FindSymbol tab x = Some sy \<longrightarrow> sy_addr sy \<noteq> None \<longrightarrow> FindSymbol T x = Some sy)"

definition placed :: "cfg \<Rightarrow> symtab \<Rightarrow> t_str \<Rightarrow> int \<Rightarrow> nat \<Rightarrow> bool" where
  "placed K T x a n \<longleftrightarrow> (\<exists>ty sy. cfg_vars K x = Some (ty, n) \<and> FindSymbol T x = Some sy \<and>
     sy_addr sy = Some a \<and> is_global sy)"

definition layout :: "cfg \<Rightarrow> symtab \<Rightarrow> int \<Rightarrow> bool" where
  "layout K T F \<longleftrightarrow> 0 \<le> F \<and> F < 2 ^ 31 \<and>
     (\<forall>x ty n sy a. cfg_vars K x = Some (ty, n) \<longrightarrow> FindSymbol T x = Some sy \<longrightarrow> sy_addr sy = Some a \<longrightarrow>
        is_global sy) \<and>
     (\<forall>x a n. placed K T x a n \<longrightarrow> - F \<le> a \<and> a + int n \<le> 0) \<and>
     (\<forall>x a n y b k. placed K T x a n \<longrightarrow> placed K T y b k \<longrightarrow> x \<noteq> y \<longrightarrow>
        a + int n \<le> b \<or> b + int k \<le> a)"

definition store_at :: "cfg \<Rightarrow> symtab \<Rightarrow> vm \<Rightarrow> store \<Rightarrow> bool" where
  "store_at K T s \<rho> \<longleftrightarrow> (\<forall>x v. \<rho> x = Some v \<longrightarrow> plain v \<and>
     (\<exists>a n. placed K T x a n \<and> data_bytes v \<le> n \<and> bytes_at s (m_gbp s + a) (enc_cell (cell_of v))))"

definition env_at :: "cfg \<Rightarrow> symtab \<Rightarrow> int \<Rightarrow> int \<Rightarrow> vm \<Rightarrow> store \<Rightarrow> bool" where
  "env_at K T F L s \<rho> \<longleftrightarrow> layout K T F \<and> store_at K T s \<rho> \<and>
     m_eps s = cfg_eps K \<and> m_prec s = cfg_prec K \<and> L + F \<le> m_gbp s"

lemma placed_fun: "placed K T x a n \<Longrightarrow> placed K T x b k \<Longrightarrow> a = b \<and> n = k"
  by (auto simp: placed_def)

lemma placed_range:
  "layout K T F \<Longrightarrow> placed K T x a n \<Longrightarrow> - F \<le> a \<and> a + int n \<le> 0 \<and> addr_range a"
  unfolding layout_def addr_range_def by fastforce

lemma env_at_outside:
  assumes "outside B L s' = outside B L (s\<lparr>m_ip := i\<rparr>)" "env_at K T F L s \<rho>"
  shows "env_at K T F L s' \<rho>"
proof -
  have "bytes_at s' (m_gbp s + a) bs" if "placed K T x a n" "bytes_at s (m_gbp s + a) bs" for x a n bs
  proof (rule bytes_at_cong [OF that(2)])
    have "L \<le> m_gbp s + a" using assms(2) placed_range [OF _ that(1)] unfolding env_at_def by fastforce
    then show "m_gbp s + a \<le> y \<Longrightarrow> m_mem s' y = m_mem s y" for y using outsideD(11) [OF assms(1)] by simp
  qed (rule outsideD(4) [OF assms(1)])
  then have "store_at K T s' \<rho>"
    using assms(2) unfolding env_at_def store_at_def outsideD(3) [OF assms(1)] by blast
  then show ?thesis using assms(2) by (simp add: env_at_def outsideD [OF assms(1)])
qed

lemma env_at_runs: "runs e B L s code s' ds \<Longrightarrow> env_at K T F L s \<rho> \<Longrightarrow> env_at K T F L s' \<rho>"
  unfolding runs_def using env_at_outside by blast

section \<open>Code that computes a value\<close>

definition computes :: "cfg \<Rightarrow> store \<Rightarrow> symtab \<Rightarrow> byte list \<Rightarrow> t_data \<Rightarrow> nat \<Rightarrow> bool" where
  "computes K \<rho> tab code v m \<longleftrightarrow> data_bytes v \<le> m \<and>
     (\<forall>T F B L s ds. syms_le tab T \<longrightarrow> env_at K T F L s \<rho> \<longrightarrow> ready B L s code ds \<longrightarrow>
        B + int (m + dsize ds) \<le> L \<longrightarrow> (\<exists>s'. runs (cfg_env K) B L s code s' (v # ds)))"

lemma computes_bytes: "computes K \<rho> tab code v m \<Longrightarrow> data_bytes v \<le> m"
  by (simp add: computes_def)

lemma computes_run:
  "computes K \<rho> tab code v m \<Longrightarrow> syms_le tab T \<Longrightarrow> env_at K T F L s \<rho> \<Longrightarrow> ready B L s code ds \<Longrightarrow>
   B + int (m + dsize ds) \<le> L \<Longrightarrow> \<exists>s'. runs (cfg_env K) B L s code s' (v # ds)"
  unfolding computes_def by blast

text \<open>One value after another: code behind the code of a value.\<close>

lemma computes_seq:
  assumes k: "computes K \<rho> tab k1 v1 m1" "syms_le tab T" "env_at K T F L s \<rho>"
    and rd: "ready B L s (k1 @ k2) ds" and room: "B + int (m1 + dsize ds) \<le> L"
    and rest: "\<And>s'. env_at K T F L s' \<rho> \<Longrightarrow> ready B L s' k2 (v1 # ds) \<Longrightarrow>
      \<exists>s''. runs (cfg_env K) B L s' k2 s'' ds''"
  shows "\<exists>s''. runs (cfg_env K) B L s (k1 @ k2) s'' ds''"
proof (rule runs_seq [OF rd computes_run [OF k ready_first [OF rd] room]])
  show "B + int (dsize (v1 # ds)) \<le> L" using computes_bytes [OF k(1)] room by simp
  show "\<exists>s''. runs (cfg_env K) B L s' k2 s'' ds''"
    if "runs (cfg_env K) B L s k1 s' (v1 # ds)" "ready B L s' k2 (v1 # ds)" for s'
    using rest [OF env_at_runs [OF that(1) k(3)] that(2)] .
qed

lemma run_conv:
  assumes rd: "ready B L s [opb (cast_code ty)] (v # ds)" and env: "env_at K T F L s \<rho>"
    and w: "conv K ty v = Some w" and room: "B + int (data_bytes w + dsize ds) \<le> L"
  shows "\<exists>s'. runs (cfg_env K) B L s [opb (cast_code ty)] s' (w # ds)"
proof (cases "Option.bind ty cast_idx")
  case None
  then have "cast_code ty = OP_NOP"
    by (cases "the ty") (auto simp: cast_code_def cast_op_def split: option.splits)
  then show ?thesis using run_nop [of B L s "v # ds"] rd w by (simp add: conv_def None)
next
  case (Some idx)
  then obtain t where t: "ty = Some t" "cast_idx t = Some idx" by (cases ty) auto
  obtain r where r: "cast_data (cfg_env K) (cfg_eps K) (cfg_prec K) idx v = Ok r"
      "w = (case r of None \<Rightarrow> v | Some w \<Rightarrow> w)" using w by (auto simp: conv_def Some)
  have "exec (cfg_env K) (cast_code ty) u = cont (OpCast (cfg_env K) idx u)" for u
    using t by (cases t) (auto simp: cast_code_def cast_op_def exec_def)
  moreover have "cast_code ty \<in> set opcodes"
    using t by (cases t) (auto simp: cast_code_def cast_op_def opcodes_def)
  ultimately show ?thesis
    using run_cast [OF rd, of "cfg_env K" idx r w] r env room by (simp add: env_at_def)
qed

lemma computes_binary:
  assumes k1: "computes K \<rho> tab k1 v1 m1" and k2: "computes K \<rho> tab k2 v2 m2"
    and w: "conv K (ety a) v1 = Some w1" "conv K (ety b) v2 = Some w2"
    and m: "m = Max {m1, data_bytes w1 + m2, data_bytes w1 + data_bytes w2, data_bytes v}"
    and op: "\<And>B L s ds T F. env_at K T F L s \<rho> \<Longrightarrow> ready B L s [opb op] (w2 # w1 # ds) \<Longrightarrow>
      B + int (data_bytes v + dsize ds) \<le> L \<Longrightarrow> \<exists>s'. runs (cfg_env K) B L s [opb op] s' (v # ds)"
  shows "computes K \<rho> tab (k1 @ [opb (cast_code (ety a))] @ k2 @ opt_cast b @ [opb op]) v m"
  unfolding computes_def
proof (intro conjI allI impI)
  show "data_bytes v \<le> m" by (simp add: m)
  have m: "m1 \<le> m" "data_bytes w1 + m2 \<le> m" "data_bytes w1 + data_bytes w2 \<le> m" "data_bytes v \<le> m"
    by (simp_all add: m)
  fix T F B L s ds
  assume T: "syms_le tab T" and env: "env_at K T F L s \<rho>" and room: "B + int (m + dsize ds) \<le> L"
    and rd: "ready B L s (k1 @ [opb (cast_code (ety a))] @ k2 @ opt_cast b @ [opb op]) ds"
  show "\<exists>s'. runs (cfg_env K) B L s (k1 @ [opb (cast_code (ety a))] @ k2 @ opt_cast b @ [opb op]) s' (v # ds)"
  proof (rule computes_seq [OF k1 T env rd])
    show "B + int (m1 + dsize ds) \<le> L" using m room by simp
    fix s1
    assume env: "env_at K T F L s1 \<rho>" and rd: "ready B L s1 ([opb (cast_code (ety a))] @ k2 @ opt_cast b @ [opb op]) (v1 # ds)"
    have r1: "B + int (data_bytes w1 + dsize ds) \<le> L" using m room by simp
    show "\<exists>s'. runs (cfg_env K) B L s1 ([opb (cast_code (ety a))] @ k2 @ opt_cast b @ [opb op]) s' (v # ds)"
    proof (rule runs_seq [OF rd run_conv [OF ready_first [OF rd] env w(1) r1]])
      show "B + int (dsize (w1 # ds)) \<le> L" using r1 by simp
      fix s2
      assume "runs (cfg_env K) B L s1 [opb (cast_code (ety a))] s2 (w1 # ds)"
      then have env: "env_at K T F L s2 \<rho>" using env_at_runs env by blast
      assume rd: "ready B L s2 (k2 @ opt_cast b @ [opb op]) (w1 # ds)"
      show "\<exists>s'. runs (cfg_env K) B L s2 (k2 @ opt_cast b @ [opb op]) s' (v # ds)"
      proof (rule computes_seq [OF k2 T env rd])
        show "B + int (m2 + dsize (w1 # ds)) \<le> L" using m room by simp
        fix s3
        assume env: "env_at K T F L s3 \<rho>" and rd: "ready B L s3 (opt_cast b @ [opb op]) (v2 # w1 # ds)"
        have r2: "B + int (data_bytes w2 + dsize (w1 # ds)) \<le> L" using m room by simp
        have c: "\<exists>s'. runs (cfg_env K) B L s3 (opt_cast b) s' (w2 # w1 # ds)"
        proof (cases b)
          case None
          then have "w2 = v2" using w(2) by (simp add: conv_def)
          then show ?thesis using None runs_nil [of B L s3 "v2 # w1 # ds"] ready_first [OF rd]
            by (auto simp: opt_cast_def)
        next
          case (Some u)
          then show ?thesis using run_conv [OF _ env w(2) r2] ready_first [OF rd] by (simp add: opt_cast_def)
        qed
        show "\<exists>s'. runs (cfg_env K) B L s3 (opt_cast b @ [opb op]) s' (v # ds)"
        proof (rule runs_seq [OF rd c])
          show "B + int (dsize (w2 # w1 # ds)) \<le> L" using r2 by simp
          fix s4
          assume "runs (cfg_env K) B L s3 (opt_cast b) s4 (w2 # w1 # ds)" "ready B L s4 [opb op] (w2 # w1 # ds)"
          then show "\<exists>s'. runs (cfg_env K) B L s4 [opb op] s' (v # ds)"
            using op [OF env_at_runs [OF _ env]] m room by simp
        qed
      qed
    qed
  qed
qed

text \<open>An operator behind the code of one or of two values that are not converted.\<close>

lemma computes_unary:
  assumes k1: "computes K \<rho> tab k1 v1 m1" and m: "m = max m1 (data_bytes v)"
    and op: "\<And>B L s ds T F. env_at K T F L s \<rho> \<Longrightarrow> ready B L s [opb op] (v1 # ds) \<Longrightarrow>
      B + int (data_bytes v + dsize ds) \<le> L \<Longrightarrow> \<exists>s'. runs (cfg_env K) B L s [opb op] s' (v # ds)"
  shows "computes K \<rho> tab (k1 @ [opb op]) v m"
  unfolding computes_def
proof (intro conjI allI impI)
  fix T F B L s ds
  assume "syms_le tab T" "env_at K T F L s \<rho>" "B + int (m + dsize ds) \<le> L"
    "ready B L s (k1 @ [opb op]) ds"
  then show "\<exists>s'. runs (cfg_env K) B L s (k1 @ [opb op]) s' (v # ds)"
    using computes_seq [OF k1, of T F L s B "[opb op]" ds "v # ds"] op m by auto
qed (simp add: m)

lemma computes_two:
  assumes k1: "computes K \<rho> tab k1 v1 m1" and k2: "computes K \<rho> tab k2 v2 m2"
    and m: "m = max m1 (data_bytes v1 + m2)" "data_bytes v \<le> m"
    and op: "\<And>B L s ds T F. env_at K T F L s \<rho> \<Longrightarrow> ready B L s [opb op] (v2 # v1 # ds) \<Longrightarrow>
      \<exists>s'. runs (cfg_env K) B L s [opb op] s' (v # ds)"
  shows "computes K \<rho> tab (k1 @ k2 @ [opb op]) v m"
  unfolding computes_def
proof (intro conjI allI impI)
  fix T F B L s ds
  assume T: "syms_le tab T" and env: "env_at K T F L s \<rho>" and room: "B + int (m + dsize ds) \<le> L"
    and rd: "ready B L s (k1 @ k2 @ [opb op]) ds"
  show "\<exists>s'. runs (cfg_env K) B L s (k1 @ k2 @ [opb op]) s' (v # ds)"
  proof (rule computes_seq [OF k1 T env rd])
    show "B + int (m1 + dsize ds) \<le> L" using m room by simp
    fix s1
    assume env: "env_at K T F L s1 \<rho>" and rd: "ready B L s1 (k2 @ [opb op]) (v1 # ds)"
    show "\<exists>s'. runs (cfg_env K) B L s1 (k2 @ [opb op]) s' (v # ds)"
      using m room op by (intro computes_seq [OF k2 T env rd]) auto
  qed
qed (use m in simp)

lemma computes_const:
  assumes "plain v" "GetDataSize v = Ok n"
  shows "computes K \<rho> tab (opb OP_PUSH # enc_cell (cell_of v)) v (data_bytes v)"
  unfolding computes_def using run_push [OF _ assms] by blast

lemma base_reg_global: "is_global sy \<Longrightarrow> base_reg sy = VM_ADDR_GBP"
  by (simp add: base_reg_def)

lemma computes_var:
  assumes sy: "FindSymbol tab x = Some sy" "sy_addr sy = Some a" and x: "cfg_vars K x = Some (ty, n)" "\<rho> x = Some v"
  shows "computes K \<rho> tab (push_addr (base_reg sy) a @ [opb OP_RDMEM]) v (max 5 (data_bytes v))"
  unfolding computes_def
proof (intro conjI allI impI)
  fix T F B L s ds
  assume T: "syms_le tab T" and env: "env_at K T F L s \<rho>"
    and room: "B + int (max 5 (data_bytes v) + dsize ds) \<le> L"
    and rd: "ready B L s (push_addr (base_reg sy) a @ [opb OP_RDMEM]) ds"
  have sT: "FindSymbol T x = Some sy" using T sy by (auto simp: syms_le_def)
  have g: "is_global sy" using env sT sy(2) x(1) by (auto simp: env_at_def layout_def)
  obtain b k where b: "placed K T x b k" "bytes_at s (m_gbp s + b) (enc_cell (cell_of v))" "plain v"
    using env x(2) unfolding env_at_def store_at_def by blast
  have ba: "b = a" using b(1) sT sy(2) by (simp add: placed_def)
  show "\<exists>s'. runs (cfg_env K) B L s (push_addr (base_reg sy) a @ [opb OP_RDMEM]) s' (v # ds)"
  proof (rule run_var [OF rd])
    show "L \<le> base_of (base_reg sy) s + a"
      using placed_range [OF _ b(1)] env by (fastforce simp: ba base_reg_global [OF g] env_at_def)
  qed (use b room placed_range [OF _ b(1)] env in \<open>auto simp: ba base_reg_global [OF g] env_at_def\<close>)
qed simp

section \<open>Expressions\<close>

text \<open>The expressions covered: numbers, variables and operators, no strings, calls or arrays.\<close>

function (sequential) expr_frag :: "ast \<Rightarrow> bool" where
  "expr_frag (ASTNumReal r) \<longleftrightarrow> True"
| "expr_frag (ASTNumInt i) \<longleftrightarrow> True"
| "expr_frag (ASTNumCplx z) \<longleftrightarrow> True"
| "expr_frag (ASTNumQuat q) \<longleftrightarrow> True"
| "expr_frag (ASTNumBool b) \<longleftrightarrow> True"
| "expr_frag (ASTVar x) \<longleftrightarrow> True"
| "expr_frag (ASTUMinus a) \<longleftrightarrow> expr_frag a"
| "expr_frag (ASTPlus a b inverted) \<longleftrightarrow> expr_frag a \<and> expr_frag b"
| "expr_frag (ASTMult a b inverted) \<longleftrightarrow> expr_frag a \<and> expr_frag b"
| "expr_frag (ASTMod a b) \<longleftrightarrow> expr_frag a \<and> expr_frag b"
| "expr_frag (ASTPow a b) \<longleftrightarrow> expr_frag a \<and> expr_frag b"
| "expr_frag (ASTComp a b op) \<longleftrightarrow> expr_frag a \<and> expr_frag b"
| "expr_frag (ASTBool a b op) \<longleftrightarrow> expr_frag a \<and> (case b of None \<Rightarrow> True | Some b \<Rightarrow> expr_frag b)"
| "expr_frag _ \<longleftrightarrow> False"
  by pat_completeness auto

termination
  by (relation "measure size") auto

lemma emits_binary: "emits g1 \<Longrightarrow> emits g2 \<Longrightarrow> emits (gen_binary op g1 g2)"
  unfolding emits_def [of "gen_binary op g1 g2"] by (blast elim: gen_binaryE)

lemma emits_mult:
  assumes "emits g1" "emits g2"
  shows "emits (visit_Mult g1 g2 inverted)"
  unfolding emits_def
proof (intro allI impI)
  fix c r c'
  assume "visit_Mult g1 g2 inverted c = Ok (r, c')"
  then obtain x c1 k2 where 1: "gen_operands g1 g2 c = Ok (x, c1)" and 2: "c' = emit k2 c1"
    by (auto simp: visit_Mult_def rbind_eq_Ok split: if_splits option.splits)
  from 1 obtain k where "c1 = emit k c" by (rule gen_operandsE [OF assms])
  then show "\<exists>code. c' = emit code c" using 2 by auto
qed

lemma emits_usub: "emits g \<Longrightarrow> emits (visit_UMinus g)"
  unfolding emits_def by (fastforce simp: visit_UMinus_def rbind_eq_Ok)

lemma emits_bool:
  assumes "emits g1" "\<And>g. g2 = Some g \<Longrightarrow> emits g"
  shows "emits (visit_Bool g1 g2 op)"
  unfolding emits_def [of "visit_Bool g1 g2 op"]
proof (intro allI impI)
  fix c r c'
  assume "visit_Bool g1 g2 op c = Ok (r, c')"
  then obtain r1 c1 r2 c2 where 1: "g1 c = Ok (r1, c1)" and 2: "gen_opt g2 c1 = Ok (r2, c2)"
      and c': "c' = emit [opb (bool_op op)] c2"
    by (auto simp: visit_Bool_def rbind_eq_Ok)
  obtain k1 where k1: "c1 = emit k1 c" using emitsE [OF assms(1) 1] .
  obtain k2 where "c2 = emit k2 c1"
    using 2 assms(2) by (cases g2) (auto simp: gen_opt_def elim: emitsE intro: that [of "[]"])
  then show "\<exists>code. c' = emit code c" by (auto simp: c' k1)
qed

lemma emits_var: "emits (PushVar x)"
  by (auto simp: emits_def PushVar_def rbind_eq_Ok Let_def split: option.splits)

lemma emits_consts:
  "emits (visit_NumConst sy PushRealConst r)" "emits (visit_NumConst sy PushIntConst i)"
  "emits (visit_NumConst sy PushCplxConst z)" "emits (visit_NumConst sy PushQuatConst q)"
  "emits (visit_NumConst sy PushBoolConst b)"
  by (auto simp: emits_def visit_NumConst_def PushRealConst_def PushIntConst_def PushCplxConst_def
      PushQuatConst_def PushBoolConst_def split: prod.splits)

lemma expr_emits: "expr_frag a \<Longrightarrow> emits (gen a)"
proof (induction a rule: expr_frag.induct)
  case (6 x)
  then show ?case by (simp add: emits_var)
next
  case (7 a)
  then show ?case by (simp add: emits_usub)
next
  case (13 a b op)
  then show ?case by (auto intro!: emits_bool split: option.splits)
qed (simp_all add: emits_consts emits_binary emits_mult visit_Plus_def visit_Mod_def visit_Pow_def visit_Comp_def)

text \<open>
  \<open>compiles\<close>: the generator \<open>g\<close> only appends code, and when the reference semantics gives a
  value of some type, then that is the type of the symbol \<open>g\<close> returns, and the code computes
  the value.
\<close>

definition vars_ok :: "cfg \<Rightarrow> cg \<Rightarrow> bool" where
  "vars_ok K c \<longleftrightarrow> cg_curscope c = [] \<and>
     (\<forall>x ty n. cfg_vars K x = Some (ty, n) \<longrightarrow>
        (\<exists>sy. FindSymbol (cg_syms c) x = Some sy \<and> sy_ty sy = ty \<and> ty \<noteq> ST_FUNC))"

definition compiles :: "cfg \<Rightarrow> store \<Rightarrow> cgm \<Rightarrow> evald option \<Rightarrow> bool" where
  "compiles K \<rho> g ev \<longleftrightarrow> emits g \<and>
     (\<forall>c r c' t v m. ev = Some (t, v, m) \<longrightarrow> vars_ok K c \<longrightarrow> g c = Ok (r, c') \<longrightarrow>
        no_func r \<and> ety r = t \<and> (\<exists>code. c' = emit code c \<and> computes K \<rho> (cg_syms c) code v m))"

lemma vars_ok_emit [simp]: "vars_ok K (emit bs c) = vars_ok K c"
  by (simp add: vars_ok_def)

lemma compilesD:
  assumes "compiles K \<rho> g (Some (t, v, m))" "vars_ok K c" "g c = Ok (r, emit code c)"
  shows "no_func r" "ety r = t" "computes K \<rho> (cg_syms c) code v m"
  using assms unfolding compiles_def emit_inj by (metis emit_inj)+

lemma compiles_none: "emits g \<Longrightarrow> compiles K \<rho> g None"
  by (simp add: compiles_def)

lemma GetSym_global:
  "cg_curscope c = [] \<Longrightarrow> FindSymbol (cg_syms c) x = Some sy \<Longrightarrow> GetSym x b None c = Ok sy"
  by (auto simp: GetSym_def Let_def of_type_def)

lemma compiles_binary:
  assumes g1: "compiles K \<rho> g1 r1" and g2: "compiles K \<rho> g2 r2"
    and op: "\<And>w1 w2 v B L s ds T F. f w1 w2 = Some v \<Longrightarrow> env_at K T F L s \<rho> \<Longrightarrow>
      ready B L s [opb op] (w2 # w1 # ds) \<Longrightarrow> B + int (data_bytes v + dsize ds) \<le> L \<Longrightarrow>
      \<exists>s'. runs (cfg_env K) B L s [opb op] s' (v # ds)"
  shows "compiles K \<rho> (gen_binary op g1 g2) (eval_binary K f r1 r2)"
proof -
  have e: "emits g1" "emits g2" using g1 g2 by (simp_all add: compiles_def)
  {
    fix c r c' t v m
    assume ev: "eval_binary K f r1 r2 = Some (t, v, m)" and c: "vars_ok K c"
      and g: "gen_binary op g1 g2 c = Ok (r, c')"
    obtain y1 k1 y2 k2 a b where s1: "g1 c = Ok (y1, emit k1 c)"
        and s2: "g2 (emit (k1 @ [opb OP_NOP]) c) = Ok (y2, emit (k1 @ [opb OP_NOP] @ k2) c)"
        and cast: "GetCastSymType y1 y2 = (a, b, r)"
        and c': "c' = emit (k1 @ [opb (cast_code (ety a))] @ k2 @ opt_cast b @ [opb op]) c"
      by (rule gen_binaryE [OF e g])
    obtain t1 v1 m1 t2 v2 m2 where r12: "r1 = Some (t1, v1, m1)" "r2 = Some (t2, v2, m2)"
      using ev by (auto simp: eval_binary_def bind_eq_Some_conv)
    obtain c1 c2 t' where pr: "promote_opt t1 t2 = (c1, c2, t')" by (metis prod_cases3)
    obtain w1 w2 where ev': "conv K c1 v1 = Some w1" "conv K c2 v2 = Some w2" "f w1 w2 = Some v" "t' = t"
        "m = Max {m1, data_bytes w1 + m2, data_bytes w1 + data_bytes w2, data_bytes v}"
      using ev by (auto simp: eval_binary_def bind_eq_Some_conv r12 pr)
    have d1: "no_func y1" "ety y1 = t1" "computes K \<rho> (cg_syms c) k1 v1 m1"
      using compilesD [OF g1 [unfolded r12(1)] c s1] by blast+
    have s2': "g2 (emit (k1 @ [opb OP_NOP]) c) = Ok (y2, emit k2 (emit (k1 @ [opb OP_NOP]) c))"
      using s2 by simp
    have d2: "no_func y2" "ety y2 = t2" "computes K \<rho> (cg_syms c) k2 v2 m2"
      using compilesD [OF g2 [unfolded r12(2)] _ s2'] c by simp_all
    have p: "ety a = c1" "ety b = c2" "ety r = t" "no_func r"
      using GetCastSymType_promote [OF d1(1) d2(1) cast] pr ev'(4) d1(2) d2(2) by simp_all
    have "computes K \<rho> (cg_syms c) (k1 @ [opb (cast_code (ety a))] @ k2 @ opt_cast b @ [opb op]) v m"
      by (rule computes_binary [OF d1(3) d2(3) _ _ ev'(5)]) (use ev' p op in simp_all)
    then have "no_func r \<and> ety r = t \<and> (\<exists>code. c' = emit code c \<and> computes K \<rho> (cg_syms c) code v m)"
      using p c' by blast
  }
  then show ?thesis unfolding compiles_def using emits_binary [OF e] by blast
qed

lemma run_arith_op:
  assumes "arith_op K ch w1 w2 = Some v" "ready B L s [opb op] (w2 # w1 # ds)" "op \<in> set opcodes"
    and "\<And>t. exec (cfg_env K) op t = cont (OpArithmetic (cfg_env K) ch t)"
    and "B + int (data_bytes v + dsize ds) \<le> L"
  shows "\<exists>s'. runs (cfg_env K) B L s [opb op] s' (v # ds)"
  using run_arith [OF assms(2-4), of v] assms(1,5) by (simp add: arith_op_def)

lemma run_compare_op:
  assumes "compare_op K cmp w1 w2 = Some v" "ready B L s [opb (comp_op cmp)] (w2 # w1 # ds)"
    and env: "env_at K T F L s \<rho>"
  shows "\<exists>s'. runs (cfg_env K) B L s [opb (comp_op cmp)] s' (v # ds)"
proof -
  obtain b where b: "compare_data (cfg_env K) (cfg_eps K) (comp_op cmp) w1 w2 = Ok b" "v = bool_data b"
    using assms(1) by (auto simp: compare_op_def)
  have "comp_op cmp \<in> set opcodes" "\<And>t. exec (cfg_env K) (comp_op cmp) t = cont (OpComparison (cfg_env K) (comp_op cmp) t)"
    by (cases cmp; simp add: opcodes_def exec_def)+
  then show ?thesis
    using run_cmp [OF assms(2), of "cfg_env K" b] b env by (simp add: env_at_def bool_data_def)
qed

lemma compiles_mult:
  assumes "compiles K \<rho> (gen_binary (if inverted then OP_DIV else OP_MUL) g1 g2) ev" "emits g1" "emits g2"
  shows "compiles K \<rho> (visit_Mult g1 g2 inverted) (no_array ev)"
proof -
  {
    fix c r c' t v m
    assume ev: "no_array ev = Some (t, v, m)" and c: "vars_ok K c" and g: "visit_Mult g1 g2 inverted c = Ok (r, c')"
    have ev': "ev = Some (t, v, m)" "case t of Some t \<Rightarrow> \<not> IsArray t | None \<Rightarrow> True"
      using ev by (auto simp: no_array_def bind_eq_Some_conv split: if_splits option.splits)
    obtain y1 y2 c1 where o: "gen_operands g1 g2 c = Ok ((y1, y2, r), c1)"
      using g by (auto simp: visit_Mult_def rbind_eq_Ok split: if_splits option.splits)
    have gb: "gen_binary (if inverted then OP_DIV else OP_MUL) g1 g2 c =
        Ok (r, emit [opb (if inverted then OP_DIV else OP_MUL)] c1)"
      by (simp add: gen_binary_def o)
    have b: "no_func r \<and> ety r = t \<and> (\<exists>code. emit [opb (if inverted then OP_DIV else OP_MUL)] c1 = emit code c \<and>
        computes K \<rho> (cg_syms c) code v m)"
      using assms(1) gb c unfolding compiles_def ev' by blast
    then have "mat_dims r y1 y2 = None" using ev'(2) by (cases r) (auto simp: mat_dims_def split: option.splits)
    then have "c' = emit [opb (if inverted then OP_DIV else OP_MUL)] c1"
      using g o by (auto simp: visit_Mult_def split: if_splits)
    then have "no_func r \<and> ety r = t \<and> (\<exists>code. c' = emit code c \<and> computes K \<rho> (cg_syms c) code v m)"
      using b by simp
  }
  then show ?thesis unfolding compiles_def using emits_mult [OF assms(2,3)] by blast
qed

lemma compiles_const:
  assumes "plain v" "GetDataSize v = Ok n" "\<And>c. g c = Ok (Some sy, emit (opb OP_PUSH # enc_cell (cell_of v)) c)"
    and "sy_ty sy = ty" "ty \<noteq> ST_FUNC"
  shows "compiles K \<rho> g (eval_const ty v)"
  using assms computes_const [OF assms(1,2)]
  by (auto simp: compiles_def emits_def eval_const_def no_func_def emit_inj)

lemma compiles_var: "compiles K \<rho> (PushVar x) (eval_var K \<rho> x)"
proof -
  {
    fix c r c' t v m
    assume ev: "eval_var K \<rho> x = Some (t, v, m)" and c: "vars_ok K c" and g: "PushVar x c = Ok (r, c')"
    obtain ty n where x: "cfg_vars K x = Some (ty, n)" "\<rho> x = Some v" "t = Some ty" "m = max 5 (data_bytes v)"
      using ev by (auto simp: eval_var_def split: option.splits)
    obtain sy where sy: "FindSymbol (cg_syms c) x = Some sy" "sy_ty sy = ty" "ty \<noteq> ST_FUNC"
      using c x(1) unfolding vars_ok_def by blast
    have gs: "GetSym x False None c = Ok sy" using GetSym_global sy(1) c by (simp add: vars_ok_def)
    then obtain a where a: "sy_addr sy = Some a" using g by (cases "sy_addr sy") (simp_all add: PushVar_def)
    have "c' = emit (push_addr (base_reg sy) a @ [opb OP_RDMEM]) c" "r = Some sy"
      using g sy gs a by (auto simp: PushVar_def Let_def)
    then have "no_func r \<and> ety r = t \<and> (\<exists>code. c' = emit code c \<and> computes K \<rho> (cg_syms c) code v m)"
      using computes_var [where K = K and \<rho> = \<rho> and v = v, OF sy(1) a x(1,2)] sy(2,3) x(3,4)
      by (auto simp: no_func_def)
  }
  then show ?thesis unfolding compiles_def using emits_var by blast
qed

lemma compiles_usub:
  assumes g: "compiles K \<rho> g ev"
  shows "compiles K \<rho> (visit_UMinus g) (eval_unary (\<lambda>v. to_opt (negate (cfg_env K) v)) ev)"
proof -
  {
    fix c r c' t v m
    assume ev: "eval_unary (\<lambda>v. to_opt (negate (cfg_env K) v)) ev = Some (t, v, m)" and c: "vars_ok K c"
      and g': "visit_UMinus g c = Ok (r, c')"
    obtain v1 m1 where ev1: "ev = Some (t, v1, m1)" "negate (cfg_env K) v1 = Ok v" "m = max m1 (data_bytes v)"
      using ev by (auto simp: eval_unary_def bind_eq_Some_conv)
    obtain c1 where 1: "g c = Ok (r, c1)" "c' = emit [opb OP_USUB] c1"
      using g' by (auto simp: visit_UMinus_def rbind_eq_Ok)
    then have d: "no_func r \<and> ety r = t \<and> (\<exists>code. c1 = emit code c \<and> computes K \<rho> (cg_syms c) code v1 m1)"
      using g c unfolding compiles_def ev1 by blast
    then obtain code where code: "c1 = emit code c" "computes K \<rho> (cg_syms c) code v1 m1" by blast
    have "computes K \<rho> (cg_syms c) (code @ [opb OP_USUB]) v m"
      by (rule computes_unary [OF code(2) ev1(3)], rule run_usub [OF _ ev1(2)])
    then have "no_func r \<and> ety r = t \<and> (\<exists>code. c' = emit code c \<and> computes K \<rho> (cg_syms c) code v m)"
      using d 1(2) code(1) by auto
  }
  then show ?thesis
    unfolding compiles_def using emits_usub g by (auto simp: compiles_def)
qed

lemma compiles_not:
  assumes g: "compiles K \<rho> g ev"
  shows "compiles K \<rho> (visit_Bool g None BOOL_NOT) (eval_not ev)"
proof -
  {
    fix c r c' t v m
    assume ev: "eval_not ev = Some (t, v, m)" and c: "vars_ok K c"
      and g': "visit_Bool g None BOOL_NOT c = Ok (r, c')"
    obtain t1 v1 b1 where ev1: "ev = Some (t1, v1, m)" "truth v1 = Some b1" "v = bool_data (\<not> b1)" "t = None"
      using ev by (auto simp: eval_not_def bind_eq_Some_conv)
    obtain r1 c1 where 1: "g c = Ok (r1, c1)" "c' = emit [opb OP_NOT] c1" "r = None"
      using g' by (auto simp: visit_Bool_def rbind_eq_Ok gen_opt_def)
    then obtain code where code: "c1 = emit code c" "computes K \<rho> (cg_syms c) code v1 m"
      using g c unfolding compiles_def ev1 by blast
    have "truth v1 \<noteq> None" using ev1(2) by simp
    then have "2 \<le> data_bytes v1" using data_bytes_ge2 [of v1] by (cases v1) auto
    then have "m = max m (data_bytes v)" using computes_bytes [OF code(2)] ev1(3) by (simp add: bool_data_def)
    then have "computes K \<rho> (cg_syms c) (code @ [opb OP_NOT]) v m"
      by (rule computes_unary [OF code(2)]) (use run_not [OF _ ev1(2)] ev1(3) in \<open>auto simp: bool_data_def\<close>)
    then have "no_func r \<and> ety r = t \<and> (\<exists>code. c' = emit code c \<and> computes K \<rho> (cg_syms c) code v m)"
      using 1 code(1) ev1(4) by (auto simp: no_func_def)
  }
  then show ?thesis
    unfolding compiles_def using emits_bool [of g None] g by (auto simp: compiles_def)
qed

lemma run_bool_op:
  assumes "op \<noteq> BOOL_NOT" "ready B L s [opb (bool_op op)] (v2 # v1 # ds)" "truth v1 = Some b1" "truth v2 = Some b2"
  shows "\<exists>s'. runs e B L s [opb (bool_op op)] s' (bool_data (logical (logic_char op) b1 b2) # ds)"
proof -
  have "bool_op op \<in> set opcodes" "\<And>t. exec e (bool_op op) t = cont (OpLogical (logic_char op) t)"
    using assms(1) by (cases op; simp add: opcodes_def)+
  from run_logical [OF assms(2) this assms(3,4)] show ?thesis by (simp add: bool_data_def)
qed

lemma compiles_bool:
  assumes g1: "compiles K \<rho> g1 ev1" and g2: "compiles K \<rho> g2 ev2" and op: "op \<noteq> BOOL_NOT"
  shows "compiles K \<rho> (visit_Bool g1 (Some g2) op) (eval_bool op ev1 ev2)"
proof -
  {
    fix c r c' t v m
    assume ev: "eval_bool op ev1 ev2 = Some (t, v, m)" and c: "vars_ok K c"
      and g': "visit_Bool g1 (Some g2) op c = Ok (r, c')"
    obtain t1 v1 m1 b1 t2 v2 m2 b2 where e: "ev1 = Some (t1, v1, m1)" "truth v1 = Some b1"
        "ev2 = Some (t2, v2, m2)" "truth v2 = Some b2" "v = bool_data (logical (logic_char op) b1 b2)" "t = None"
        "m = max m1 (data_bytes v1 + m2)"
      using ev by (auto simp: eval_bool_def bind_eq_Some_conv)
    obtain r1 c1 r2 c2 where 1: "g1 c = Ok (r1, c1)" "g2 c1 = Ok (r2, c2)" "c' = emit [opb (bool_op op)] c2" "r = None"
      using g' by (auto simp: visit_Bool_def rbind_eq_Ok gen_opt_def)
    obtain k1 where k1: "c1 = emit k1 c" "computes K \<rho> (cg_syms c) k1 v1 m1"
      using 1(1) g1 c unfolding compiles_def e by blast
    have "vars_ok K c1" using c k1(1) by simp
    then obtain k2 where k2: "c2 = emit k2 c1" "computes K \<rho> (cg_syms c1) k2 v2 m2"
      using 1(2) g2 unfolding compiles_def e by blast
    have "truth v2 \<noteq> None" using e(4) by simp
    then have "2 \<le> data_bytes v2" using data_bytes_ge2 [of v2] by (cases v2) auto
    then have "data_bytes v \<le> m" using computes_bytes [OF k2(2)] e(5,7) by (simp add: bool_data_def)
    moreover have "computes K \<rho> (cg_syms c) k2 v2 m2" using k2(2) k1(1) by simp
    ultimately have "computes K \<rho> (cg_syms c) (k1 @ k2 @ [opb (bool_op op)]) v m"
      using e(7) run_bool_op [OF op _ e(2,4)] unfolding e(5) by (intro computes_two [OF k1(2)])
    then have "no_func r \<and> ety r = t \<and> (\<exists>code. c' = emit code c \<and> computes K \<rho> (cg_syms c) code v m)"
      using 1 k1(1) k2(1) e(6) by (auto simp: no_func_def)
  }
  then show ?thesis
    unfolding compiles_def using emits_bool [of g1 "Some g2"] g1 g2 by (auto simp: compiles_def)
qed

lemma enc_cplx_fst: "enc_cplx z = enc64 (fst z) @ enc64 (snd z)"
  by (cases z) simp

lemma push_const_cell:
  "PushRealConst r = emit (opb OP_PUSH # enc_cell (cell_of (RealD r)))"
  "PushIntConst i = emit (opb OP_PUSH # enc_cell (cell_of (IntD i)))"
  "PushCplxConst z = emit (opb OP_PUSH # enc_cell (cell_of (CplxD z)))"
  "PushQuatConst q = emit (opb OP_PUSH # enc_cell (cell_of (QuatD q)))"
  "PushBoolConst b = emit (opb OP_PUSH # enc_cell (cell_of (BoolD b)))"
  by (auto simp: fun_eq_iff PushRealConst_def PushIntConst_def push_int_def PushCplxConst_def PushQuatConst_def
      PushBoolConst_def enc_cell_def cell_of_def enc_byte_def enc_cplx_fst split: prod.splits)

theorem expr_compiles: "expr_frag a \<Longrightarrow> compiles K \<rho> (gen a) (eval K \<rho> a)"
proof (induction a rule: expr_frag.induct)
  case (6 x)
  then show ?case by (simp add: compiles_var)
next
  case (7 a)
  then show ?case by (simp add: compiles_usub)
next
  case (8 a b inverted)
  then show ?case
    by (auto simp: visit_Plus_def opcodes_def intro!: compiles_binary run_arith_op)
next
  case (9 a b inverted)
  then have "compiles K \<rho> (gen_binary (if inverted then OP_DIV else OP_MUL) (gen a) (gen b))
      (eval_binary K (arith_op K (if inverted then CHR ''/'' else CHR ''*'')) (eval K \<rho> a) (eval K \<rho> b))"
    by (auto simp: opcodes_def intro!: compiles_binary run_arith_op)
  then show ?case using 9 by (simp add: compiles_mult expr_emits)
next
  case (10 a b)
  then show ?case by (auto simp: visit_Mod_def opcodes_def intro!: compiles_binary run_arith_op)
next
  case (11 a b)
  then show ?case by (auto simp: visit_Pow_def opcodes_def intro!: compiles_binary run_arith_op)
next
  case (12 a b op)
  then show ?case
    by (auto simp: visit_Comp_def simp del: byte_of_opcode.simps intro!: compiles_binary elim: run_compare_op)
next
  case (13 a b op)
  show ?case
  proof (cases b)
    case None
    then show ?thesis
      using 13 compiles_none [OF expr_emits [OF 13(3)], of K \<rho>] compiles_not by (cases "op = BOOL_NOT") auto
  next
    case (Some b')
    then show ?thesis
      using 13 compiles_none [OF expr_emits [OF 13(3)], of K \<rho>] compiles_bool by (cases "op = BOOL_NOT") auto
  qed
qed (auto simp: visit_NumConst_def push_const_cell bool_data_def intro!: compiles_const)

end
