(* ===== verification/CompileStmt.thy ===== *)
theory CompileStmt
  imports CompileExpr
begin

text \<open>
  The code of statements. First what the generator does to its own state: code is appended,
  variables get places in the global frame that do not overlap, nothing else changes. Then the
  code of a statement takes a store to the store of the reference semantics.
\<close>

section \<open>The frame of the global variables\<close>

definition sym_size :: "symbol \<Rightarrow> int" where
  "sym_size sy = (case GetSymSize sy of Ok n \<Rightarrow> n | _ \<Rightarrow> 0)"

text \<open>The sizes of the declared variables, and of all global variables of the table.\<close>

definition used_size :: "symtab \<Rightarrow> int" where
  "used_size tab = (\<Sum>(x, sy) \<leftarrow> tab. if sy_addr sy = None then 0 else sym_size sy)"

definition global_var :: "symbol \<Rightarrow> bool" where
  "global_var sy \<longleftrightarrow> scope_name sy = [] \<and> \<not> is_arg sy \<and> sy_ty sy \<noteq> ST_FUNC"

definition frame_size :: "symtab \<Rightarrow> int" where
  "frame_size tab = (\<Sum>(x, sy) \<leftarrow> tab. if global_var sy then sym_size sy else 0)"

definition declared :: "symtab \<Rightarrow> t_str \<Rightarrow> bool" where
  "declared tab x \<longleftrightarrow> (\<exists>sy. FindSymbol tab x = Some sy \<and> sy_addr sy \<noteq> None)"

text \<open>The variables of the configuration are those of the table, with their sizes.\<close>

definition vars_tab :: "cfg \<Rightarrow> symtab \<Rightarrow> bool" where
  "vars_tab K tab \<longleftrightarrow> (\<forall>x ty n. cfg_vars K x = Some (ty, n) \<longrightarrow>
     (\<exists>sy. FindSymbol tab x = Some sy \<and> sy_ty sy = ty \<and> GetSymSize sy = Ok (int n) \<and> global_var sy))"

definition frame_inv :: "cfg \<Rightarrow> cg \<Rightarrow> bool" where
  "frame_inv K c \<longleftrightarrow> symtab_wf (cg_syms c) \<and> vars_tab K (cg_syms c) \<and>
     frame_size (cg_syms c) < 2 ^ 31 \<and> cg_global_stack c = used_size (cg_syms c) \<and>
     (\<forall>x sy. FindSymbol (cg_syms c) x = Some sy \<longrightarrow> sy_addr sy \<noteq> None \<longrightarrow>
        x \<in> dom (cfg_vars K) \<and> is_global sy) \<and>
     (\<forall>x a n. placed K (cg_syms c) x a n \<longrightarrow> - cg_global_stack c \<le> a \<and> a + int n \<le> 0) \<and>
     (\<forall>x a n y b k. placed K (cg_syms c) x a n \<longrightarrow> placed K (cg_syms c) y b k \<longrightarrow> x \<noteq> y \<longrightarrow>
        a + int n \<le> b \<or> b + int k \<le> a)"

definition top_level :: "cfg \<Rightarrow> cg \<Rightarrow> bool" where
  "top_level K c \<longleftrightarrow> frame_inv K c \<and> cg_curscope c = [] \<and> cg_loop_begin_comefroms c = [] \<and>
     cg_loop_end_comefroms c = []"

lemma sym_size_nonneg: "0 \<le> sym_size sy"
  by (auto simp: sym_size_def GetSymSize_def arr_size_def to_size_def rbind_eq_Ok Let_def
      split: result.splits SymbolType.splits list.splits)

lemma upd_sym_Cons: "upd_sym x f ((n, sy) # tab) = (n, if n = x then f sy else sy) # upd_sym x f tab"
  by (simp add: upd_sym_def)

lemma upd_sym_absent: "x \<notin> fst ` set tab \<Longrightarrow> upd_sym x f tab = tab"
  by (induction tab) (auto simp: upd_sym_def)

lemma used_size_upd:
  "distinct (map fst tab) \<Longrightarrow> FindSymbol tab x = Some sy \<Longrightarrow> sy_addr sy = None \<Longrightarrow> sy_addr (f sy) \<noteq> None \<Longrightarrow>
   used_size (upd_sym x f tab) = used_size tab + sym_size (f sy)"
proof (induction tab)
  case (Cons p tab)
  obtain n t where p: "p = (n, t)" by (cases p)
  show ?case
  proof (cases "n = x")
    case True
    then show ?thesis using Cons.prems
      by (auto simp: p upd_sym_Cons upd_sym_absent used_size_def FindSymbol_def)
  next
    case False
    then show ?thesis using Cons by (simp add: p upd_sym_Cons used_size_def FindSymbol_def)
  qed
qed (simp add: FindSymbol_def)

lemma frame_size_upd:
  assumes "\<And>sy. global_var (f sy) = global_var sy" "\<And>sy. sym_size (f sy) = sym_size sy"
  shows "frame_size (upd_sym x f tab) = frame_size tab"
  by (induction tab) (simp_all add: frame_size_def upd_sym_def assms split: prod.splits)

lemma used_le_frame:
  assumes "\<And>x sy. (x, sy) \<in> set tab \<Longrightarrow> sy_addr sy \<noteq> None \<Longrightarrow> global_var sy"
  shows "used_size tab \<le> frame_size tab" "0 \<le> used_size tab"
  using assms
proof (induction tab)
  case (Cons p tab)
  {
    case 1
    then show ?case using Cons(1) sym_size_nonneg [of "snd p"]
      by (cases p) (force simp: used_size_def frame_size_def)
  next
    case 2
    then show ?case using Cons(2) sym_size_nonneg [of "snd p"]
      by (cases p) (force simp: used_size_def)
  }
qed (simp_all add: used_size_def frame_size_def)

lemma place_sym [simp]:
  "GetSymSize (sy\<lparr>is_global := b, sy_addr := a\<rparr>) = GetSymSize sy"
  "sym_size (sy\<lparr>is_global := b, sy_addr := a\<rparr>) = sym_size sy"
  "global_var (sy\<lparr>is_global := b, sy_addr := a\<rparr>) = global_var sy"
proof -
  show 1: "GetSymSize (sy\<lparr>is_global := b, sy_addr := a\<rparr>) = GetSymSize sy"
    by (cases "sy_ty sy") (simp_all add: GetSymSize_def arr_size_def get_total_size_def)
  show "sym_size (sy\<lparr>is_global := b, sy_addr := a\<rparr>) = sym_size sy" by (simp add: sym_size_def 1)
  show "global_var (sy\<lparr>is_global := b, sy_addr := a\<rparr>) = global_var sy" by (simp add: global_var_def)
qed

lemma symtab_wf_distinct: "symtab_wf tab \<Longrightarrow> distinct (map fst tab)"
  by (simp add: symtab_wf_def)

lemma FindSymbol_mem: "symtab_wf tab \<Longrightarrow> (x, sy) \<in> set tab \<longleftrightarrow> FindSymbol tab x = Some sy"
  using map_of_eq_Some_iff [OF symtab_wf_distinct, of tab x sy] by (simp add: FindSymbol_def)

lemma vars_tabD:
  assumes "vars_tab K tab" "cfg_vars K x = Some (ty, n)" "FindSymbol tab x = Some sy"
  shows "sy_ty sy = ty" "GetSymSize sy = Ok (int n)" "global_var sy"
proof -
  obtain t where "FindSymbol tab x = Some t" "sy_ty t = ty" "GetSymSize t = Ok (int n)" "global_var t"
    using assms(1,2) unfolding vars_tab_def by blast
  then show "sy_ty sy = ty" "GetSymSize sy = Ok (int n)" "global_var sy" using assms(3) by simp_all
qed

lemma frame_inv_global:
  assumes "frame_inv K c" "(x, sy) \<in> set (cg_syms c)" "sy_addr sy \<noteq> None"
  shows "global_var sy"
proof -
  have f: "FindSymbol (cg_syms c) x = Some sy"
    using FindSymbol_mem [of "cg_syms c" x sy] assms(1,2) by (simp add: frame_inv_def)
  have "x \<in> dom (cfg_vars K)" using assms(1,3) f unfolding frame_inv_def by blast
  then obtain ty n where "cfg_vars K x = Some (ty, n)" by auto
  moreover have "vars_tab K (cg_syms c)" using assms(1) by (simp add: frame_inv_def)
  ultimately show ?thesis using f vars_tabD by fastforce
qed

lemma frame_inv_stack:
  assumes "frame_inv K c"
  shows "0 \<le> cg_global_stack c" "cg_global_stack c \<le> frame_size (cg_syms c)"
  using used_le_frame [of "cg_syms c"] frame_inv_global [OF assms] assms by (auto simp: frame_inv_def)

text \<open>A new variable is placed below all others.\<close>

lemma place_var_frame:
  assumes inv: "frame_inv K c" and sc: "cg_curscope c = []"
    and sy: "FindSymbol (cg_syms c) x = Some sy" "sy_addr sy = None" "x \<in> dom (cfg_vars K)"
    and pl: "place_var sy c = Ok (sy', c')"
  obtains n where "GetSymSize sy = Ok (int n)" "sy' = sy\<lparr>is_global := True, sy_addr := Some (- cg_global_stack c - int n)\<rparr>"
    "c' = c\<lparr>cg_global_stack := cg_global_stack c + int n, cg_syms := cg_syms c'\<rparr>"
    "FindSymbol (cg_syms c') x = Some sy'" "frame_inv K c'" "syms_le (cg_syms c) (cg_syms c')"
    "frame_size (cg_syms c') = frame_size (cg_syms c)"
proof -
  let ?tab = "cg_syms c"
  obtain ty n where xn: "cfg_vars K x = Some (ty, n)" using sy(3) by auto
  then have n: "GetSymSize sy = Ok (int n)" "global_var sy" "sy_ty sy = ty"
    using inv sy(1) xn vars_tabD [of K ?tab] by (auto simp: frame_inv_def)
  define place where "place = (\<lambda>sy :: symbol. sy\<lparr>is_global := True, sy_addr := Some (- cg_global_stack c - int n)\<rparr>)"
  define tab where "tab = upd_sym x place ?tab"
  have wf: "symtab_wf ?tab" and nm: "scoped_name sy = x"
    using inv symtab_wf_find [OF _ sy(1)] by (auto simp: frame_inv_def)
  have used: "used_size tab = used_size ?tab + int n"
    unfolding tab_def using used_size_upd [OF symtab_wf_distinct [OF wf] sy(1,2), of place] n
    by (simp add: place_def sym_size_def)
  have fs: "frame_size tab = frame_size ?tab"
    unfolding tab_def by (rule frame_size_upd) (simp_all add: place_def)
  have wf': "symtab_wf tab" unfolding tab_def by (rule upd_sym_wf [OF wf]) (simp add: place_def)
  have find: "FindSymbol tab y = (if y = x then Some (place sy) else FindSymbol ?tab y)" for y
    using sy(1) by (simp add: tab_def FindSymbol_upd)
  have "used_size tab \<le> frame_size tab"
  proof (rule used_le_frame(1))
    fix y t
    assume "(y, t) \<in> set tab" "sy_addr t \<noteq> None"
    then have "FindSymbol tab y = Some t" "sy_addr t \<noteq> None" using FindSymbol_mem [OF wf'] by simp_all
    then show "global_var t"
      using find [of y] n(2) frame_inv_global [OF inv] FindSymbol_mem [OF wf] by (auto simp: place_def split: if_splits)
  qed
  then have lt: "cg_global_stack c + int n < 2 ^ 31" "0 \<le> cg_global_stack c"
    using used fs inv frame_inv_stack [OF inv] by (auto simp: frame_inv_def)
  then have w: "wrap32 (cg_global_stack c + int n) = cg_global_stack c + int n"
    "wrap32 (- cg_global_stack c - int n) = - cg_global_stack c - int n"
    by (simp_all add: addr_rangeD addr_range_def)
  have eq: "sy' = place sy" "c' = c\<lparr>cg_global_stack := cg_global_stack c + int n, cg_syms := tab\<rparr>"
    using pl sc by (simp_all add: place_var_def n(1) w nm tab_def place_def Let_def)
  have pl_iff: "placed K tab y a k \<longleftrightarrow>
      (if y = x then a = - cg_global_stack c - int n \<and> k = n else placed K ?tab y a k)" for y a k
    using xn by (auto simp: placed_def find place_def)
  have old: "- cg_global_stack c \<le> a \<and> a + int k \<le> 0" if "placed K ?tab y a k" for y a k
    using inv that unfolding frame_inv_def by blast
  have "vars_tab K tab"
  proof -
    have "vars_tab K ?tab" using inv by (simp add: frame_inv_def)
    then show ?thesis
      using n xn unfolding vars_tab_def by (auto simp: find place_def)
  qed
  moreover have "\<forall>y t. FindSymbol tab y = Some t \<longrightarrow> sy_addr t \<noteq> None \<longrightarrow> y \<in> dom (cfg_vars K) \<and> is_global t"
    using inv sy(3) unfolding frame_inv_def by (auto simp: find place_def split: if_splits)
  moreover have "a + int n' \<le> b \<or> b + int k \<le> a"
    if "placed K tab y a n'" "placed K tab z b k" "y \<noteq> z" for y a n' z b k
  proof (cases "y = x \<or> z = x")
    case True
    then show ?thesis using that old [of y a n'] old [of z b k] by (auto simp: pl_iff split: if_splits)
  next
    case False
    then show ?thesis using that inv unfolding frame_inv_def by (auto simp: pl_iff)
  qed
  moreover have "- (cg_global_stack c + int n) \<le> a \<and> a + int k \<le> 0" if "placed K tab y a k" for y a k
    using that old [of y a k] lt(2) by (auto simp: pl_iff split: if_splits)
  ultimately have "frame_inv K c'"
    using inv wf' used fs unfolding frame_inv_def eq by simp
  moreover have "syms_le ?tab tab" using sy by (auto simp: syms_le_def find)
  ultimately show ?thesis
    using that [of n] n(1) eq find [of x] fs by (simp add: place_def)
qed

section \<open>Runs of statements\<close>

text \<open>
  \<open>poised\<close>: between two statements the stack is empty and the store is in memory. A run keeps
  the registers, the configuration and the memory below the arena, where the code is, and
  leaves the instruction pointer at a given address.
\<close>

definition kept :: "int \<Rightarrow> vm \<Rightarrow> int \<Rightarrow> vm \<Rightarrow> bool" where
  "kept B s i s' \<longleftrightarrow> ctl s' = ctl (s\<lparr>m_ip := i\<rparr>) \<and> (\<forall>x < B. m_mem s' x = m_mem s x)"

definition poised :: "cfg \<Rightarrow> symtab \<Rightarrow> int \<Rightarrow> int \<Rightarrow> int \<Rightarrow> vm \<Rightarrow> store \<Rightarrow> bool" where
  "poised K T F B L s \<rho> \<longleftrightarrow> arena B L s \<and> stk_in L s [] \<and> B \<le> L \<and> env_at K T F L s \<rho>"

definition goes :: "cfg \<Rightarrow> symtab \<Rightarrow> int \<Rightarrow> int \<Rightarrow> int \<Rightarrow> vm \<Rightarrow> int \<Rightarrow> vm \<Rightarrow> store \<Rightarrow> bool" where
  "goes K T F B L s i s' \<rho>' \<longleftrightarrow>
     steps (cfg_env K) s s' \<and> poised K T F B L s' \<rho>' \<and> kept B s i s'"

definition does :: "cfg \<Rightarrow> store \<Rightarrow> symtab \<Rightarrow> byte list \<Rightarrow> nat \<Rightarrow> store \<Rightarrow> bool" where
  "does K \<rho> tab code m \<rho>' \<longleftrightarrow>
     (\<forall>T F B L s. syms_le tab T \<longrightarrow> poised K T F B L s \<rho> \<longrightarrow> code_in B s (m_ip s) code \<longrightarrow>
        B + int m \<le> L \<longrightarrow> (\<exists>s'. goes K T F B L s (m_ip s + int (length code)) s' \<rho>'))"

lemma keptD:
  assumes "kept B s i s'"
  shows "m_ip s' = i" "m_bp s' = m_bp s" "m_gbp s' = m_gbp s" "m_memsize s' = m_memsize s"
    "m_code_range s' = m_code_range s" "m_irqs s' = m_irqs s"
    "m_zeropoppedvals s' = m_zeropoppedvals s" "x < B \<Longrightarrow> m_mem s' x = m_mem s x"
proof -
  have c: "ctl s' = ctl (s\<lparr>m_ip := i\<rparr>)" using assms by (simp add: kept_def)
  note f = arg_cong [OF c]
  show "m_ip s' = i" "m_bp s' = m_bp s" "m_gbp s' = m_gbp s" "m_memsize s' = m_memsize s"
    "m_code_range s' = m_code_range s" "m_irqs s' = m_irqs s" "m_zeropoppedvals s' = m_zeropoppedvals s"
    using f [of m_ip] f [of m_bp] f [of m_gbp] f [of m_memsize] f [of m_code_range] f [of m_irqs]
      f [of m_zeropoppedvals] by simp_all
  show "x < B \<Longrightarrow> m_mem s' x = m_mem s x" using assms by (simp add: kept_def)
qed

lemma kept_trans: "kept B s i t \<Longrightarrow> kept B t j u \<Longrightarrow> kept B s j u"
  by (simp add: kept_def ctl_ip)

lemma kept_refl: "kept B s (m_ip s) s"
  by (simp add: kept_def)

lemma code_in_kept: "kept B s i s' \<Longrightarrow> code_in B s pc code \<Longrightarrow> code_in B s' pc code"
  using keptD [of B s i s'] by (auto simp: code_in_def elim!: bytes_at_cong)

lemma kept_outside: "outside B L s' = outside B L (s\<lparr>m_ip := i\<rparr>) \<Longrightarrow> kept B s i s'"
  using outsideD(11) [where B = B and L = L] by (fastforce simp: kept_def outside_def)

lemma goes_trans: "goes K T F B L s i t \<rho>1 \<Longrightarrow> goes K T F B L t j u \<rho>2 \<Longrightarrow> goes K T F B L s j u \<rho>2"
  unfolding goes_def using steps_trans kept_trans by blast

lemma goesD: "goes K T F B L s i t \<rho>1 \<Longrightarrow> m_ip t = i \<and> poised K T F B L t \<rho>1"
  unfolding goes_def using keptD(1) by blast

lemma goes_code: "goes K T F B L s i t \<rho>1 \<Longrightarrow> code_in B s pc code \<Longrightarrow> code_in B t pc code"
  unfolding goes_def using code_in_kept by blast

lemma goes_refl: "poised K T F B L s \<rho> \<Longrightarrow> goes K T F B L s (m_ip s) s \<rho>"
  by (simp add: goes_def kept_refl)

lemma doesD:
  "does K \<rho> tab code m \<rho>' \<Longrightarrow> syms_le tab T \<Longrightarrow> poised K T F B L s \<rho> \<Longrightarrow> code_in B s (m_ip s) code \<Longrightarrow>
   B + int m \<le> L \<Longrightarrow> \<exists>s'. goes K T F B L s (m_ip s + int (length code)) s' \<rho>'"
  unfolding does_def by blast

lemma does_mono: "does K \<rho> tab code m \<rho>' \<Longrightarrow> m \<le> m' \<Longrightarrow> syms_le tab tab' \<Longrightarrow> does K \<rho> tab' code m' \<rho>'"
  unfolding does_def syms_le_def by (smt (verit, best) of_nat_mono)

lemma does_nil: "does K \<rho> tab [] 0 \<rho>"
  unfolding does_def using goes_refl by fastforce

lemma does_seq:
  assumes "does K \<rho> tab k1 m \<rho>1" "does K \<rho>1 tab k2 m \<rho>2"
  shows "does K \<rho> tab (k1 @ k2) m \<rho>2"
  unfolding does_def
proof (intro allI impI)
  fix T F B L s
  assume T: "syms_le tab T" and p: "poised K T F B L s \<rho>" and c: "code_in B s (m_ip s) (k1 @ k2)"
    and room: "B + int m \<le> L"
  note c = c [unfolded code_in_append]
  obtain s1 where s1: "goes K T F B L s (m_ip s + int (length k1)) s1 \<rho>1"
    using doesD [OF assms(1) T p _ room] c by blast
  have "code_in B s1 (m_ip s1) k2" using goes_code [OF s1] goesD [OF s1] c by simp
  then obtain s2 where "goes K T F B L s1 (m_ip s1 + int (length k2)) s2 \<rho>2"
    using doesD [OF assms(2) T _ _ room] goesD [OF s1] by blast
  then show "\<exists>s'. goes K T F B L s (m_ip s + int (length (k1 @ k2))) s' \<rho>2"
    using goes_trans [OF s1] goesD [OF s1] by (auto simp: add.assoc)
qed

lemma poised_ready: "poised K T F B L s \<rho> \<Longrightarrow> code_in B s (m_ip s) code \<Longrightarrow> ready B L s code []"
  by (simp add: poised_def ready_def)

lemma poised_outside:
  assumes "poised K T F B L s \<rho>" "outside B L s' = outside B L (s\<lparr>m_ip := i\<rparr>)" "stk_in L s' []"
  shows "poised K T F B L s' \<rho>"
  using assms arena_outside [OF assms(2)] env_at_outside [OF assms(2)] by (simp add: poised_def)

text \<open>A jump, and the test of a condition.\<close>

lemma goes_jump:
  assumes p: "poised K T F B L s \<rho>" and c: "code_in B s (m_ip s) (push_addr VM_ADDR_IP off @ [opb OP_JMP])"
    and t: "0 \<le> m_ip s + 7 + off" "m_ip s + 7 + off \<le> B" and room: "B + 5 \<le> L"
  shows "\<exists>s'. goes K T F B L s (m_ip s + 7 + off) s' \<rho>"
proof -
  have "m_ip s + 7 \<le> B" "0 \<le> m_ip s" "B < 2 ^ 31"
    using code_in_bound [OF c] p by (auto simp: push_addr_cell poised_def arena_def)
  then have "addr_range off" using t by (simp add: addr_range_def)
  then obtain s' where s': "steps (cfg_env K) s s'" "stk_in L s' []"
      "outside B L s' = outside B L (s\<lparr>m_ip := m_ip s + 7 + off\<rparr>)"
    using run_jump [OF poised_ready [OF p c] _ t, of "cfg_env K"] room by auto
  then show ?thesis using poised_outside [OF p s'(3,2)] kept_outside [OF s'(3)] by (auto simp: goes_def)
qed

lemma goes_test:
  assumes k: "computes K \<rho> tab kc v m" "truth v = Some b" and T: "syms_le tab T" and p: "poised K T F B L s \<rho>"
    and c: "code_in B s (m_ip s) (kc @ [opb OP_NOT] @ push_addr VM_ADDR_IP off @ [opb OP_JMPCND])"
    and room: "B + int (max m 7) \<le> L"
    and t: "i = m_ip s + int (length kc) + 8 + (if b then 0 else off)" "m_ip s + int (length kc) + 8 + off \<le> B" "0 \<le> off"
  shows "\<exists>s'. goes K T F B L s i s' \<rho>"
proof -
  let ?jmp = "push_addr VM_ADDR_IP off @ [opb OP_JMPCND]"
  have env: "env_at K T F L s \<rho>" using p by (simp add: poised_def)
  have b2: "B + int (dsize [v]) \<le> L" using computes_bytes [OF k(1)] room by simp
  have room1: "B + int (m + dsize []) \<le> L" using room by simp
  have rd: "ready B L s ((kc @ [opb OP_NOT]) @ ?jmp) []" using poised_ready [OF p c] by simp
  have "\<exists>s1. runs (cfg_env K) B L s (kc @ [opb OP_NOT]) s1 [BoolD (if b then 0 else 1)]"
    by (rule computes_seq [OF k(1) T env ready_first [OF rd] room1]) (rule run_not [OF _ k(2)])
  then obtain s1 where s1: "runs (cfg_env K) B L s (kc @ [opb OP_NOT]) s1 [BoolD (if b then 0 else 1)]" ..
  have o1: "outside B L s1 = outside B L (s\<lparr>m_ip := m_ip s + int (length (kc @ [opb OP_NOT]))\<rparr>)"
    using s1 by (simp add: runs_def)
  have r1: "ready B L s1 ?jmp [BoolD (if b then 0 else 1)]"
    using ready_after [OF rd s1] room by simp
  have ip1: "m_ip s1 = m_ip s + int (length kc) + 1" using outsideD(1) [OF o1] by simp
  have bnd: "0 \<le> m_ip s1 + 7" "B < 2 ^ 31" "0 \<le> m_ip s"
    using r1 code_in_bound [OF c] by (auto simp: ready_def arena_def dest: code_in_bound)
  have tgt: "0 \<le> m_ip s1 + 7 + off" "m_ip s1 + 7 + off \<le> B" "addr_range off"
    using t bnd ip1 by (auto simp: addr_range_def)
  have room2: "B + int (7 + dsize []) \<le> L" using room by simp
  obtain s2 where s2: "steps (cfg_env K) s1 s2" "stk_in L s2 []"
      "outside B L s2 = outside B L (s1\<lparr>m_ip := m_ip s1 + 7 + (if (if b then 0 else 1 :: 8 word) \<noteq> 0 then off else 0)\<rparr>)"
    using run_jump_cond [OF r1 tgt(3,1,2) room2] by blast
  have i: "m_ip s1 + 7 + (if (if b then 0 else 1 :: 8 word) \<noteq> 0 then off else 0) = i" using ip1 t(1) by simp
  have o2: "outside B L s2 = outside B L (s\<lparr>m_ip := i\<rparr>)"
    using s2(3) outside_ip [OF o1, of i] unfolding i by simp
  show ?thesis
    using s1 s2(1) poised_outside [OF p o2 s2(2)] kept_outside [OF o2]
    by (auto simp: goes_def runs_def intro: steps_trans)
qed

section \<open>Conditionals and loops\<close>

definition test_code :: "byte list \<Rightarrow> int \<Rightarrow> byte list" where
  "test_code kc off = kc @ [opb OP_NOT] @ push_addr VM_ADDR_IP off @ [opb OP_JMPCND]"

definition jump_code :: "int \<Rightarrow> byte list" where
  "jump_code off = push_addr VM_ADDR_IP off @ [opb OP_JMP]"

definition if_code :: "byte list \<Rightarrow> byte list \<Rightarrow> byte list" where
  "if_code kc ka = test_code kc (int (length ka)) @ ka"

definition if_else_code :: "byte list \<Rightarrow> byte list \<Rightarrow> byte list \<Rightarrow> byte list" where
  "if_else_code kc ka kb =
     test_code kc (int (length ka) + 7) @ ka @ jump_code (int (length kb)) @ kb"

definition loop_code :: "byte list \<Rightarrow> byte list \<Rightarrow> byte list" where
  "loop_code kc kb =
     test_code kc (int (length kb) + 7) @ kb @ jump_code (- int (length kc + length kb + 15))"

lemma length_push_addr [simp]: "length (push_addr ty a) = 6"
  by (simp add: push_addr_cell)

lemma room_max:
  "B + int (max a b) \<le> L \<Longrightarrow> B + int a \<le> L" "B + int (max a b) \<le> L \<Longrightarrow> B + int b \<le> L"
  by (simp_all add: max_def split: if_splits)

lemma code_lengths [simp]:
  "length (test_code kc off) = length kc + 8" "length (jump_code off) = 7"
  "length (if_code kc ka) = length kc + 8 + length ka"
  "length (if_else_code kc ka kb) = length kc + 8 + length ka + 7 + length kb"
  "length (loop_code kc kb) = length kc + length kb + 15"
  by (simp_all add: test_code_def jump_code_def if_code_def if_else_code_def loop_code_def push_addr_cell)

text \<open>A test that goes on in the code behind it, or past it.\<close>

lemma does_test:
  assumes "computes K \<rho> tab kc v m" "truth v = Some b"
    and "syms_le tab T" "poised K T F B L s \<rho>" "code_in B s (m_ip s) (test_code kc off @ rest)"
    and "B + int (max m 7) \<le> L" "0 \<le> off" "off \<le> int (length rest)"
  obtains s1 where "goes K T F B L s (m_ip s + int (length kc) + 8 + (if b then 0 else off)) s1 \<rho>"
proof -
  have "code_in B s (m_ip s) (test_code kc off)" using assms(5) by (simp add: code_in_append)
  then show ?thesis
    using that goes_test [OF assms(1-4) _ assms(6) refl, of off] code_in_bound [OF assms(5)] assms(7,8)
    by (auto simp: test_code_def)
qed

lemma code_test_rest:
  "code_in B s pc (test_code kc off @ rest) \<Longrightarrow> code_in B s (pc + int (length kc) + 8) rest"
  by (simp add: code_in_append add.assoc)

lemma does_if_false:
  assumes k: "computes K \<rho> tab kc v m" "truth v = Some False"
  shows "does K \<rho> tab (if_code kc ka) (max m 7) \<rho>"
  unfolding does_def
proof (intro allI impI)
  fix T F B L s
  assume T: "syms_le tab T" and p: "poised K T F B L s \<rho>" and c: "code_in B s (m_ip s) (if_code kc ka)"
    and room: "B + int (max m 7) \<le> L"
  obtain s1 where "goes K T F B L s (m_ip s + int (length kc) + 8 + (if False then 0 else int (length ka))) s1 \<rho>"
    using does_test [OF k T p c [unfolded if_code_def] room] by auto
  then show "\<exists>s'. goes K T F B L s (m_ip s + int (length (if_code kc ka))) s' \<rho>" by (auto simp: add.assoc)
qed

lemma does_if_true:
  assumes k: "computes K \<rho> tab kc v m1" "truth v = Some True" and a: "does K \<rho> tab ka m2 \<rho>'"
  shows "does K \<rho> tab (if_code kc ka) (max (max m1 7) m2) \<rho>'"
  unfolding does_def
proof (intro allI impI)
  fix T F B L s
  assume T: "syms_le tab T" and p: "poised K T F B L s \<rho>" and c: "code_in B s (m_ip s) (if_code kc ka)"
    and room: "B + int (max (max m1 7) m2) \<le> L"
  note c = c [unfolded if_code_def]
  obtain s1 where s1: "goes K T F B L s (m_ip s + int (length kc) + 8) s1 \<rho>"
    using does_test [OF k T p c room_max(1) [OF room]] by auto
  have "code_in B s1 (m_ip s1) ka" using goes_code [OF s1 code_test_rest [OF c]] goesD [OF s1] by simp
  then obtain s2 where "goes K T F B L s1 (m_ip s1 + int (length ka)) s2 \<rho>'"
    using doesD [OF a T] goesD [OF s1] room by fastforce
  then show "\<exists>s'. goes K T F B L s (m_ip s + int (length (if_code kc ka))) s' \<rho>'"
    using goes_trans [OF s1] goesD [OF s1] by (auto simp: add.assoc)
qed

lemma does_else_true:
  assumes k: "computes K \<rho> tab kc v m1" "truth v = Some True" and a: "does K \<rho> tab ka m2 \<rho>'"
  shows "does K \<rho> tab (if_else_code kc ka kb) (max (max m1 7) m2) \<rho>'"
  unfolding does_def
proof (intro allI impI)
  fix T F B L s
  assume T: "syms_le tab T" and p: "poised K T F B L s \<rho>" and c: "code_in B s (m_ip s) (if_else_code kc ka kb)"
    and room: "B + int (max (max m1 7) m2) \<le> L"
  note bnd = code_in_bound [OF c, simplified]
  note c = c [unfolded if_else_code_def]
  obtain s1 where s1: "goes K T F B L s (m_ip s + int (length kc) + 8) s1 \<rho>"
    using does_test [OF k T p c room_max(1) [OF room]] by auto
  have c1: "code_in B s1 (m_ip s1) ka"
    "code_in B s1 (m_ip s1 + int (length ka)) (jump_code (int (length kb)))"
    using goes_code [OF s1 code_test_rest [OF c]] goesD [OF s1] by (simp_all add: code_in_append)
  then obtain s2 where s2: "goes K T F B L s1 (m_ip s1 + int (length ka)) s2 \<rho>'"
    using doesD [OF a T] goesD [OF s1] room by fastforce
  have ip: "m_ip s1 = m_ip s + int (length kc) + 8" "m_ip s2 = m_ip s1 + int (length ka)"
    using goesD [OF s1] goesD [OF s2] by auto
  have "code_in B s2 (m_ip s2) (jump_code (int (length kb)))" using goes_code [OF s2 c1(2)] ip by simp
  then obtain s3 where "goes K T F B L s2 (m_ip s2 + 7 + int (length kb)) s3 \<rho>'"
    using goes_jump [of K T F B L s2 \<rho>' "int (length kb)"] goesD [OF s2] bnd ip room_max(2) [OF room_max(1) [OF room]]
    by (auto simp: jump_code_def)
  then have "goes K T F B L s (m_ip s2 + 7 + int (length kb)) s3 \<rho>'"
    using goes_trans [OF goes_trans [OF s1 s2]] by blast
  then show "\<exists>s'. goes K T F B L s (m_ip s + int (length (if_else_code kc ka kb))) s' \<rho>'"
    using ip by (auto simp: algebra_simps)
qed

lemma does_else_false:
  assumes k: "computes K \<rho> tab kc v m1" "truth v = Some False" and b: "does K \<rho> tab kb m2 \<rho>'"
  shows "does K \<rho> tab (if_else_code kc ka kb) (max (max m1 7) m2) \<rho>'"
  unfolding does_def
proof (intro allI impI)
  fix T F B L s
  assume T: "syms_le tab T" and p: "poised K T F B L s \<rho>" and c: "code_in B s (m_ip s) (if_else_code kc ka kb)"
    and room: "B + int (max (max m1 7) m2) \<le> L"
  note c = c [unfolded if_else_code_def]
  obtain s1 where s1: "goes K T F B L s (m_ip s + int (length kc) + 8 + (int (length ka) + 7)) s1 \<rho>"
    using does_test [OF k T p c room_max(1) [OF room]] by auto
  have "code_in B s1 (m_ip s1) kb"
    using goes_code [OF s1 code_test_rest [OF c]] goesD [OF s1] by (simp add: code_in_append algebra_simps)
  then obtain s2 where "goes K T F B L s1 (m_ip s1 + int (length kb)) s2 \<rho>'"
    using doesD [OF b T] goesD [OF s1] room by fastforce
  then show "\<exists>s'. goes K T F B L s (m_ip s + int (length (if_else_code kc ka kb))) s' \<rho>'"
    using goes_trans [OF s1] goesD [OF s1] by (auto simp: algebra_simps)
qed

lemma does_loop_false:
  assumes k: "computes K \<rho> tab kc v m" "truth v = Some False"
  shows "does K \<rho> tab (loop_code kc kb) (max m 7) \<rho>"
  unfolding does_def
proof (intro allI impI)
  fix T F B L s
  assume T: "syms_le tab T" and p: "poised K T F B L s \<rho>" and c: "code_in B s (m_ip s) (loop_code kc kb)"
    and room: "B + int (max m 7) \<le> L"
  obtain s1 where "goes K T F B L s (m_ip s + int (length kc) + 8 + (if False then 0 else int (length kb) + 7)) s1 \<rho>"
    using does_test [OF k T p c [unfolded loop_code_def] room] by auto
  then show "\<exists>s'. goes K T F B L s (m_ip s + int (length (loop_code kc kb))) s' \<rho>" by (auto simp: algebra_simps)
qed

text \<open>One round of a loop jumps back to its first byte.\<close>

lemma does_loop_true:
  assumes k: "computes K \<rho> tab kc v m1" "truth v = Some True" and b: "does K \<rho> tab kb m2 \<rho>1"
    and l: "does K \<rho>1 tab (loop_code kc kb) m3 \<rho>2"
  shows "does K \<rho> tab (loop_code kc kb) (max (max m1 7) (max m2 m3)) \<rho>2"
  unfolding does_def
proof (intro allI impI)
  fix T F B L s
  assume T: "syms_le tab T" and p: "poised K T F B L s \<rho>" and c0: "code_in B s (m_ip s) (loop_code kc kb)"
    and room: "B + int (max (max m1 7) (max m2 m3)) \<le> L"
  note bnd = code_in_bound [OF c0, simplified]
  note c = c0 [unfolded loop_code_def]
  let ?off = "- int (length kc + length kb + 15)"
  obtain s1 where s1: "goes K T F B L s (m_ip s + int (length kc) + 8) s1 \<rho>"
    using does_test [OF k T p c room_max(1) [OF room]] by auto
  have c1: "code_in B s1 (m_ip s1) kb" "code_in B s1 (m_ip s1 + int (length kb)) (jump_code ?off)"
    using goes_code [OF s1 code_test_rest [OF c]] goesD [OF s1] by (simp_all add: code_in_append)
  then obtain s2 where s2: "goes K T F B L s1 (m_ip s1 + int (length kb)) s2 \<rho>1"
    using doesD [OF b T] goesD [OF s1] room by fastforce
  have ip: "m_ip s1 = m_ip s + int (length kc) + 8" "m_ip s2 = m_ip s1 + int (length kb)"
    using goesD [OF s1] goesD [OF s2] by auto
  have "code_in B s2 (m_ip s2) (jump_code ?off)" using goes_code [OF s2 c1(2)] ip by simp
  then obtain s3 where "goes K T F B L s2 (m_ip s2 + 7 + ?off) s3 \<rho>1"
    using goes_jump [of K T F B L s2 \<rho>1 ?off] goesD [OF s2] bnd ip room_max(2) [OF room_max(1) [OF room]]
    by (auto simp: jump_code_def)
  then have s3: "goes K T F B L s (m_ip s) s3 \<rho>1"
    using goes_trans [OF goes_trans [OF s1 s2]] ip by simp
  have "code_in B s3 (m_ip s3) (loop_code kc kb)" using goes_code [OF s3 c0] goesD [OF s3] by simp
  then obtain s4 where "goes K T F B L s3 (m_ip s3 + int (length (loop_code kc kb))) s4 \<rho>2"
    using doesD [OF l T] goesD [OF s3] room by fastforce
  then show "\<exists>s'. goes K T F B L s (m_ip s + int (length (loop_code kc kb))) s' \<rho>2"
    using goes_trans [OF s3] goesD [OF s3] by auto
qed

section \<open>Assignments\<close>

lemma stored_fields [simp]:
  "m_ip (stored A w s) = m_ip s" "m_gbp (stored A w s) = m_gbp s" "arena B L (stored A w s) = arena B L s"
  by (simp_all add: stored_def arena_def quiet_def)

lemma store_at_stored:
  assumes env: "env_at K T F L s \<rho>" and x: "placed K T x a n" and w: "plain w" "data_bytes w \<le> n"
    and mem: "m_gbp s \<le> m_memsize s" "m_memsize s < 2 ^ 31" "0 \<le> L"
  shows "env_at K T F L (stored (m_gbp s + a) w s) (\<rho>(x \<mapsto> w))"
proof -
  let ?s = "stored (m_gbp s + a) w s"
  have lay: "layout K T F" "store_at K T s \<rho>" using env by (simp_all add: env_at_def)
  have rng: "L \<le> m_gbp s + a" "a + int n \<le> 0"
    using placed_range [OF lay(1) x] env by (auto simp: env_at_def)
  have "store_at K T ?s (\<rho>(x \<mapsto> w))"
    unfolding store_at_def
  proof (intro allI impI)
    fix y v
    assume v: "(\<rho>(x \<mapsto> w)) y = Some v"
    show "plain v \<and> (\<exists>b k. placed K T y b k \<and> data_bytes v \<le> k \<and>
        bytes_at ?s (m_gbp ?s + b) (enc_cell (cell_of v)))"
    proof (cases "y = x")
      case True
      have "in_mem s (m_gbp s + a) (int (length (enc_cell (cell_of w))))"
        using rng w(2) mem by (simp add: in_mem_def data_bytes_def)
      then have "bytes_at ?s (m_gbp s + a) (enc_cell (cell_of w))" unfolding stored_def by (rule bytes_at_put)
      moreover have "v = w" using True v by simp
      ultimately show ?thesis using True x w by auto
    next
      case False
      then obtain b k where b: "plain v" "placed K T y b k" "data_bytes v \<le> k"
          "bytes_at s (m_gbp s + b) (enc_cell (cell_of v))"
        using v lay(2) unfolding store_at_def by (metis fun_upd_other)
      have "a + int n \<le> b \<or> b + int k \<le> a" using lay(1) x b(2) False unfolding layout_def by metis
      then have "bytes_at ?s (m_gbp s + b) (enc_cell (cell_of v))"
        using b(3) w(2) by (intro bytes_at_cong [OF b(4)]) (auto simp: stored_def put_bytes_outside data_bytes_def)
      then show ?thesis using b by (auto simp: stored_def)
    qed
  qed
  then show ?thesis using env by (simp add: env_at_def stored_def)
qed

lemma computes_conv:
  assumes "computes K \<rho> tab k v m" "conv K ty v = Some w"
  shows "computes K \<rho> tab (k @ [opb (cast_code ty)]) w (max m (data_bytes w))"
  by (rule computes_unary [OF assms(1) refl], rule run_conv [OF _ _ assms(2)])

lemma does_assign:
  assumes k: "computes K \<rho> tab k w m" and w: "data_bytes w \<le> n"
    and sy: "FindSymbol tab x = Some sy" "sy_addr sy = Some a" "cfg_vars K x = Some (ty, n)"
    and m': "m \<le> m'" "data_bytes w + 5 \<le> m'"
  shows "does K \<rho> tab (k @ push_addr (base_reg sy) a @ [opb OP_WRMEM]) m' (\<rho>(x \<mapsto> w))"
  unfolding does_def
proof (intro allI impI)
  fix T F B L s
  let ?wr = "push_addr (base_reg sy) a @ [opb OP_WRMEM]"
  assume T: "syms_le tab T" and p: "poised K T F B L s \<rho>" and c: "code_in B s (m_ip s) (k @ ?wr)"
    and room: "B + int m' \<le> L"
  have env: "env_at K T F L s \<rho>" and ar: "arena B L s" using p by (simp_all add: poised_def)
  have sT: "FindSymbol T x = Some sy" using T sy by (auto simp: syms_le_def)
  have g: "is_global sy" using env sT sy(2,3) by (auto simp: env_at_def layout_def)
  have pl: "placed K T x a n" using sT sy(2,3) g by (auto simp: placed_def)
  have rng: "- F \<le> a" "a + int n \<le> 0" "addr_range a" "L + F \<le> m_gbp s"
    using placed_range [OF _ pl] env by (auto simp: env_at_def)
  note rd = poised_ready [OF p c]
  have r1: "B + int (m + dsize []) \<le> L" and r2: "B + int (data_bytes w + dsize []) \<le> L"
    and r3: "B + int (data_bytes w + 5 + dsize []) \<le> L" using room m' by simp_all
  obtain s1 where s1: "runs (cfg_env K) B L s k s1 [w]"
    using computes_run [OF k T env ready_first [OF rd] r1] by blast
  let ?i = "m_ip s + int (length k)"
  have o1: "outside B L s1 = outside B L (s\<lparr>m_ip := ?i\<rparr>)" using s1 by (simp add: runs_def)
  have rd1: "ready B L s1 ?wr [w]" using ready_after [OF rd s1] r2 by simp
  have pw: "plain w" using s1 by (simp add: runs_def stk_in_iff)
  have env1: "env_at K T F L s1 \<rho>" using env_at_runs [OF s1 env] .
  have f1: "m_gbp s1 = m_gbp s" "m_memsize s1 = m_memsize s" "m_ip s1 = ?i" using outsideD [OF o1] by simp_all
  let ?A = "m_gbp s1 + a"
  have mem: "m_gbp s1 \<le> m_memsize s1" "m_memsize s1 < 2 ^ 31" "0 \<le> B" "B \<le> L"
    using ar p by (auto simp: arena_def poised_def f1)
  have A: "in_mem s1 ?A (int (data_bytes w))" "L \<le> ?A" "B \<le> ?A"
    using rng w mem f1 by (auto simp: in_mem_def)
  obtain s2 where s2: "steps (cfg_env K) s1 s2" "stk_in L s2 []"
      "outside B L s2 = outside B L (stored ?A w (s1\<lparr>m_ip := m_ip s1 + 7\<rparr>))"
    using run_assign [OF rd1, of "cfg_env K"] A(1,2) rng(3) r3 by (auto simp: base_reg_global [OF g])
  define u where "u = stored ?A w (s1\<lparr>m_ip := m_ip s1 + 7\<rparr>)"
  have o2: "outside B L s2 = outside B L (u\<lparr>m_ip := m_ip u\<rparr>)"
    using s2(3) unfolding u_def [symmetric] by simp
  have "env_at K T F L (s1\<lparr>m_ip := m_ip s1 + 7\<rparr>) \<rho>"
    using env_at_outside [OF _ env1, of B _ "m_ip s1 + 7"] by blast
  then have "env_at K T F L u (\<rho>(x \<mapsto> w))"
    using store_at_stored [OF _ pl pw w, of F L "s1\<lparr>m_ip := m_ip s1 + 7\<rparr>"] mem by (simp add: u_def)
  then have env2: "env_at K T F L s2 (\<rho>(x \<mapsto> w))" using env_at_outside [OF o2] by blast
  have "arena B L u" using arena_outside [OF o1 ar] by (simp add: u_def stored_def arena_def quiet_def)
  then have "poised K T F B L s2 (\<rho>(x \<mapsto> w))"
    using arena_outside [OF o2] env2 s2(2) mem by (simp add: poised_def)
  moreover have "kept B s1 (m_ip s1 + 7) u"
    using A(3) by (auto simp: kept_def u_def stored_def ctl_def put_bytes_outside)
  then have "kept B s (m_ip s1 + 7) s2"
    using kept_trans [OF kept_trans [OF kept_outside [OF o1]]] kept_outside [OF o2]
    by (metis keptD(1))
  ultimately have "goes K T F B L s (m_ip s1 + 7) s2 (\<rho>(x \<mapsto> w))"
    using s1 s2(1) by (auto simp: goes_def runs_def intro: steps_trans)
  then show "\<exists>s'. goes K T F B L s (m_ip s + int (length (k @ ?wr))) s' (\<rho>(x \<mapsto> w))"
    by (auto simp: f1 algebra_simps)
qed

end
