(* ===== verification/CompileProg.thy ===== *)
theory CompileProg
  imports CompileStmt
begin

text \<open>
  What the generator makes of statements, and the theorem about them: a statement that ends in
  the reference semantics is compiled to code that ends behind its last byte, with the
  variables in memory as the semantics says.
\<close>

section \<open>Generators of statements\<close>

text \<open>
  \<open>ext\<close>: code is appended, symbols get addresses, and everything that is linked at the end of
  the generation is as it was.
\<close>

definition same_links :: "cg \<Rightarrow> cg \<Rightarrow> bool" where
  "same_links c c' \<longleftrightarrow> cg_consttab c' = cg_consttab c \<and> cg_const_addrs c' = cg_const_addrs c \<and>
     cg_func_comefroms c' = cg_func_comefroms c \<and> cg_goto_comefroms c' = cg_goto_comefroms c \<and>
     frame_size (cg_syms c') = frame_size (cg_syms c)"

definition ext :: "cfg \<Rightarrow> cg \<Rightarrow> byte list \<Rightarrow> cg \<Rightarrow> bool" where
  "ext K c code c' \<longleftrightarrow> top_level K c' \<and> cg_ostr c' = cg_ostr c @ code \<and> syms_le (cg_syms c) (cg_syms c') \<and>
     cg_cur_loop c' = cg_cur_loop c \<and> same_links c c'"

definition sgen :: "cfg \<Rightarrow> cgm \<Rightarrow> bool" where
  "sgen K g \<longleftrightarrow> (\<forall>c r c'. top_level K c \<longrightarrow> g c = Ok (r, c') \<longrightarrow> (\<exists>code. ext K c code c'))"

lemma sgenE:
  assumes "sgen K g" "top_level K c" "g c = Ok (r, c')"
  obtains code where "ext K c code c'"
  using assms unfolding sgen_def by blast

lemma frame_inv_cong:
  "cg_syms c' = cg_syms c \<Longrightarrow> cg_global_stack c' = cg_global_stack c \<Longrightarrow> frame_inv K c' = frame_inv K c"
  by (simp add: frame_inv_def)

lemma top_updates [simp]:
  "top_level K (emit bs c) = top_level K c" "top_level K (c\<lparr>cg_ostr := os\<rparr>) = top_level K c"
  "top_level K (c\<lparr>cg_cur_loop := ls\<rparr>) = top_level K c" "top_level K (c\<lparr>cg_loop_ident := i\<rparr>) = top_level K c"
  by (simp_all add: top_level_def emit_def frame_inv_def)

lemma syms_le_refl [simp]: "syms_le tab tab"
  by (simp add: syms_le_def)

lemma syms_le_trans: "syms_le t1 t2 \<Longrightarrow> syms_le t2 t3 \<Longrightarrow> syms_le t1 t3"
  by (simp add: syms_le_def)

lemma ext_emit: "top_level K c \<Longrightarrow> ext K c bs (emit bs c)"
  by (simp add: ext_def same_links_def emit_def)

lemma ext_trans: "ext K c k1 c1 \<Longrightarrow> ext K c1 k2 c2 \<Longrightarrow> ext K c (k1 @ k2) c2"
  by (auto simp: ext_def same_links_def intro: syms_le_trans)

lemma ext_nil: "top_level K c \<Longrightarrow> ext K c [] c"
  by (simp add: ext_def same_links_def)

lemma ext_code: "ext K c k c' \<Longrightarrow> ext K c k' c' \<longleftrightarrow> k' = k"
  by (auto simp: ext_def)

lemma ext_ostr: "ext K c k c' \<Longrightarrow> ext K c k' (c'\<lparr>cg_ostr := cg_ostr c @ k'\<rparr>)"
  by (auto simp: ext_def same_links_def)

lemma ext_top: "ext K c k c' \<Longrightarrow> top_level K c'"
  by (simp add: ext_def)

lemma emits_sgen: "emits g \<Longrightarrow> sgen K g"
  unfolding sgen_def using ext_emit by (metis emitsE)

lemma top_vars_ok: "top_level K c \<Longrightarrow> vars_ok K c"
  unfolding top_level_def frame_inv_def vars_tab_def vars_ok_def global_var_def by metis

section \<open>Patched jumps\<close>

lemma emit_jump_eq: "emit_jump op c = (tellp c + 2, emit (push_addr VM_ADDR_IP 0 @ [opb op]) c)"
  by (simp add: emit_jump_def push_addr_def tellp_def emit_def)

lemma overwrite_mid: "length xs = n \<Longrightarrow> length ys = length bs \<Longrightarrow> overwrite n bs (xs @ ys @ zs) = xs @ bs @ zs"
  by (simp add: overwrite_def)

lemma patch_jump:
  assumes "cg_ostr c = pre @ push_addr VM_ADDR_IP a @ rest" "n = length pre + 2"
  shows "patch n (enc_addr b) c = c\<lparr>cg_ostr := pre @ push_addr VM_ADDR_IP b @ rest\<rparr>"
  using overwrite_mid [of "pre @ [opb OP_PUSH, tyb VM_ADDR_IP]" n "enc_addr a" "enc_addr b" rest] assms
  by (simp add: patch_def push_addr_def)

section \<open>Assignments and declarations\<close>

lemma CastTo_assign: "\<not> IsArray (sy_ty t) \<Longrightarrow> CastTo (Some t) None True c = CastTo (Some t) None False c"
  by (cases "sy_ty t") (simp_all add: CastTo_def cast_op_def)

lemma emits_assign_to: "emits (assign_to x)"
proof -
  have "\<exists>code. c2 = emit code c" if "CastTo (Some sy) None True c = Ok c2" for sy c c2
    using that by (auto simp: CastTo_def rbind_eq_Ok split: prod.splits if_splits)
  then show ?thesis
    by (fastforce simp: emits_def assign_to_def rbind_eq_Ok AssignVar_def split: if_splits)
qed

lemma emits_seq: "(\<And>g. g \<in> set gs \<Longrightarrow> emits g) \<Longrightarrow> emits (gen_seq gs r)"
proof (induction gs arbitrary: r)
  case (Cons g gs)
  have g: "emits g" "\<And>r. emits (gen_seq gs r)" using Cons by simp_all
  show ?case
    unfolding emits_def
  proof (intro allI impI)
    fix c y c'
    assume "gen_seq (g # gs) r c = Ok (y, c')"
    then obtain z c1 where "g c = Ok (z, c1)" "gen_seq gs (first_sym r z) c1 = Ok (y, c')"
      by (auto simp: rbind_eq_Ok)
    then show "\<exists>code. c' = emit code c" using emitsE [OF g(1)] emitsE [OF g(2)] by (metis emit_emit)
  qed
qed (auto simp: emits_def intro: exI [of _ "[]"])

lemma emits_assign: "emits g \<Longrightarrow> emits (visit_Assign xs (Some g))"
  unfolding emits_def [of "visit_Assign xs (Some g)"]
proof (intro allI impI)
  fix c r c'
  assume g: "emits g" and "visit_Assign xs (Some g) c = Ok (r, c')"
  then obtain y c1 where "g c = Ok (y, c1)" "gen_seq (map assign_to xs) None c1 = Ok (r, c')"
    by (auto simp: visit_Assign_def gen_opt_def rbind_eq_Ok)
  moreover have "emits (gen_seq (map assign_to xs) None)" by (rule emits_seq) (auto simp: emits_assign_to)
  ultimately show "\<exists>code. c' = emit code c" using g by (metis emitsE emit_emit)
qed

text \<open>The code of an assignment of a value to one variable.\<close>

lemma assign_does:
  assumes c: "top_level K c" and g: "expr_frag a" and gen: "visit_Assign [x] (Some (gen a)) c = Ok (r, emit code c)"
    and ev: "eval K \<rho> a = Some (t, v, m)" and w: "assigned K x v = Some w"
  shows "does K \<rho> (cg_syms c) code (max m (data_bytes w + 5)) (\<rho>(x \<mapsto> w))"
proof -
  obtain ty n where x: "cfg_vars K x = Some (ty, n)" "\<not> IsArray ty" "conv K (Some ty) v = Some w" "data_bytes w \<le> n"
    using w by (auto simp: assigned_def bind_eq_Some_conv split: if_splits)
  obtain sy where sy: "FindSymbol (cg_syms c) x = Some sy" "sy_ty sy = ty"
    using c x(1) unfolding top_level_def frame_inv_def vars_tab_def by blast
  obtain y c1 where 1: "gen a c = Ok (y, c1)" and 2: "assign_to x c1 = Ok (r, emit code c)"
    using gen by (auto simp: visit_Assign_def gen_opt_def rbind_eq_Ok first_sym_def)
  obtain k where k: "c1 = emit k c" "computes K \<rho> (cg_syms c) k v m"
    using expr_compiles [OF g, of K \<rho>] 1 top_vars_ok [OF c] unfolding compiles_def ev by blast
  have gs: "GetSym x False None c1 = Ok sy"
    using GetSym_global sy(1) c by (simp add: k(1) top_level_def)
  then obtain ad where ad: "sy_addr sy = Some ad"
    using 2 by (cases "sy_addr sy") (simp_all add: assign_to_def)
  have "emit code c = emit (k @ [opb (cast_code (Some ty))] @ push_addr (base_reg sy) ad @ [opb OP_WRMEM]) c"
    using 2 gs ad x(2) sy(2) k(1)
    by (simp add: assign_to_def CastTo_assign CastTo_scalar AssignVar_def the_addr_def)
  then have code: "code = (k @ [opb (cast_code (Some ty))]) @ push_addr (base_reg sy) ad @ [opb OP_WRMEM]"
    by (simp add: emit_inj)
  show ?thesis
    unfolding code
    by (rule does_assign [OF computes_conv [OF k(2) x(3)] x(4) sy(1) ad x(1)]) auto
qed

lemma init_zero:
  assumes "zero_data (sy_ty sy) = Some w" "sy_addr sy = Some a"
  shows "init_var sy c = Ok (emit (opb OP_PUSH # enc_cell (cell_of w) @ push_addr (base_reg sy) a @ [opb OP_WRMEM]) c)"
    and "plain w" "\<exists>k. GetDataSize w = Ok k" "GetSymSize sy = Ok (int (data_bytes w))"
  using assms
  by (cases "sy_ty sy"; auto simp: init_var_def push_const_cell AssignVar_def the_addr_def GetSymSize_def
      data_bytes_def enc_cell_def cell_of_def length_enc_cplx length_enc_quat simp del: enc_quat.simps)+

lemma declare_place:
  assumes c: "top_level K c" and x: "x \<in> dom (cfg_vars K)"
    and d: "declare_var gassign False False x c = Ok (r, c')"
  obtains sy c1 n where "FindSymbol (cg_syms c1) x = Some sy" "sy_addr sy \<noteq> None" "ext K c [] c1"
    "GetSymSize sy = Ok n" "sy_ty sy = fst (the (cfg_vars K x))"
    "(case gassign of Some g \<Rightarrow> rbind (g c1) (\<lambda>(_, c). Ok c) | None \<Rightarrow> init_var sy c1) = Ok c'"
proof -
  have inv: "frame_inv K c" "cg_curscope c = []" using c by (simp_all add: top_level_def)
  obtain ty k where xk: "cfg_vars K x = Some (ty, k)" using x by auto
  then obtain sy where sy: "FindSymbol (cg_syms c) x = Some sy" "sy_ty sy = ty" "global_var sy"
    using inv(1) unfolding frame_inv_def vars_tab_def by blast
  have gs: "GetSym x True None c = Ok sy" using GetSym_global [OF inv(2) sy(1)] .
  have "sy_addr sy = None" using d gs sy(3)
    by (auto simp: declare_var_def check_decl_def global_var_def Let_def rbind_eq_Ok split: if_splits)
  moreover obtain sy' c1 where p: "place_var sy c = Ok (sy', c1)"
      "(case gassign of Some g \<Rightarrow> rbind (g c1) (\<lambda>(_, c). Ok c) | None \<Rightarrow> init_var sy' c1) = Ok c'"
    using d gs sy(3) by (auto simp: declare_var_def global_var_def rbind_eq_Ok)
  ultimately obtain n where n: "GetSymSize sy = Ok (int n)"
      "sy' = sy\<lparr>is_global := True, sy_addr := Some (- cg_global_stack c - int n)\<rparr>"
      "c1 = c\<lparr>cg_global_stack := cg_global_stack c + int n, cg_syms := cg_syms c1\<rparr>"
      "FindSymbol (cg_syms c1) x = Some sy'" "frame_inv K c1" "syms_le (cg_syms c) (cg_syms c1)"
      "frame_size (cg_syms c1) = frame_size (cg_syms c)"
    using place_var_frame [OF inv sy(1) _ x p(1)] by metis
  have "cg_curscope c1 = cg_curscope c" "cg_loop_begin_comefroms c1 = cg_loop_begin_comefroms c"
    "cg_loop_end_comefroms c1 = cg_loop_end_comefroms c" "cg_ostr c1 = cg_ostr c"
    "cg_cur_loop c1 = cg_cur_loop c" "cg_consttab c1 = cg_consttab c" "cg_const_addrs c1 = cg_const_addrs c"
    "cg_func_comefroms c1 = cg_func_comefroms c" "cg_goto_comefroms c1 = cg_goto_comefroms c"
    by (subst n(3), simp)+
  then have "ext K c [] c1" using n(5-7) c by (simp add: ext_def top_level_def same_links_def)
  moreover have "sy_ty sy' = fst (the (cfg_vars K x))" using n(2) sy(2) xk by simp
  ultimately show ?thesis using that [OF n(4) _ _ _ _ p(2), of "int n"] n(1,2) by simp
qed

section \<open>Conditionals and loops\<close>

lemma enc_addr_len [simp]: "length (enc_addr a) = 4"
  by (simp add: enc_addr_def)

lemma test_jump [simplified]:
  "emit_jump OP_JMPCND (emit (kc @ [opb OP_NOT]) c) = (tellp c + length kc + 3, emit (test_code kc 0) c)"
  by (simp add: emit_jump_eq test_code_def tellp_def)

lemma else_jump: "emit_jump OP_JMP c = (tellp c + 2, emit (jump_code 0) c)"
  by (simp add: emit_jump_eq jump_code_def)

lemma top_close:
  "top_level K c \<Longrightarrow> top_level K (c\<lparr>cg_loop_begin_comefroms := [], cg_loop_end_comefroms := [], cg_cur_loop := l\<rparr>)"
  using frame_inv_cong
    [of "c\<lparr>cg_loop_begin_comefroms := [], cg_loop_end_comefroms := [], cg_cur_loop := l\<rparr>" c K]
  by (simp add: top_level_def)

lemma patch_test:
  assumes "cg_ostr c1 = pre @ test_code kc 0 @ rest" "n = length pre + length kc + 3"
  shows "patch n (enc_addr off) c1 = c1\<lparr>cg_ostr := pre @ test_code kc off @ rest\<rparr>"
  using patch_jump [of c1 "pre @ kc @ [opb OP_NOT]" 0 "[opb OP_JMPCND] @ rest" n off] assms
  by (simp add: test_code_def)

lemma cond_shape:
  assumes gc: "emits gc" and ga: "sgen K ga" and c: "top_level K c" and g: "visit_Cond gc ga None c = Ok (r, c')"
  obtains kc ka r1 r2 c2 where "gc c = Ok (r1, emit kc c)" "ga (emit (test_code kc 0) c) = Ok (r2, c2)"
    "ext K (emit (test_code kc 0) c) ka c2" "ext K c (if_code kc ka) c'" "cg_syms c' = cg_syms c2"
proof -
  obtain r1 c1 where 1: "gc c = Ok (r1, c1)" using g by (auto simp: visit_Cond_def rbind_eq_Ok)
  obtain kc where kc: "c1 = emit kc c" using emitsE [OF gc 1] .
  let ?c1 = "emit (test_code kc 0) c"
  obtain r2 c2 where 2: "ga ?c1 = Ok (r2, c2)"
    using g 1 kc by (auto simp: visit_Cond_def rbind_eq_Ok test_jump Let_def)
  obtain ka where ka: "ext K ?c1 ka c2" using sgenE [OF ga _ 2] c by auto
  have ostr: "cg_ostr c2 = cg_ostr c @ test_code kc 0 @ ka" using ka by (simp add: ext_def)
  have "c' = patch (tellp c + length kc + 3) (enc_addr (int (tellp c2) - int (tellp ?c1))) c2"
    using g 1 kc 2 by (simp add: visit_Cond_def test_jump Let_def)
  also have "\<dots> = c2\<lparr>cg_ostr := cg_ostr c @ if_code kc ka\<rparr>"
    using patch_test [OF ostr] by (simp add: tellp_def ostr if_code_def)
  finally have c': "c' = c2\<lparr>cg_ostr := cg_ostr c @ if_code kc ka\<rparr>" .
  have "ext K c (if_code kc ka) c'"
    unfolding c' using ext_ostr [OF ext_trans [OF ext_emit [OF c] ka]] .
  then show ?thesis using that [of r1 kc r2 c2 ka] 1 kc 2 ka c' by simp
qed

lemma cond_else_shape:
  assumes gc: "emits gc" and ga: "sgen K ga" and gb: "sgen K gb" and c: "top_level K c"
    and g: "visit_Cond gc ga (Some gb) c = Ok (r, c')"
  obtains kc ka kb r1 r2 r3 c2 c3 c4 where "gc c = Ok (r1, emit kc c)" "ga (emit (test_code kc 0) c) = Ok (r2, c2)"
    "ext K (emit (test_code kc 0) c) ka c2" "gb c3 = Ok (r3, c4)" "ext K c3 kb c4" "cg_syms c3 = cg_syms c2"
    "top_level K c3" "ext K c (if_else_code kc ka kb) c'" "cg_syms c' = cg_syms c4"
proof -
  obtain r1 c1 where 1: "gc c = Ok (r1, c1)" using g by (auto simp: visit_Cond_def rbind_eq_Ok)
  obtain kc where kc: "c1 = emit kc c" using emitsE [OF gc 1] .
  let ?c1 = "emit (test_code kc 0) c"
  obtain r2 c2 where 2: "ga ?c1 = Ok (r2, c2)"
    using g 1 kc by (auto simp: visit_Cond_def rbind_eq_Ok test_jump Let_def)
  obtain ka where ka: "ext K ?c1 ka c2" using sgenE [OF ga _ 2] c by auto
  have ostr2: "cg_ostr c2 = cg_ostr c @ test_code kc 0 @ ka" using ka by (simp add: ext_def)
  let ?pre = "test_code kc (int (length ka) + 7) @ ka"
  define c3 where "c3 = c2\<lparr>cg_ostr := cg_ostr c @ ?pre @ jump_code 0\<rparr>"
  have p3: "patch (tellp c + length kc + 3) (enc_addr (int (tellp (emit (jump_code 0) c2)) - int (tellp ?c1)))
      (emit (jump_code 0) c2) = c3"
    using patch_test [of "emit (jump_code 0) c2" "cg_ostr c" kc "ka @ jump_code 0" "tellp c + length kc + 3"]
    by (simp add: tellp_def ostr2 c3_def emit_def add.commute)
  have "is_ok (gb c3)"
    using g 1 kc 2 p3 by (cases "gb c3") (auto simp: visit_Cond_def test_jump Let_def else_jump)
  then obtain r3 c4 where 3: "gb c3 = Ok (r3, c4)" by (cases "gb c3") auto
  have e3: "ext K c (?pre @ jump_code 0) c3"
    unfolding c3_def using ext_ostr [OF ext_trans [OF ext_emit [OF c] ka]] .
  obtain kb where kb: "ext K c3 kb c4" using sgenE [OF gb ext_top [OF e3] 3] by auto
  have ostr4: "cg_ostr c4 = (cg_ostr c @ ?pre) @ push_addr VM_ADDR_IP 0 @ [opb OP_JMP] @ kb"
    using kb by (simp add: ext_def c3_def jump_code_def)
  have "c' = patch (tellp c2 + 2) (enc_addr (int (tellp c4) - int (tellp c3))) c4"
    using g 1 kc 2 p3 3 by (simp add: visit_Cond_def test_jump Let_def else_jump)
  also have "\<dots> = c4\<lparr>cg_ostr := cg_ostr c @ if_else_code kc ka kb\<rparr>"
    using patch_jump [OF ostr4, of "tellp c2 + 2"] ostr2
    by (simp add: tellp_def ostr4 c3_def if_else_code_def jump_code_def)
  finally have c': "c' = c4\<lparr>cg_ostr := cg_ostr c @ if_else_code kc ka kb\<rparr>" .
  have "ext K c (if_else_code kc ka kb) c'"
    unfolding c' using ext_ostr [OF ext_trans [OF e3 kb]] .
  then show ?thesis
    using that [OF 1 [unfolded kc] 2 ka 3 kb _ ext_top [OF e3]] c' by (simp add: c3_def)
qed

lemma loop_shape:
  assumes gc: "emits gc" and gb: "sgen K gb" and c: "top_level K c" and g: "visit_Loop gc gb c = Ok (r, c')"
  obtains kc kb r1 r2 c0 c2 where "gc c0 = Ok (r1, emit kc c0)" "gb (emit (test_code kc 0) c0) = Ok (r2, c2)"
    "ext K (emit (test_code kc 0) c0) kb c2" "ext K c (loop_code kc kb) c'" "cg_syms c0 = cg_syms c" "top_level K c0"
    "cg_syms c' = cg_syms c2"
proof -
  define i where "i = cg_loop_ident c + 1"
  define c0 where "c0 = c\<lparr>cg_loop_ident := i, cg_cur_loop := cg_cur_loop c @ [i]\<rparr>"
  have en: "enter_loop c = (i, c0)" by (simp add: enter_loop_def c0_def i_def Let_def)
  have t0: "top_level K c0" using c by (simp add: c0_def)
  obtain r1 c1 where 1: "gc c0 = Ok (r1, c1)" using g by (auto simp: visit_Loop_def en rbind_eq_Ok Let_def)
  obtain kc where kc: "c1 = emit kc c0" using emitsE [OF gc 1] .
  let ?c1 = "emit (test_code kc 0) c0"
  obtain r2 c2 where 2: "gb ?c1 = Ok (r2, c2)"
    using g 1 kc by (auto simp: visit_Loop_def en rbind_eq_Ok test_jump Let_def)
  obtain kb where kb: "ext K ?c1 kb c2" using sgenE [OF gb _ 2] t0 by auto
  have ostr0: "cg_ostr c0 = cg_ostr c" by (simp add: c0_def)
  have ostr2: "cg_ostr c2 = cg_ostr c @ test_code kc 0 @ kb" using kb by (simp add: ext_def ostr0)
  have t2: "cg_loop_begin_comefroms c2 = []" "cg_loop_end_comefroms c2 = []" "cg_cur_loop c2 = cg_cur_loop c @ [i]"
    using kb by (simp_all add: ext_def top_level_def c0_def emit_def)
  let ?rear = "jump_code (- int (length kc + length kb + 15))"
  define c3 where "c3 = emit ?rear c2"
  have fin: "finish_loop i (tellp c0) (tellp c0 + length kc + 3) (tellp ?c1) c2 =
      Ok (None, (patch (tellp c0 + length kc + 3) (enc_addr (int (length kb) + 7)) c3)
        \<lparr>cg_loop_begin_comefroms := [], cg_loop_end_comefroms := [], cg_cur_loop := cg_cur_loop c\<rparr>)"
    using t2
    by (simp add: finish_loop_def Let_def c3_def jump_code_def push_addr_def skip_bytes_def tellp_def ostr0 ostr2
        emit_def comefroms_def drop_comefroms_def patch_all_def patch_def add.commute)
  have p: "patch (tellp c0 + length kc + 3) (enc_addr (int (length kb) + 7)) c3 =
      c3\<lparr>cg_ostr := cg_ostr c @ loop_code kc kb\<rparr>"
    using patch_test [of c3 "cg_ostr c" kc "kb @ ?rear"] ostr2
    by (simp add: c3_def tellp_def ostr0 loop_code_def emit_def)
  have c': "c' = (c3\<lparr>cg_ostr := cg_ostr c @ loop_code kc kb\<rparr>)
      \<lparr>cg_loop_begin_comefroms := [], cg_loop_end_comefroms := [], cg_cur_loop := cg_cur_loop c\<rparr>"
    using g 1 kc 2 fin p by (simp add: visit_Loop_def en Let_def test_jump)
  have e3: "ext K c0 (test_code kc 0 @ kb) c2" using ext_trans [OF ext_emit [OF t0] kb] .
  have "ext K c (loop_code kc kb) c'"
    using e3 top_close [of K "c3\<lparr>cg_ostr := cg_ostr c @ loop_code kc kb\<rparr>"]
    by (simp add: c' c3_def ext_def same_links_def c0_def) (simp add: emit_def)
  moreover have "cg_syms c' = cg_syms c2" by (simp add: c' c3_def)
  ultimately show ?thesis using that [OF 1 [unfolded kc] 2 kb _ _ t0] by (simp add: c0_def)
qed

section \<open>Statements\<close>

text \<open>
  The statements covered. A declaration names variables of the configuration; without a value
  their types must have a zero that is no string or array.
\<close>

function (sequential) stmt_frag :: "cfg \<Rightarrow> ast \<Rightarrow> bool" where
  "stmt_frag K (ASTStmts as) \<longleftrightarrow> (\<forall>a \<in> set as. stmt_frag K a)"
| "stmt_frag K (ASTAssign xs ex) \<longleftrightarrow> (case ex of None \<Rightarrow> False | Some a \<Rightarrow> length xs = 1 \<and> expr_frag a)"
| "stmt_frag K (ASTVarDecl xs asg intent_in intent_out) \<longleftrightarrow> \<not> intent_in \<and> \<not> intent_out \<and>
     set xs \<subseteq> dom (cfg_vars K) \<and>
     (case asg of
        None \<Rightarrow> (\<forall>x \<in> set xs. zero_data (fst (the (cfg_vars K x))) \<noteq> None)
      | Some a \<Rightarrow> stmt_frag K a)"
| "stmt_frag K (ASTCond c a b) \<longleftrightarrow> expr_frag c \<and> stmt_frag K a \<and> (case b of None \<Rightarrow> True | Some b \<Rightarrow> stmt_frag K b)"
| "stmt_frag K (ASTLoop c a) \<longleftrightarrow> expr_frag c \<and> stmt_frag K a"
| "stmt_frag K _ \<longleftrightarrow> False"
  by pat_completeness auto

termination
  by (relation "measure (\<lambda>(K, a). size a)") (force dest: size_mem)+

lemma sgen_seq: "(\<And>g. g \<in> set gs \<Longrightarrow> sgen K g) \<Longrightarrow> sgen K (gen_seq gs r)"
proof (induction gs arbitrary: r)
  case (Cons g gs)
  show ?case
    unfolding sgen_def
  proof (intro allI impI)
    fix c y c'
    assume c: "top_level K c" and g: "gen_seq (g # gs) r c = Ok (y, c')"
    obtain z c1 where 1: "g c = Ok (z, c1)" "gen_seq gs (first_sym r z) c1 = Ok (y, c')"
      using g by (auto simp: rbind_eq_Ok)
    have sg: "sgen K g" "sgen K (gen_seq gs (first_sym r z))"
      using Cons.prems Cons.IH [of "first_sym r z"] by simp_all
    obtain k1 where k1: "ext K c k1 c1" using sgenE [OF sg(1) c 1(1)] .
    obtain k2 where "ext K c1 k2 c'" using sgenE [OF sg(2) ext_top [OF k1] 1(2)] .
    then show "\<exists>code. ext K c code c'" using ext_trans [OF k1] by blast
  qed
qed (auto simp: sgen_def intro: ext_nil)

lemma sgen_stmts: "(\<And>g. g \<in> set gs \<Longrightarrow> sgen K g) \<Longrightarrow> sgen K (visit_Stmts gs)"
proof -
  assume "\<And>g. g \<in> set gs \<Longrightarrow> sgen K g"
  then have s: "sgen K (gen_seq gs None)" by (rule sgen_seq)
  show "sgen K (visit_Stmts gs)"
    unfolding sgen_def
  proof (intro allI impI)
    fix c r c'
    assume c: "top_level K c" and "visit_Stmts gs c = Ok (r, c')"
    then obtain y where "gen_seq gs None c = Ok (y, c')" by (auto simp: visit_Stmts_def rbind_eq_Ok)
    then show "\<exists>code. ext K c code c'" using sgenE [OF s c] by blast
  qed
qed

lemma sgen_declare:
  assumes x: "x \<in> dom (cfg_vars K)"
    and g: "case gassign of Some g \<Rightarrow> sgen K g | None \<Rightarrow> zero_data (fst (the (cfg_vars K x))) \<noteq> None"
  shows "sgen K (declare_var gassign False False x)"
  unfolding sgen_def
proof (intro allI impI)
  fix c r c'
  assume c: "top_level K c" and d: "declare_var gassign False False x c = Ok (r, c')"
  obtain sy c1 n where p: "FindSymbol (cg_syms c1) x = Some sy" "sy_addr sy \<noteq> None" "ext K c [] c1"
    "GetSymSize sy = Ok n" "sy_ty sy = fst (the (cfg_vars K x))"
    "(case gassign of Some g \<Rightarrow> rbind (g c1) (\<lambda>(_, c). Ok c) | None \<Rightarrow> init_var sy c1) = Ok c'"
    by (rule declare_place [OF c x d])
  have "\<exists>code. ext K c1 code c'"
  proof (cases gassign)
    case None
    obtain w where w: "zero_data (sy_ty sy) = Some w" using g None p(5) by auto
    obtain a where "sy_addr sy = Some a" using p(2) by auto
    then show ?thesis
      using init_zero(1) [OF w] p(6) None ext_emit [OF ext_top [OF p(3)]] by auto
  next
    case (Some g)
    then have sg: "sgen K g" using assms(2) by simp
    obtain y where "g c1 = Ok (y, c')" using p(6) Some by (auto simp: rbind_eq_Ok)
    then show ?thesis using sgenE [OF sg ext_top [OF p(3)]] by blast
  qed
  then show "\<exists>code. ext K c code c'" using ext_trans [OF p(3)] by blast
qed

lemma sgen_cond:
  assumes "emits gc" "sgen K ga" "\<And>g. gb = Some g \<Longrightarrow> sgen K g"
  shows "sgen K (visit_Cond gc ga gb)"
  unfolding sgen_def
proof (intro allI impI)
  fix c r c'
  assume c: "top_level K c" and g: "visit_Cond gc ga gb c = Ok (r, c')"
  show "\<exists>code. ext K c code c'"
  proof (cases gb)
    case None
    then show ?thesis using cond_shape [OF assms(1,2) c] g by blast
  next
    case (Some g')
    then show ?thesis using cond_else_shape [OF assms(1,2) assms(3) c] g by blast
  qed
qed

lemma sgen_loop: "emits gc \<Longrightarrow> sgen K gb \<Longrightarrow> sgen K (visit_Loop gc gb)"
  unfolding sgen_def [of K "visit_Loop gc gb"] using loop_shape by meson

text \<open>What the generator does to its state, whether or not the statement is executed.\<close>

theorem stmt_sgen: "stmt_frag K a \<Longrightarrow> sgen K (gen a)"
proof (induction K a rule: stmt_frag.induct)
  case (1 K as)
  then show ?case by (auto intro!: sgen_stmts)
next
  case (2 K xs ex)
  then show ?case by (auto simp: expr_emits emits_assign intro!: emits_sgen split: option.splits)
next
  case (3 K xs asg intent_in intent_out)
  have "sgen K (declare_var (map_option gen asg) False False x)" if "x \<in> set xs" for x
    using 3 that by (intro sgen_declare) (auto split: option.splits)
  then show ?case using 3 by (auto simp: visit_VarDecl_def intro!: sgen_seq)
next
  case (4 K c a b)
  then show ?case by (auto simp: expr_emits intro!: sgen_cond split: option.splits)
next
  case (5 K c a)
  then show ?case by (simp add: expr_emits sgen_loop)
qed simp_all

lemma compilesE:
  assumes "expr_frag a" "eval K \<rho> a = Some (t, v, m)" "top_level K c" "gen a c = Ok (r, emit k c)"
  shows "computes K \<rho> (cg_syms c) k v m"
proof -
  have "compiles K \<rho> (gen a) (Some (t, v, m))"
    using expr_compiles [OF assms(1), of K \<rho>] by (simp add: assms(2))
  then show ?thesis using compilesD(3) top_vars_ok [OF assms(3)] assms(4) by blast
qed

lemma ext_syms: "ext K c k c' \<Longrightarrow> syms_le (cg_syms c) (cg_syms c')"
  by (simp add: ext_def)

lemma does_syms: "does K \<rho> tab code m \<rho>' \<Longrightarrow> syms_le tab tab' \<Longrightarrow> does K \<rho> tab' code m \<rho>'"
  using does_mono by blast

lemma computes_syms: "computes K \<rho> tab code v m \<Longrightarrow> syms_le tab tab' \<Longrightarrow> computes K \<rho> tab' code v m"
  unfolding computes_def using syms_le_trans by blast

lemma does_seq_max:
  assumes "does K \<rho> tab k1 m1 \<rho>1" "does K \<rho>1 tab k2 m2 \<rho>2"
  shows "does K \<rho> tab (k1 @ k2) (max m1 m2) \<rho>2"
proof (rule does_seq)
  show "does K \<rho> tab k1 (max m1 m2) \<rho>1" using does_mono [OF assms(1)] by simp
  show "does K \<rho>1 tab k2 (max m1 m2) \<rho>2" using does_mono [OF assms(2)] by simp
qed

text \<open>
  The correctness of the generated code: \<open>stmt_ok\<close> says it of one statement, and the theorem
  proves it along the derivation of the reference semantics.
\<close>

definition stmt_ok :: "cfg \<Rightarrow> store \<Rightarrow> ast \<Rightarrow> nat \<Rightarrow> store \<Rightarrow> bool" where
  "stmt_ok K \<rho> a m \<rho>' \<longleftrightarrow> (stmt_frag K a \<longrightarrow>
     (\<forall>c r c' code. top_level K c \<longrightarrow> gen a c = Ok (r, c') \<longrightarrow> ext K c code c' \<longrightarrow>
        does K \<rho> (cg_syms c') code m \<rho>'))"

lemma stmt_okD:
  "stmt_ok K \<rho> a m \<rho>' \<Longrightarrow> stmt_frag K a \<Longrightarrow> top_level K c \<Longrightarrow> gen a c = Ok (r, c') \<Longrightarrow> ext K c code c' \<Longrightarrow>
   does K \<rho> (cg_syms c') code m \<rho>'"
  unfolding stmt_ok_def by blast

lemma gen_seq_sym: "gen_seq gs r1 c = Ok (z1, c') \<Longrightarrow> \<exists>z. gen_seq gs r2 c = Ok (z, c')"
proof (induction gs arbitrary: r1 r2 c)
  case (Cons g gs)
  then obtain w c1 where "g c = Ok (w, c1)" "gen_seq gs (first_sym r1 w) c1 = Ok (z1, c')"
    by (auto simp: rbind_eq_Ok)
  then show ?case using Cons.IH [of "first_sym r1 w" c1 "first_sym r2 w"] by auto
qed simp

lemma does_cons:
  assumes "ext K c k1 c1" "does K \<rho> (cg_syms c1) k1 m1 \<rho>1" "ext K c1 k2 c'" "does K \<rho>1 (cg_syms c') k2 m2 \<rho>2"
    and "ext K c code c'"
  shows "does K \<rho> (cg_syms c') code (max m1 m2) \<rho>2"
proof -
  have "code = k1 @ k2" using ext_code [OF ext_trans [OF assms(1,3)]] assms(5) by blast
  then show ?thesis using does_seq_max [OF does_syms [OF assms(2) ext_syms [OF assms(3)]] assms(4)] by simp
qed

lemma ext_same: "ext K c code c \<Longrightarrow> code = []"
  by (simp add: ext_def)

lemma stmt_ok_nil: "stmt_ok K \<rho> (ASTStmts []) 0 \<rho>"
  by (auto simp: stmt_ok_def visit_Stmts_def dest!: ext_same intro: does_nil)

lemma stmt_ok_cons:
  assumes "stmt_ok K \<rho> a m1 \<rho>1" "stmt_ok K \<rho>1 (ASTStmts as) m2 \<rho>2"
  shows "stmt_ok K \<rho> (ASTStmts (a # as)) (max m1 m2) \<rho>2"
  unfolding stmt_ok_def
proof (intro impI allI)
  fix c r c' code
  assume f: "stmt_frag K (ASTStmts (a # as))" and c: "top_level K c"
    and g: "gen (ASTStmts (a # as)) c = Ok (r, c')" and x: "ext K c code c'"
  have fa: "stmt_frag K a" "stmt_frag K (ASTStmts as)" using f by simp_all
  obtain y z c1 where 1: "gen a c = Ok (y, c1)" and 2: "gen_seq (map gen as) (first_sym None y) c1 = Ok (z, c')"
    using g by (auto simp: visit_Stmts_def rbind_eq_Ok)
  obtain k1 where k1: "ext K c k1 c1" using sgenE [OF stmt_sgen [OF fa(1)] c 1] .
  obtain r2 where r2: "gen (ASTStmts as) c1 = Ok (r2, c')"
    using gen_seq_sym [OF 2, of None] by (auto simp: visit_Stmts_def)
  obtain k2 where k2: "ext K c1 k2 c'" using sgenE [OF stmt_sgen [OF fa(2)] ext_top [OF k1] r2] .
  show "does K \<rho> (cg_syms c') code (max m1 m2) \<rho>2"
    by (rule does_cons [OF k1 stmt_okD [OF assms(1) fa(1) c 1 k1] k2 stmt_okD [OF assms(2) fa(2) ext_top [OF k1] r2 k2] x])
qed

lemma stmt_ok_assign:
  assumes "eval K \<rho> a = Some (t, v, m)" "assigned K x v = Some w"
  shows "stmt_ok K \<rho> (ASTAssign [x] (Some a)) (max m (data_bytes w + 5)) (\<rho>(x \<mapsto> w))"
  unfolding stmt_ok_def
proof (intro impI allI)
  fix c r c' code
  assume f: "stmt_frag K (ASTAssign [x] (Some a))" and c: "top_level K c"
    and g: "gen (ASTAssign [x] (Some a)) c = Ok (r, c')" and e: "ext K c code c'"
  have fa: "expr_frag a" using f by simp
  have g': "visit_Assign [x] (Some (gen a)) c = Ok (r, c')" using g by simp
  obtain k where k: "c' = emit k c" using emitsE [OF emits_assign [OF expr_emits [OF fa]] g'] .
  then have "code = k" using ext_code [OF ext_emit [OF c]] e by auto
  then show "does K \<rho> (cg_syms c') code (max m (data_bytes w + 5)) (\<rho>(x \<mapsto> w))"
    using assign_does [OF c fa _ assms] g' k by simp
qed

lemma stmt_ok_decl_nil: "stmt_ok K \<rho> (ASTVarDecl [] asg False False) 0 \<rho>"
  by (auto simp: stmt_ok_def visit_VarDecl_def dest!: ext_same intro: does_nil)

lemma decl_split:
  assumes f: "stmt_frag K (ASTVarDecl (x # xs) asg False False)" and c: "top_level K c"
    and g: "gen (ASTVarDecl (x # xs) asg False False) c = Ok (r, c')"
  obtains y c1 k1 r2 k2 where "declare_var (map_option gen asg) False False x c = Ok (y, c1)" "ext K c k1 c1"
    "gen (ASTVarDecl xs asg False False) c1 = Ok (r2, c')" "ext K c1 k2 c'"
    "stmt_frag K (ASTVarDecl xs asg False False)" "top_level K c1"
proof -
  have fx: "stmt_frag K (ASTVarDecl [x] asg False False)" "stmt_frag K (ASTVarDecl xs asg False False)"
    using f by (auto split: option.splits)
  obtain y z c1 where 1: "declare_var (map_option gen asg) False False x c = Ok (y, c1)"
    and 2: "gen_seq (map (declare_var (map_option gen asg) False False) xs) (first_sym None y) c1 = Ok (z, c')"
    using g by (auto simp: visit_VarDecl_def rbind_eq_Ok)
  have "gen (ASTVarDecl [x] asg False False) c = Ok (y, c1)"
    using 1 by (simp add: visit_VarDecl_def first_sym_def)
  then obtain k1 where k1: "ext K c k1 c1" using sgenE [OF stmt_sgen [OF fx(1)] c] by blast
  obtain r2 where r2: "gen (ASTVarDecl xs asg False False) c1 = Ok (r2, c')"
    using gen_seq_sym [OF 2, of None] by (auto simp: visit_VarDecl_def)
  obtain k2 where "ext K c1 k2 c'" using sgenE [OF stmt_sgen [OF fx(2)] ext_top [OF k1] r2] .
  then show ?thesis using that [OF 1 k1 r2 _ fx(2) ext_top [OF k1]] by blast
qed

lemma declared_zero:
  assumes c: "top_level K c" and x: "cfg_vars K x = Some (ty, n)" "zero_data ty = Some w"
    and d: "declare_var None False False x c = Ok (y, c1)" and e: "ext K c k1 c1"
  shows "does K \<rho> (cg_syms c1) k1 (data_bytes w + 5) (\<rho>(x \<mapsto> w))"
proof -
  have dom: "x \<in> dom (cfg_vars K)" using x by blast
  obtain sy c0 l where p: "FindSymbol (cg_syms c0) x = Some sy" "sy_addr sy \<noteq> None" "ext K c [] c0"
    "GetSymSize sy = Ok l" "sy_ty sy = fst (the (cfg_vars K x))"
    "init_var sy c0 = Ok c1"
    by (rule declare_place [OF c dom d, unfolded option.case])
  obtain a where a: "sy_addr sy = Some a" using p(2) by auto
  have z: "zero_data (sy_ty sy) = Some w" using x p(5) by simp
  note iz = init_zero [OF z a]
  let ?k = "(opb OP_PUSH # enc_cell (cell_of w)) @ push_addr (base_reg sy) a @ [opb OP_WRMEM]"
  have c1: "c1 = emit ?k c0" using p(6) iz(1) by simp
  have top0: "top_level K c0" using ext_top [OF p(3)] .
  have "k1 = ?k" using ext_code [OF ext_trans [OF p(3) ext_emit [OF top0, of ?k]]] e c1 by auto
  have "vars_tab K (cg_syms c0)" using top0 by (simp add: top_level_def frame_inv_def)
  from vars_tabD(2) [OF this x(1) p(1)] iz(4) have n: "n = data_bytes w" by simp
  have "computes K \<rho> (cg_syms c0) (opb OP_PUSH # enc_cell (cell_of w)) w (data_bytes w)"
    using computes_const [OF iz(2)] iz(3) by blast
  from does_assign [OF this, of n x sy a ty "data_bytes w + 5"] show ?thesis
    using n p(1) a x(1) \<open>k1 = ?k\<close> c1 by simp
qed

lemma stmt_ok_decl_zero:
  assumes x: "cfg_vars K x = Some (ty, n)" "zero_data ty = Some w"
    and rest: "stmt_ok K (\<rho>(x \<mapsto> w)) (ASTVarDecl xs None False False) m \<rho>'"
  shows "stmt_ok K \<rho> (ASTVarDecl (x # xs) None False False) (max (data_bytes w + 5) m) \<rho>'"
  unfolding stmt_ok_def
proof (intro impI allI)
  fix c r c' code
  assume f: "stmt_frag K (ASTVarDecl (x # xs) None False False)" and c: "top_level K c"
    and g: "gen (ASTVarDecl (x # xs) None False False) c = Ok (r, c')" and e: "ext K c code c'"
  obtain y c1 k1 r2 k2 where 1: "declare_var None False False x c = Ok (y, c1)" "ext K c k1 c1"
    "gen (ASTVarDecl xs None False False) c1 = Ok (r2, c')" "ext K c1 k2 c'"
    "stmt_frag K (ASTVarDecl xs None False False)" "top_level K c1"
    by (rule decl_split [OF f c g, unfolded option.map])
  show "does K \<rho> (cg_syms c') code (max (data_bytes w + 5) m) \<rho>'"
    by (rule does_cons [OF 1(2) declared_zero [OF c x 1(1,2)] 1(4) stmt_okD [OF rest 1(5,6,3,4)] e])
qed

lemma stmt_ok_decl_assign:
  assumes a: "stmt_ok K \<rho> asg m1 \<rho>1" and rest: "stmt_ok K \<rho>1 (ASTVarDecl xs (Some asg) False False) m2 \<rho>2"
  shows "stmt_ok K \<rho> (ASTVarDecl (x # xs) (Some asg) False False) (max m1 m2) \<rho>2"
  unfolding stmt_ok_def
proof (intro impI allI)
  fix c r c' code
  assume f: "stmt_frag K (ASTVarDecl (x # xs) (Some asg) False False)" and c: "top_level K c"
    and g: "gen (ASTVarDecl (x # xs) (Some asg) False False) c = Ok (r, c')" and e: "ext K c code c'"
  obtain y c1 k1 r2 k2 where 1: "declare_var (Some (gen asg)) False False x c = Ok (y, c1)" "ext K c k1 c1"
    "gen (ASTVarDecl xs (Some asg) False False) c1 = Ok (r2, c')" "ext K c1 k2 c'"
    "stmt_frag K (ASTVarDecl xs (Some asg) False False)" "top_level K c1"
    by (rule decl_split [OF f c g, unfolded option.map])
  have fa: "stmt_frag K asg" and x: "x \<in> dom (cfg_vars K)" using f by auto
  obtain sy c0 l where p: "FindSymbol (cg_syms c0) x = Some sy" "sy_addr sy \<noteq> None" "ext K c [] c0"
    "GetSymSize sy = Ok l" "sy_ty sy = fst (the (cfg_vars K x))"
    "rbind (gen asg c0) (\<lambda>(_, c). Ok c) = Ok c1"
    by (rule declare_place [OF c x 1(1), unfolded option.case])
  obtain z where z: "gen asg c0 = Ok (z, c1)" using p(6) by (auto simp: rbind_eq_Ok)
  obtain k where k: "ext K c0 k c1" using sgenE [OF stmt_sgen [OF fa] ext_top [OF p(3)] z] .
  have "k1 = k" using ext_code [OF ext_trans [OF p(3) k]] 1(2) by simp
  then have "does K \<rho> (cg_syms c1) k1 m1 \<rho>1" using stmt_okD [OF a fa ext_top [OF p(3)] z k] by simp
  then show "does K \<rho> (cg_syms c') code (max m1 m2) \<rho>2"
    by (rule does_cons [OF 1(2) _ 1(4) stmt_okD [OF rest 1(5,6,3,4)] e])
qed

lemma stmt_ok_if_false:
  assumes ev: "eval K \<rho> b = Some (t, v, m1)" "truth v = Some False"
  shows "stmt_ok K \<rho> (ASTCond b a None) (max m1 7) \<rho>"
  unfolding stmt_ok_def
proof (intro impI allI)
  fix c r c' code
  assume f: "stmt_frag K (ASTCond b a None)" and c: "top_level K c"
    and g: "gen (ASTCond b a None) c = Ok (r, c')" and e: "ext K c code c'"
  have fb: "expr_frag b" and fa: "stmt_frag K a" using f by simp_all
  have g': "visit_Cond (gen b) (gen a) None c = Ok (r, c')" using g by simp
  obtain kc ka r1 r2 c2 where 1: "gen b c = Ok (r1, emit kc c)" "gen a (emit (test_code kc 0) c) = Ok (r2, c2)"
    "ext K (emit (test_code kc 0) c) ka c2" "ext K c (if_code kc ka) c'" "cg_syms c' = cg_syms c2"
    by (rule cond_shape [OF expr_emits [OF fb] stmt_sgen [OF fa] c g'])
  have k: "computes K \<rho> (cg_syms c') kc v m1"
    by (rule computes_syms [OF compilesE [OF fb ev(1) c 1(1)] ext_syms [OF e]])
  have "code = if_code kc ka" using ext_code [OF 1(4)] e by blast
  then show "does K \<rho> (cg_syms c') code (max m1 7) \<rho>" using does_if_false [OF k ev(2)] by simp
qed

lemma stmt_ok_if_else:
  assumes ev: "eval K \<rho> b = Some (t, v, m1)" "truth v = Some False" and st: "stmt_ok K \<rho> a2 m2 \<rho>'"
  shows "stmt_ok K \<rho> (ASTCond b a1 (Some a2)) (max (max m1 7) m2) \<rho>'"
  unfolding stmt_ok_def
proof (intro impI allI)
  fix c r c' code
  assume f: "stmt_frag K (ASTCond b a1 (Some a2))" and c: "top_level K c"
    and g: "gen (ASTCond b a1 (Some a2)) c = Ok (r, c')" and e: "ext K c code c'"
  have fb: "expr_frag b" and fa: "stmt_frag K a1" "stmt_frag K a2" using f by simp_all
  have g': "visit_Cond (gen b) (gen a1) (Some (gen a2)) c = Ok (r, c')" using g by simp
  obtain kc ka kb r1 r2 r3 c2 c3 c4 where 1: "gen b c = Ok (r1, emit kc c)"
    "gen a1 (emit (test_code kc 0) c) = Ok (r2, c2)"
    "ext K (emit (test_code kc 0) c) ka c2" "gen a2 c3 = Ok (r3, c4)" "ext K c3 kb c4" "cg_syms c3 = cg_syms c2"
    "top_level K c3" "ext K c (if_else_code kc ka kb) c'" "cg_syms c' = cg_syms c4"
    by (rule cond_else_shape [OF expr_emits [OF fb] stmt_sgen [OF fa(1)] stmt_sgen [OF fa(2)] c g'])
  have k: "computes K \<rho> (cg_syms c') kc v m1"
    by (rule computes_syms [OF compilesE [OF fb ev(1) c 1(1)] ext_syms [OF e]])
  have d: "does K \<rho> (cg_syms c') kb m2 \<rho>'" using stmt_okD [OF st fa(2) 1(7,4,5)] 1(9) by simp
  have "code = if_else_code kc ka kb" using ext_code [OF 1(8)] e by blast
  then show "does K \<rho> (cg_syms c') code (max (max m1 7) m2) \<rho>'" using does_else_false [OF k ev(2) d] by simp
qed

lemma stmt_ok_if_true:
  assumes ev: "eval K \<rho> b = Some (t, v, m1)" "truth v = Some True" and st: "stmt_ok K \<rho> a m2 \<rho>'"
  shows "stmt_ok K \<rho> (ASTCond b a els) (max (max m1 7) m2) \<rho>'"
  unfolding stmt_ok_def
proof (intro impI allI)
  fix c r c' code
  assume f: "stmt_frag K (ASTCond b a els)" and c: "top_level K c"
    and g: "gen (ASTCond b a els) c = Ok (r, c')" and e: "ext K c code c'"
  have fb: "expr_frag b" and fa: "stmt_frag K a" using f by simp_all
  show "does K \<rho> (cg_syms c') code (max (max m1 7) m2) \<rho>'"
  proof (cases els)
    case None
    then have g': "visit_Cond (gen b) (gen a) None c = Ok (r, c')" using g by simp
    obtain kc ka r1 r2 c2 where 1: "gen b c = Ok (r1, emit kc c)" "gen a (emit (test_code kc 0) c) = Ok (r2, c2)"
      "ext K (emit (test_code kc 0) c) ka c2" "ext K c (if_code kc ka) c'" "cg_syms c' = cg_syms c2"
      by (rule cond_shape [OF expr_emits [OF fb] stmt_sgen [OF fa] c g'])
    have k: "computes K \<rho> (cg_syms c') kc v m1"
      by (rule computes_syms [OF compilesE [OF fb ev(1) c 1(1)] ext_syms [OF e]])
    have d: "does K \<rho> (cg_syms c') ka m2 \<rho>'" using stmt_okD [OF st fa _ 1(2,3)] c 1(5) by simp
    have "code = if_code kc ka" using ext_code [OF 1(4)] e by blast
    then show ?thesis using does_if_true [OF k ev(2) d] by simp
  next
    case (Some a2)
    then have g': "visit_Cond (gen b) (gen a) (Some (gen a2)) c = Ok (r, c')" and fa2: "stmt_frag K a2"
      using g f by simp_all
    obtain kc ka kb r1 r2 r3 c2 c3 c4 where 1: "gen b c = Ok (r1, emit kc c)"
      "gen a (emit (test_code kc 0) c) = Ok (r2, c2)"
      "ext K (emit (test_code kc 0) c) ka c2" "gen a2 c3 = Ok (r3, c4)" "ext K c3 kb c4" "cg_syms c3 = cg_syms c2"
      "top_level K c3" "ext K c (if_else_code kc ka kb) c'" "cg_syms c' = cg_syms c4"
      by (rule cond_else_shape [OF expr_emits [OF fb] stmt_sgen [OF fa] stmt_sgen [OF fa2] c g'])
    have k: "computes K \<rho> (cg_syms c') kc v m1"
      by (rule computes_syms [OF compilesE [OF fb ev(1) c 1(1)] ext_syms [OF e]])
    have "syms_le (cg_syms c2) (cg_syms c')" using ext_syms [OF 1(5)] 1(6,9) by simp
    then have d: "does K \<rho> (cg_syms c') ka m2 \<rho>'"
      using does_syms [OF stmt_okD [OF st fa _ 1(2,3)]] c by simp
    have "code = if_else_code kc ka kb" using ext_code [OF 1(8)] e by blast
    then show ?thesis using does_else_true [OF k ev(2) d] by simp
  qed
qed

lemma stmt_ok_loop_false:
  assumes ev: "eval K \<rho> b = Some (t, v, m1)" "truth v = Some False"
  shows "stmt_ok K \<rho> (ASTLoop b a) (max m1 7) \<rho>"
  unfolding stmt_ok_def
proof (intro impI allI)
  fix c r c' code
  assume f: "stmt_frag K (ASTLoop b a)" and c: "top_level K c"
    and g: "gen (ASTLoop b a) c = Ok (r, c')" and e: "ext K c code c'"
  have fb: "expr_frag b" and fa: "stmt_frag K a" using f by simp_all
  have g': "visit_Loop (gen b) (gen a) c = Ok (r, c')" using g by simp
  obtain kc kb r1 r2 c0 c2 where 1: "gen b c0 = Ok (r1, emit kc c0)" "gen a (emit (test_code kc 0) c0) = Ok (r2, c2)"
    "ext K (emit (test_code kc 0) c0) kb c2" "ext K c (loop_code kc kb) c'" "cg_syms c0 = cg_syms c" "top_level K c0"
    "cg_syms c' = cg_syms c2"
    by (rule loop_shape [OF expr_emits [OF fb] stmt_sgen [OF fa] c g'])
  have k: "computes K \<rho> (cg_syms c') kc v m1"
    using computes_syms [OF compilesE [OF fb ev(1) 1(6,1)]] ext_syms [OF e] 1(5) by simp
  have "code = loop_code kc kb" using ext_code [OF 1(4)] e by blast
  then show "does K \<rho> (cg_syms c') code (max m1 7) \<rho>" using does_loop_false [OF k ev(2)] by simp
qed

lemma stmt_ok_loop_true:
  assumes ev: "eval K \<rho> b = Some (t, v, m1)" "truth v = Some True" and st: "stmt_ok K \<rho> a m2 \<rho>1"
    and again: "stmt_ok K \<rho>1 (ASTLoop b a) m3 \<rho>2"
  shows "stmt_ok K \<rho> (ASTLoop b a) (max (max m1 7) (max m2 m3)) \<rho>2"
  unfolding stmt_ok_def
proof (intro impI allI)
  fix c r c' code
  assume f: "stmt_frag K (ASTLoop b a)" and c: "top_level K c"
    and g: "gen (ASTLoop b a) c = Ok (r, c')" and e: "ext K c code c'"
  have fb: "expr_frag b" and fa: "stmt_frag K a" using f by simp_all
  have g': "visit_Loop (gen b) (gen a) c = Ok (r, c')" using g by simp
  obtain kc kb r1 r2 c0 c2 where 1: "gen b c0 = Ok (r1, emit kc c0)" "gen a (emit (test_code kc 0) c0) = Ok (r2, c2)"
    "ext K (emit (test_code kc 0) c0) kb c2" "ext K c (loop_code kc kb) c'" "cg_syms c0 = cg_syms c" "top_level K c0"
    "cg_syms c' = cg_syms c2"
    by (rule loop_shape [OF expr_emits [OF fb] stmt_sgen [OF fa] c g'])
  have k: "computes K \<rho> (cg_syms c') kc v m1"
    using computes_syms [OF compilesE [OF fb ev(1) 1(6,1)]] ext_syms [OF e] 1(5) by simp
  have d: "does K \<rho> (cg_syms c') kb m2 \<rho>1" using stmt_okD [OF st fa _ 1(2,3)] 1(6,7) by simp
  have code: "code = loop_code kc kb" using ext_code [OF 1(4)] e by blast
  have "does K \<rho>1 (cg_syms c') (loop_code kc kb) m3 \<rho>2" using stmt_okD [OF again f c g e] code by simp
  then show "does K \<rho> (cg_syms c') code (max (max m1 7) (max m2 m3)) \<rho>2"
    using does_loop_true [OF k ev(2) d] code by simp
qed

theorem stmt_correct: "sem K \<rho> a m \<rho>' \<Longrightarrow> stmt_ok K \<rho> a m \<rho>'"
  by (induction rule: sem.induct)
    (blast intro: stmt_ok_nil stmt_ok_cons stmt_ok_assign stmt_ok_decl_nil stmt_ok_decl_zero
      stmt_ok_decl_assign stmt_ok_if_true stmt_ok_if_false stmt_ok_if_else stmt_ok_loop_false stmt_ok_loop_true)+

end
