(* ===== verification/CompileMain.thy ===== *)
theory CompileMain
  imports CompileProg
begin

text \<open>
  A whole program: the code that makes and removes the frame of the global variables, the end
  of the generation, and the run of the generated bytes in a fresh machine.
\<close>

section \<open>Start and finish of the generation\<close>

lemma sum_sizes_Ok:
  "sum_sizes (filter (\<lambda>sy. \<not> is_arg sy \<and> scope_name sy = []) syms) a = Ok n \<Longrightarrow> 0 \<le> a \<Longrightarrow>
   a + (\<Sum>sy \<leftarrow> syms. if global_var sy then sym_size sy else 0) < 2 ^ 64 \<Longrightarrow>
   n = a + (\<Sum>sy \<leftarrow> syms. if global_var sy then sym_size sy else 0)"
proof (induction syms arbitrary: a)
  case (Cons sy syms)
  have nn: "0 \<le> (\<Sum>sy \<leftarrow> syms. if global_var sy then sym_size sy else 0)"
    by (intro sum_list_nonneg) (auto simp: sym_size_nonneg)
  show ?case
  proof (cases "global_var sy")
    case True
    then obtain k where k: "GetSymSize sy = Ok k"
      using Cons.prems(1) by (auto simp: global_var_def rbind_eq_Ok)
    then have "sym_size sy = k" by (simp add: sym_size_def)
    moreover have "0 \<le> k" using sym_size_nonneg [of sy] calculation by simp
    ultimately show ?thesis
      using Cons.prems Cons.IH [of "a + k"] True k nn by (simp add: global_var_def to_size_def)
  next
    case False
    have "sum_sizes (filter (\<lambda>sy. \<not> is_arg sy \<and> scope_name sy = []) syms) a = Ok n"
      using Cons.prems(1) False by (auto simp: global_var_def split: if_splits)
    then show ?thesis using Cons.IH Cons.prems(2,3) False by simp
  qed
qed simp

lemma frame_size_list: "frame_size tab = (\<Sum>sy \<leftarrow> map snd tab. if global_var sy then sym_size sy else 0)"
  unfolding frame_size_def by (induction tab) auto

lemma frame_size_nonneg: "0 \<le> frame_size tab"
  unfolding frame_size_list by (intro sum_list_nonneg) (auto simp: sym_size_nonneg)

lemma GetStackFrameSize_frame:
  "GetStackFrameSize None c = Ok n \<Longrightarrow> frame_size (cg_syms c) < 2 ^ 31 \<Longrightarrow> n = frame_size (cg_syms c)"
  using sum_sizes_Ok [of "map snd (cg_syms c)" 0 n]
  by (simp add: GetStackFrameSize_def FindSymbolsWithSameScope_def frame_size_list)

definition frame_code :: "OpCode \<Rightarrow> int \<Rightarrow> byte list" where
  "frame_code op F = (if F > 0 then push_int (word_of_int F) @ [opb op] else [])"

lemma sint_frame: "0 \<le> F \<Longrightarrow> F < 2 ^ 31 \<Longrightarrow> sint (word_of_int F :: t_int) = F"
  by (simp add: signed_of_int signed_take_bit_int_eq_self_iff)

lemma emit_frame_code:
  assumes "emit_frame op c = Ok c'" "frame_size (cg_syms c) < 2 ^ 31"
  shows "c' = emit (frame_code op (frame_size (cg_syms c))) c"
proof -
  obtain n where n: "GetStackFrameSize None c = Ok n"
    "c' = (if sint (word_of_int n :: t_int) > 0 then emit (push_int (word_of_int n) @ [opb op]) c else c)"
    using assms(1) by (auto simp: emit_frame_def rbind_eq_Ok Let_def)
  have "n = frame_size (cg_syms c)" using GetStackFrameSize_frame [OF n(1) assms(2)] .
  then show ?thesis
    using n(2) sint_frame [OF frame_size_nonneg assms(2)] by (simp add: frame_code_def emit_def)
qed

text \<open>Nothing to link: no constants, calls or jumps to labels are left.\<close>

definition unlinked :: "cg \<Rightarrow> bool" where
  "unlinked c \<longleftrightarrow> cg_consttab c = ConstTab0 \<and> cg_const_addrs c = [] \<and> cg_func_comefroms c = [] \<and>
     cg_goto_comefroms c = []"

lemma finish_code:
  assumes "cg_Finish c = Ok (n, c')" "unlinked c" "frame_size (cg_syms c) < 2 ^ 31"
  shows "cg_ostr c' = cg_ostr c @ frame_code OP_REMFRAME (frame_size (cg_syms c)) @ [opb OP_HALT]"
    "cg_syms c' = cg_syms c" "n = length (cg_ostr c')"
proof -
  let ?c = "emit [opb OP_HALT] (emit (frame_code OP_REMFRAME (frame_size (cg_syms c))) c)"
  obtain c1 where "emit_frame OP_REMFRAME c = Ok c1" using assms(1) by (auto simp: cg_Finish_def rbind_eq_Ok)
  then have "emit_frame OP_REMFRAME c = Ok (emit (frame_code OP_REMFRAME (frame_size (cg_syms c))) c)"
    using emit_frame_code [OF _ assms(3)] by blast
  then have "n = tellp ?c" "c' = ?c\<lparr>cg_goto_comefroms := [], cg_labels := []\<rparr>"
    using assms(1,2)
    by (auto simp: cg_Finish_def Let_def unlinked_def GetBytes_def ConstTab0_def emit_def patch_consts_def)
  then show "cg_ostr c' = cg_ostr c @ frame_code OP_REMFRAME (frame_size (cg_syms c)) @ [opb OP_HALT]"
    "cg_syms c' = cg_syms c" "n = length (cg_ostr c')"
    by (simp_all add: emit_def tellp_def)
qed

text \<open>
  What is asked of the symbol table before the generation: names are stored in place, no
  symbol has an address yet, the frame fits into the address space and the configuration
  describes the variables.
\<close>

definition fresh_syms :: "cfg \<Rightarrow> symtab \<Rightarrow> bool" where
  "fresh_syms K tab \<longleftrightarrow> symtab_wf tab \<and> (\<forall>(x, sy) \<in> set tab. sy_addr sy = None) \<and>
     vars_tab K tab \<and> frame_size tab < 2 ^ 31"

lemma fresh_no_addr: "fresh_syms K tab \<Longrightarrow> FindSymbol tab x = Some sy \<Longrightarrow> sy_addr sy = None"
  using FindSymbol_mem [of tab x sy] by (auto simp: fresh_syms_def)

lemma fresh_used: "\<forall>(x, sy) \<in> set tab. sy_addr sy = None \<Longrightarrow> used_size tab = 0"
  by (induction tab) (auto simp: used_size_def)

lemma fresh_top:
  assumes "fresh_syms K tab"
  shows "top_level K (Codegen0 tab)"
proof -
  have "used_size tab = 0" using assms fresh_used [of tab] by (simp add: fresh_syms_def)
  moreover have "\<not> placed K tab x a n" for x a n using fresh_no_addr [OF assms] by (auto simp: placed_def)
  ultimately show ?thesis
    using assms fresh_no_addr [OF assms]
    by (auto simp: top_level_def frame_inv_def fresh_syms_def Codegen0_def)
qed

lemma compile_shape:
  assumes "fresh_syms K syms" "stmt_frag K (ASTStmts prog)" "compile_program syms prog = Ok c'"
  obtains c r c1 code where "c = emit (frame_code OP_ADDFRAME (frame_size syms)) (Codegen0 syms)" "top_level K c"
    "gen (ASTStmts prog) c = Ok (r, c1)" "ext K c code c1" "cg_syms c' = cg_syms c1"
    "cg_ostr c' = frame_code OP_ADDFRAME (frame_size syms) @ code @ frame_code OP_REMFRAME (frame_size syms) @ [opb OP_HALT]"
proof -
  have fs: "frame_size syms < 2 ^ 31" using assms(1) by (simp add: fresh_syms_def)
  define c where "c = emit (frame_code OP_ADDFRAME (frame_size syms)) (Codegen0 syms)"
  have syms0: "cg_syms (Codegen0 syms) = syms" by (simp add: Codegen0_def)
  obtain c0 r c1 n where 1: "cg_Start (Codegen0 syms) = Ok c0" and 2: "gen_seq (map gen prog) None c0 = Ok (r, c1)"
    and 3: "cg_Finish c1 = Ok (n, c')"
    using assms(3) by (auto simp: compile_program_def rbind_eq_Ok)
  have "c0 = c"
    using emit_frame_code [OF 1 [unfolded cg_Start_def]] fs unfolding syms0 c_def by simp
  then have g: "gen (ASTStmts prog) c = Ok (None, c1)" using 2 by (simp add: visit_Stmts_def)
  have top: "top_level K c" using fresh_top [OF assms(1)] by (simp add: c_def)
  obtain code where code: "ext K c code c1" using sgenE [OF stmt_sgen [OF assms(2)] top g] .
  have f1: "frame_size (cg_syms c1) = frame_size syms" "unlinked c1" "cg_ostr c1 = cg_ostr c @ code"
    using code by (simp_all add: ext_def same_links_def unlinked_def c_def Codegen0_def emit_def)
  then have "cg_ostr c' = cg_ostr c1 @ frame_code OP_REMFRAME (frame_size syms) @ [opb OP_HALT]"
    "cg_syms c' = cg_syms c1" using finish_code [OF 3 f1(2)] fs by simp_all
  then show ?thesis using that [OF c_def top g code] f1(3) by (simp add: c_def Codegen0_def emit_def)
qed

section \<open>Making and removing the frame\<close>

lemma exec_frame:
  assumes "stk_in L t [IntD w]" "op = OP_ADDFRAME \<and> d = - sint w \<or> op = OP_REMFRAME \<and> d = sint w \<and> \<not> m_zeropoppedvals t"
    and "- (2 ^ 31) \<le> L + d" "L + d < 2 ^ 31"
  shows "exec e op t = Ok (Running, (pop_state 9 t)\<lparr>m_sp := L + d\<rparr>)"
proof -
  have c: "cells_on t (cell_of (IntD w) # [])" and sp: "m_sp t + 9 = L"
    using assms(1) by (simp_all add: stk_in_def stack_of_def data_bytes_def)
  have z: "m_zeropoppedvals (pop_state 9 t) = m_zeropoppedvals t" "m_sp (pop_state 9 t) = L"
    using sp by (simp_all add: pop_state_def)
  have "move_sp d (pop_state 9 t) = Ok ((pop_state 9 t)\<lparr>m_sp := L + d\<rparr>)"
    using z assms(3,4) by (simp add: move_sp_def int_result_def int_min_def int_max_def)
  then show ?thesis
    using assms(2) z cells_on_PopInt(1) [OF c] by (auto simp: exec_def cont_def op_addframe_def op_remframe_def)
qed

lemma outside_sp: "outside B L (s\<lparr>m_sp := x\<rparr>) = outside B L s"
  by (simp add: outside_def ctl_def fun_eq_iff)

lemma run_frame:
  assumes rd: "ready B L s (push_int w @ [opb op]) []"
    and op: "op = OP_ADDFRAME \<and> d = - sint w \<or> op = OP_REMFRAME \<and> d = sint w \<and> \<not> m_zeropoppedvals s"
    and L: "- (2 ^ 31) \<le> L + d" "L + d < 2 ^ 31" "B + 9 \<le> L"
  shows "\<exists>s'. steps e s s' \<and> m_sp s' = L + d \<and> outside B L s' = outside B L (s\<lparr>m_ip := m_ip s + 11\<rparr>)"
proof -
  have pi: "push_int w = opb OP_PUSH # enc_cell (cell_of (IntD w))"
    by (simp add: push_int_def enc_cell_def cell_of_def)
  have len: "length (push_int w) = 10" by (simp add: pi)
  have b9: "data_bytes (IntD w) = 9" by (simp add: data_bytes_def)
  obtain s1 where s1: "runs e B L s (push_int w) s1 [IntD w]"
    using run_push [of B L s "IntD w" "[]" _ e] ready_first [OF rd] L(3) by (auto simp: pi b9)
  have o1: "outside B L s1 = outside B L (s\<lparr>m_ip := m_ip s + 10\<rparr>)" using s1 by (simp add: runs_def len)
  have r1: "ready B L s1 [opb op] [IntD w]" using ready_after [OF rd s1] L(3) by (simp add: b9)
  let ?t = "s1\<lparr>m_ip := m_ip s1 + 1\<rparr>"
  let ?u = "(pop_state 9 ?t)\<lparr>m_sp := L + d\<rparr>"
  have st: "stk_in L ?t [IntD w]"
    using r1 by (simp add: ready_def stk_in_def stack_of_def cells_on_def holds_def bytes_at_def in_mem_def)
  have sp: "m_sp s1 = L - 9" using r1 by (simp add: ready_def stk_in_def b9)
  have "exec e op ?t = Ok (Running, ?u)"
    using op outsideD(10) [OF o1] by (intro exec_frame [OF st _ L(1,2)]) auto
  moreover have o2: "outside B L ?u = outside B L (s1\<lparr>m_ip := m_ip s1 + 1\<rparr>)"
    using outside_pop [of B ?t 9 L] sp L(3) by (simp add: outside_sp)
  moreover have "code_in B s1 (m_ip s1) [opb op]" using r1 by (simp add: ready_def)
  ultimately have "step e s1 = Ok (Running, ?u)"
    using r1 op sp L(3) outsideD [OF o2] code_in_bound [of B s1 "m_ip s1" "[opb op]"]
    by (intro step_code [of B L s1 op]) (auto simp: ready_def opcodes_def)
  moreover have "outside B L ?u = outside B L (s\<lparr>m_ip := m_ip s + 11\<rparr>)"
    using o2 outside_ip [OF o1, of "m_ip s + 11"] outsideD(1) [OF o1] by (simp add: add.commute)
  ultimately show ?thesis
    using s1 steps_step by (intro exI [of _ ?u]) (auto simp: runs_def intro: steps_trans)
qed

lemma step_halt:
  assumes "arena B L s" "B \<le> m_sp s" "m_sp s \<le> L" "code_in B s (m_ip s) [opb OP_HALT]"
  shows "step e s = Ok (Halted, s\<lparr>m_ip := m_ip s + 1\<rparr>)"
proof -
  have b: "bytes_at s (m_ip s) [opb OP_HALT]" "m_ip s + 1 \<le> B" "0 \<le> m_ip s"
    using assms(4) code_in_bound [OF assms(4)] by (auto simp: code_in_def)
  have "CheckPointerBounds s = Ok ()"
    using assms bytes_at_range [OF b(1)] b(2)
    by (auto simp: CheckPointerBounds_def Let_def arena_def code_in_def)
  moreover have "next_op s = Ok (OP_HALT, s\<lparr>m_ip := m_ip s + 1\<rparr>)"
    using assms(1) b(1) by (intro next_op_quiet) (simp_all add: arena_def opcodes_def)
  moreover have "m_ip s + 1 < m_memsize s" using assms(1-3) b(2) by (simp add: arena_def)
  ultimately show ?thesis by (simp add: step_def exec_def wrap_ip_def)
qed

section \<open>The run of a program\<close>

text \<open>A program at address 0 of a fresh machine, all fields.\<close>

lemma load_fields:
  assumes "int (length prog) \<le> memsize" "memsize < 2 ^ 31"
  obtains s0 where "SetMem 0 prog True (new_vm sz memsize) = Ok s0" "bytes_at s0 0 prog" "quiet s0"
    "m_ip s0 = 0" "m_memsize s0 = memsize" "m_bp s0 = memsize" "m_gbp s0 = memsize"
    "m_sp s0 = wrap32 (memsize - (sz + 1))" "m_code_range s0 = (0, int (length prog))"
    "m_eps s0 = 0x3CB0000000000000" "m_prec s0 = 6" "\<not> m_zeropoppedvals s0"
proof -
  have m: "0 \<le> memsize" using assms by simp
  note f = new_vm_fields [OF m assms(2), of sz]
  define s0 where "s0 = (UpdateCodeRange 0 (int (length prog)) (new_vm sz memsize))
    \<lparr>m_mem := put_bytes (m_mem (new_vm sz memsize)) 0 prog\<rparr>"
  have s: "SetMem 0 prog True (new_vm sz memsize) = Ok s0"
    using SetMem_ok [of 0 prog "new_vm sz memsize" True] assms f(2) by (simp add: s0_def)
  have e: "m_eps s0 = 0x3CB0000000000000" "m_prec s0 = 6" "\<not> m_zeropoppedvals s0" "quiet s0"
    by (simp_all add: s0_def UpdateCodeRange_def new_vm_def Reset_def quiet_def)
  show ?thesis
    by (rule that [OF s _ e(4) _ _ _ _ _ _ e(1-3)])
      (use f assms in \<open>simp_all add: s0_def UpdateCodeRange_def bytes_at_def in_mem_def\<close>)
qed

text \<open>The frame code, whether or not there is a frame.\<close>

lemma frame_moves:
  assumes ar: "arena B L s" and sp: "m_sp s = L" "B + 9 \<le> L" and c: "code_in B s (m_ip s) (frame_code op F)"
    and F: "0 \<le> F" "F < 2 ^ 31" and op: "op = OP_ADDFRAME \<and> d = - F \<or> op = OP_REMFRAME \<and> d = F \<and> \<not> m_zeropoppedvals s"
    and L: "- (2 ^ 31) \<le> L + d" "L + d < 2 ^ 31"
  shows "\<exists>s'. steps e s s' \<and> m_sp s' = L + d \<and>
    outside B L s' = outside B L (s\<lparr>m_ip := m_ip s + int (length (frame_code op F))\<rparr>)"
proof (cases "0 < F")
  case True
  let ?w = "word_of_int F :: t_int"
  have fc: "frame_code op F = push_int ?w @ [opb op]" using True by (simp add: frame_code_def)
  have len: "length (frame_code op F) = 11" by (simp add: fc push_int_def)
  have "stk_in L s []"
    using ar sp by (simp add: stk_in_def stack_of_def cells_on_def holds_def bytes_at_def in_mem_def arena_def)
  then have "ready B L s (push_int ?w @ [opb op]) []" using ar c sp by (simp add: ready_def fc)
  from run_frame [OF this _ L sp(2)] show ?thesis
    using op sint_frame [OF F] by (simp add: len)
next
  case False
  then have "frame_code op F = []" "d = 0" using F op by (auto simp: frame_code_def)
  then show ?thesis using sp by (intro exI [of _ s]) simp
qed

lemma frame_inv_layout:
  assumes "frame_inv K c"
  shows "layout K (cg_syms c) (frame_size (cg_syms c))"
proof -
  have "- frame_size (cg_syms c) \<le> a" if "placed K (cg_syms c) x a n" for x a n
    using that assms frame_inv_stack(2) [OF assms] unfolding frame_inv_def by fastforce
  then show ?thesis
    using assms frame_size_nonneg unfolding layout_def frame_inv_def by blast
qed

lemma env_at_empty:
  "top_level K c \<Longrightarrow> L + frame_size (cg_syms c) \<le> m_gbp s \<Longrightarrow> m_eps s = cfg_eps K \<Longrightarrow> m_prec s = cfg_prec K \<Longrightarrow>
   env_at K (cg_syms c) (frame_size (cg_syms c)) L s Map.empty"
  using frame_inv_layout [of K c] by (simp add: env_at_def store_at_def top_level_def)

text \<open>The variables of a store, in the memory below the global base pointer.\<close>

definition vars_in_memory :: "symtab \<Rightarrow> vm \<Rightarrow> store \<Rightarrow> bool" where
  "vars_in_memory tab s \<rho> \<longleftrightarrow> (\<forall>x v. \<rho> x = Some v \<longrightarrow>
     (\<exists>sy a. FindSymbol tab x = Some sy \<and> sy_addr sy = Some a \<and>
        ReadMemData (m_gbp s + a) s = Ok (cell_of v)))"

lemma env_at_vars:
  assumes env: "env_at K T F L s \<rho>" and same: "m_gbp s' = m_gbp s" "m_memsize s' = m_memsize s"
    "\<And>x. L \<le> x \<Longrightarrow> m_mem s' x = m_mem s x"
  shows "vars_in_memory T s' \<rho>"
  unfolding vars_in_memory_def
proof (intro allI impI)
  fix x v
  assume "\<rho> x = Some v"
  then obtain a n where v: "plain v" "placed K T x a n" "bytes_at s (m_gbp s + a) (enc_cell (cell_of v))"
    using env unfolding env_at_def store_at_def by blast
  have "L \<le> m_gbp s + a" using placed_range [OF _ v(2)] env by (fastforce simp: env_at_def)
  then have "bytes_at s' (m_gbp s' + a) (enc_cell (cell_of v))"
    using same by (auto intro: bytes_at_cong [OF v(3)])
  then have "ReadMemData (m_gbp s' + a) s' = Ok (cell_of v)" using ReadMemData_bytes v(1) by simp
  then show "\<exists>sy a. FindSymbol T x = Some sy \<and> sy_addr sy = Some a \<and>
      ReadMemData (m_gbp s' + a) s' = Ok (cell_of v)"
    using v(2) by (auto simp: placed_def)
qed

text \<open>
  From the start of the code to the halt. The stack of the machine starts \<open>sz + 1\<close> bytes below the
  end of the memory, the frame lies below it, and the code below both.
\<close>

lemma program_runs:
  assumes d: "does K Map.empty T code m \<rho>'" and T: "T = cg_syms c" "top_level K c" "F = frame_size T"
    and ar: "arena B L s" "m_sp s = L" "m_ip s = i" "L \<le> m_gbp s" "\<not> m_zeropoppedvals s"
    and eps: "m_eps s = cfg_eps K" "m_prec s = cfg_prec K"
    and c: "code_in B s i (frame_code OP_ADDFRAME F @ code @ frame_code OP_REMFRAME F @ [opb OP_HALT])"
    and room: "B + int (max m 9) + F \<le> L"
  obtains n s' where "run (cfg_env K) n s = Ok (Halted, s')" "vars_in_memory T s' \<rho>'"
    "m_gbp s' = m_gbp s" "m_sp s' = L"
proof -
  have fi: "frame_inv K c" using T(2) by (simp add: top_level_def)
  have F: "0 \<le> F" "F < 2 ^ 31" using frame_size_nonneg fi by (simp_all add: T frame_inv_def)
  have B: "0 \<le> B" "L + 8 \<le> m_memsize s" "m_memsize s < 2 ^ 31" using ar(1) by (simp_all add: arena_def)
  have r9: "B + 9 + F \<le> L" and rm: "B + int m \<le> L - F" using room by simp_all
  note cs = c [unfolded code_in_append]
  obtain s1 where s1: "steps (cfg_env K) s s1" "m_sp s1 = L - F"
      "outside B L s1 = outside B L (s\<lparr>m_ip := i + int (length (frame_code OP_ADDFRAME F))\<rparr>)"
    using frame_moves [OF ar(1,2) _ _ F, of OP_ADDFRAME "- F"] cs ar(3) F r9 B by auto
  note o1 = outsideD [OF s1(3)]
  have ar1: "arena B L s1" using arena_outside [OF s1(3) ar(1)] .
  have "arena B (L - F) s1" using ar1 F by (simp add: arena_def)
  moreover have "stk_in (L - F) s1 []"
    using ar1 s1(2) r9 B F
    by (simp add: stk_in_def stack_of_def cells_on_def holds_def bytes_at_def in_mem_def arena_def)
  moreover have "env_at K T F (L - F) s1 Map.empty"
    using env_at_empty [OF T(2), of "L - F" s1] ar(4) eps o1 by (simp add: T)
  ultimately have p1: "poised K T F B (L - F) s1 Map.empty" using r9 by (simp add: poised_def)
  have "code_in B s1 (m_ip s1) code" unfolding o1(1) using code_in_outside [OF s1(3)] cs by blast
  then obtain s2 where s2: "goes K T F B (L - F) s1 (m_ip s1 + int (length code)) s2 \<rho>'"
    using doesD [OF d _ p1 _ rm] by auto
  then have k2: "kept B s1 (m_ip s1 + int (length code)) s2" and p2: "poised K T F B (L - F) s2 \<rho>'"
    and st2: "steps (cfg_env K) s1 s2" by (simp_all add: goes_def)
  note f2 = keptD [OF k2]
  have c2: "code_in B s2 (m_ip s2) (frame_code OP_REMFRAME F @ [opb OP_HALT])"
    using code_in_kept [OF k2] code_in_outside [OF s1(3)] cs f2(1) o1(1)
    by (simp add: code_in_append)
  note cs2 = c2 [unfolded code_in_append]
  have ar2: "arena B (L - F) s2" "m_sp s2 = L - F" using p2 by (simp_all add: poised_def stk_in_def)
  obtain s3 where s3: "steps (cfg_env K) s2 s3" "m_sp s3 = L"
      "outside B (L - F) s3 = outside B (L - F) (s2\<lparr>m_ip := m_ip s2 + int (length (frame_code OP_REMFRAME F))\<rparr>)"
    using frame_moves [OF ar2 _ _ F, of OP_REMFRAME F] cs2 F r9 B ar(5) f2(7) o1(10) by auto
  note o3 = outsideD [OF s3(3)]
  have c3: "code_in B s3 (m_ip s3) [opb OP_HALT]" using code_in_outside [OF s3(3)] cs2 o3(1) by simp
  have "arena B L s3"
    using arena_outside [OF s3(3) ar2(1)] B f2 o1 o3 by (simp add: arena_def)
  then have h: "step (cfg_env K) s3 = Ok (Halted, s3\<lparr>m_ip := m_ip s3 + 1\<rparr>)"
    using step_halt [OF _ _ _ c3] s3(2) r9 F by simp
  obtain n where n: "run (cfg_env K) n s = Ok (Halted, s3\<lparr>m_ip := m_ip s3 + 1\<rparr>)"
    using steps_halt [OF steps_trans [OF steps_trans [OF s1(1) st2] s3(1)] h] by blast
  have env2: "env_at K T F (L - F) s2 \<rho>'" using p2 by (simp add: poised_def)
  have "vars_in_memory T (s3\<lparr>m_ip := m_ip s3 + 1\<rparr>) \<rho>'"
    using o3 by (intro env_at_vars [OF env2]) auto
  then show ?thesis using that [OF n] s3(2) o1 f2 o3 by simp
qed

text \<open>The generated program, loaded into a machine with enough memory, halts with the results.\<close>

theorem program_correct:
  assumes "fresh_syms K syms" "stmt_frag K (ASTStmts prog)" "sem K Map.empty (ASTStmts prog) m \<rho>'"
    and "compile_program syms prog = Ok c"
    and "cfg_eps K = 0x3CB0000000000000" "cfg_prec K = 6"
    and "7 \<le> sz" "int (length (cg_ostr c)) + int (max m 9) + frame_size syms + sz + 1 \<le> memsize" "memsize < 2 ^ 31"
  obtains s0 n s' where "SetMem 0 (cg_ostr c) True (new_vm sz memsize) = Ok s0"
    "run (cfg_env K) n s0 = Ok (Halted, s')" "vars_in_memory (cg_syms c) s' \<rho>'"
    "m_gbp s' = memsize" "m_sp s' = memsize - (sz + 1)"
proof -
  obtain c0 r c1 code where 1: "c0 = emit (frame_code OP_ADDFRAME (frame_size syms)) (Codegen0 syms)" "top_level K c0"
    "gen (ASTStmts prog) c0 = Ok (r, c1)" "ext K c0 code c1" "cg_syms c = cg_syms c1"
    "cg_ostr c = frame_code OP_ADDFRAME (frame_size syms) @ code @ frame_code OP_REMFRAME (frame_size syms) @ [opb OP_HALT]"
    by (rule compile_shape [OF assms(1,2,4)])
  let ?B = "int (length (cg_ostr c))" and ?L = "memsize - (sz + 1)"
  have d: "does K Map.empty (cg_syms c1) code m \<rho>'"
    by (rule stmt_okD [OF stmt_correct [OF assms(3)] assms(2) 1(2-4)])
  have F: "frame_size syms = frame_size (cg_syms c1)" "0 \<le> frame_size syms"
    using 1(1,4) by (simp_all add: ext_def same_links_def Codegen0_def emit_def frame_size_nonneg)
  have len: "?B \<le> memsize" using assms(7,8) F(2) by simp
  obtain s0 where s0: "SetMem 0 (cg_ostr c) True (new_vm sz memsize) = Ok s0" "bytes_at s0 0 (cg_ostr c)" "quiet s0"
    "m_ip s0 = 0" "m_memsize s0 = memsize" "m_bp s0 = memsize" "m_gbp s0 = memsize"
    "m_sp s0 = wrap32 (memsize - (sz + 1))" "m_code_range s0 = (0, ?B)"
    "m_eps s0 = 0x3CB0000000000000" "m_prec s0 = 6" "\<not> m_zeropoppedvals s0"
    by (rule load_fields [OF len assms(9)])
  have sp: "m_sp s0 = ?L" using s0(8) assms(7-9) F(2) by simp
  have ar: "arena ?B ?L s0" using s0 assms(7-9) len by (simp add: arena_def)
  have ci: "code_in ?B s0 0 (cg_ostr c)" using s0 by (simp add: code_in_def)
  have room: "?B + int (max m 9) + frame_size (cg_syms c1) \<le> ?L" using assms(8) F(1) by simp
  obtain n s' where "run (cfg_env K) n s0 = Ok (Halted, s')" "vars_in_memory (cg_syms c1) s' \<rho>'"
    "m_gbp s' = m_gbp s0" "m_sp s' = ?L"
  proof (rule program_runs [OF d refl ext_top [OF 1(4)] refl ar sp s0(4) _ s0(12) _ _ _ room])
    show "?L \<le> m_gbp s0" "m_eps s0 = cfg_eps K" "m_prec s0 = cfg_prec K" using s0 assms(5-7) by simp_all
    show "code_in ?B s0 0 (frame_code OP_ADDFRAME (frame_size (cg_syms c1)) @ code @
        frame_code OP_REMFRAME (frame_size (cg_syms c1)) @ [opb OP_HALT])"
      using ci unfolding 1(6) F(1) .
  qed
  then show ?thesis using that [OF s0(1)] s0(7) 1(5) by simp
qed

end
