(* ===== verification/CompileTypes.thy ===== *)
theory CompileTypes
  imports CompileExpr
begin

text \<open>
  Static and dynamic types: the symbol that the generator returns for an arithmetic expression
  tells the type of the value that its code computes.
\<close>

fun data_type :: "t_data \<Rightarrow> SymbolType option" where
  "data_type (RealD _) = Some ST_REAL"
| "data_type (IntD _) = Some ST_INT"
| "data_type (CplxD _) = Some ST_CPLX"
| "data_type (QuatD _) = Some ST_QUAT"
| "data_type (BoolD _) = Some ST_BOOL"
| "data_type (StrD _) = Some ST_STRING"
| "data_type (RealArrD _) = Some ST_REAL_ARRAY"
| "data_type (IntArrD _) = Some ST_INT_ARRAY"
| "data_type (CplxArrD _) = Some ST_CPLX_ARRAY"
| "data_type (QuatArrD _) = Some ST_QUAT_ARRAY"
| "data_type _ = None"

text \<open>Constants and variables under arithmetic operators; comparisons and connectives are left out.\<close>

function (sequential) arith_expr :: "ast \<Rightarrow> bool" where
  "arith_expr (ASTNumReal r) \<longleftrightarrow> True"
| "arith_expr (ASTNumInt i) \<longleftrightarrow> True"
| "arith_expr (ASTNumCplx z) \<longleftrightarrow> True"
| "arith_expr (ASTNumQuat q) \<longleftrightarrow> True"
| "arith_expr (ASTNumBool b) \<longleftrightarrow> True"
| "arith_expr (ASTStrConst str) \<longleftrightarrow> True"
| "arith_expr (ASTVar x) \<longleftrightarrow> True"
| "arith_expr (ASTUMinus a) \<longleftrightarrow> arith_expr a"
| "arith_expr (ASTPlus a b inverted) \<longleftrightarrow> arith_expr a \<and> arith_expr b"
| "arith_expr (ASTMult a b inverted) \<longleftrightarrow> arith_expr a \<and> arith_expr b"
| "arith_expr (ASTMod a b) \<longleftrightarrow> arith_expr a \<and> arith_expr b"
| "arith_expr (ASTPow a b) \<longleftrightarrow> arith_expr a \<and> arith_expr b"
| "arith_expr _ \<longleftrightarrow> False"
  by pat_completeness auto

termination
  by (relation "measure size") auto

definition typed_store :: "cfg \<Rightarrow> store \<Rightarrow> bool" where
  "typed_store K \<rho> \<longleftrightarrow> (\<forall>x v ty n. \<rho> x = Some v \<longrightarrow> cfg_vars K x = Some (ty, n) \<longrightarrow> data_type v = Some ty)"

section \<open>Casts\<close>

lemma cast_type:
  assumes "cast_idx ty = Some idx" "cast_data e eps prec idx v = Ok r" "data_type v = Some t"
  shows "data_type (case r of None \<Rightarrow> v | Some w \<Rightarrow> w) = Some ty"
  using assms
  by (cases ty; cases v)
    (auto simp: cast_real_def cast_int_def cast_cplx_def cast_quat_def cast_bool_def cast_str_def
      OpCastFromArray_def rbind_eq_Ok Let_def split: if_splits prod.splits)

lemma conv_type:
  assumes "conv K c v = Some w" "data_type v = Some t"
  shows "data_type w = Some (case Option.bind c cast_idx of None \<Rightarrow> t | Some _ \<Rightarrow> the c)"
proof (cases "Option.bind c cast_idx")
  case None
  then show ?thesis using assms by (simp add: conv_def)
next
  case (Some idx)
  then obtain ty where c: "c = Some ty" "cast_idx ty = Some idx" by (cases c) auto
  then obtain r where r: "cast_data (cfg_env K) (cfg_eps K) (cfg_prec K) idx v = Ok r"
    "w = (case r of None \<Rightarrow> v | Some w \<Rightarrow> w)" using assms(1) by (auto simp: conv_def)
  show ?thesis using cast_type [OF c(2) r(1) assms(2)] r(2) c by simp
qed

section \<open>Operators\<close>

text \<open>Operands of one type have a result of that type, a product of arrays apart; others have none.\<close>

lemma rmap_Ok: "rmap f m = Ok y \<longleftrightarrow> (\<exists>x. m = Ok x \<and> y = f x)"
  by (auto simp: rmap_def rbind_eq_Ok)

lemma arith_type_same:
  assumes "arith e op v1 v2 = Ok v" "data_type v1 = Some t" "data_type v2 = Some t" "op = CHR ''*'' \<longrightarrow> \<not> IsArray t"
  shows "data_type v = Some t"
  using assms
  by (cases v1; cases v2)
    (auto simp: arith_def mul_special_def pow_special_def arith_same_def rmap_Ok split: if_splits)

lemma arith_type_other:
  assumes "arith e op v1 v2 = Ok v" "data_type v1 = Some t1" "data_type v2 = Some t2" "t1 \<noteq> t2"
    and "IsArray t1 \<or> IsArray t2" "op \<noteq> CHR ''*''"
  shows False
  using assms
  by (cases v1; cases v2)
    (auto simp: arith_def pow_special_def arith_same_def split: if_splits)

lemma negate_type: "negate e v1 = Ok v \<Longrightarrow> data_type v = data_type v1"
  by (cases v1) (auto simp: rmap_Ok)

text \<open>After the promotion both operands have the common type, or one of them is an array.\<close>

definition promoted :: "SymbolType option \<Rightarrow> SymbolType \<Rightarrow> SymbolType" where
  "promoted c t = (case Option.bind c cast_idx of None \<Rightarrow> t | Some _ \<Rightarrow> the c)"

definition value_type :: "SymbolType \<Rightarrow> bool" where
  "value_type t \<longleftrightarrow> t \<notin> {ST_VOID, ST_COMP, ST_FUNC, ST_UNKNOWN}"

lemma data_value_type: "data_type v = Some t \<Longrightarrow> value_type t"
  by (cases v) (auto simp: value_type_def)

lemma promote_unifies:
  assumes "promote t1 t2 = (c1, c2, t)" "value_type t1" "value_type t2"
  shows "promoted c1 t1 = t \<and> promoted c2 t2 = t \<or>
    promoted c1 t1 \<noteq> promoted c2 t2 \<and> IsArray t \<and> (IsArray (promoted c1 t1) \<or> IsArray (promoted c2 t2))"
  using assms
  by (cases t1; cases t2) (auto simp: promote_def scales_def needs_def promoted_def Let_def value_type_def)

section \<open>Expressions\<close>

definition well_typed :: "evald option \<Rightarrow> bool" where
  "well_typed ev \<longleftrightarrow> (\<forall>t v m. ev = Some (t, v, m) \<longrightarrow> t \<noteq> None \<and> data_type v = t)"

lemma eval_binary_typed:
  assumes r: "well_typed r1" "well_typed r2" and ev: "eval_binary K (arith_op K op) r1 r2 = Some (t, v, m)"
    and op: "\<And>u. op = CHR ''*'' \<Longrightarrow> t = Some u \<Longrightarrow> \<not> IsArray u"
  shows "t \<noteq> None \<and> data_type v = t"
proof -
  obtain t1 v1 m1 t2 v2 m2 where 1: "r1 = Some (t1, v1, m1)" "r2 = Some (t2, v2, m2)"
    using ev by (auto simp: eval_binary_def bind_eq_Some_conv)
  then obtain u1 u2 where 2: "t1 = Some u1" "data_type v1 = Some u1" "t2 = Some u2" "data_type v2 = Some u2"
    using r unfolding well_typed_def by fastforce
  obtain c1 c2 w where p: "promote u1 u2 = (c1, c2, w)" by (metis prod_cases3)
  obtain w1 w2 where 3: "conv K c1 v1 = Some w1" "conv K c2 v2 = Some w2" "arith (cfg_env K) op w1 w2 = Ok v" "t = Some w"
    using ev 1 2 p by (auto simp: eval_binary_def bind_eq_Some_conv promote_opt_def arith_op_def)
  have 4: "data_type w1 = Some (promoted c1 u1)" "data_type w2 = Some (promoted c2 u2)"
    using conv_type [OF 3(1) 2(2)] conv_type [OF 3(2) 2(4)] by (simp_all add: promoted_def)
  note pu = promote_unifies [OF p data_value_type [OF 2(2)] data_value_type [OF 2(4)]]
  show ?thesis
  proof (cases "promoted c1 u1 = w \<and> promoted c2 u2 = w")
    case True
    then show ?thesis using arith_type_same [OF 3(3)] 4 op 3(4) by auto
  next
    case False
    then show ?thesis using pu op 3(4) arith_type_other [OF 3(3) 4] by auto
  qed
qed

lemma well_typed_unary:
  "well_typed r1 \<Longrightarrow> well_typed (eval_unary (\<lambda>v. to_opt (negate e v)) r1)"
  by (auto simp: well_typed_def eval_unary_def bind_eq_Some_conv negate_type)

lemma well_typed_binary:
  "well_typed r1 \<Longrightarrow> well_typed r2 \<Longrightarrow> op \<noteq> CHR ''*'' \<Longrightarrow> well_typed (eval_binary K (arith_op K op) r1 r2)"
  unfolding well_typed_def [of "eval_binary K (arith_op K op) r1 r2"] using eval_binary_typed by blast

lemma well_typed_mult:
  assumes "well_typed r1" "well_typed r2"
  shows "well_typed (no_array (eval_binary K (arith_op K op) r1 r2))"
  unfolding well_typed_def
proof (intro allI impI)
  fix t v m
  assume ev: "no_array (eval_binary K (arith_op K op) r1 r2) = Some (t, v, m)"
  then have "eval_binary K (arith_op K op) r1 r2 = Some (t, v, m)" "\<And>u. t = Some u \<Longrightarrow> \<not> IsArray u"
    by (auto simp: no_array_def bind_eq_Some_conv split: if_splits)
  then show "t \<noteq> None \<and> data_type v = t" using eval_binary_typed [OF assms] by blast
qed

theorem eval_well_typed: "arith_expr a \<Longrightarrow> typed_store K \<rho> \<Longrightarrow> well_typed (eval K \<rho> a)"
proof (induction a rule: arith_expr.induct)
  case (7 x)
  then show ?case
    by (fastforce simp: well_typed_def eval_var_def typed_store_def split: option.splits)
next
  case (8 a)
  then show ?case by (simp add: well_typed_unary)
next
  case (9 a b inverted)
  then show ?case by (simp add: well_typed_binary)
next
  case (10 a b inverted)
  then show ?case by (simp add: well_typed_mult)
next
  case (11 a b)
  then show ?case by (simp add: well_typed_binary)
next
  case (12 a b)
  then show ?case by (simp add: well_typed_binary)
qed (auto simp: well_typed_def eval_const_def bool_data_def)

text \<open>The symbol that the generator returns has the type of the value.\<close>

theorem generated_type:
  assumes "expr_frag a" "arith_expr a" "typed_store K \<rho>" "vars_ok K c"
    and "eval K \<rho> a = Some (t, v, m)" "gen a c = Ok (r, c')"
  obtains sy where "r = Some sy" "data_type v = Some (sy_ty sy)"
proof -
  have "t \<noteq> None" "data_type v = t"
    using eval_well_typed [OF assms(2,3)] assms(5) by (auto simp: well_typed_def)
  moreover have "ety r = t"
    using expr_compiles [OF assms(1), of K \<rho>] assms(4-6) unfolding compiles_def by blast
  ultimately show ?thesis using that by (cases r) auto
qed

end
