(* ===== verification/CompilerProperties.thy ===== *)
theory CompilerProperties
  imports Demo CompileMain CompileTypes
begin

text \<open>
  The properties of the code generator, each with an instance where it has hypotheses. The
  instances are about a program that counts a variable up to a limit.
\<close>

section \<open>A counting program\<close>

text \<open>\<open>integer i\<close>, then \<open>while i < n do i = i + 1 end while\<close>.\<close>

definition var_sym :: "t_str \<Rightarrow> SymbolType \<Rightarrow> symbol" where
  "var_sym x ty = Symbol0\<lparr>sy_name := x, scoped_name := x, sy_ty := ty\<rparr>"

definition count_syms :: symtab where
  "count_syms = [(''i'', var_sym ''i'' ST_INT)]"

definition count_cfg :: "env \<Rightarrow> cfg" where
  "count_cfg e = \<lparr>cfg_env = e, cfg_eps = 0x3CB0000000000000, cfg_prec = 6, cfg_vars = [''i'' \<mapsto> (ST_INT, 9)]\<rparr>"

definition count_test :: "t_int \<Rightarrow> ast" where
  "count_test n = ASTComp (ASTVar ''i'') (ASTNumInt n) CMP_LT"

definition count_body :: ast where
  "count_body = ASTAssign [''i''] (Some (ASTPlus (ASTVar ''i'') (ASTNumInt 1) False))"

definition count_prog :: "t_int \<Rightarrow> ast list" where
  "count_prog n = [ASTVarDecl [''i''] None False False, ASTLoop (count_test n) count_body]"

lemmas gen_defs = compile_program_def cg_Start_def cg_Finish_def emit_frame_def GetStackFrameSize_def
  FindSymbolsWithSameScope_def FindSymbol_def upd_sym_def var_sym_def Symbol0_def Codegen0_def ConstTab0_def GetBytes_def
  GetSymSize_def to_size_def GetSym_def of_type_def m_int_const_def dummy_sym_def
  visit_Stmts_def visit_VarDecl_def declare_var_def check_decl_def place_var_def init_var_def AssignVar_def the_addr_def
  base_reg_def visit_Assign_def gen_opt_def assign_to_def CastTo_def cast_op_def visit_Loop_def enter_loop_def finish_loop_def
  comefroms_def drop_comefroms_def patch_all_def patch_def overwrite_def tellp_def emit_def skip_bytes_def emit_jump_def
  visit_Comp_def gen_binary_def gen_operands_def GetCastSymType_def visit_Plus_def PushVar_def visit_NumConst_def
  PushIntConst_def push_int_def push_addr_def patch_consts_def first_sym_def Let_def

lemma count_compiles:
  "\<exists>c sy. compile_program count_syms (count_prog n) = Ok c \<and> length (cg_ostr c) = 101 \<and>
     FindSymbol (cg_syms c) ''i'' = Some sy \<and> sy_addr sy = Some (- 9)"
  unfolding count_prog_def count_syms_def count_test_def count_body_def
  by (simp add: gen_defs)

lemma count_fresh: "fresh_syms (count_cfg e) count_syms"
  by (simp add: fresh_syms_def count_syms_def count_cfg_def symtab_wf_def vars_tab_def frame_size_def sym_size_def
      global_var_def FindSymbol_def GetSymSize_def var_sym_def Symbol0_def)

lemma count_frame: "frame_size count_syms = 9"
  by (simp add: count_syms_def frame_size_def sym_size_def global_var_def GetSymSize_def var_sym_def Symbol0_def)

lemma count_frag: "stmt_frag (count_cfg e) (ASTStmts (count_prog n))"
  by (simp add: count_prog_def count_test_def count_body_def count_cfg_def)

lemma int_bytes [simp]: "data_bytes (IntD i) = 9" "data_bytes (BoolD b) = 2"
  by (simp_all add: data_bytes_def)

lemma count_test_eval:
  "\<rho> ''i'' = Some (IntD k) \<Longrightarrow>
   eval (count_cfg e) \<rho> (count_test n) = Some (Some ST_INT, bool_data (sint k < sint n), 18)"
  by (simp add: count_test_def count_cfg_def eval_var_def eval_const_def eval_binary_def promote_opt_def promote_table
      conv_def compare_op_def compare_data_def compare_int_def bool_data_def to_opt_def)

lemma count_body_sem:
  fixes n :: t_int
  assumes "\<rho> ''i'' = Some (IntD k)" "sint k < sint n"
  shows "sem (count_cfg e) \<rho> count_body 18 (\<rho>(''i'' \<mapsto> IntD (k + 1)))" "sint (k + 1) = sint k + 1"
proof -
  have r: "int_min \<le> sint k + 1" "sint k + 1 \<le> int_max"
    using assms(2) sint_ge [of k] sint_less [of n, simplified] by (simp_all add: int_min_def int_max_def)
  then have a: "arith_int CHR ''+'' k 1 = Ok (k + 1)"
    by (simp add: arith_int_def int_result_def)
  have "eval (count_cfg e) \<rho> (ASTPlus (ASTVar ''i'') (ASTNumInt 1) False) = Some (Some ST_INT, IntD (k + 1), 18)"
    using assms(1) a
    by (simp add: count_cfg_def eval_var_def eval_const_def eval_binary_def promote_opt_def promote_table
        conv_def arith_op_def arith_def mul_special_def pow_special_def arith_same_def rmap_def to_opt_def)
  from sem.Assign [OF this, of "''i''" "IntD (k + 1)"]
  show "sem (count_cfg e) \<rho> count_body 18 (\<rho>(''i'' \<mapsto> IntD (k + 1)))"
    by (simp add: count_body_def assigned_def count_cfg_def conv_def cast_int_def to_opt_def)
  show "sint (k + 1) = sint k + 1"
    using r sint_of_int [of "sint k + 1"] by (simp add: int_min_def int_max_def)
qed

text \<open>The body may be in a list of statements of its own.\<close>

definition counts_up :: "env \<Rightarrow> t_int \<Rightarrow> ast \<Rightarrow> bool" where
  "counts_up e n body \<longleftrightarrow> (\<forall>\<rho> k. \<rho> ''i'' = Some (IntD k) \<longrightarrow> sint k < sint n \<longrightarrow>
     sem (count_cfg e) \<rho> body 18 (\<rho>(''i'' \<mapsto> IntD (k + 1))))"

lemma count_body_up: "counts_up e n count_body"
  unfolding counts_up_def using count_body_sem(1) by blast

lemma count_block_up: "counts_up e n body \<Longrightarrow> counts_up e n (ASTStmts [body])"
  unfolding counts_up_def
  by (metis Stmts_Cons [OF _ Stmts_Nil] max.absorb1 le0)

lemma count_loop_sem:
  assumes up: "counts_up e n body"
  shows "\<rho> ''i'' = Some (IntD k) \<Longrightarrow> sint k \<le> sint n \<Longrightarrow>
   \<exists>m \<le> 18. sem (count_cfg e) \<rho> (ASTLoop (count_test n) body) m (\<rho>(''i'' \<mapsto> IntD n))"
proof (induction "nat (sint n - sint k)" arbitrary: \<rho> k)
  case 0
  then have "sint k = sint n" by simp
  then have "k = n" by (metis signed_word_eqI)
  then have "\<rho>(''i'' \<mapsto> IntD n) = \<rho>" using 0 by auto
  moreover have "sem (count_cfg e) \<rho> (ASTLoop (count_test n) body) (max 18 7) \<rho>"
    by (rule Loop_False [OF count_test_eval [where e = e and n = n and \<rho> = \<rho>, OF 0(2)]]) (simp add: \<open>k = n\<close> bool_data_def)
  ultimately show ?case by (intro exI [of _ "max 18 7"]) simp
next
  case (Suc d)
  have lt: "sint k < sint n" using Suc(2) by simp
  have b: "sem (count_cfg e) \<rho> body 18 (\<rho>(''i'' \<mapsto> IntD (k + 1)))" "sint (k + 1) = sint k + 1"
    using up Suc(3) lt count_body_sem(2) [where n = n and \<rho> = \<rho>, OF Suc(3) lt] by (auto simp: counts_up_def)
  have "\<exists>m \<le> 18. sem (count_cfg e) (\<rho>(''i'' \<mapsto> IntD (k + 1))) (ASTLoop (count_test n) body) m
      (\<rho>(''i'' \<mapsto> IntD (k + 1), ''i'' \<mapsto> IntD n))"
    by (rule Suc(1) [where k = "k + 1"]) (use Suc(2) lt b(2) in simp_all)
  then obtain m where m: "m \<le> 18" "sem (count_cfg e) (\<rho>(''i'' \<mapsto> IntD (k + 1)))
      (ASTLoop (count_test n) body) m (\<rho>(''i'' \<mapsto> IntD n))" by auto
  have "sem (count_cfg e) \<rho> (ASTLoop (count_test n) body) (max (max 18 7) (max 18 m)) (\<rho>(''i'' \<mapsto> IntD n))"
    by (rule Loop_True [OF count_test_eval [where e = e and n = n and \<rho> = \<rho>, OF Suc(3)] _ b(1) m(2)]) (simp add: lt bool_data_def)
  then show ?case using m(1) by (intro exI [of _ "max (max 18 7) (max 18 m)"]) simp
qed

lemma count_up_sem:
  assumes "0 \<le> sint n" "counts_up e n body"
  shows "\<exists>m \<le> 18. sem (count_cfg e) Map.empty
    (ASTStmts [ASTVarDecl [''i''] None False False, ASTLoop (count_test n) body]) m [''i'' \<mapsto> IntD n]"
proof -
  let ?\<rho> = "[''i'' \<mapsto> IntD 0]"
  obtain m where m: "m \<le> 18" "sem (count_cfg e) ?\<rho> (ASTLoop (count_test n) body) m [''i'' \<mapsto> IntD n]"
    using count_loop_sem [OF assms(2), of ?\<rho> 0] assms(1) by auto
  have "sem (count_cfg e) Map.empty (ASTVarDecl [''i''] None False False) (max (data_bytes (IntD 0) + 5) 0) ?\<rho>"
    by (rule Decl_Zero [OF _ zero_data.simps(2) Decl_Nil]) (simp add: count_cfg_def)
  from Stmts_Cons [OF this Stmts_Cons [OF m(2) Stmts_Nil]] show ?thesis
    using m(1) by (intro exI [of _ "max (max (data_bytes (IntD 0) + 5) 0) (max m 0)"]) simp
qed

lemma count_sem:
  assumes "0 \<le> sint n"
  shows "\<exists>m \<le> 18. sem (count_cfg e) Map.empty (ASTStmts (count_prog n)) m [''i'' \<mapsto> IntD n]"
  unfolding count_prog_def by (rule count_up_sem [OF assms count_body_up])

section \<open>Programs\<close>

text \<open>
  C2. The compiler is correct for programs of declarations, assignments, conditionals and
  loops over expressions: when the reference semantics takes the empty store to \<open>\<rho>'\<close>, the
  generated program, loaded into a machine with enough memory, halts, the stack is empty and
  every variable is in memory with its value.
\<close>

theorem program_halts:
  assumes "fresh_syms K syms" "stmt_frag K (ASTStmts prog)" "sem K Map.empty (ASTStmts prog) m \<rho>'"
    and "compile_program syms prog = Ok c"
    and "cfg_eps K = 0x3CB0000000000000" "cfg_prec K = 6"
    and "7 \<le> sz" "int (length (cg_ostr c)) + int (max m 9) + frame_size syms + sz + 1 \<le> memsize" "memsize < 2 ^ 31"
  shows "\<exists>s0 n s'. SetMem 0 (cg_ostr c) True (new_vm sz memsize) = Ok s0 \<and>
    run (cfg_env K) n s0 = Ok (Halted, s') \<and> vars_in_memory (cg_syms c) s' \<rho>' \<and>
    m_gbp s' = memsize \<and> m_sp s' = memsize - (sz + 1)"
  by (rule program_correct [OF assms]) blast

theorem program_halts_witness:
  "\<exists>c s0 n s'. compile_program count_syms (count_prog 3) = Ok c \<and>
    SetMem 0 (cg_ostr c) True (new_vm 55 4096) = Ok s0 \<and> run demo_env n s0 = Ok (Halted, s') \<and>
    vars_in_memory (cg_syms c) s' [''i'' \<mapsto> IntD 3] \<and> m_sp s' = 4040"
proof -
  obtain c where c: "compile_program count_syms (count_prog 3) = Ok c" "length (cg_ostr c) = 101"
    using count_compiles by blast
  obtain m where m: "m \<le> 18" "sem (count_cfg demo_env) Map.empty (ASTStmts (count_prog 3)) m [''i'' \<mapsto> IntD 3]"
    using count_sem [of 3 demo_env] by auto
  from program_halts [OF count_fresh count_frag m(2) c(1), of 55 4096] show ?thesis
    using c m(1) count_frame by (auto simp: count_cfg_def)
qed

text \<open>
  C13. The counting loop ends for every limit: compiled and run, it halts with the variable at
  the limit, after as many rounds as the limit says.
\<close>

theorem counting_loop_terminates:
  assumes "0 \<le> sint n"
  shows "\<exists>c s0 k s'. compile_program count_syms (count_prog n) = Ok c \<and>
    SetMem 0 (cg_ostr c) True (new_vm 55 4096) = Ok s0 \<and> run e k s0 = Ok (Halted, s') \<and>
    ReadMemData 4087 s' = Ok (VM_INT, IntD n)"
proof -
  obtain c sy where c: "compile_program count_syms (count_prog n) = Ok c" "length (cg_ostr c) = 101"
    "FindSymbol (cg_syms c) ''i'' = Some sy" "sy_addr sy = Some (- 9)" using count_compiles by blast
  obtain m where m: "m \<le> 18" "sem (count_cfg e) Map.empty (ASTStmts (count_prog n)) m [''i'' \<mapsto> IntD n]"
    using count_sem [OF assms] by blast
  obtain s0 k s' where s': "SetMem 0 (cg_ostr c) True (new_vm 55 4096) = Ok s0" "run e k s0 = Ok (Halted, s')"
    "vars_in_memory (cg_syms c) s' [''i'' \<mapsto> IntD n]" "m_gbp s' = 4096"
    by (rule program_correct [OF count_fresh count_frag m(2) c(1), of 55 4096])
      (use c(2) m(1) count_frame in \<open>auto simp: count_cfg_def\<close>)
  have "ReadMemData 4087 s' = Ok (cell_of (IntD n))"
    using s'(3) [unfolded vars_in_memory_def, THEN spec, of "''i''"] s'(4) c(3,4) by simp
  then show ?thesis using c(1) s'(1,2) by (auto simp: cell_of_def)
qed

theorem counting_loop_terminates_witness:
  "\<exists>c s0 k s'. compile_program count_syms (count_prog 1000) = Ok c \<and>
    SetMem 0 (cg_ostr c) True (new_vm 55 4096) = Ok s0 \<and> run demo_env k s0 = Ok (Halted, s') \<and>
    ReadMemData 4087 s' = Ok (VM_INT, IntD 1000)"
  by (rule counting_loop_terminates) simp

text \<open>
  C11. The variables of a compiled program without functions, of declarations, assignments,
  conditionals and loops, lie in the frame below the global base pointer, and no two of them
  overlap. (With functions there are frames of their own, whose addresses are relative to another
  register.)
\<close>

theorem variables_in_frame:
  assumes "fresh_syms K syms" "stmt_frag K (ASTStmts prog)" "compile_program syms prog = Ok c"
    and "FindSymbol (cg_syms c) x = Some sx" "sy_addr sx = Some a"
  shows "- frame_size syms \<le> a \<and> a + sym_size sx \<le> 0 \<and>
    (\<forall>y sy b. y \<noteq> x \<longrightarrow> FindSymbol (cg_syms c) y = Some sy \<longrightarrow> sy_addr sy = Some b \<longrightarrow>
      a + sym_size sx \<le> b \<or> b + sym_size sy \<le> a)"
proof -
  obtain c0 r c1 code where 1: "c0 = emit (frame_code OP_ADDFRAME (frame_size syms)) (Codegen0 syms)"
    "ext K c0 code c1" "cg_syms c = cg_syms c1"
    by (rule compile_shape [OF assms(1-3)]) blast
  have inv: "frame_inv K c1" using 1(2) by (simp add: ext_def top_level_def)
  have F: "frame_size (cg_syms c1) = frame_size syms"
    using 1(1,2) by (simp add: ext_def same_links_def Codegen0_def emit_def)
  have pl: "placed K (cg_syms c1) y b (nat (sym_size sy)) \<and> int (nat (sym_size sy)) = sym_size sy"
    if "FindSymbol (cg_syms c1) y = Some sy" "sy_addr sy = Some b" for y sy b
  proof -
    have y: "y \<in> dom (cfg_vars K)" "is_global sy" using inv that unfolding frame_inv_def by auto
    then obtain ty n where n: "cfg_vars K y = Some (ty, n)" by auto
    have "vars_tab K (cg_syms c1)" using inv by (simp add: frame_inv_def)
    from vars_tabD(2) [OF this n that(1)] have "sym_size sy = int n" by (simp add: sym_size_def)
    then show ?thesis using that y(2) n by (auto simp: placed_def)
  qed
  note x = pl [OF assms(4) [unfolded 1(3)] assms(5)]
  show ?thesis
  proof (intro conjI allI impI)
    show "- frame_size syms \<le> a" "a + sym_size sx \<le> 0"
      using x frame_inv_layout [OF inv] F unfolding layout_def by fastforce+
    fix y sy b
    assume "y \<noteq> x" and y: "FindSymbol (cg_syms c) y = Some sy" "sy_addr sy = Some b"
    then show "a + sym_size sx \<le> b \<or> b + sym_size sy \<le> a"
      using x pl [OF y(1) [unfolded 1(3)] y(2)] frame_inv_layout [OF inv] unfolding layout_def by metis
  qed
qed

theorem variables_in_frame_witness:
  "\<exists>c sy a. compile_program count_syms (count_prog 3) = Ok c \<and> FindSymbol (cg_syms c) ''i'' = Some sy \<and>
    sy_addr sy = Some a \<and> - 9 \<le> a \<and> a + sym_size sy \<le> 0"
proof -
  obtain c sy where c: "compile_program count_syms (count_prog 3) = Ok c"
    "FindSymbol (cg_syms c) ''i'' = Some sy" "sy_addr sy = Some (- 9)" using count_compiles by blast
  from variables_in_frame [OF count_fresh count_frag c] show ?thesis using c count_frame by auto
qed

section \<open>Expressions\<close>

text \<open>
  C3. The code of an expression refines its value: started anywhere between other code, with
  any operands \<open>ds\<close> on the stack, it leaves the value on top of them and stops behind its last
  byte; registers, variables and the memory outside the stack stay as they are.
\<close>

theorem expression_code:
  assumes "expr_frag a" "eval K \<rho> a = Some (t, v, m)" "top_level K c" "gen a c = Ok (r, c')"
    and "env_at K (cg_syms c) F L s \<rho>" "cg_ostr c' = cg_ostr c @ code" "ready B L s code ds" "B + int (m + dsize ds) \<le> L"
  shows "\<exists>s'. steps (cfg_env K) s s' \<and> stk_in L s' (v # ds) \<and>
    outside B L s' = outside B L (s\<lparr>m_ip := m_ip s + int (length code)\<rparr>)"
proof -
  obtain k where k: "c' = emit k c" using emitsE [OF expr_emits [OF assms(1)] assms(4)] .
  then have "k = code" using assms(6) by (simp add: emit_def)
  then have "computes K \<rho> (cg_syms c) code v m"
    using compilesE [OF assms(1-3)] assms(4) k by blast
  from computes_run [OF this syms_le_refl assms(5,7,8)] show ?thesis by (auto simp: runs_def)
qed

definition no_vars :: cfg where
  "no_vars = (count_cfg demo_env)\<lparr>cfg_vars := Map.empty\<rparr>"

definition sum_code :: "byte list" where
  "sum_code = push_int 2 @ [opb OP_NOP] @ push_int 3 @ [opb OP_ADD]"

lemma fresh_nil: "fresh_syms K [] \<longleftrightarrow> cfg_vars K = Map.empty"
  by (auto simp: fresh_syms_def symtab_wf_def vars_tab_def frame_size_def FindSymbol_def fun_eq_iff)
    (metis not_None_eq prod.exhaust)

theorem expression_code_witness:
  "\<exists>s'. steps demo_env (base_vm\<lparr>m_mem := put_bytes (m_mem base_vm) 0 sum_code\<rparr>) s' \<and>
    stk_in 2048 s' [IntD 5] \<and> m_ip s' = 22"
proof -
  let ?a = "ASTPlus (ASTNumInt 2) (ASTNumInt 3) False" and ?c = "Codegen0 []"
  let ?s = "base_vm\<lparr>m_mem := put_bytes (m_mem base_vm) 0 sum_code\<rparr>"
  have len: "length sum_code = 22" by (simp add: sum_code_def push_int_def)
  have top: "top_level no_vars ?c" by (rule fresh_top) (simp add: fresh_nil no_vars_def)
  have ev: "eval no_vars Map.empty ?a = Some (Some ST_INT, IntD 5, 18)"
    by (simp add: no_vars_def eval_const_def eval_binary_def promote_opt_def promote_table conv_def arith_op_def arith_def
        mul_special_def pow_special_def arith_same_def rmap_def to_opt_def arith_int_def int_result_def int_min_def int_max_def)
  have g: "gen ?a ?c = Ok (Some m_int_const, emit sum_code ?c)"
    by (simp add: gen_defs sum_code_def)
  have env: "env_at no_vars (cg_syms ?c) 0 2048 ?s Map.empty"
    using env_at_empty [OF top, of 2048 ?s]
    by (simp add: no_vars_def count_cfg_def Codegen0_def frame_size_def base_vm_def new_vm_def Reset_def)
  have rd: "ready 1024 2048 ?s sum_code []"
    by (simp add: ready_def arena_def quiet_def code_in_def bytes_at_def in_mem_def len stk_in_def stack_of_def cells_on_def holds_def
        m_num_interrupts_def get_put_same_len [of 22 sum_code])
  have o: "cg_ostr (emit sum_code ?c) = cg_ostr ?c @ sum_code" by (simp add: emit_def)
  from expression_code [OF _ ev top g env o rd] show ?thesis
    using outsideD(1) [where B = 1024 and L = 2048 and s = ?s and a = 22] by (force simp: len no_vars_def count_cfg_def)
qed

text \<open>
  C12. Static types are sound for arithmetic: the symbol that the generator returns for an
  expression of constants, variables and arithmetic operators has the type of the value that
  the expression has, for every store whose values have the types of their variables.
\<close>

theorem expression_type:
  assumes "expr_frag a" "arith_expr a" "typed_store K \<rho>" "vars_ok K c"
    and "eval K \<rho> a = Some (t, v, m)" "gen a c = Ok (r, c')"
  shows "\<exists>sy. r = Some sy \<and> data_type v = Some (sy_ty sy)"
  using generated_type [OF assms] by metis

theorem expression_type_witness:
  "\<exists>sy. Some m_real_const = Some sy \<and> data_type (RealD (r_add (int_to_real 2) 0)) = Some (sy_ty sy)"
proof -
  let ?a = "ASTPlus (ASTNumInt 2) (ASTNumReal 0) False" and ?c = "Codegen0 []"
  have ev: "eval no_vars Map.empty ?a = Some (Some ST_REAL, RealD (r_add (int_to_real 2) 0), 18)"
    by (simp add: no_vars_def eval_const_def eval_binary_def promote_opt_def promote_table conv_def arith_op_def arith_def
        mul_special_def pow_special_def arith_same_def rmap_def to_opt_def cast_int_def arith_real_def data_bytes_def)
  have g: "\<exists>code. gen ?a ?c = Ok (Some m_real_const, emit code ?c)"
    by (simp add: gen_defs m_real_const_def PushRealConst_def)
  then obtain code where g: "gen ?a ?c = Ok (Some m_real_const, emit code ?c)" ..
  show ?thesis
    by (rule expression_type [OF _ _ _ _ ev g])
      (simp_all add: typed_store_def vars_ok_def no_vars_def Codegen0_def)
qed

text \<open>
  The table of implicit conversions goes wrong for a call: it decides by the type of the function symbol. The
  second operand is converted to the return type of the function, so a real added to the result
  of an integer function is truncated, where an integer variable would have been promoted.
\<close>

theorem call_operand_truncated:
  "GetCastSymType (Some (f\<lparr>sy_ty := ST_FUNC, retty := ST_INT\<rparr>)) (Some m_real_const) =
     (None, Some m_int_const, Some m_int_const) \<and>
   GetCastSymType (Some m_int_const) (Some m_real_const) = (Some m_real_const, None, Some m_real_const)"
  by (simp add: GetCastSymType_def Let_def m_real_const_def m_int_const_def dummy_sym_def)

text \<open>
  The power of a quaternion is lost on the way: the exponent is converted to a quaternion,
  and the machine has no power of two quaternions. The code of \<open>q ^ i\<close> leaves a
  default-constructed quaternion, whatever \<open>q\<close> and \<open>i\<close> are.
\<close>

theorem quaternion_power_lost:
  assumes "top_level K c" "gen (ASTPow (ASTNumQuat q) (ASTNumInt i)) c = Ok (r, c')" "cg_ostr c' = cg_ostr c @ code"
    and "env_at K (cg_syms c) F L s \<rho>" "ready B L s code ds" "B + int (66 + dsize ds) \<le> L"
  shows "\<exists>s'. steps (cfg_env K) s s' \<and> stk_in L s' (QuatD (e_quat_default (cfg_env K)) # ds)"
proof -
  let ?a = "ASTPow (ASTNumQuat q) (ASTNumInt i)"
  have fr: "expr_frag ?a" by simp
  have q: "data_bytes (QuatD x) = 33" for x
    by (cases x) (simp add: data_bytes_def enc_cell_def cell_of_def length_enc_quat del: enc_quat.simps)
  have ev: "eval K \<rho> ?a = Some (Some ST_QUAT, QuatD (e_quat_default (cfg_env K)), 66)"
    by (simp add: eval_const_def eval_binary_def promote_opt_def promote_table conv_def arith_op_def arith_def
        pow_special_def arith_same_def arith_quat_def to_opt_def cast_int_def q)
  obtain k where k: "c' = emit k c" using emitsE [OF expr_emits [OF fr] assms(2)] .
  then have "k = code" using assms(3) by (simp add: emit_def)
  then have "computes K \<rho> (cg_syms c) code (QuatD (e_quat_default (cfg_env K))) 66"
    using compilesE [OF fr ev assms(1)] assms(2) k by blast
  from computes_run [OF this syms_le_refl assms(4-6)] show ?thesis by (auto simp: runs_def)
qed

definition pow_code :: "byte list" where
  "pow_code = opb OP_PUSH # tyb VM_QUAT # enc64 0 @ enc64 0 @ enc64 0 @ enc64 0 @
     [opb OP_NOP] @ push_int 2 @ [opb OP_TOQ] @ [opb OP_POW]"

theorem quaternion_power_lost_witness:
  "\<exists>s'. steps demo_env (base_vm\<lparr>m_mem := put_bytes (m_mem base_vm) 0 pow_code\<rparr>) s' \<and>
    stk_in 2048 s' [QuatD (e_quat_default demo_env)]"
proof -
  let ?a = "ASTPow (ASTNumQuat (0, 0, 0, 0)) (ASTNumInt 2)" and ?c = "Codegen0 []"
  let ?s = "base_vm\<lparr>m_mem := put_bytes (m_mem base_vm) 0 pow_code\<rparr>"
  have len: "length pow_code = 47" by (simp add: pow_code_def push_int_def)
  have top: "top_level no_vars ?c" by (rule fresh_top) (simp add: fresh_nil no_vars_def)
  have g: "gen ?a ?c = Ok (Some m_quat_const, emit pow_code ?c)"
    by (simp add: gen_defs visit_Pow_def PushQuatConst_def m_quat_const_def pow_code_def)
  have env: "env_at no_vars (cg_syms ?c) 0 2048 ?s Map.empty"
    using env_at_empty [OF top, of 2048 ?s]
    by (simp add: no_vars_def count_cfg_def Codegen0_def frame_size_def base_vm_def new_vm_def Reset_def)
  have rd: "ready 1024 2048 ?s pow_code []"
    by (simp add: ready_def arena_def quiet_def code_in_def bytes_at_def in_mem_def len stk_in_def stack_of_def cells_on_def holds_def
        m_num_interrupts_def get_put_same_len [of 47 pow_code])
  have o: "cg_ostr (emit pow_code ?c) = cg_ostr ?c @ pow_code" by (simp add: emit_def)
  from quaternion_power_lost [OF top g o env rd] show ?thesis by (simp add: no_vars_def count_cfg_def)
qed

end
