(* ===== verification/Context.thy ===== *)
theory Context
  imports Ast
begin

text \<open>
  The state of the parser (\<open>ParserContext\<close> of common/context.h): the symbol table, the scopes
  of the function being parsed and the type of the current declaration; and the external
  functions common/ext_funcs.h registers in it for double precision. Messages on
  \<open>std::cerr\<close> are left out, the null pointer that goes with them is \<open>None\<close>.
\<close>

section \<open>The parser context\<close>

datatype t_variant = RealV t_real | IntV t_int | CplxV t_cplx | StrV t_str

record parser_ctx =
  m_statements :: "ast list option"
  m_symbols :: symtab
  m_consts :: "(t_str \<times> t_variant) list"
  m_curscope :: "t_str list"
  m_symtype :: SymbolType
  m_symdims :: "nat list"

text \<open>The default member initialisers; the one constant is \<open>M_PI\<close>.\<close>

definition ParserContext0 :: parser_ctx where
  "ParserContext0 = \<lparr>m_statements = None, m_symbols = [], m_consts = [(''pi'', RealV 0x400921FB54442D18)],
     m_curscope = [], m_symtype = ST_REAL, m_symdims = [1]\<rparr>"

definition SetStatements :: "ast list option \<Rightarrow> parser_ctx \<Rightarrow> parser_ctx" where
  "SetStatements stmts ctx = ctx\<lparr>m_statements := stmts\<rparr>"

definition GetScopeName :: "nat \<Rightarrow> bool \<Rightarrow> parser_ctx \<Rightarrow> t_str result" where
  "GetScopeName up add_last_sep ctx =
     (if up > length (m_curscope ctx) then Undefined (UB_Index (int up))
      else let levels = take (length (m_curscope ctx) - up) (m_curscope ctx) in
        Ok (concat (map (\<lambda>name. name @ get_scopenameseparator) (butlast levels)) @
          (if levels = [] then []
           else last levels @ (if add_last_sep then get_scopenameseparator else []))))"

definition EnterScope :: "t_str \<Rightarrow> parser_ctx \<Rightarrow> parser_ctx" where
  "EnterScope name ctx = ctx\<lparr>m_curscope := m_curscope ctx @ [name]\<rparr>"

text \<open>The scope is left even when it is not the named one.\<close>

definition LeaveScope :: "t_str \<Rightarrow> parser_ctx \<Rightarrow> parser_ctx result" where
  "LeaveScope name ctx =
     (if m_curscope ctx = [] then Undefined (UB_Index (-1))
      else Ok (ctx\<lparr>m_curscope := butlast (m_curscope ctx)\<rparr>))"

text \<open>
  A known symbol is retyped in place, and with an argument the signature of its function; a
  function is left alone and gives a symbol that is not in the table.
\<close>

definition retype_sym :: "parser_ctx \<Rightarrow> symbol \<Rightarrow> symbol" where
  "retype_sym ctx sy = sy\<lparr>sy_ty := m_symtype ctx, sy_dims := m_symdims ctx\<rparr>"

definition set_argty :: "nat \<Rightarrow> SymbolType \<Rightarrow> symbol \<Rightarrow> symbol" where
  "set_argty i ty func = func\<lparr>argty := (argty func)[i := ty]\<rparr>"

definition retype_known :: "symbol \<Rightarrow> parser_ctx \<Rightarrow> (symbol option \<times> parser_ctx) result" where
  "retype_known sy ctx =
     (let ctx1 = ctx\<lparr>m_symbols := upd_sym (scoped_name sy) (retype_sym ctx) (m_symbols ctx)\<rparr> in
      if \<not> is_arg sy then Ok (Some (retype_sym ctx sy), ctx1)
      else rbind (GetScopeName 0 False ctx1) (\<lambda>funcname.
        case FindSymbol (m_symbols ctx1) funcname of
          None \<Rightarrow> Ok (None, ctx1)
        | Some func \<Rightarrow>
            if argidx sy \<ge> length (argty func) then Ok (None, ctx1)
            else Ok (Some (retype_sym ctx sy), ctx1\<lparr>m_symbols :=
              upd_sym funcname (set_argty (argidx sy) (m_symtype ctx)) (m_symbols ctx1)\<rparr>)))"

definition AddScopedSymbol :: "t_str \<Rightarrow> parser_ctx \<Rightarrow> (symbol option \<times> parser_ctx) result" where
  "AddScopedSymbol name ctx =
     rbind (GetScopeName 0 True ctx) (\<lambda>scope.
     case FindSymbol (m_symbols ctx) (scope @ name) of
       Some sy \<Rightarrow>
         if sy_ty sy = ST_FUNC
         then Ok (fst (AddSymbol scope name (m_symtype ctx) (m_symdims ctx) False (m_symbols ctx)), ctx)
         else retype_known sy ctx
     | None \<Rightarrow>
         (case AddSymbol scope name (m_symtype ctx) (m_symdims ctx) True (m_symbols ctx) of
            (r, tab) \<Rightarrow> Ok (r, ctx\<lparr>m_symbols := tab\<rparr>)))"

definition FindScopedSymbol :: "t_str \<Rightarrow> parser_ctx \<Rightarrow> symbol option result" where
  "FindScopedSymbol name ctx =
     rbind (GetScopeName 0 True ctx) (\<lambda>scope. Ok (FindSymbol (m_symbols ctx) (scope @ name)))"

definition FindGlobalSymbol :: "t_str \<Rightarrow> parser_ctx \<Rightarrow> symbol option" where
  "FindGlobalSymbol name ctx = FindSymbol (m_symbols ctx) name"

definition SetSymType :: "SymbolType \<Rightarrow> parser_ctx \<Rightarrow> parser_ctx" where
  "SetSymType ty ctx = ctx\<lparr>m_symtype := ty\<rparr>"

definition SetSymDims :: "nat list \<Rightarrow> parser_ctx \<Rightarrow> parser_ctx" where
  "SetSymDims dims ctx = ctx\<lparr>m_symdims := dims\<rparr>"

definition SetSymDim :: "nat \<Rightarrow> parser_ctx \<Rightarrow> parser_ctx" where
  "SetSymDim dim ctx = ctx\<lparr>m_symdims := [dim]\<rparr>"

definition GetConst :: "t_str \<Rightarrow> parser_ctx \<Rightarrow> bool \<times> t_variant" where
  "GetConst name ctx =
     (case map_of (m_consts ctx) name of None \<Rightarrow> (False, RealV 0) | Some v \<Rightarrow> (True, v))"

section \<open>External functions\<close>

text \<open>
  The registrations, as name (also the external name), return type and argument types. The
  branches for integer functions test \<open>t_real\<close>, so for double precision \<open>abs\<close> is in none.
\<close>

definition ext_funcs :: "bool \<Rightarrow> (t_str \<times> SymbolType \<times> SymbolType list) list" where
  "ext_funcs skip_some =
     [(''pow'', ST_REAL, [ST_REAL, ST_REAL]),
      (''exp'', ST_REAL, [ST_REAL]),
      (''sin'', ST_REAL, [ST_REAL]),
      (''cos'', ST_REAL, [ST_REAL]),
      (''sqrt'', ST_REAL, [ST_REAL]),
      (''fabs'', ST_REAL, [ST_REAL]),
      (''strlen'', ST_INT, [ST_STRING]),
      (''set_debug'', ST_VOID, [ST_INT]),
      (''sleep'', ST_VOID, [ST_INT]),
      (''set_timer'', ST_VOID, [ST_INT]),
      (''set_eps'', ST_VOID, [ST_REAL]),
      (''get_eps'', ST_REAL, [])] @
     (if skip_some then [] else
     [(''write'', ST_VOID, [ST_STRING]),
      (''write_no_cr'', ST_VOID, [ST_STRING]),
      (''read_real'', ST_REAL, [ST_STRING]),
      (''read_integer'', ST_INT, [ST_STRING]),
      (''real_to_string'', ST_VOID, [ST_REAL, ST_STRING, ST_INT]),
      (''integer_to_string'', ST_VOID, [ST_INT, ST_STRING, ST_INT])])"

primrec reg_ext_funcs :: "t_str \<Rightarrow> (t_str \<times> SymbolType \<times> SymbolType list) list \<Rightarrow> symtab \<Rightarrow> symtab" where
  "reg_ext_funcs scope [] tab = tab"
| "reg_ext_funcs scope (f # fs) tab =
     (case f of (name, rty, argtypes) \<Rightarrow>
        reg_ext_funcs scope fs (snd (AddExtFunc scope name name rty argtypes None None tab)))"

definition add_ext_funcs :: "bool \<Rightarrow> parser_ctx \<Rightarrow> parser_ctx result" where
  "add_ext_funcs skip_some ctx =
     rbind (GetScopeName 0 True ctx) (\<lambda>scope.
     Ok (ctx\<lparr>m_symbols := reg_ext_funcs scope (ext_funcs skip_some) (m_symbols ctx)\<rparr>))"

section \<open>Laws of scopes\<close>

lemma GetScopeName_0 [simp]:
  "GetScopeName 0 True ctx = Ok (concat (map (\<lambda>name. name @ get_scopenameseparator) (m_curscope ctx)))"
proof (cases "m_curscope ctx" rule: rev_cases)
  case (snoc xs x)
  then show ?thesis by (simp add: GetScopeName_def Let_def)
qed (simp add: GetScopeName_def)

lemma GetScopeName_up:
  "up \<le> length (m_curscope ctx) \<Longrightarrow>
   GetScopeName (Suc up) sep (EnterScope name ctx) = GetScopeName up sep ctx"
  by (auto simp: GetScopeName_def EnterScope_def Let_def)

lemma Leave_Enter: "LeaveScope name (EnterScope name ctx) = Ok ctx"
  by (simp add: LeaveScope_def EnterScope_def)

lemma scoped_name_retype [simp]:
  "scoped_name (retype_sym ctx sy) = scoped_name sy" "scoped_name (set_argty i ty sy) = scoped_name sy"
  by (simp_all add: retype_sym_def set_argty_def)

lemma retype_known_wf:
  assumes "symtab_wf (m_symbols ctx)" "retype_known sy ctx = Ok (r, ctx')"
  shows "symtab_wf (m_symbols ctx')"
proof -
  let ?ctx1 = "ctx\<lparr>m_symbols := upd_sym (scoped_name sy) (retype_sym ctx) (m_symbols ctx)\<rparr>"
  have 1: "symtab_wf (m_symbols ?ctx1)" using assms(1) by (simp add: upd_sym_wf)
  have "ctx' = ?ctx1 \<or> (\<exists>n i ty. ctx' = ?ctx1\<lparr>m_symbols := upd_sym n (set_argty i ty) (m_symbols ?ctx1)\<rparr>)"
    using assms(2) unfolding retype_known_def Let_def
    by (cases "is_arg sy")
      (auto simp: rbind_eq_Ok split: option.split_asm, auto split: if_split_asm)
  then show ?thesis using 1 by (auto simp: upd_sym_wf)
qed

lemma AddScopedSymbol_wf:
  assumes "symtab_wf (m_symbols ctx)" "AddScopedSymbol name ctx = Ok (r, ctx')"
  shows "symtab_wf (m_symbols ctx')"
  using assms AddSymbol_wf [OF assms(1)] retype_known_wf [OF assms(1)]
  by (auto simp: AddScopedSymbol_def split: if_splits option.splits prod.splits)
    (metis snd_conv)

lemma FindScopedSymbol_eq:
  "FindScopedSymbol name ctx =
   Ok (FindSymbol (m_symbols ctx) (concat (map (\<lambda>n. n @ get_scopenameseparator) (m_curscope ctx)) @ name))"
  by (simp add: FindScopedSymbol_def)

lemma add_find_scoped:
  assumes "symtab_wf (m_symbols ctx)" "FindScopedSymbol name ctx = Ok None"
    and "AddScopedSymbol name ctx = Ok (r, ctx')"
  shows "\<exists>sy. r = Some sy \<and> FindScopedSymbol name ctx' = Ok (Some sy) \<and>
    sy_ty sy = m_symtype ctx \<and> sy_dims sy = m_symdims ctx \<and> sy_name sy = name \<and>
    (\<forall>n. n \<noteq> scoped_name sy \<longrightarrow> FindSymbol (m_symbols ctx') n = FindSymbol (m_symbols ctx) n)"
  using assms
  by (auto simp: AddScopedSymbol_def FindScopedSymbol_eq AddSymbol_def Let_def FindSymbol_insert)

end
