(* ===== verification/AstOpt.thy ===== *)
theory AstOpt
  imports Ast VmOps
begin

text \<open>
  The constant folding of ast/opt.cpp. \<open>OptConsts\<close> gives the node that replaces one whose
  operands are constants of the same type, or none; the visitors fold the operands they own,
  children first. The visitors change the tree in place; here \<open>opt\<close> gives the changed tree.
  The arithmetic on constants is the C++ arithmetic of the machine the compiler runs on, so
  it uses the functions that model these operators for the virtual machine, undefined
  behaviour included.
\<close>

record opt_state =
  m_arith_opts :: nat
  m_logic_opts :: nat

type_synonym 'a optm = "opt_state \<Rightarrow> ('a \<times> opt_state) result"

definition count_arith :: "opt_state \<Rightarrow> opt_state" where
  "count_arith st = st\<lparr>m_arith_opts := m_arith_opts st + 1\<rparr>"

definition count_logic :: "opt_state \<Rightarrow> opt_state" where
  "count_logic st = st\<lparr>m_logic_opts := m_logic_opts st + 1\<rparr>"

section \<open>Operations on constants\<close>

text \<open>The constants that the dynamic casts of \<open>perform_op\<close> find.\<close>

fun num_int :: "ast \<Rightarrow> t_int option" where
  "num_int (ASTNumInt a) = Some a"
| "num_int _ = None"

fun num_real :: "ast \<Rightarrow> t_real option" where
  "num_real (ASTNumReal a) = Some a"
| "num_real _ = None"

fun num_cplx :: "ast \<Rightarrow> t_cplx option" where
  "num_cplx (ASTNumCplx a) = Some a"
| "num_cplx _ = None"

fun str_const :: "ast \<Rightarrow> t_str option" where
  "str_const (ASTStrConst a) = Some a"
| "str_const _ = None"

text \<open>
  \<open>perform_op\<close> for an arithmetic node, by the type of the constants: integers, reals, complex
  numbers; a modulo has no complex case.
\<close>

definition fold_arith :: "env \<Rightarrow> char \<Rightarrow> ast \<Rightarrow> ast \<Rightarrow> ast result option" where
  "fold_arith e op t1 t2 =
     (case (num_int t1, num_int t2) of
        (Some a, Some b) \<Rightarrow> Some (rmap ASTNumInt (arith_int op a b))
      | _ \<Rightarrow>
     (case (num_real t1, num_real t2) of
        (Some a, Some b) \<Rightarrow> Some (Ok (ASTNumReal (arith_real e op a b)))
      | _ \<Rightarrow>
     (case (num_cplx t1, num_cplx t2) of
        (Some a, Some b) \<Rightarrow>
          if op = CHR ''%'' then None else Some (Ok (ASTNumCplx (arith_cplx e op a b)))
      | _ \<Rightarrow> None)))"

fun comp_int :: "CompOp \<Rightarrow> t_int \<Rightarrow> t_int \<Rightarrow> bool" where
  "comp_int CMP_EQU a b \<longleftrightarrow> a = b"
| "comp_int CMP_NEQ a b \<longleftrightarrow> a \<noteq> b"
| "comp_int CMP_GT a b \<longleftrightarrow> sint a > sint b"
| "comp_int CMP_LT a b \<longleftrightarrow> sint a < sint b"
| "comp_int CMP_GEQ a b \<longleftrightarrow> sint a \<ge> sint b"
| "comp_int CMP_LEQ a b \<longleftrightarrow> sint a \<le> sint b"

text \<open>Reals are compared exactly.\<close>

fun comp_real :: "CompOp \<Rightarrow> t_real \<Rightarrow> t_real \<Rightarrow> bool" where
  "comp_real CMP_EQU a b \<longleftrightarrow> r_eq a b"
| "comp_real CMP_NEQ a b \<longleftrightarrow> \<not> r_eq a b"
| "comp_real CMP_GT a b \<longleftrightarrow> r_lt b a"
| "comp_real CMP_LT a b \<longleftrightarrow> r_lt a b"
| "comp_real CMP_GEQ a b \<longleftrightarrow> r_le b a"
| "comp_real CMP_LEQ a b \<longleftrightarrow> r_le a b"

definition fold_comp :: "CompOp \<Rightarrow> ast \<Rightarrow> ast \<Rightarrow> bool option" where
  "fold_comp op t1 t2 =
     (case (num_int t1, num_int t2) of
        (Some a, Some b) \<Rightarrow> Some (comp_int op a b)
      | _ \<Rightarrow>
     (case (num_real t1, num_real t2) of
        (Some a, Some b) \<Rightarrow> Some (comp_real op a b)
      | _ \<Rightarrow>
     (case (str_const t1, str_const t2) of
        (Some a, Some b) \<Rightarrow>
          if op = CMP_EQU then Some (a = b) else if op = CMP_NEQ then Some (a \<noteq> b) else None
      | _ \<Rightarrow> None)))"

text \<open>\<open>XOR\<close> is the bitwise operator of integers; \<open>NOT\<close> has no second operand and is never folded.\<close>

definition bool_int :: "BoolOp \<Rightarrow> t_int \<Rightarrow> t_int \<Rightarrow> bool" where
  "bool_int op a b =
     (case op of
        BOOL_AND \<Rightarrow> a \<noteq> 0 \<and> b \<noteq> 0
      | BOOL_OR \<Rightarrow> a \<noteq> 0 \<or> b \<noteq> 0
      | BOOL_XOR \<Rightarrow> xor a b \<noteq> 0
      | BOOL_NOT \<Rightarrow> a = 0)"

definition fold_bool :: "BoolOp \<Rightarrow> ast \<Rightarrow> ast option \<Rightarrow> bool option" where
  "fold_bool op t1 t2 =
     (case (num_int t1, Option.bind t2 num_int) of
        (Some a, Some b) \<Rightarrow> Some (bool_int op a b)
      | _ \<Rightarrow> None)"

definition arith_repl :: "ast result option \<Rightarrow> ast option optm" where
  "arith_repl r st =
     (case r of
        None \<Rightarrow> Ok (None, st)
      | Some m \<Rightarrow> rbind m (\<lambda>a. Ok (Some a, count_arith st)))"

definition logic_repl :: "bool option \<Rightarrow> ast option optm" where
  "logic_repl r st =
     Ok (case r of None \<Rightarrow> (None, st) | Some b \<Rightarrow> (Some (ASTNumBool b), count_logic st))"

definition fold_concat :: "ast \<Rightarrow> ast \<Rightarrow> bool \<Rightarrow> ast result option" where
  "fold_concat t1 t2 inverted =
     (case (str_const t1, str_const t2) of
        (Some a, Some b) \<Rightarrow> if inverted then None else Some (Ok (ASTStrConst (a @ b)))
      | _ \<Rightarrow> None)"

fun OptConsts :: "env \<Rightarrow> ast \<Rightarrow> ast option optm" where
  "OptConsts e (ASTPlus term1 term2 inverted) =
     arith_repl
       (case fold_arith e (if inverted then CHR ''-'' else CHR ''+'') term1 term2 of
          Some r \<Rightarrow> Some r
        | None \<Rightarrow> fold_concat term1 term2 inverted)"
| "OptConsts e (ASTMult term1 term2 inverted) =
     arith_repl (fold_arith e (if inverted then CHR ''/'' else CHR ''*'') term1 term2)"
| "OptConsts e (ASTMod term1 term2) = arith_repl (fold_arith e CHR ''%'' term1 term2)"
| "OptConsts e (ASTPow term1 term2) = arith_repl (fold_arith e CHR ''^'' term1 term2)"
| "OptConsts e (ASTComp term1 term2 op) = logic_repl (fold_comp op term1 term2)"
| "OptConsts e (ASTBool term1 term2 op) = logic_repl (fold_bool op term1 term2)"
| "OptConsts e _ = (\<lambda>st. Ok (None, st))"

section \<open>The visitors\<close>

text \<open>Fold a child that has been visited, keeping it when there is no replacement.\<close>

definition fold_child :: "env \<Rightarrow> ast \<Rightarrow> ast optm" where
  "fold_child e a st = rbind (OptConsts e a st) (\<lambda>(r, st). Ok (case r of None \<Rightarrow> a | Some b \<Rightarrow> b, st))"

definition opt_bind :: "'a optm \<Rightarrow> ('a \<Rightarrow> 'b optm) \<Rightarrow> 'b optm" where
  "opt_bind m f st = rbind (m st) (\<lambda>(x, st). f x st)"

definition opt_ret :: "'a \<Rightarrow> 'a optm" where
  "opt_ret x st = Ok (x, st)"

definition visit_fold :: "env \<Rightarrow> ast optm \<Rightarrow> ast optm" where
  "visit_fold e m = opt_bind m (fold_child e)"

primrec opt_seq :: "'a optm list \<Rightarrow> 'a list optm" where
  "opt_seq [] = opt_ret []"
| "opt_seq (m # ms) = opt_bind m (\<lambda>x. opt_bind (opt_seq ms) (\<lambda>xs. opt_ret (x # xs)))"

definition opt_option :: "'a optm option \<Rightarrow> 'a option optm" where
  "opt_option m = (case m of None \<Rightarrow> opt_ret None | Some m \<Rightarrow> opt_bind m (\<lambda>x. opt_ret (Some x)))"

text \<open>All children are visited before any of them is folded.\<close>

definition opt_two :: "env \<Rightarrow> ast optm \<Rightarrow> ast optm \<Rightarrow> (ast \<Rightarrow> ast \<Rightarrow> ast) \<Rightarrow> ast optm" where
  "opt_two e m1 m2 node =
     opt_bind m1 (\<lambda>t1. opt_bind m2 (\<lambda>t2.
     opt_bind (fold_child e t1) (\<lambda>t1. opt_bind (fold_child e t2) (\<lambda>t2. opt_ret (node t1 t2)))))"

definition fold_option :: "env \<Rightarrow> ast option \<Rightarrow> ast option optm" where
  "fold_option e t = opt_option (map_option (fold_child e) t)"

definition opt_case :: "env \<Rightarrow> ast optm \<Rightarrow> ast optm \<Rightarrow> (ast \<times> ast) optm" where
  "opt_case e mcond mstmts =
     opt_bind mcond (\<lambda>cond. opt_bind mstmts (\<lambda>stmts.
     opt_bind (fold_child e cond) (\<lambda>cond. opt_ret (cond, stmts))))"

text \<open>
  Array accesses and assignments: the indices, then the array or the assigned expression.
  The first index is not tested for null before it is visited.
\<close>

definition opt_array :: "env \<Rightarrow> ast optm option \<Rightarrow> ast optm option \<Rightarrow> ast optm \<Rightarrow>
    (ast \<Rightarrow> ast option \<Rightarrow> ast option \<Rightarrow> ast) \<Rightarrow> ast optm" where
  "opt_array e num1 num2 mterm node =
     (case num1 of
        None \<Rightarrow> (\<lambda>st. Undefined UB_Null)
      | Some m1 \<Rightarrow>
          opt_bind m1 (\<lambda>n1. opt_bind (opt_option num2) (\<lambda>n2. opt_bind mterm (\<lambda>term.
          opt_bind (fold_child e n1) (\<lambda>n1. opt_bind (fold_option e n2) (\<lambda>n2.
          opt_bind (fold_child e term) (\<lambda>term. opt_ret (node term (Some n1) n2))))))))"

definition opt_assign :: "env \<Rightarrow> t_str list \<Rightarrow> ast optm option \<Rightarrow> ast optm" where
  "opt_assign e idents mexpr =
     (case mexpr of
        None \<Rightarrow> (\<lambda>st. Undefined UB_Null)
      | Some m \<Rightarrow> opt_bind (visit_fold e m) (\<lambda>expr. opt_ret (ASTAssign idents (Some expr))))"

text \<open>The expression of an initialisation is folded by its assignment and then once more.\<close>

fun refold_assign :: "env \<Rightarrow> ast \<Rightarrow> ast optm" where
  "refold_assign e (ASTAssign idents (Some expr)) =
     opt_bind (fold_child e expr) (\<lambda>expr. opt_ret (ASTAssign idents (Some expr)))"
| "refold_assign e a = opt_ret a"

function (sequential) opt :: "env \<Rightarrow> ast \<Rightarrow> ast optm" where
  "opt e (ASTUMinus term) = opt_bind (visit_fold e (opt e term)) (\<lambda>t. opt_ret (ASTUMinus t))"
| "opt e (ASTPlus term1 term2 inverted) =
     opt_two e (opt e term1) (opt e term2) (\<lambda>t1 t2. ASTPlus t1 t2 inverted)"
| "opt e (ASTMult term1 term2 inverted) =
     opt_two e (opt e term1) (opt e term2) (\<lambda>t1 t2. ASTMult t1 t2 inverted)"
| "opt e (ASTMod term1 term2) = opt_two e (opt e term1) (opt e term2) ASTMod"
| "opt e (ASTPow term1 term2) = opt_two e (opt e term1) (opt e term2) ASTPow"
| "opt e (ASTNorm term) = opt_bind (visit_fold e (opt e term)) (\<lambda>t. opt_ret (ASTNorm t))"
| "opt e (ASTCall ident args) =
     opt_bind (opt_seq (map (\<lambda>a. visit_fold e (opt e a)) args)) (\<lambda>as. opt_ret (ASTCall ident as))"
| "opt e (ASTStmts stmts) = opt_bind (opt_seq (map (opt e) stmts)) (\<lambda>ss. opt_ret (ASTStmts ss))"
| "opt e (ASTVarDecl vars optAssign intent_in intent_out) =
     opt_bind (opt_option (map_option (\<lambda>a. opt_bind (opt e a) (refold_assign e)) optAssign))
       (\<lambda>a. opt_ret (ASTVarDecl vars a intent_in intent_out))"
| "opt e (ASTFunc ident args stmts rets) =
     opt_bind (opt_seq (map (opt e) stmts)) (\<lambda>ss. opt_ret (ASTFunc ident args ss rets))"
| "opt e (ASTReturn rets only_jump) =
     (if only_jump then opt_ret (ASTReturn rets only_jump)
      else case rets of
        None \<Rightarrow> (\<lambda>st. Undefined UB_Null)
      | Some es \<Rightarrow> opt_bind (opt_seq (map (opt e) es)) (\<lambda>es. opt_ret (ASTReturn (Some es) only_jump)))"
| "opt e (ASTAssign idents expr) = opt_assign e idents (map_option (opt e) expr)"
| "opt e (ASTVarRange ident b f inc) =
     opt_bind (opt e b) (\<lambda>b. opt_bind (opt e f) (\<lambda>f.
     opt_bind (opt_option (map_option (opt e) inc)) (\<lambda>inc. opt_ret (ASTVarRange ident b f inc))))"
| "opt e (ASTArrayAccess term num1 num2 ranged12) =
     opt_array e (map_option (opt e) num1) (map_option (opt e) num2) (opt e term)
       (\<lambda>t n1 n2. ASTArrayAccess t n1 n2 ranged12)"
| "opt e (ASTArrayAssign ident expr num1 num2 ranged12) =
     opt_array e (map_option (opt e) num1) (map_option (opt e) num2) (opt e expr)
       (\<lambda>t n1 n2. ASTArrayAssign ident t n1 n2 ranged12)"
| "opt e (ASTComp term1 term2 op) = opt_two e (opt e term1) (opt e term2) (\<lambda>t1 t2. ASTComp t1 t2 op)"
| "opt e (ASTBool term1 term2 op) =
     opt_bind (opt e term1) (\<lambda>t1. opt_bind (opt_option (map_option (opt e) term2)) (\<lambda>t2.
     opt_bind (fold_child e t1) (\<lambda>t1. opt_bind (fold_option e t2) (\<lambda>t2.
     opt_ret (ASTBool t1 t2 op)))))"
| "opt e (ASTCond cond if_stmt else_stmt) =
     opt_bind (opt e cond) (\<lambda>c. opt_bind (opt e if_stmt) (\<lambda>s1.
     opt_bind (opt_option (map_option (opt e) else_stmt)) (\<lambda>s2.
     opt_bind (fold_child e c) (\<lambda>c. opt_ret (ASTCond c s1 s2)))))"
| "opt e (ASTCases expr cases default_stmts) =
     opt_bind (opt e expr) (\<lambda>x.
     opt_bind (opt_seq (map (\<lambda>(cond, stmts). opt_case e (opt e cond) (opt e stmts)) cases)) (\<lambda>cs.
     opt_bind (opt_option (map_option (opt e) default_stmts)) (\<lambda>d. opt_ret (ASTCases x cs d))))"
| "opt e (ASTLoop cond stmt) =
     opt_bind (opt e cond) (\<lambda>c. opt_bind (opt e stmt) (\<lambda>s.
     opt_bind (fold_child e c) (\<lambda>c. opt_ret (ASTLoop c s))))"
| "opt e (ASTRangedLoop ident b f inc stmt) =
     opt_bind (opt e b) (\<lambda>b. opt_bind (opt e f) (\<lambda>f.
     opt_bind (opt_option (map_option (opt e) inc)) (\<lambda>inc.
     opt_bind (opt e stmt) (\<lambda>s. opt_ret (ASTRangedLoop ident b f inc s)))))"
| "opt e (ASTExprList exprs arr_ty) =
     opt_bind (opt_seq (map (\<lambda>a. visit_fold e (opt e a)) exprs)) (\<lambda>es. opt_ret (ASTExprList es arr_ty))"
| "opt e ASTNull = (\<lambda>st. Undefined UB_Null)"
| "opt e a = opt_ret a"
  by pat_completeness auto

termination
  by (relation "measure (\<lambda>(e, a). size a)") (force dest: size_mem size_case)+

end
