(* ===== verification/OptFacts.thy ===== *)
theory OptFacts
  imports AstOpt CompileTypes
begin

text \<open>
  Constant folding against the reference semantics: an arithmetic expression keeps type and
  value. Comparisons and connectives do not, and integer constants can make the compiler itself
  run into undefined behaviour.
\<close>

section \<open>The state of the folding\<close>

lemma opt_bind_Ok: "opt_bind m f st = Ok r \<longleftrightarrow> (\<exists>x st1. m st = Ok (x, st1) \<and> f x st1 = Ok r)"
  by (auto simp: opt_bind_def rbind_eq_Ok)

lemma opt_ret_Ok [simp]: "opt_ret x st = Ok (y, st') \<longleftrightarrow> y = x \<and> st' = st"
  by (auto simp: opt_ret_def)

text \<open>Evaluations that agree but for the stack they need.\<close>

definition same_value :: "evald option \<Rightarrow> evald option \<Rightarrow> bool" where
  "same_value r r' \<longleftrightarrow> (\<forall>t v m. r = Some (t, v, m) \<longrightarrow> (\<exists>m'. r' = Some (t, v, m')))"

lemma same_value_refl [simp]: "same_value r r"
  by (simp add: same_value_def)

lemma same_value_trans: "same_value r1 r2 \<Longrightarrow> same_value r2 r3 \<Longrightarrow> same_value r1 r3"
  unfolding same_value_def by blast

lemma same_unary: "same_value r r' \<Longrightarrow> same_value (eval_unary f r) (eval_unary f r')"
  by (fastforce simp: same_value_def eval_unary_def bind_eq_Some_conv)

lemma eval_binary_Some:
  "eval_binary K f (Some (t1, v1, m1)) (Some (t2, v2, m2)) = Some (t, v, m) \<longleftrightarrow>
   (\<exists>c1 c2 w1 w2. promote_opt t1 t2 = (c1, c2, t) \<and> conv K c1 v1 = Some w1 \<and> conv K c2 v2 = Some w2 \<and>
      f w1 w2 = Some v \<and> m = Max {m1, data_bytes w1 + m2, data_bytes w1 + data_bytes w2, data_bytes v})"
  by (cases "promote_opt t1 t2") (simp add: eval_binary_def bind_eq_Some_conv, blast)

lemma eval_binary_None: "eval_binary K f None r2 = None" "eval_binary K f r1 None = None"
  unfolding eval_binary_def by (simp, cases r1, auto)

lemma same_binary:
  assumes "same_value r1 r1'" "same_value r2 r2'"
  shows "same_value (eval_binary K f r1 r2) (eval_binary K f r1' r2')"
  unfolding same_value_def
proof (intro allI impI)
  fix t v m
  assume ev: "eval_binary K f r1 r2 = Some (t, v, m)"
  have "r1 \<noteq> None" "r2 \<noteq> None" using ev eval_binary_None by (metis option.distinct(1))+
  then obtain t1 v1 m1 t2 v2 m2 where 1: "r1 = Some (t1, v1, m1)" "r2 = Some (t2, v2, m2)"
    by (cases r1; cases r2) auto
  obtain m1' where r1: "r1' = Some (t1, v1, m1')" using assms(1) 1(1) by (auto simp: same_value_def)
  obtain m2' where r2: "r2' = Some (t2, v2, m2')" using assms(2) 1(2) by (auto simp: same_value_def)
  obtain c1 c2 w1 w2 where "promote_opt t1 t2 = (c1, c2, t)" "conv K c1 v1 = Some w1" "conv K c2 v2 = Some w2"
    "f w1 w2 = Some v" using ev unfolding 1 eval_binary_Some by blast
  then show "\<exists>m'. eval_binary K f r1' r2' = Some (t, v, m')" unfolding r1 r2 eval_binary_Some by blast
qed

lemma same_no_array: "same_value r r' \<Longrightarrow> same_value (no_array r) (no_array r')"
  by (fastforce simp: same_value_def no_array_def bind_eq_Some_conv split: if_splits)

section \<open>Folding one node\<close>

lemma num_simps [simp]:
  "num_int a = Some i \<longleftrightarrow> a = ASTNumInt i" "num_real a = Some x \<longleftrightarrow> a = ASTNumReal x"
  "num_cplx a = Some z \<longleftrightarrow> a = ASTNumCplx z" "str_const a = Some str \<longleftrightarrow> a = ASTStrConst str"
  by (cases a; auto)+

lemma promote_refl: "t \<in> {ST_INT, ST_REAL, ST_CPLX, ST_STRING} \<Longrightarrow> promote t t = (None, None, t)"
  by (auto simp: promote_def needs_def scales_def Let_def)

lemma eval_binary_const:
  assumes "t \<in> {ST_INT, ST_REAL, ST_CPLX, ST_STRING}"
    and "eval_binary K f (Some (Some t, v1, m1)) (Some (Some t, v2, m2)) = Some (u, v, m)"
  shows "u = Some t \<and> f v1 v2 = Some v"
  using assms by (auto simp: eval_binary_def promote_opt_def promote_refl conv_def bind_eq_Some_conv)

lemma arith_consts:
  "arith e op (IntD a) (IntD b) = rmap IntD (arith_int op a b)"
  "arith e op (RealD x) (RealD y) = Ok (RealD (arith_real e op x y))"
  "arith e op (CplxD z) (CplxD w) = Ok (CplxD (arith_cplx e op z w))"
  "arith e op (StrD u) (StrD v) = Ok (StrD (arith_str op u v))"
  by (simp_all add: arith_def mul_special_def pow_special_def arith_same_def)

text \<open>The replacement has the value of the operation on the two constants.\<close>

lemma fold_arith_eval:
  assumes f: "fold_arith (cfg_env K) op t1 t2 = Some (Ok b)"
    and ev: "eval_binary K (arith_op K op) (eval K \<rho> t1) (eval K \<rho> t2) = Some (t, v, m)"
  shows "\<exists>m'. eval K \<rho> b = Some (t, v, m')"
proof -
  consider (int) x y where "t1 = ASTNumInt x" "t2 = ASTNumInt y"
    | (real) x y where "t1 = ASTNumReal x" "t2 = ASTNumReal y"
    | (cplx) x y where "t1 = ASTNumCplx x" "t2 = ASTNumCplx y"
    using f by (auto simp: fold_arith_def split: option.splits)
  then show ?thesis
  proof cases
    case int
    then show ?thesis
      using f eval_binary_const [of ST_INT K "arith_op K op" "IntD x" _ "IntD y"] ev
      by (fastforce simp: fold_arith_def eval_const_def arith_op_def arith_consts rmap_Ok)
  next
    case real
    then show ?thesis
      using f eval_binary_const [of ST_REAL K "arith_op K op" "RealD x" _ "RealD y"] ev
      by (fastforce simp: fold_arith_def eval_const_def arith_op_def arith_consts)
  next
    case cplx
    then show ?thesis
      using f eval_binary_const [of ST_CPLX K "arith_op K op" "CplxD x" _ "CplxD y"] ev
      by (fastforce simp: fold_arith_def eval_const_def arith_op_def arith_consts split: if_splits)
  qed
qed

lemma fold_concat_eval:
  assumes f: "fold_concat t1 t2 inverted = Some (Ok b)"
    and ev: "eval_binary K (arith_op K (if inverted then CHR ''-'' else CHR ''+'')) (eval K \<rho> t1) (eval K \<rho> t2) = Some (t, v, m)"
  shows "\<exists>m'. eval K \<rho> b = Some (t, v, m')"
proof -
  obtain x y where xy: "t1 = ASTStrConst x" "t2 = ASTStrConst y" "\<not> inverted" "b = ASTStrConst (x @ y)"
    using f by (auto simp: fold_concat_def split: option.splits if_splits)
  have "t = Some ST_STRING \<and> arith_op K (CHR ''+'') (StrD x) (StrD y) = Some v"
    using eval_binary_const [of ST_STRING K "arith_op K (CHR ''+'')" "StrD x" _ "StrD y"] ev xy
    by (auto simp: eval_const_def)
  then show ?thesis
    using xy(4) by (auto simp: eval_const_def arith_op_def arith_consts arith_str_def)
qed

lemma fold_frag:
  "fold_arith e op t1 t2 = Some (Ok b) \<Longrightarrow> arith_expr b" "fold_concat t1 t2 inverted = Some (Ok b) \<Longrightarrow> arith_expr b"
  by (auto simp: fold_arith_def fold_concat_def rmap_Ok split: option.splits if_splits)

lemma no_array_eval: "no_array r = Some (t, v, m) \<Longrightarrow> r = Some (t, v, m)"
  by (auto simp: no_array_def bind_eq_Some_conv split: if_splits)

text \<open>What the folding of an arithmetic node was.\<close>

lemma OptConsts_arith:
  assumes "arith_expr a" "OptConsts e a st = Ok (Some b, st')"
  obtains (plus) t1 t2 inv where "a = ASTPlus t1 t2 inv"
      "fold_arith e (if inv then CHR ''-'' else CHR ''+'') t1 t2 = Some (Ok b)"
    | (concat) t1 t2 inv where "a = ASTPlus t1 t2 inv" "fold_concat t1 t2 inv = Some (Ok b)"
    | (mult) t1 t2 inv where "a = ASTMult t1 t2 inv"
      "fold_arith e (if inv then CHR ''/'' else CHR ''*'') t1 t2 = Some (Ok b)"
    | (modulo) t1 t2 where "a = ASTMod t1 t2" "fold_arith e CHR ''%'' t1 t2 = Some (Ok b)"
    | (pow) t1 t2 where "a = ASTPow t1 t2" "fold_arith e CHR ''^'' t1 t2 = Some (Ok b)"
  using assms by (cases a; simp only: OptConsts.simps)
    (simp_all add: arith_repl_def rbind_eq_Ok split: option.splits)

lemma OptConsts_eval:
  assumes "arith_expr a" "OptConsts (cfg_env K) a st = Ok (Some b, st')"
  shows "arith_expr b" "same_value (eval K \<rho> a) (eval K \<rho> b)"
proof -
  show "arith_expr b" by (rule OptConsts_arith [OF assms]) (erule fold_frag)+
  show "same_value (eval K \<rho> a) (eval K \<rho> b)"
    unfolding same_value_def
  proof (intro allI impI)
    fix t v m
    assume ev: "eval K \<rho> a = Some (t, v, m)"
    show "\<exists>m'. eval K \<rho> b = Some (t, v, m')"
    proof (rule OptConsts_arith [OF assms])
      fix t1 t2 inv
      assume a: "a = ASTPlus t1 t2 inv"
      note ev' = ev [unfolded a eval.simps]
      show "fold_arith (cfg_env K) (if inv then CHR ''-'' else CHR ''+'') t1 t2 = Some (Ok b) \<Longrightarrow> ?thesis"
        using fold_arith_eval [OF _ ev'] .
      show "fold_concat t1 t2 inv = Some (Ok b) \<Longrightarrow> ?thesis" using fold_concat_eval [OF _ ev'] .
    next
      fix t1 t2 inv
      assume a: "a = ASTMult t1 t2 inv"
        and f: "fold_arith (cfg_env K) (if inv then CHR ''/'' else CHR ''*'') t1 t2 = Some (Ok b)"
      show ?thesis using fold_arith_eval [OF f no_array_eval [OF ev [unfolded a eval.simps]]] .
    next
      fix t1 t2
      assume a: "a = ASTMod t1 t2" and f: "fold_arith (cfg_env K) CHR ''%'' t1 t2 = Some (Ok b)"
      show ?thesis using fold_arith_eval [OF f ev [unfolded a eval.simps]] .
    next
      fix t1 t2
      assume a: "a = ASTPow t1 t2" and f: "fold_arith (cfg_env K) CHR ''^'' t1 t2 = Some (Ok b)"
      show ?thesis using fold_arith_eval [OF f ev [unfolded a eval.simps]] .
    qed
  qed
qed

lemma fold_child_eval:
  assumes "arith_expr a" "fold_child (cfg_env K) a st = Ok (b, st')"
  shows "arith_expr b" "same_value (eval K \<rho> a) (eval K \<rho> b)"
proof -
  obtain r where r: "OptConsts (cfg_env K) a st = Ok (r, st')" "b = (case r of None \<Rightarrow> a | Some b \<Rightarrow> b)"
    using assms(2) by (auto simp: fold_child_def rbind_eq_Ok)
  then show "arith_expr b" "same_value (eval K \<rho> a) (eval K \<rho> b)"
    using assms(1) OptConsts_eval [OF assms(1)] by (cases r; simp)+
qed

section \<open>Folding an expression\<close>

definition kept_by :: "cfg \<Rightarrow> store \<Rightarrow> ast optm \<Rightarrow> ast \<Rightarrow> bool" where
  "kept_by K \<rho> m a \<longleftrightarrow> (\<forall>st b st'. m st = Ok (b, st') \<longrightarrow> arith_expr b \<and> same_value (eval K \<rho> a) (eval K \<rho> b))"

lemma kept_two:
  assumes "kept_by K \<rho> m1 a1" "kept_by K \<rho> m2 a2"
    and node: "\<And>b1 b2. arith_expr b1 \<Longrightarrow> arith_expr b2 \<Longrightarrow> same_value (eval K \<rho> a1) (eval K \<rho> b1) \<Longrightarrow>
      same_value (eval K \<rho> a2) (eval K \<rho> b2) \<Longrightarrow> arith_expr (node b1 b2) \<and> same_value (eval K \<rho> a) (eval K \<rho> (node b1 b2))"
  shows "kept_by K \<rho> (opt_two (cfg_env K) m1 m2 node) a"
  unfolding kept_by_def
proof (intro allI impI)
  fix st b st'
  assume "opt_two (cfg_env K) m1 m2 node st = Ok (b, st')"
  then obtain b1 b2 c1 c2 s1 s2 s3 where 1: "m1 st = Ok (b1, s1)" "m2 s1 = Ok (b2, s2)"
    "fold_child (cfg_env K) b1 s2 = Ok (c1, s3)" "fold_child (cfg_env K) b2 s3 = Ok (c2, st')" "b = node c1 c2"
    by (auto simp: opt_two_def opt_bind_Ok)
  have k: "arith_expr b1" "same_value (eval K \<rho> a1) (eval K \<rho> b1)" "arith_expr b2" "same_value (eval K \<rho> a2) (eval K \<rho> b2)"
    using assms(1,2) 1(1,2) unfolding kept_by_def by blast+
  show "arith_expr b \<and> same_value (eval K \<rho> a) (eval K \<rho> b)"
    unfolding 1(5)
    by (rule node) (use fold_child_eval k 1(3,4) same_value_trans in blast)+
qed

lemma kept_usub:
  assumes "kept_by K \<rho> m a"
  shows "kept_by K \<rho> (opt_bind (visit_fold (cfg_env K) m) (\<lambda>t. opt_ret (ASTUMinus t))) (ASTUMinus a)"
  unfolding kept_by_def
proof (intro allI impI)
  fix st b st'
  assume "opt_bind (visit_fold (cfg_env K) m) (\<lambda>t. opt_ret (ASTUMinus t)) st = Ok (b, st')"
  then obtain b1 c1 s1 where 1: "m st = Ok (b1, s1)" "fold_child (cfg_env K) b1 s1 = Ok (c1, st')" "b = ASTUMinus c1"
    by (auto simp: visit_fold_def opt_bind_Ok)
  have k: "arith_expr b1" "same_value (eval K \<rho> a) (eval K \<rho> b1)"
    using assms 1(1) unfolding kept_by_def by blast+
  have "arith_expr c1" "same_value (eval K \<rho> a) (eval K \<rho> c1)"
    using fold_child_eval [OF k(1) 1(2)] k(2) same_value_trans by blast+
  then show "arith_expr b \<and> same_value (eval K \<rho> (ASTUMinus a)) (eval K \<rho> b)"
    using 1(3) by (simp add: same_unary)
qed

lemma kept_leaf: "arith_expr a \<Longrightarrow> kept_by K \<rho> (opt_ret a) a"
  by (simp add: kept_by_def)

theorem opt_keeps_value: "arith_expr a \<Longrightarrow> kept_by K \<rho> (opt (cfg_env K) a) a"
proof (induction a rule: arith_expr.induct)
  case (8 a)
  then show ?case by (simp add: kept_usub)
next
  case (9 a b inverted)
  then show ?case by (auto intro!: kept_two same_binary)
next
  case (10 a b inverted)
  then show ?case by (auto intro!: kept_two same_binary same_no_array)
next
  case (11 a b)
  then show ?case by (auto intro!: kept_two same_binary)
next
  case (12 a b)
  then show ?case by (auto intro!: kept_two same_binary)
qed (simp_all add: kept_leaf)

end
