(* ===== verification/FrontProperties.thy ===== *)
theory FrontProperties
  imports Demo Context ConstTab OptFacts
begin

text \<open>
  The properties of the symbol table, the parser context, the constants table, the optimiser
  and the table of external functions, each with an instance where it has hypotheses.
\<close>

section \<open>Symbols and scopes\<close>

text \<open>
  C14. The symbol table stays a table: every operation that adds a symbol, a function or an
  external function, in whatever scope, keeps each symbol stored under its own scoped name and
  no name stored twice.
\<close>

theorem symbol_table_invariant:
  assumes "symtab_wf tab"
  shows "symtab_wf (snd (AddSymbol scope name ty dims add tab)) \<and>
    symtab_wf (snd (AddFunc scope name rty as rd rt ext rec tab)) \<and>
    symtab_wf (snd (AddExtFunc scope name en rty as rd rt tab)) \<and>
    (m_symbols ctx = tab \<longrightarrow> AddScopedSymbol name ctx = Ok (r, ctx') \<longrightarrow> symtab_wf (m_symbols ctx'))"
  using assms by (auto intro: AddSymbol_wf AddFunc_wf AddExtFunc_wf AddScopedSymbol_wf)

definition demo_ctx :: parser_ctx where
  "demo_ctx = \<lparr>m_statements = None, m_symbols = [], m_consts = [], m_curscope = [''f''], m_symtype = ST_INT, m_symdims = [1]\<rparr>"

theorem symbol_table_invariant_witness:
  "\<exists>r ctx'. AddScopedSymbol ''x'' demo_ctx = Ok (r, ctx') \<and> symtab_wf (m_symbols ctx') \<and> m_symbols ctx' \<noteq> []"
proof -
  obtain r ctx' where 1: "AddScopedSymbol ''x'' demo_ctx = Ok (r, ctx')" "m_symbols ctx' \<noteq> []"
    by (simp add: demo_ctx_def AddScopedSymbol_def FindSymbol_def AddSymbol_def insert_sym_def Let_def)
  have "symtab_wf []" by (simp add: symtab_wf_def)
  then have "symtab_wf (m_symbols ctx')"
    using symbol_table_invariant [of "[]" _ _ _ _ _ _ _ _ _ _ _ _ demo_ctx] 1(1) by (simp add: demo_ctx_def)
  then show ?thesis using 1 by blast
qed

text \<open>
  C15. A variable added in a scope is found again from that scope under its plain name, with the
  type and the dimensions of the current declaration; no other symbol is changed, and entering
  and leaving a function in between changes nothing.
\<close>

theorem scoped_lookup:
  assumes "symtab_wf (m_symbols ctx)" "FindScopedSymbol name ctx = Ok None"
    and "AddScopedSymbol name ctx = Ok (r, ctx1)" "LeaveScope f (EnterScope f ctx1) = Ok ctx'"
  shows "\<exists>sy. r = Some sy \<and> FindScopedSymbol name ctx' = Ok (Some sy) \<and>
    sy_ty sy = m_symtype ctx \<and> sy_dims sy = m_symdims ctx \<and> sy_name sy = name \<and>
    (\<forall>n. n \<noteq> scoped_name sy \<longrightarrow> FindSymbol (m_symbols ctx') n = FindSymbol (m_symbols ctx) n)"
  using add_find_scoped [OF assms(1-3)] assms(4) by (simp add: Leave_Enter)

theorem scoped_lookup_witness:
  "\<exists>sy ctx'. AddScopedSymbol ''x'' demo_ctx = Ok (Some sy, ctx') \<and>
    FindScopedSymbol ''x'' ctx' = Ok (Some sy) \<and> sy_ty sy = ST_INT"
proof -
  obtain r ctx' where 1: "AddScopedSymbol ''x'' demo_ctx = Ok (r, ctx')"
    by (simp add: demo_ctx_def AddScopedSymbol_def FindSymbol_def AddSymbol_def Let_def)
  have 2: "symtab_wf (m_symbols demo_ctx)" "FindScopedSymbol ''x'' demo_ctx = Ok None"
    by (simp_all add: demo_ctx_def symtab_wf_def FindScopedSymbol_eq FindSymbol_def)
  from scoped_lookup [OF 2 1 Leave_Enter [of "''g''"]] 1 show ?thesis by (auto simp: demo_ctx_def)
qed

section \<open>Constants\<close>

text \<open>
  C16. The constants table keeps its promises: a string that was added stands, with descriptor
  and length, at the position that was returned for it, also after any other constant has been
  added, and adding it again gives the same position and no new bytes.
\<close>

theorem constants_in_place:
  assumes "consttab_inv ct" "AddConst (StrC str) ct = Ok (pos, ct1)" "AddConst v ct1 = Ok (pos2, ct2)"
  shows "const_at ct2 pos (StrC str) \<and> consttab_inv ct2 \<and> AddConst (StrC str) ct1 = Ok (pos, ct1)"
  using AddConst_str_at [OF assms(2,1)] AddConst_keeps [OF assms(3)] AddConst_inv [OF assms(3)]
    AddConst_inv [OF assms(2,1)] AddConst_again [OF assms(2)] by blast

theorem constants_in_place_witness:
  "\<exists>ct2. const_at ct2 0 (StrC ''ab'') \<and> length (ct_ostr ct2) = 15"
proof -
  obtain ct1 ct2 where c: "AddConst (StrC ''ab'') ConstTab0 = Ok (0, ct1)" "AddConst (StrC ''xyz'') ct1 = Ok (7, ct2)"
    "length (ct_ostr ct2) = 15"
    by (simp add: AddConst_def ConstTab0_def Let_def)
  show ?thesis using constants_in_place [OF consttab_inv_empty c(1,2)] c(3) by blast
qed

section \<open>Constant folding\<close>

text \<open>
  C9. Constant folding keeps the meaning of arithmetic: the tree that the optimiser leaves of an
  expression of constants, variables and arithmetic operators has the same type and value as
  the original, in every store in which that has a value.
\<close>

theorem folding_keeps_value:
  assumes "arith_expr a" "opt (cfg_env K) a st = Ok (b, st')" "eval K \<rho> a = Some (t, v, m)"
  shows "arith_expr b \<and> (\<exists>m'. eval K \<rho> b = Some (t, v, m'))"
  using opt_keeps_value [OF assms(1), of K \<rho>] assms(2,3) unfolding kept_by_def same_value_def by blast

definition x_cfg :: cfg where
  "x_cfg = \<lparr>cfg_env = demo_env, cfg_eps = 0, cfg_prec = 6, cfg_vars = [''x'' \<mapsto> (ST_INT, 9)]\<rparr>"

theorem folding_keeps_value_witness:
  "\<exists>m'. eval x_cfg [''x'' \<mapsto> IntD 1] (ASTPlus (ASTVar ''x'') (ASTNumInt 6) False) = Some (Some ST_INT, IntD 7, m')"
proof -
  let ?a = "ASTPlus (ASTVar ''x'') (ASTMult (ASTNumInt 2) (ASTNumInt 3) False) False"
  let ?st = "\<lparr>m_arith_opts = 0, m_logic_opts = 0\<rparr>"
  have o: "opt (cfg_env x_cfg) ?a ?st = Ok (ASTPlus (ASTVar ''x'') (ASTNumInt 6) False, count_arith ?st)"
    by (simp add: opt_two_def opt_bind_def opt_ret_def fold_child_def arith_repl_def fold_arith_def fold_concat_def
        rmap_def arith_int_def int_result_def int_min_def int_max_def)
  have e: "\<exists>m. eval x_cfg [''x'' \<mapsto> IntD 1] ?a = Some (Some ST_INT, IntD 7, m)"
    by (simp add: x_cfg_def eval_var_def eval_const_def eval_binary_def no_array_def promote_opt_def promote_table conv_def
        arith_op_def arith_def mul_special_def pow_special_def arith_same_def rmap_def to_opt_def arith_int_def
        int_result_def int_min_def int_max_def)
  then obtain m where "eval x_cfg [''x'' \<mapsto> IntD 1] ?a = Some (Some ST_INT, IntD 7, m)" ..
  from folding_keeps_value [OF _ o this] show ?thesis by simp
qed

text \<open>
  Folding of connectives does not: the exclusive disjunction of two integers is folded with
  the bitwise operator, so two different numbers that are not zero fold to true, and the
  machine, which takes both as true, computes false.
\<close>

theorem folded_xor_differs:
  assumes "a \<noteq> 0" "b \<noteq> 0" "a \<noteq> b"
  shows "OptConsts e (ASTBool (ASTNumInt a) (Some (ASTNumInt b)) BOOL_XOR) st = Ok (Some (ASTNumBool True), count_logic st) \<and>
    (\<exists>m. eval K \<rho> (ASTBool (ASTNumInt a) (Some (ASTNumInt b)) BOOL_XOR) = Some (None, bool_data False, m))"
proof -
  have "xor a b \<noteq> 0"
  proof
    assume "xor a b = 0"
    then have "xor a (xor a b) = a" by simp
    then show False using assms(3) by (simp flip: xor.assoc)
  qed
  then show ?thesis
    using assms(1,2)
    by (simp add: fold_bool_def bool_int_def logic_repl_def eval_bool_def eval_const_def logical_def)
qed

theorem folded_xor_differs_witness:
  "OptConsts demo_env (ASTBool (ASTNumInt 1) (Some (ASTNumInt 2)) BOOL_XOR) \<lparr>m_arith_opts = 0, m_logic_opts = 0\<rparr> =
    Ok (Some (ASTNumBool True), count_logic \<lparr>m_arith_opts = 0, m_logic_opts = 0\<rparr>)"
  using folded_xor_differs [of 1 2] by simp

lemma CallExternal_missing:
  assumes "f \<in> {''exp'', ''real_to_string'', ''integer_to_string''}"
  shows "CallExternal e f t = Ok (Monostate, t)"
proof -
  have "CallExternal e ''exp'' t = Ok (Monostate, t)" by (simp add: CallExternal_def)
  moreover have "CallExternal e ''real_to_string'' t = Ok (Monostate, t)" by (simp add: CallExternal_def)
  moreover have "CallExternal e ''integer_to_string'' t = Ok (Monostate, t)" by (simp add: CallExternal_def)
  ultimately show ?thesis using assms by (elim insertE emptyE) (simp_all only:)
qed

lemma registered_missing:
  assumes "f \<in> {''exp'', ''real_to_string'', ''integer_to_string''}"
  shows "\<exists>ty args. (f, ty, args) \<in> set (ext_funcs False) \<and> args \<noteq> []"
proof -
  have "list_ex (\<lambda>(g, ty, args). g = ''exp'' \<and> args \<noteq> []) (ext_funcs False)"
    "list_ex (\<lambda>(g, ty, args). g = ''real_to_string'' \<and> args \<noteq> []) (ext_funcs False)"
    "list_ex (\<lambda>(g, ty, args). g = ''integer_to_string'' \<and> args \<noteq> []) (ext_funcs False)"
    by (simp_all add: ext_funcs_def)
  then have "list_ex (\<lambda>(g, ty, args). g = f \<and> args \<noteq> []) (ext_funcs False)"
    using assms by (elim insertE emptyE) (simp_all only:)
  then show ?thesis by (auto simp: list_ex_iff)
qed

text \<open>
  An external function that is registered but not implemented fails silently: a call of
  \<open>exp\<close>, \<open>real_to_string\<close> or \<open>integer_to_string\<close> takes no arguments from the stack and pushes no
  result, so the value of \<open>exp x\<close> is \<open>x\<close>.
\<close>

theorem unimplemented_externals:
  assumes "f \<in> {''exp'', ''real_to_string'', ''integer_to_string''}" "stack_of s (StrD f # ds)"
  shows "(\<exists>ty args. (f, ty, args) \<in> set (ext_funcs False) \<and> args \<noteq> []) \<and>
    (\<exists>s'. op_extcall e s = Ok s' \<and> stack_of s' ds)"
proof -
  have c: "cells_on s (cell_of (StrD f) # map cell_of ds)" "\<forall>d \<in> set ds. plain d"
    using assms(2) by (simp_all add: stack_of_def)
  have ce: "CallExternal e f t = Ok (Monostate, t)" for t
    using assms(1) by (rule CallExternal_missing)
  have "op_extcall e s = Ok (pop_state (length (enc_cell (cell_of (StrD f)))) s)"
    using cells_on_pop(1) [OF c(1)] ce by (simp add: op_extcall_def PushData_def)
  moreover have "stack_of (pop_state (length (enc_cell (cell_of (StrD f)))) s) ds"
    using cells_on_pop(2) [OF c(1)] c(2) by (simp add: stack_of_def)
  ultimately show ?thesis using registered_missing [OF assms(1)] by blast
qed

theorem unimplemented_externals_witness:
  "\<exists>s'. op_extcall demo_env (demo_vm (map cell_of [StrD ''exp'', RealD 7])) = Ok s' \<and> stack_of s' [RealD 7]"
proof -
  have "stack_of (demo_vm (map cell_of [StrD ''exp'', RealD 7])) [StrD ''exp'', RealD 7]" by (rule demo_stack) simp_all
  from unimplemented_externals [OF insertI1 this] show ?thesis by (rule conjunct2)
qed

end
