(* ===== verification/Lexer.thy ===== *)
theory Lexer
  imports Ast VmOps
begin

text \<open>
  The lexer (parser/lexer.h, parser/lexer.cpp). The regular expressions of the tokens are
  written out as functions on strings, the character stream is the list of the characters that
  are left, and the conversion of text to a real is the parameter \<open>e_parse_real\<close>. The index of
  a token in the parse tables, which are generated, is left out.
\<close>

section \<open>Tokens\<close>

text \<open>\<open>TK_CHAR c\<close> is a token that is represented by its character.\<close>

datatype Token =
    TK_REAL | TK_INT | TK_BOOL | TK_STR | TK_IDENT | TK_DIM
  | TK_TYPESEP | TK_REALDECL | TK_CPLXDECL | TK_INTDECL | TK_BOOLDECL | TK_STRINGDECL | TK_QUATDECL
  | TK_EQU | TK_NEQ | TK_GEQ | TK_LEQ | TK_AND | TK_OR | TK_XOR | TK_NOT | TK_POW
  | TK_ASSIGN | TK_RANGE
  | TK_IF | TK_THEN | TK_ELSE | TK_SELECT | TK_CASE | TK_DEFAULT
  | TK_WHILE | TK_DO | TK_BREAK | TK_NEXT | TK_END
  | TK_FUNC | TK_PROC | TK_RET | TK_RESULTS | TK_RECURSIVE | TK_INTENT | TK_IN | TK_OUT | TK_PROGRAM
  | TK_LABEL | TK_GOTO | TK_COMEFROM
  | TK_READ | TK_PRINT
  | TK_PARTIAL | TK_HALT
  | TK_CHAR char

datatype t_lval = LReal t_real | LInt t_int | LBool bool | LStr t_str

type_synonym t_lexer_match = "Token \<times> t_lval option \<times> nat"

section \<open>Regular expressions\<close>

text \<open>\<open>(0[xb])?([0-9]+)\<close> with its two groups.\<close>

definition all_digits :: "string \<Rightarrow> bool" where
  "all_digits ds \<longleftrightarrow> ds \<noteq> [] \<and> list_all is_digit ds"

definition match_int :: "string \<Rightarrow> (string \<times> string) option" where
  "match_int str =
     (if all_digits str then Some ([], str)
      else if take 2 str \<in> {''0x'', ''0b''} \<and> all_digits (drop 2 str) then Some (take 2 str, drop 2 str)
      else None)"

text \<open>\<open>[0-9]+(\.[0-9]*)?([Ee][+-]?[0-9]*)?\<close>: after the digits an optional fraction and an optional exponent.\<close>

definition skip_fraction :: "string \<Rightarrow> string" where
  "skip_fraction r = (case r of c # cs \<Rightarrow> if c = CHR ''.'' then dropWhile is_digit cs else r | [] \<Rightarrow> [])"

definition skip_sign :: "string \<Rightarrow> string" where
  "skip_sign r = (case r of c # cs \<Rightarrow> if c \<in> {CHR ''+'', CHR ''-''} then cs else r | [] \<Rightarrow> [])"

definition skip_exponent :: "string \<Rightarrow> string" where
  "skip_exponent r =
     (case r of c # cs \<Rightarrow> if c \<in> {CHR ''E'', CHR ''e''} then dropWhile is_digit (skip_sign cs) else r | [] \<Rightarrow> [])"

definition match_real :: "string \<Rightarrow> bool" where
  "match_real str \<longleftrightarrow>
     takeWhile is_digit str \<noteq> [] \<and> skip_exponent (skip_fraction (dropWhile is_digit str)) = []"

text \<open>\<open>[_A-Za-z]+[_A-Za-z0-9]*\<close>, \<open>\.[_A-Za-z]+[_A-Za-z0-9]*\<close> and \<open>\.[_A-Za-z]*\<close>.\<close>

definition is_letter :: "char \<Rightarrow> bool" where
  "is_letter c \<longleftrightarrow> (let n = of_char c :: nat in n = 95 \<or> (65 \<le> n \<and> n \<le> 90) \<or> (97 \<le> n \<and> n \<le> 122))"

definition is_alnum :: "char \<Rightarrow> bool" where
  "is_alnum c \<longleftrightarrow> is_letter c \<or> is_digit c"

definition match_ident :: "string \<Rightarrow> bool" where
  "match_ident str \<longleftrightarrow> (case str of c # cs \<Rightarrow> is_letter c \<and> list_all is_alnum cs | [] \<Rightarrow> False)"

definition match_label :: "string \<Rightarrow> bool" where
  "match_label str \<longleftrightarrow> (case str of c # cs \<Rightarrow> c = CHR ''.'' \<and> match_ident cs | [] \<Rightarrow> False)"

definition match_partial :: "string \<Rightarrow> bool" where
  "match_partial str \<longleftrightarrow> (case str of c # cs \<Rightarrow> c = CHR ''.'' \<and> list_all is_letter cs | [] \<Rightarrow> False)"

section \<open>Matching tokens\<close>

text \<open>
  The value of an integer. Hexadecimal digits above nine are not in the regular expression;
  extraction from a stream saturates. A bit set takes the first 64 digits.
\<close>

definition horner :: "int \<Rightarrow> string \<Rightarrow> int" where
  "horner b ds = foldl (\<lambda>acc c. b * acc + digit_val c) 0 ds"

definition int_lval :: "string \<Rightarrow> string \<Rightarrow> t_int result" where
  "int_lval pre ds =
     (if pre = ''0x'' then Ok (word_of_int (min (horner 16 ds) int_max))
      else if pre = ''0b'' then
        if list_all (\<lambda>c. c \<in> {CHR ''0'', CHR ''1''}) ds then Ok (word_of_int (horner 2 (take 64 ds)))
        else Throw InvalidArgument
      else Ok (fst (read_int ds)))"

definition int_matches :: "string \<Rightarrow> nat \<Rightarrow> t_lexer_match list result" where
  "int_matches str line =
     (case match_int str of
        Some (pre, ds) \<Rightarrow> rbind (int_lval pre ds) (\<lambda>val. Ok [(TK_INT, Some (LInt val), line)])
      | None \<Rightarrow> Ok (if str \<in> {''0x'', ''0b''} then [(TK_INT, Some (LInt 0), line)] else []))"

definition real_matches :: "env \<Rightarrow> string \<Rightarrow> nat \<Rightarrow> t_lexer_match list" where
  "real_matches e str line =
     (if match_real str then [(TK_REAL, Some (LReal (fst (e_parse_real e str))), line)] else [])"

definition keyword_tokens :: "(string \<times> Token) list" where
  "keyword_tokens =
     [(''if'', TK_IF), (''then'', TK_THEN), (''else'', TK_ELSE), (''while'', TK_WHILE),
      (''break'', TK_BREAK), (''exit'', TK_BREAK), (''next'', TK_NEXT), (''cycle'', TK_NEXT),
      (''do'', TK_DO), (''select'', TK_SELECT), (''case'', TK_CASE), (''default'', TK_DEFAULT),
      (''end'', TK_END), (''recursive'', TK_RECURSIVE), (''function'', TK_FUNC),
      (''procedure'', TK_PROC), (''subroutine'', TK_PROC), (''intent'', TK_INTENT), (''in'', TK_IN),
      (''out'', TK_OUT), (''return'', TK_RET), (''result'', TK_RESULTS), (''results'', TK_RESULTS),
      (''assign'', TK_ASSIGN), (''integer'', TK_INTDECL), (''real'', TK_REALDECL),
      (''logical'', TK_BOOLDECL), (''complex'', TK_CPLXDECL), (''quaternion'', TK_QUATDECL),
      (''string'', TK_STRINGDECL), (''dimension'', TK_DIM), (''program'', TK_PROGRAM),
      (''goto'', TK_GOTO), (''comefrom'', TK_COMEFROM), (''read'', TK_READ), (''print'', TK_PRINT)]"

definition word_matches :: "string \<Rightarrow> nat \<Rightarrow> t_lexer_match list" where
  "word_matches str line =
     (case map_of keyword_tokens str of
        Some tok \<Rightarrow> [(tok, Some (LStr str), line)]
      | None \<Rightarrow>
          if str = ''.true.'' then [(TK_BOOL, Some (LBool True), line)]
          else if str = ''.false.'' then [(TK_BOOL, Some (LBool False), line)]
          else if match_ident str then [(TK_IDENT, Some (LStr str), line)]
          else if match_label str then [(TK_LABEL, Some (LStr str), line)]
          else if match_partial str then [(TK_PARTIAL, Some (LStr str), line)]
          else [])"

definition operators :: "(string \<times> Token) list" where
  "operators =
     [(''=='', TK_EQU), (''.eq.'', TK_EQU), (''/='', TK_NEQ), (''.ne.'', TK_NEQ),
      (''||'', TK_OR), (''.or.'', TK_OR), (''&&'', TK_AND), (''.and.'', TK_AND),
      (''<='', TK_LEQ), (''.le.'', TK_LEQ), (''>='', TK_GEQ), (''.ge.'', TK_GEQ),
      (''.lt.'', TK_CHAR CHR ''<''), (''.gt.'', TK_CHAR CHR ''>''), (''.not.'', TK_NOT), (''xor'', TK_XOR),
      (''::'', TK_TYPESEP), (''**'', TK_POW), (''~'', TK_RANGE)]"

definition single_chars :: string where
  "single_chars = ''+-*/%:,=()[]><|&''"

fun op_lval :: "Token \<Rightarrow> string \<Rightarrow> t_lval option" where
  "op_lval (TK_CHAR c) str = None"
| "op_lval tok str = Some (LStr str)"

definition op_matches :: "string \<Rightarrow> nat \<Rightarrow> t_lexer_match list" where
  "op_matches str line =
     (case map_of operators str of
        Some tok \<Rightarrow> [(tok, op_lval tok str, line)]
      | None \<Rightarrow>
          (case str of
             [c] \<Rightarrow> if c \<in> set single_chars then [(TK_CHAR c, None, line)] else []
           | _ \<Rightarrow> []))"

definition GetMatchingTokens :: "env \<Rightarrow> string \<Rightarrow> nat \<Rightarrow> t_lexer_match list result" where
  "GetMatchingTokens e str line =
     (if str = [] then Ok []
      else rbind (int_matches str line) (\<lambda>ints.
        Ok (ints @ real_matches e str line @ word_matches str line @ op_matches str line)))"

section \<open>The next token\<close>

text \<open>\<open>boost::replace_all\<close> of a backslash and a letter by a control character.\<close>

fun replace_escape :: "char \<Rightarrow> char \<Rightarrow> string \<Rightarrow> string" where
  "replace_escape l r (c # d # cs) =
     (if c = CHR 0x5C \<and> d = l then r # replace_escape l r cs else c # replace_escape l r (d # cs))"
| "replace_escape l r cs = cs"

definition replace_escapes :: "string \<Rightarrow> string" where
  "replace_escapes str =
     replace_escape CHR ''r'' CHR 0x0D (replace_escape CHR ''t'' CHR 0x09 (replace_escape CHR ''n'' CHR 0x0A str))"

definition invalid_input :: "nat \<Rightarrow> string \<Rightarrow> exc" where
  "invalid_input line input =
     RuntimeError (''Line '' @ show_nat line @ '': Invalid input in lexer: '' @ [CHR 0x22] @ input @
       [CHR 0x22] @ '' (length: '' @ show_nat (length input) @ '').'')"

text \<open>
  The loop over the characters: \<open>cmt\<close> in a line comment, \<open>in_str\<close> in a string, \<open>input\<close> the
  characters of the token so far, \<open>longest\<close> the last matches. It gives the token, the
  characters that are left and the line number.
\<close>

fun next_loop :: "env \<Rightarrow> bool \<Rightarrow> bool \<Rightarrow> string \<Rightarrow> t_lexer_match list \<Rightarrow> nat \<Rightarrow> string \<Rightarrow>
    (t_lexer_match \<times> string \<times> nat) result" where
  "next_loop e cmt in_str input longest line [] =
     Ok (case longest of [] \<Rightarrow> (TK_HALT, None, line) | m # _ \<Rightarrow> m, [], line)"
| "next_loop e cmt in_str input longest line (c # cs) =
     (if cmt \<and> c \<noteq> CHR 0x0A then next_loop e cmt in_str input longest line cs
      else if longest = [] \<and> c = CHR 0x22 \<and> \<not> cmt then
        if \<not> in_str then next_loop e cmt True input longest line cs
        else Ok ((TK_STR, Some (LStr (replace_escapes input)), line), cs, line)
      else if longest = [] \<and> c = CHR ''!'' \<and> \<not> in_str then next_loop e True in_str input longest line cs
      else if longest = [] \<and> (c = CHR '' '' \<or> c = CHR 0x09) \<and> \<not> in_str then
        next_loop e cmt in_str input longest line cs
      else if longest = [] \<and> c = CHR 0x0A then next_loop e False in_str input longest (line + 1) cs
      else if in_str then next_loop e cmt in_str (input @ [c]) longest line cs
      else
        rbind (GetMatchingTokens e (input @ [c]) line) (\<lambda>matching.
        case (matching, longest) of
          (m # _, _) \<Rightarrow>
            if cs = [] then Ok (m, [], line)
            else next_loop e cmt in_str (input @ [c]) matching line cs
        | ([], m # _) \<Rightarrow> Ok (m, c # cs, line)
        | ([], []) \<Rightarrow> Throw (invalid_input line (input @ [c]))))"

definition GetNextToken :: "env \<Rightarrow> nat \<Rightarrow> string \<Rightarrow> (t_lexer_match \<times> string \<times> nat) result" where
  "GetNextToken e line cs = next_loop e False False [] [] line cs"

section \<open>All tokens\<close>

type_synonym t_toknode = "Token \<times> ast \<times> nat"

text \<open>The leaf of the syntax tree for a token: a token without a value is the integer -1.\<close>

fun lval_ast :: "t_lval option \<Rightarrow> ast" where
  "lval_ast (Some (LReal r)) = ASTNumReal r"
| "lval_ast (Some (LInt i)) = ASTNumInt i"
| "lval_ast (Some (LBool b)) = ASTNumBool b"
| "lval_ast (Some (LStr s)) = ASTStrConst s"
| "lval_ast None = ASTNumInt (- 1)"

definition tok_node :: "t_lexer_match \<Rightarrow> t_toknode" where
  "tok_node m = (case m of (tok, lval, line) \<Rightarrow> (tok, lval_ast lval, line))"

lemma if_chain:
  "(if a then x1 else if b then if \<not> d then x2 else x3 else if f then x4 else if g then x5 else if h then x6
    else if d then x7 else x8) = y \<Longrightarrow>
   x1 = y \<or> x2 = y \<or> b \<and> x3 = y \<or> x4 = y \<or> x5 = y \<or> x6 = y \<or> x7 = y \<or> x8 = y"
  by (simp split: if_split_asm)

text \<open>One step of the loop, by what the character is.\<close>

lemma next_loop_cases:
  assumes "next_loop e cmt in_str input longest line (c # cs) = Ok (m, rest, line')"
  obtains (loop) cmt' in_str' input' line1 where
      "next_loop e cmt' in_str' input' longest line1 cs = Ok (m, rest, line')"
    | (literal) "longest = []" "m = (TK_STR, Some (LStr (replace_escapes input)), line)" "rest = cs"
    | (more) ms where "GetMatchingTokens e (input @ [c]) line = Ok ms" "ms \<noteq> []" "cs \<noteq> []"
      "next_loop e cmt in_str (input @ [c]) ms line cs = Ok (m, rest, line')"
    | (end_of_input) ms where "GetMatchingTokens e (input @ [c]) line = Ok (m # ms)" "cs = []" "rest = []"
    | (longest_match) ms where "GetMatchingTokens e (input @ [c]) line = Ok []" "longest = m # ms" "rest = c # cs"
proof -
  note * = assms [unfolded next_loop.simps(2)]
  have match: thesis
    if "rbind (GetMatchingTokens e (input @ [c]) line) (\<lambda>matching.
      case (matching, longest) of
        (m # _, _) \<Rightarrow> if cs = [] then Ok (m, [], line) else next_loop e cmt in_str (input @ [c]) matching line cs
      | ([], m # _) \<Rightarrow> Ok (m, c # cs, line)
      | ([], []) \<Rightarrow> Throw (invalid_input line (input @ [c]))) = Ok (m, rest, line')"
    using that
    by (elim rbind_OkE) (auto split: list.split_asm if_split_asm intro: more end_of_input longest_match)
  from if_chain [OF *] show thesis
    by (elim disjE conjE) (auto simp only: prod.inject result.inject intro: loop literal match)
qed

lemma next_loop_shorter:
  "next_loop e cmt in_str input longest line cs = Ok (m, rest, line') \<Longrightarrow>
   length rest \<le> length cs \<and> (longest = [] \<longrightarrow> fst m \<noteq> TK_HALT \<longrightarrow> length rest < length cs)"
proof (induction cs arbitrary: cmt in_str input longest line)
  case Nil
  then show ?case by (cases longest) auto
next
  case (Cons c cs)
  from Cons.prems show ?case by (cases rule: next_loop_cases) (force dest: Cons.IH)+
qed

text \<open>The tokens up to the end of the input. Every one but the last takes at least one character.\<close>

function GetAllTokens :: "env \<Rightarrow> nat \<Rightarrow> string \<Rightarrow> t_toknode list result" where
  "GetAllTokens e line cs =
     rbind (GetNextToken e line cs) (\<lambda>(m, rest, line').
     if fst m = TK_HALT then Ok [tok_node m]
     else rbind (GetAllTokens e line' rest) (\<lambda>ts. Ok (tok_node m # ts)))"
  by pat_completeness auto

termination
  by (relation "measure (\<lambda>(e, line, cs). length cs)")
    (auto simp: GetNextToken_def dest!: next_loop_shorter)

declare GetAllTokens.simps [simp del]

end
