(* ===== verification/ParseRules.thy ===== *)
theory ParseRules
  imports Context Lexer
begin

text \<open>
  The semantic rules of the grammar (parser/grammar.cpp, ops.cpp, var.cpp, arr.cpp, loops.cpp,
  func.cpp), one definition per rule or group of equal rules. A rule is called by the parser
  with the values of the symbols it has read, with \<open>full_match\<close> when these are all of the right
  hand side, and before that for some of its beginnings. A value is null, a node, or a \<open>select\<close>
  that has no expression yet. A null pointer that becomes the child of a node is kept as a null
  child. The
  nodes are not shared before they are complete, so a change of a node is a new value.
\<close>

section \<open>Values\<close>

datatype sval = SNull | SNode ast | SCases "(ast \<times> ast) list" "ast option"

type_synonym semantic = "bool \<Rightarrow> sval list \<Rightarrow> parser_ctx \<Rightarrow> (sval \<times> parser_ctx) result"

definition arg :: "sval list \<Rightarrow> nat \<Rightarrow> sval result" where
  "arg args i = (if i < length args then Ok (args ! i) else Undefined (UB_Index (int i)))"

text \<open>A cast to a node class; the pointer is null for another class, and using it undefined.\<close>

definition cast_arg :: "(ast \<Rightarrow> 'a option) \<Rightarrow> sval list \<Rightarrow> nat \<Rightarrow> 'a result" where
  "cast_arg cast args i =
     rbind (arg args i) (\<lambda>v.
     case v of
       SNode a \<Rightarrow> (case cast a of Some x \<Rightarrow> Ok x | None \<Rightarrow> Undefined UB_Null)
     | _ \<Rightarrow> Undefined UB_Null)"

fun as_stmts :: "ast \<Rightarrow> ast list option" where
  "as_stmts (ASTStmts stmts) = Some stmts"
| "as_stmts _ = None"

fun as_exprs :: "ast \<Rightarrow> (ast list \<times> SymbolType) option" where
  "as_exprs (ASTExprList exprs ty) = Some (exprs, ty)"
| "as_exprs _ = None"

fun as_str :: "ast \<Rightarrow> t_str option" where
  "as_str (ASTStrConst s) = Some s"
| "as_str _ = None"

fun as_int :: "ast \<Rightarrow> t_int option" where
  "as_int (ASTNumInt i) = Some i"
| "as_int _ = None"

fun as_real :: "ast \<Rightarrow> t_real option" where
  "as_real (ASTNumReal r) = Some r"
| "as_real _ = None"

fun as_bool :: "ast \<Rightarrow> bool option" where
  "as_bool (ASTNumBool b) = Some b"
| "as_bool _ = None"

fun as_ints :: "ast \<Rightarrow> t_int list option" where
  "as_ints (ASTNumConstList vals) = Some vals"
| "as_ints _ = None"

fun as_args :: "ast \<Rightarrow> argname list option" where
  "as_args (ASTInternalArgNames args) = Some args"
| "as_args _ = None"

fun as_misc :: "ast \<Rightarrow> (bool \<times> bool \<times> bool) option" where
  "as_misc (ASTInternalMisc recursive intent_in intent_out) = Some (recursive, intent_in, intent_out)"
| "as_misc _ = None"

fun as_range :: "ast \<Rightarrow> (t_str \<times> ast \<times> ast \<times> ast option) option" where
  "as_range (ASTVarRange ident b e inc) = Some (ident, b, e, inc)"
| "as_range _ = None"

fun as_decl :: "ast \<Rightarrow> (t_str list \<times> ast option \<times> bool \<times> bool) option" where
  "as_decl (ASTVarDecl vars assign intent_in intent_out) = Some (vars, assign, intent_in, intent_out)"
| "as_decl _ = None"

text \<open>An argument that becomes a child: it is not followed here, and a null pointer stays one.\<close>

definition node_arg :: "sval list \<Rightarrow> nat \<Rightarrow> ast result" where
  "node_arg args i =
     rbind (arg args i) (\<lambda>v.
     Ok (case v of SNull \<Rightarrow> ASTNull | SNode a \<Rightarrow> a | SCases cases d \<Rightarrow> ASTCases ASTNull cases d))"

definition cases_arg :: "sval list \<Rightarrow> nat \<Rightarrow> ((ast \<times> ast) list \<times> ast option) result" where
  "cases_arg args i =
     rbind (arg args i) (\<lambda>v. case v of SCases cases d \<Rightarrow> Ok (cases, d) | _ \<Rightarrow> Undefined UB_Null)"

text \<open>A cast whose result is only passed on.\<close>

definition cast_value :: "(ast \<Rightarrow> 'a option) \<Rightarrow> sval \<Rightarrow> sval" where
  "cast_value cast v = (case v of SNode a \<Rightarrow> if cast a = None then SNull else v | _ \<Rightarrow> SNull)"

text \<open>A rule that does nothing but build its value when it is complete.\<close>

definition on_full :: "(sval list \<Rightarrow> sval result) \<Rightarrow> semantic" where
  "on_full f full_match args ctx =
     (if \<not> full_match then Ok (SNull, ctx) else rbind (f args) (\<lambda>v. Ok (v, ctx)))"

definition null_rule :: semantic where
  "null_rule full_match args ctx = Ok (SNull, ctx)"

definition build1 :: "(ast \<Rightarrow> ast) \<Rightarrow> nat \<Rightarrow> semantic" where
  "build1 f i = on_full (\<lambda>args. rbind (node_arg args i) (\<lambda>a. Ok (SNode (f a))))"

definition build2 :: "(ast \<Rightarrow> ast \<Rightarrow> ast) \<Rightarrow> nat \<Rightarrow> nat \<Rightarrow> semantic" where
  "build2 f i j = on_full (\<lambda>args. rbind (node_arg args i) (\<lambda>a. rbind (node_arg args j) (\<lambda>b. Ok (SNode (f a b)))))"

section \<open>Statements, expressions, input and output (grammar.cpp)\<close>

definition rule_start :: semantic where
  "rule_start full_match args ctx =
     (if \<not> full_match then Ok (SNull, ctx)
      else rbind (arg args 0) (\<lambda>v.
        Ok (cast_value as_stmts v, SetStatements (case v of SNode a \<Rightarrow> as_stmts a | _ \<Rightarrow> None) ctx)))"

definition rule_statements :: semantic where
  "rule_statements =
     on_full (\<lambda>args. rbind (node_arg args 0) (\<lambda>stmt. rbind (cast_arg as_stmts args 1) (\<lambda>stmts.
       Ok (SNode (ASTStmts (stmt # stmts))))))"

definition rule_no_statements :: semantic where
  "rule_no_statements = on_full (\<lambda>args. Ok (SNode (ASTStmts [])))"

definition rule_arg :: "nat \<Rightarrow> semantic" where
  "rule_arg i = on_full (\<lambda>args. arg args i)"

definition rule_program :: semantic where
  "rule_program = on_full (\<lambda>args. rbind (arg args 2) (\<lambda>v. Ok (cast_value as_stmts v)))"

definition rule_expressions :: semantic where
  "rule_expressions =
     on_full (\<lambda>args. rbind (node_arg args 0) (\<lambda>expr. rbind (cast_arg as_exprs args 2) (\<lambda>(exprs, ty).
       Ok (SNode (ASTExprList (expr # exprs) ty)))))"

definition rule_expression :: semantic where
  "rule_expression = build1 (\<lambda>expr. ASTExprList [expr] ST_VOID) 0"

definition write_call :: "ast \<Rightarrow> ast" where
  "write_call expr = ASTCall ''write_no_cr'' [expr]"

definition rule_print :: semantic where
  "rule_print =
     on_full (\<lambda>args. rbind (cast_arg as_exprs args 3) (\<lambda>(exprs, ty).
       Ok (SNode (ASTStmts (map write_call exprs @ [write_call (ASTStrConst [CHR 0x0A])])))))"

text \<open>A read statement looks for its variables in the current scope only.\<close>

definition read_call :: "t_str \<Rightarrow> parser_ctx \<Rightarrow> ast result" where
  "read_call ident ctx =
     rbind (FindScopedSymbol ident ctx) (\<lambda>sym.
     case sym of
       None \<Rightarrow> Throw (RuntimeError (''Cannot find symbol '' @ [CHR 0x22] @ ident @ [CHR 0x22] @ '' in read statement.''))
     | Some sy \<Rightarrow>
         let read = (\<lambda>func. Ok (ASTAssign [ident] (Some (ASTCall func [ASTStrConst []])))) in
         if sy_ty sy = ST_REAL then read ''read_real''
         else if sy_ty sy = ST_INT then read ''read_integer''
         else Throw (RuntimeError (''Unsupported type '' @ [CHR 0x22] @ get_type_name (sy_ty sy) @ [CHR 0x22] @
           '' for '' @ [CHR 0x22] @ ident @ [CHR 0x22] @ '' in read statement.'')))"

primrec read_calls :: "t_str list \<Rightarrow> parser_ctx \<Rightarrow> ast list result" where
  "read_calls [] ctx = Ok []"
| "read_calls (ident # idents) ctx =
     rbind (read_call ident ctx) (\<lambda>a. rbind (read_calls idents ctx) (\<lambda>as. Ok (a # as)))"

definition rule_read :: semantic where
  "rule_read full_match args ctx =
     (if \<not> full_match then Ok (SNull, ctx)
      else rbind (cast_arg as_args args 3) (\<lambda>idents.
        rbind (read_calls (map fst idents) ctx) (\<lambda>as. Ok (SNode (ASTStmts as), ctx))))"

section \<open>Operators (ops.cpp)\<close>

definition rule_norm :: semantic where
  "rule_norm = build1 ASTNorm 1"

definition rule_not :: semantic where
  "rule_not = build1 (\<lambda>expr. ASTBool expr None BOOL_NOT) 1"

definition rule_plus :: semantic where
  "rule_plus = build2 (\<lambda>expr1 expr2. ASTPlus expr1 expr2 False) 0 2"

definition rule_minus :: semantic where
  "rule_minus = build2 (\<lambda>expr1 expr2. ASTPlus expr1 expr2 True) 0 2"

definition rule_mult :: semantic where
  "rule_mult = build2 (\<lambda>expr1 expr2. ASTMult expr1 expr2 False) 0 2"

definition rule_div :: semantic where
  "rule_div = build2 (\<lambda>expr1 expr2. ASTMult expr1 expr2 True) 0 2"

definition rule_mod :: semantic where
  "rule_mod = build2 ASTMod 0 2"

definition rule_pow :: semantic where
  "rule_pow = build2 ASTPow 0 2"

definition rule_bool :: "BoolOp \<Rightarrow> semantic" where
  "rule_bool op = build2 (\<lambda>expr1 expr2. ASTBool expr1 (opt_node expr2) op) 0 2"

definition rule_comp :: "CompOp \<Rightarrow> semantic" where
  "rule_comp op = build2 (\<lambda>expr1 expr2. ASTComp expr1 expr2 op) 0 2"

section \<open>Variables and constants (var.cpp)\<close>

text \<open>A symbol that is not in the table has the name of a function and must have its type.\<close>

definition CheckSymbolForConflicts :: "symbol \<Rightarrow> parser_ctx \<Rightarrow> bool result" where
  "CheckSymbolForConflicts sy ctx =
     (if \<not> is_tmp sy then Ok False
      else case FindSymbol (m_symbols ctx) (sy_name sy) of
        None \<Rightarrow> Ok True
      | Some globsym \<Rightarrow>
          if sy_ty globsym \<noteq> ST_FUNC then Ok True
          else
            let func_ty = (if retty globsym = ST_COMP \<and> sy_elems globsym \<noteq> []
                  then fst (hd (sy_elems globsym)) else retty globsym) in
            if func_ty \<noteq> sy_ty sy
            then Throw (RuntimeError (''Function '' @ [CHR 0x22] @ sy_name globsym @ [CHR 0x22] @
              '' declaration mismatch: Return type is '' @ get_type_name func_ty @
              '', but redeclaration has type '' @ get_type_name (sy_ty sy) @ ''.''))
            else Ok True)"

text \<open>The name is added to the front of the declaration unless it is in conflict or has no symbol.\<close>

definition add_variable :: "t_str \<Rightarrow> t_str list \<Rightarrow> parser_ctx \<Rightarrow> (t_str list \<times> parser_ctx) result" where
  "add_variable name vars ctx =
     rbind (AddScopedSymbol name ctx) (\<lambda>(sym, ctx).
     case sym of
       None \<Rightarrow> Ok (vars, ctx)
     | Some sy \<Rightarrow>
         rbind (CheckSymbolForConflicts sy ctx) (\<lambda>conflict.
         Ok (if conflict then vars else scoped_name sy # vars, ctx)))"

definition rule_variables :: semantic where
  "rule_variables full_match args ctx =
     (if \<not> full_match then Ok (SNull, ctx)
      else
        rbind (cast_arg as_str args 0) (\<lambda>name.
        rbind (cast_arg as_decl args 2) (\<lambda>(vars, assign, intent_in, intent_out).
        rbind (add_variable name vars ctx) (\<lambda>(vars, ctx).
        Ok (SNode (ASTVarDecl vars assign intent_in intent_out), ctx)))))"

definition rule_variable :: semantic where
  "rule_variable full_match args ctx =
     (if \<not> full_match then Ok (SNull, ctx)
      else
        rbind (cast_arg as_str args 0) (\<lambda>name.
        rbind (add_variable name [] ctx) (\<lambda>(vars, ctx).
        Ok (SNode (ASTVarDecl vars None False False), ctx))))"

definition rule_variable_assign :: semantic where
  "rule_variable_assign full_match args ctx =
     (if \<not> full_match then Ok (SNull, ctx)
      else
        rbind (cast_arg as_str args 0) (\<lambda>name.
        rbind (node_arg args 2) (\<lambda>term.
        rbind (add_variable name [] ctx) (\<lambda>(vars, ctx).
        Ok (SNode (ASTVarDecl vars (Some (ASTAssign [name] (opt_node term))) False False), ctx)))))"

definition rule_int_constants :: semantic where
  "rule_int_constants =
     on_full (\<lambda>args. rbind (cast_arg as_int args 0) (\<lambda>val. rbind (cast_arg as_ints args 2) (\<lambda>vals.
       Ok (SNode (ASTNumConstList (val # vals))))))"

definition rule_int_constant :: semantic where
  "rule_int_constant =
     on_full (\<lambda>args. rbind (cast_arg as_int args 0) (\<lambda>val. Ok (SNode (ASTNumConstList [val]))))"

text \<open>The value of a declaration: its variables with the intent, if there is one.\<close>

definition decl_value :: "nat \<Rightarrow> nat \<Rightarrow> sval list \<Rightarrow> sval result" where
  "decl_value intent_idx vars_idx args =
     rbind (arg args vars_idx) (\<lambda>vars. rbind (arg args intent_idx) (\<lambda>intent.
     if intent = SNull then Ok (cast_value as_decl vars)
     else
       rbind (cast_arg as_decl args vars_idx) (\<lambda>(vs, assign, _, _).
       rbind (cast_arg as_misc args intent_idx) (\<lambda>(_, intent_in, intent_out).
       Ok (SNode (ASTVarDecl vs assign intent_in intent_out))))))"

text \<open>The type is set as soon as its keyword has been read, before the variables are.\<close>

definition rule_decl :: "SymbolType \<Rightarrow> semantic" where
  "rule_decl ty full_match args ctx =
     (let ctx = (if length args = 1 then SetSymType ty ctx else ctx) in
      on_full (decl_value 1 3) full_match args ctx)"

text \<open>The dimensions are converted to \<open>std::size_t\<close>.\<close>

definition rule_decl_array :: "SymbolType \<Rightarrow> semantic" where
  "rule_decl_array ty full_match args ctx =
     rbind (if length args = 6
       then rbind (cast_arg as_ints args 4) (\<lambda>dims. Ok (SetSymDims (map unat dims) (SetSymType ty ctx)))
       else Ok ctx) (\<lambda>ctx.
     on_full (decl_value 6 8) full_match args ctx)"

definition default_string_size :: nat where
  "default_string_size = 128"

definition rule_decl_string :: semantic where
  "rule_decl_string full_match args ctx =
     (let ctx = (if length args = 3 then SetSymDim default_string_size (SetSymType ST_STRING ctx) else ctx) in
      on_full (decl_value 1 3) full_match args ctx)"

definition rule_decl_string_dim :: semantic where
  "rule_decl_string_dim full_match args ctx =
     rbind (if length args = 6
       then rbind (cast_arg as_int args 4) (\<lambda>dim. Ok (SetSymDim (unat dim) (SetSymType ST_STRING ctx)))
       else Ok ctx) (\<lambda>ctx.
     on_full (decl_value 6 8) full_match args ctx)"

definition add_arg :: "t_str \<Rightarrow> argname" where
  "add_arg name = (name, ST_UNKNOWN, [1])"

definition rule_no_idents :: semantic where
  "rule_no_idents = on_full (\<lambda>args. Ok (SNode (ASTInternalArgNames [])))"

definition rule_idents :: semantic where
  "rule_idents =
     on_full (\<lambda>args. rbind (cast_arg as_str args 0) (\<lambda>name. rbind (cast_arg as_args args 2) (\<lambda>idents.
       Ok (SNode (ASTInternalArgNames (add_arg name # idents))))))"

definition rule_ident :: semantic where
  "rule_ident =
     on_full (\<lambda>args. rbind (cast_arg as_str args 0) (\<lambda>name. Ok (SNode (ASTInternalArgNames [add_arg name]))))"

definition rule_real :: semantic where
  "rule_real = on_full (\<lambda>args. rbind (cast_arg as_real args 0) (\<lambda>num. Ok (SNode (ASTNumReal num))))"

definition rule_int :: semantic where
  "rule_int = on_full (\<lambda>args. rbind (cast_arg as_int args 0) (\<lambda>num. Ok (SNode (ASTNumInt num))))"

definition rule_cplx :: semantic where
  "rule_cplx =
     on_full (\<lambda>args. rbind (cast_arg as_real args 1) (\<lambda>re. rbind (cast_arg as_real args 3) (\<lambda>im.
       Ok (SNode (ASTNumCplx (re, im))))))"

definition rule_quat :: semantic where
  "rule_quat =
     on_full (\<lambda>args.
       rbind (cast_arg as_real args 1) (\<lambda>re. rbind (cast_arg as_real args 3) (\<lambda>im1.
       rbind (cast_arg as_real args 5) (\<lambda>im2. rbind (cast_arg as_real args 7) (\<lambda>im3.
       Ok (SNode (ASTNumQuat (re, im1, im2, im3))))))))"

definition rule_bool_const :: semantic where
  "rule_bool_const = on_full (\<lambda>args. rbind (cast_arg as_bool args 0) (\<lambda>val. Ok (SNode (ASTNumBool val))))"

definition rule_str :: semantic where
  "rule_str = on_full (\<lambda>args. rbind (cast_arg as_str args 0) (\<lambda>str. Ok (SNode (ASTStrConst str))))"

text \<open>
  An identifier is a constant, or a variable of the scope or a global one, whose references are
  counted; there is no node for a complex constant.
\<close>

fun const_value :: "t_variant \<Rightarrow> sval" where
  "const_value (RealV r) = SNode (ASTNumReal r)"
| "const_value (IntV i) = SNode (ASTNumInt i)"
| "const_value (StrV s) = SNode (ASTStrConst s)"
| "const_value (CplxV z) = SNull"

definition count_ref :: "symbol option \<Rightarrow> parser_ctx \<Rightarrow> parser_ctx" where
  "count_ref symb ctx =
     (case symb of
        None \<Rightarrow> ctx
      | Some sy \<Rightarrow> ctx\<lparr>m_symbols := upd_sym (scoped_name sy) (\<lambda>s. s\<lparr>refcnt := refcnt s + 1\<rparr>) (m_symbols ctx)\<rparr>)"

definition rule_var :: semantic where
  "rule_var full_match args ctx =
     (if \<not> full_match then Ok (SNull, ctx)
      else
        rbind (cast_arg as_str args 0) (\<lambda>ident.
        case GetConst ident ctx of
          (True, val) \<Rightarrow> Ok (const_value val, ctx)
        | (False, _) \<Rightarrow>
            rbind (FindScopedSymbol ident ctx) (\<lambda>sym.
            Ok (SNode (ASTVar ident),
              count_ref (case sym of None \<Rightarrow> FindGlobalSymbol ident ctx | Some sy \<Rightarrow> Some sy) ctx))))"

definition rule_assign :: semantic where
  "rule_assign =
     on_full (\<lambda>args. rbind (cast_arg as_str args 0) (\<lambda>ident. rbind (node_arg args 2) (\<lambda>term.
       Ok (SNode (ASTAssign [ident] (opt_node term))))))"

definition rule_multi_assign :: semantic where
  "rule_multi_assign =
     on_full (\<lambda>args. rbind (cast_arg as_args args 1) (\<lambda>idents. rbind (node_arg args 3) (\<lambda>term.
       Ok (SNode (ASTAssign (map fst idents) (opt_node term))))))"

section \<open>Arrays (arr.cpp)\<close>

text \<open>The type of the current declaration is that of the array; quaternions are not among them.\<close>

definition rule_array :: semantic where
  "rule_array full_match args ctx =
     on_full (\<lambda>args. rbind (cast_arg as_exprs args 1) (\<lambda>(exprs, _).
       Ok (SNode (ASTExprList exprs
         (if m_symtype ctx \<in> {ST_REAL_ARRAY, ST_INT_ARRAY, ST_CPLX_ARRAY} then m_symtype ctx else ST_REAL_ARRAY)))))
       full_match args ctx"

text \<open>Access, or assignment when there is a value; for another target than a variable the result is null.\<close>

definition access_or_assign :: "ast option \<Rightarrow> bool \<Rightarrow> sval list \<Rightarrow> ast option \<Rightarrow> nat \<Rightarrow> sval result" where
  "access_or_assign idx2 ranged args idx1 value_idx =
     rbind (node_arg args 0) (\<lambda>term.
     rbind (arg args value_idx) (\<lambda>value.
     if value = SNull then Ok (SNode (ASTArrayAccess term idx1 idx2 ranged))
     else
       case term of
         ASTVar ident \<Rightarrow>
           rbind (node_arg args value_idx) (\<lambda>v. Ok (SNode (ASTArrayAssign ident v idx1 idx2 ranged)))
       | ASTNull \<Rightarrow> Undefined UB_Null
       | _ \<Rightarrow> Ok SNull))"

definition rule_array_access :: semantic where
  "rule_array_access =
     on_full (\<lambda>args. rbind (node_arg args 2) (\<lambda>indices. access_or_assign None False args (opt_node indices) 4))"

definition rule_array_range :: semantic where
  "rule_array_range =
     on_full (\<lambda>args. rbind (node_arg args 2) (\<lambda>idx1. rbind (node_arg args 4) (\<lambda>idx2.
       access_or_assign (opt_node idx2) True args (opt_node idx1) 6)))"

section \<open>Conditionals, loops and jumps (loops.cpp)\<close>

definition rule_if :: semantic where
  "rule_if = build2 (\<lambda>cond if_stmt. ASTCond cond if_stmt None) 1 3"

definition rule_if_else :: semantic where
  "rule_if_else =
     on_full (\<lambda>args. rbind (node_arg args 1) (\<lambda>cond. rbind (node_arg args 3) (\<lambda>if_stmt.
       rbind (node_arg args 5) (\<lambda>else_stmt. Ok (SNode (ASTCond cond if_stmt (opt_node else_stmt)))))))"

definition rule_select :: semantic where
  "rule_select =
     on_full (\<lambda>args. rbind (node_arg args 2) (\<lambda>expr. rbind (cases_arg args 3) (\<lambda>(cases, default_stmts).
       Ok (SNode (ASTCases expr cases default_stmts)))))"

definition rule_while :: semantic where
  "rule_while = build2 ASTLoop 3 5"

definition rule_ranged_loop :: semantic where
  "rule_ranged_loop =
     on_full (\<lambda>args. rbind (cast_arg as_range args 1) (\<lambda>(ident, b, e, inc). rbind (node_arg args 2) (\<lambda>stmt.
       Ok (SNode (ASTRangedLoop ident b e inc stmt)))))"

definition rule_break :: semantic where
  "rule_break = on_full (\<lambda>args. Ok (SNode (ASTLoopBreak 0)))"

definition rule_break_num :: semantic where
  "rule_break_num = on_full (\<lambda>args. rbind (cast_arg as_int args 1) (\<lambda>num. Ok (SNode (ASTLoopBreak num))))"

definition rule_next :: semantic where
  "rule_next = on_full (\<lambda>args. Ok (SNode (ASTLoopNext 0)))"

definition rule_next_num :: semantic where
  "rule_next_num = on_full (\<lambda>args. rbind (cast_arg as_int args 1) (\<lambda>num. Ok (SNode (ASTLoopNext num))))"

definition rule_label :: semantic where
  "rule_label = on_full (\<lambda>args. rbind (cast_arg as_str args 0) (\<lambda>ident. Ok (SNode (ASTLabel ident))))"

definition rule_goto :: semantic where
  "rule_goto = on_full (\<lambda>args. rbind (cast_arg as_str args 1) (\<lambda>ident. Ok (SNode (ASTJump ident False))))"

definition rule_comefrom :: semantic where
  "rule_comefrom = on_full (\<lambda>args. rbind (cast_arg as_str args 1) (\<lambda>ident. Ok (SNode (ASTJump ident True))))"

definition rule_cases :: semantic where
  "rule_cases =
     on_full (\<lambda>args. rbind (node_arg args 2) (\<lambda>cond. rbind (node_arg args 4) (\<lambda>stmts.
       rbind (cases_arg args 5) (\<lambda>(cases, d). Ok (SCases ((cond, stmts) # cases) d)))))"

definition rule_case :: semantic where
  "rule_case =
     on_full (\<lambda>args. rbind (node_arg args 2) (\<lambda>cond. rbind (node_arg args 4) (\<lambda>stmts.
       Ok (SCases [(cond, stmts)] None))))"

definition rule_default :: semantic where
  "rule_default = on_full (\<lambda>args. rbind (node_arg args 2) (\<lambda>stmts. Ok (SCases [] (opt_node stmts))))"

definition rule_range :: semantic where
  "rule_range =
     on_full (\<lambda>args. rbind (cast_arg as_str args 0) (\<lambda>ident. rbind (node_arg args 2) (\<lambda>b. rbind (node_arg args 4) (\<lambda>e.
       Ok (SNode (ASTVarRange ident b e None))))))"

definition rule_range_inc :: semantic where
  "rule_range_inc =
     on_full (\<lambda>args. rbind (cast_arg as_str args 0) (\<lambda>ident. rbind (node_arg args 2) (\<lambda>b. rbind (node_arg args 4) (\<lambda>e.
       rbind (node_arg args 6) (\<lambda>inc. Ok (SNode (ASTVarRange ident b e (opt_node inc))))))))"

section \<open>Functions (func.cpp)\<close>

text \<open>
  A change through a symbol that is not in the table is lost. The name of an argument that is
  declared twice gives no symbol at all, because its function is not known yet.
\<close>

definition mark_symbol :: "(symbol \<Rightarrow> symbol) \<Rightarrow> t_str \<Rightarrow> parser_ctx \<Rightarrow> parser_ctx result" where
  "mark_symbol mark name ctx =
     rbind (AddScopedSymbol name ctx) (\<lambda>(symb, ctx).
     case symb of
       None \<Rightarrow> Undefined UB_Null
     | Some sy \<Rightarrow> Ok (if is_tmp sy then ctx else ctx\<lparr>m_symbols := upd_sym (scoped_name sy) mark (m_symbols ctx)\<rparr>))"

primrec register_args :: "argname list \<Rightarrow> nat \<Rightarrow> parser_ctx \<Rightarrow> parser_ctx result" where
  "register_args [] idx ctx = Ok ctx"
| "register_args (a # as) idx ctx =
     rbind (mark_symbol (\<lambda>s. s\<lparr>is_arg := True, argidx := idx\<rparr>) (fst a) ctx) (register_args as (idx + 1))"

primrec register_rets :: "argname list \<Rightarrow> nat \<Rightarrow> parser_ctx \<Rightarrow> parser_ctx result" where
  "register_rets [] idx ctx = Ok ctx"
| "register_rets (a # as) idx ctx =
     rbind (mark_symbol (\<lambda>s. s\<lparr>is_ret := True, retidx := idx\<rparr>) (fst a) ctx) (register_rets as (idx + 1))"

definition arg_types :: "argname list \<Rightarrow> SymbolType list" where
  "arg_types = map (\<lambda>(_, ty, _). ty)"

definition register_func :: "t_str \<Rightarrow> SymbolType \<Rightarrow> argname list \<Rightarrow> SymbolType list option \<Rightarrow> bool \<Rightarrow>
    parser_ctx \<Rightarrow> parser_ctx result" where
  "register_func name rty args multi_ret_types recursive ctx =
     rbind (GetScopeName 1 True ctx) (\<lambda>scope.
     Ok (ctx\<lparr>m_symbols :=
       snd (AddFunc scope name rty (arg_types args) None multi_ret_types False recursive (m_symbols ctx))\<rparr>))"

text \<open>
  The types of the arguments, declared in the body of the function, are copied from the symbols
  of the scope into the signature and the node of the function, up to the first argument that
  has no symbol; and so are those of the return values.
\<close>

definition set_ret :: "nat \<Rightarrow> symbol \<Rightarrow> symbol \<Rightarrow> symbol" where
  "set_ret i sy func = func\<lparr>sy_elems := (sy_elems func)[i := (sy_ty sy, sy_dims sy)]\<rparr>"

primrec update_args :: "t_str \<Rightarrow> argname list \<Rightarrow> parser_ctx \<Rightarrow> (argname list \<times> parser_ctx) result" where
  "update_args func_name [] ctx = Ok ([], ctx)"
| "update_args func_name (a # as) ctx =
     rbind (FindScopedSymbol (fst a) ctx) (\<lambda>symb.
     case symb of
       None \<Rightarrow> Ok (a # as, ctx)
     | Some sy \<Rightarrow>
         if \<not> is_arg sy then Ok (a # as, ctx)
         else case FindGlobalSymbol func_name ctx of
           None \<Rightarrow> Undefined UB_Null
         | Some func \<Rightarrow>
             if argidx sy \<ge> length (argty func) then Undefined (UB_Index (int (argidx sy)))
             else rbind (update_args func_name as (ctx\<lparr>m_symbols :=
                 upd_sym func_name (set_argty (argidx sy) (sy_ty sy)) (m_symbols ctx)\<rparr>)) (\<lambda>(as, ctx).
               Ok ((fst a, sy_ty sy, sy_dims sy) # as, ctx)))"

primrec update_rets :: "t_str \<Rightarrow> argname list \<Rightarrow> parser_ctx \<Rightarrow> (argname list \<times> parser_ctx) result" where
  "update_rets func_name [] ctx = Ok ([], ctx)"
| "update_rets func_name (a # as) ctx =
     rbind (FindScopedSymbol (fst a) ctx) (\<lambda>symb.
     case symb of
       None \<Rightarrow> Ok (a # as, ctx)
     | Some sy \<Rightarrow>
         if \<not> is_ret sy then Ok (a # as, ctx)
         else case FindGlobalSymbol func_name ctx of
           None \<Rightarrow> Undefined UB_Null
         | Some func \<Rightarrow>
             if retidx sy \<ge> length (sy_elems func) then Undefined (UB_Index (int (retidx sy)))
             else rbind (update_rets func_name as (ctx\<lparr>m_symbols :=
                 upd_sym func_name (set_ret (retidx sy) sy) (m_symbols ctx)\<rparr>)) (\<lambda>(as, ctx).
               Ok ((fst a, sy_ty sy, sy_dims sy) # as, ctx)))"

definition update_func_arg_types :: "argname list \<Rightarrow> t_str \<Rightarrow> parser_ctx \<Rightarrow> (argname list \<times> parser_ctx) result" where
  "update_func_arg_types args func_name ctx =
     (case FindGlobalSymbol func_name ctx of
        None \<Rightarrow> Throw (RuntimeError (''Unknown function '' @ [CHR 0x22] @ func_name @ [CHR 0x22] @ ''.''))
      | Some func \<Rightarrow>
          if length (argty func) \<noteq> length args
          then Throw (RuntimeError (''Mismatch in number of arguments for function '' @ [CHR 0x22] @ func_name @ [CHR 0x22] @ ''.''))
          else update_args func_name args ctx)"

definition update_func_ret_types :: "argname list \<Rightarrow> t_str \<Rightarrow> parser_ctx \<Rightarrow> (argname list \<times> parser_ctx) result" where
  "update_func_ret_types args func_name ctx =
     (case FindGlobalSymbol func_name ctx of
        None \<Rightarrow> Throw (RuntimeError (''Unknown function '' @ [CHR 0x22] @ func_name @ [CHR 0x22] @ ''.''))
      | Some func \<Rightarrow>
          if length (sy_elems func) \<noteq> length args
          then Throw (RuntimeError (''Mismatch in number of return values for function '' @ [CHR 0x22] @ func_name @ [CHR 0x22] @ ''.''))
          else update_rets func_name args ctx)"

definition procedure_partial :: "sval list \<Rightarrow> parser_ctx \<Rightarrow> parser_ctx result" where
  "procedure_partial args ctx =
     (if length args = 3 then rbind (cast_arg as_str args 2) (\<lambda>funcname. Ok (EnterScope funcname ctx))
      else if length args = 5 then
        rbind (cast_arg as_misc args 0) (\<lambda>(recursive, _, _).
        rbind (cast_arg as_str args 2) (\<lambda>funcname.
        rbind (cast_arg as_args args 4) (\<lambda>funcargs.
        rbind (register_args funcargs 0 ctx) (register_func funcname ST_VOID funcargs None recursive))))
      else Ok ctx)"

definition rule_procedure :: semantic where
  "rule_procedure full_match args ctx =
     rbind (procedure_partial args ctx) (\<lambda>ctx.
     if \<not> full_match then Ok (SNull, ctx)
     else
       rbind (cast_arg as_misc args 0) (\<lambda>_.
       rbind (cast_arg as_str args 2) (\<lambda>funcname.
       rbind (cast_arg as_args args 4) (\<lambda>funcargs.
       rbind (cast_arg as_stmts args 6) (\<lambda>funcblock.
       rbind (GetScopeName 1 True ctx) (\<lambda>scope.
       rbind (update_func_arg_types funcargs (scope @ funcname) ctx) (\<lambda>(funcargs, ctx).
       rbind (LeaveScope funcname ctx) (\<lambda>ctx.
       Ok (SNode (ASTFunc funcname funcargs funcblock []), ctx)))))))))"

definition function_partial :: "sval list \<Rightarrow> parser_ctx \<Rightarrow> parser_ctx result" where
  "function_partial args ctx =
     (if length args = 6 then rbind (cast_arg as_str args 2) (\<lambda>funcname. Ok (EnterScope funcname ctx))
      else if length args = 9 then
        rbind (cast_arg as_misc args 0) (\<lambda>(recursive, _, _).
        rbind (cast_arg as_str args 2) (\<lambda>funcname.
        rbind (cast_arg as_args args 4) (\<lambda>funcargs.
        rbind (cast_arg as_args args 8) (\<lambda>retargs.
        rbind (register_args funcargs 0 ctx) (\<lambda>ctx.
        rbind (register_rets retargs 0 ctx)
          (register_func funcname ST_COMP funcargs (Some (arg_types retargs)) recursive))))))
      else Ok ctx)"

definition rule_function :: semantic where
  "rule_function full_match args ctx =
     rbind (function_partial args ctx) (\<lambda>ctx.
     if \<not> full_match then Ok (SNull, ctx)
     else
       rbind (cast_arg as_misc args 0) (\<lambda>_.
       rbind (cast_arg as_str args 2) (\<lambda>funcname.
       rbind (cast_arg as_args args 4) (\<lambda>funcargs.
       rbind (cast_arg as_args args 8) (\<lambda>retargs.
       rbind (cast_arg as_stmts args 10) (\<lambda>funcblock.
       rbind (GetScopeName 1 True ctx) (\<lambda>scope.
       rbind (update_func_arg_types funcargs (scope @ funcname) ctx) (\<lambda>(funcargs, ctx).
       rbind (update_func_ret_types retargs (scope @ funcname) ctx) (\<lambda>(retargs, ctx).
       rbind (LeaveScope funcname ctx) (\<lambda>ctx.
       Ok (SNode (ASTFunc funcname funcargs funcblock retargs), ctx)))))))))))"

definition rule_recursive :: "bool \<Rightarrow> semantic" where
  "rule_recursive b = on_full (\<lambda>args. Ok (SNode (ASTInternalMisc b False False)))"

text \<open>The default of the member \<open>recursive\<close> is true.\<close>

definition rule_intent_in :: semantic where
  "rule_intent_in = on_full (\<lambda>args. Ok (SNode (ASTInternalMisc True True False)))"

definition rule_intent_out :: semantic where
  "rule_intent_out = on_full (\<lambda>args. Ok (SNode (ASTInternalMisc True False True)))"

text \<open>A call counts a reference if the function is known, by its plain name.\<close>

definition count_call :: "t_str \<Rightarrow> parser_ctx \<Rightarrow> parser_ctx" where
  "count_call funcname ctx =
     (case FindSymbol (m_symbols ctx) funcname of
        Some sy \<Rightarrow> if sy_ty sy = ST_FUNC then count_ref (Some sy) ctx else ctx
      | None \<Rightarrow> ctx)"

definition rule_call :: semantic where
  "rule_call full_match args ctx =
     (if \<not> full_match then Ok (SNull, ctx)
      else rbind (cast_arg as_str args 0) (\<lambda>funcname. Ok (SNode (ASTCall funcname []), count_call funcname ctx)))"

definition rule_call_args :: semantic where
  "rule_call_args full_match args ctx =
     (if \<not> full_match then Ok (SNull, ctx)
      else
        rbind (cast_arg as_str args 0) (\<lambda>funcname.
        rbind (cast_arg as_exprs args 2) (\<lambda>(exprs, _).
        Ok (SNode (ASTCall funcname exprs), count_call funcname ctx))))"

definition rule_return :: semantic where
  "rule_return = on_full (\<lambda>args. Ok (SNode (ASTReturn None True)))"

end
