(* ===== verification/Grammar.thy ===== *)
theory Grammar
  imports ParseRules
begin

text \<open>
  The grammar (parser/grammar.h, and the rules that \<open>CreateGrammar\<close> and the functions it calls
  add), with the semantic rule of each production, in the order of their indices. The parser is
  generated by an external tool from these rules and the precedences of the operators, so it is
  described by what it has to do: find a derivation of the tokens, and run the semantic rules
  from the left to the right and from the leaves to the root. It also calls a rule for those
  beginnings of its right-hand side that only this rule can have; which these are is decided by
  the tool and is the parameter \<open>partial_match\<close>, a set of rules and numbers of symbols.
\<close>

section \<open>Productions\<close>

datatype nonterm =
    START
  | EXPRESSION | EXPRESSIONS
  | STATEMENT | STATEMENTS
  | VARIABLES | INT_CONSTANTS
  | FULL_IDENTLIST | IDENTLIST
  | FUNCTION | OPT_RECURSIVE | OPT_INTENT
  | OPT_ASSIGN | VAR_RANGE
  | CASES

datatype grammar_symbol = NT nonterm | TM Token

type_synonym production = "nonterm \<times> grammar_symbol list \<times> semantic"

abbreviation "ch c \<equiv> TM (TK_CHAR c)"

definition grammar_rules :: "production list" where
  "grammar_rules =
    [(START, [NT STATEMENTS], rule_start),
     (STATEMENTS, [NT STATEMENT, NT STATEMENTS], rule_statements),
     (STATEMENTS, [], rule_no_statements),
     (STATEMENT, [NT EXPRESSION], rule_arg 0),
     (STATEMENT, [TM TK_PROGRAM, TM TK_IDENT, NT STATEMENTS, TM TK_END, TM TK_PROGRAM], rule_program),
     (EXPRESSIONS, [NT EXPRESSION, ch CHR '','', NT EXPRESSIONS], rule_expressions),
     (EXPRESSIONS, [NT EXPRESSION], rule_expression),
     (STATEMENT, [TM TK_PRINT, ch CHR ''*'', ch CHR '','', NT EXPRESSIONS], rule_print),
     (STATEMENT, [TM TK_READ, ch CHR ''*'', ch CHR '','', NT IDENTLIST], rule_read)]"

definition operator_rules :: "production list" where
  "operator_rules =
    [(EXPRESSION, [ch CHR ''('', NT EXPRESSION, ch CHR '')''], rule_arg 1),
     (EXPRESSION, [ch CHR ''|'', NT EXPRESSION, ch CHR ''|''], rule_norm),
     (EXPRESSION, [TM TK_NOT, NT EXPRESSION], rule_not),
     (EXPRESSION, [NT EXPRESSION, ch CHR ''+'', NT EXPRESSION], rule_plus),
     (EXPRESSION, [NT EXPRESSION, ch CHR ''-'', NT EXPRESSION], rule_minus),
     (EXPRESSION, [NT EXPRESSION, ch CHR ''*'', NT EXPRESSION], rule_mult),
     (EXPRESSION, [NT EXPRESSION, ch CHR ''/'', NT EXPRESSION], rule_div),
     (EXPRESSION, [NT EXPRESSION, ch CHR ''%'', NT EXPRESSION], rule_mod),
     (EXPRESSION, [NT EXPRESSION, TM TK_POW, NT EXPRESSION], rule_pow),
     (EXPRESSION, [NT EXPRESSION, TM TK_AND, NT EXPRESSION], rule_bool BOOL_AND),
     (EXPRESSION, [NT EXPRESSION, TM TK_OR, NT EXPRESSION], rule_bool BOOL_OR),
     (EXPRESSION, [NT EXPRESSION, TM TK_XOR, NT EXPRESSION], rule_bool BOOL_XOR),
     (EXPRESSION, [NT EXPRESSION, TM TK_EQU, NT EXPRESSION], rule_comp CMP_EQU),
     (EXPRESSION, [NT EXPRESSION, TM TK_NEQ, NT EXPRESSION], rule_comp CMP_NEQ),
     (EXPRESSION, [NT EXPRESSION, ch CHR ''>'', NT EXPRESSION], rule_comp CMP_GT),
     (EXPRESSION, [NT EXPRESSION, ch CHR ''<'', NT EXPRESSION], rule_comp CMP_LT),
     (EXPRESSION, [NT EXPRESSION, TM TK_GEQ, NT EXPRESSION], rule_comp CMP_GEQ),
     (EXPRESSION, [NT EXPRESSION, TM TK_LEQ, NT EXPRESSION], rule_comp CMP_LEQ)]"

text \<open>Declarations, without and with dimensions; those of complex and quaternion arrays have one number.\<close>

definition plain_decl :: "Token \<Rightarrow> semantic \<Rightarrow> production" where
  "plain_decl tok rule = (STATEMENT, [TM tok, NT OPT_INTENT, TM TK_TYPESEP, NT VARIABLES], rule)"

definition dim_decl :: "Token \<Rightarrow> grammar_symbol \<Rightarrow> semantic \<Rightarrow> production" where
  "dim_decl tok dims rule =
    (STATEMENT, [TM tok, ch CHR '','', TM TK_DIM, ch CHR ''('', dims, ch CHR '')'',
       NT OPT_INTENT, TM TK_TYPESEP, NT VARIABLES], rule)"

definition variable_rules :: "production list" where
  "variable_rules =
    [(VARIABLES, [TM TK_IDENT, ch CHR '','', NT VARIABLES], rule_variables),
     (VARIABLES, [TM TK_IDENT], rule_variable),
     (VARIABLES, [TM TK_IDENT, ch CHR ''='', NT EXPRESSION], rule_variable_assign),
     (INT_CONSTANTS, [TM TK_INT, ch CHR '','', NT INT_CONSTANTS], rule_int_constants),
     (INT_CONSTANTS, [TM TK_INT], rule_int_constant),
     plain_decl TK_INTDECL (rule_decl ST_INT),
     plain_decl TK_REALDECL (rule_decl ST_REAL),
     plain_decl TK_CPLXDECL (rule_decl ST_CPLX),
     plain_decl TK_QUATDECL (rule_decl ST_QUAT),
     plain_decl TK_BOOLDECL (rule_decl ST_BOOL),
     dim_decl TK_INTDECL (NT INT_CONSTANTS) (rule_decl_array ST_INT_ARRAY),
     dim_decl TK_REALDECL (NT INT_CONSTANTS) (rule_decl_array ST_REAL_ARRAY),
     dim_decl TK_CPLXDECL (TM TK_INT) (rule_decl_array ST_CPLX_ARRAY),
     dim_decl TK_QUATDECL (TM TK_INT) (rule_decl_array ST_QUAT_ARRAY),
     plain_decl TK_STRINGDECL rule_decl_string,
     dim_decl TK_STRINGDECL (TM TK_INT) rule_decl_string_dim,
     (OPT_ASSIGN, [ch CHR ''='', NT EXPRESSION], rule_arg 1),
     (OPT_ASSIGN, [], null_rule),
     (FULL_IDENTLIST, [NT IDENTLIST], rule_arg 0),
     (FULL_IDENTLIST, [], rule_no_idents),
     (IDENTLIST, [TM TK_IDENT, ch CHR '','', NT IDENTLIST], rule_idents),
     (IDENTLIST, [TM TK_IDENT], rule_ident),
     (EXPRESSION, [TM TK_REAL], rule_real),
     (EXPRESSION, [TM TK_INT], rule_int),
     (EXPRESSION, [ch CHR ''('', TM TK_REAL, ch CHR '','', TM TK_REAL, ch CHR '')''], rule_cplx),
     (EXPRESSION, [ch CHR ''('', TM TK_REAL, ch CHR '','', TM TK_REAL, ch CHR '','',
       TM TK_REAL, ch CHR '','', TM TK_REAL, ch CHR '')''], rule_quat),
     (EXPRESSION, [TM TK_BOOL], rule_bool_const),
     (EXPRESSION, [TM TK_STR], rule_str),
     (EXPRESSION, [TM TK_IDENT], rule_var),
     (EXPRESSION, [TM TK_IDENT, ch CHR ''='', NT EXPRESSION], rule_assign),
     (EXPRESSION, [TM TK_ASSIGN, NT IDENTLIST, ch CHR ''='', NT EXPRESSION], rule_multi_assign)]"

definition array_rules :: "production list" where
  "array_rules =
    [(EXPRESSION, [ch CHR ''['', NT EXPRESSIONS, ch CHR '']''], rule_array),
     (EXPRESSION, [NT EXPRESSION, ch CHR ''['', NT EXPRESSIONS, ch CHR '']'', NT OPT_ASSIGN], rule_array_access),
     (EXPRESSION, [NT EXPRESSION, ch CHR ''['', NT EXPRESSION, TM TK_RANGE, NT EXPRESSION, ch CHR '']'',
       NT OPT_ASSIGN], rule_array_range)]"

definition loop_rules :: "production list" where
  "loop_rules =
    [(STATEMENT, [TM TK_IF, NT EXPRESSION, TM TK_THEN, NT STATEMENTS, TM TK_END, TM TK_IF], rule_if),
     (STATEMENT, [TM TK_IF, NT EXPRESSION, TM TK_THEN, NT STATEMENTS, TM TK_ELSE, NT STATEMENTS,
       TM TK_END, TM TK_IF], rule_if_else),
     (STATEMENT, [TM TK_SELECT, TM TK_CASE, NT EXPRESSION, NT CASES, TM TK_END, TM TK_SELECT], rule_select),
     (STATEMENT, [TM TK_DO, TM TK_WHILE, ch CHR ''('', NT EXPRESSION, ch CHR '')'', NT STATEMENTS,
       TM TK_END, TM TK_DO], rule_while),
     (STATEMENT, [TM TK_DO, NT VAR_RANGE, NT STATEMENTS, TM TK_END, TM TK_DO], rule_ranged_loop),
     (STATEMENT, [TM TK_BREAK], rule_break),
     (STATEMENT, [TM TK_BREAK, TM TK_INT], rule_break_num),
     (STATEMENT, [TM TK_NEXT], rule_next),
     (STATEMENT, [TM TK_NEXT, TM TK_INT], rule_next_num),
     (STATEMENT, [TM TK_LABEL], rule_label),
     (STATEMENT, [TM TK_GOTO, TM TK_LABEL], rule_goto),
     (STATEMENT, [TM TK_COMEFROM, TM TK_LABEL], rule_comefrom),
     (CASES, [TM TK_CASE, ch CHR ''('', NT EXPRESSION, ch CHR '')'', NT STATEMENTS, NT CASES], rule_cases),
     (CASES, [TM TK_CASE, ch CHR ''('', NT EXPRESSION, ch CHR '')'', NT STATEMENTS], rule_case),
     (CASES, [TM TK_CASE, TM TK_DEFAULT, NT STATEMENTS], rule_default),
     (VAR_RANGE, [TM TK_IDENT, ch CHR ''='', NT EXPRESSION, ch CHR '','', NT EXPRESSION], rule_range),
     (VAR_RANGE, [TM TK_IDENT, ch CHR ''='', NT EXPRESSION, ch CHR '','', NT EXPRESSION,
       ch CHR '','', NT EXPRESSION], rule_range_inc)]"

definition function_rules :: "production list" where
  "function_rules =
    [(FUNCTION, [NT OPT_RECURSIVE, TM TK_PROC, TM TK_IDENT, ch CHR ''('', NT FULL_IDENTLIST, ch CHR '')'',
       NT STATEMENTS, TM TK_END, TM TK_PROC], rule_procedure),
     (FUNCTION, [NT OPT_RECURSIVE, TM TK_FUNC, TM TK_IDENT, ch CHR ''('', NT FULL_IDENTLIST, ch CHR '')'',
       TM TK_RESULTS, ch CHR ''('', NT FULL_IDENTLIST, ch CHR '')'',
       NT STATEMENTS, TM TK_END, TM TK_FUNC], rule_function),
     (OPT_RECURSIVE, [TM TK_RECURSIVE], rule_recursive True),
     (OPT_RECURSIVE, [], rule_recursive False),
     (OPT_INTENT, [ch CHR '','', TM TK_INTENT, ch CHR ''('', TM TK_IN, ch CHR '')''], rule_intent_in),
     (OPT_INTENT, [ch CHR '','', TM TK_INTENT, ch CHR ''('', TM TK_OUT, ch CHR '')''], rule_intent_out),
     (OPT_INTENT, [], null_rule),
     (EXPRESSION, [TM TK_IDENT, ch CHR ''('', ch CHR '')''], rule_call),
     (EXPRESSION, [TM TK_IDENT, ch CHR ''('', NT EXPRESSIONS, ch CHR '')''], rule_call_args),
     (STATEMENT, [NT FUNCTION], rule_arg 0),
     (STATEMENT, [TM TK_RET], rule_return)]"

definition CreateGrammar :: "production list" where
  "CreateGrammar = grammar_rules @ operator_rules @ variable_rules @ array_rules @ loop_rules @ function_rules"

section \<open>Derivations\<close>

datatype ptree = Leaf t_toknode | Node nat "ptree list"

fun root :: "ptree \<Rightarrow> grammar_symbol" where
  "root (Leaf t) = TM (fst t)"
| "root (Node i ts) = NT (fst (CreateGrammar ! i))"

fun fringe :: "ptree \<Rightarrow> t_toknode list" where
  "fringe (Leaf t) = [t]"
| "fringe (Node i ts) = concat (map fringe ts)"

fun derivation :: "ptree \<Rightarrow> bool" where
  "derivation (Leaf t) \<longleftrightarrow> True"
| "derivation (Node i ts) \<longleftrightarrow>
     i < length CreateGrammar \<and> map root ts = fst (snd (CreateGrammar ! i)) \<and> (\<forall>t \<in> set ts. derivation t)"

definition semantic_rule :: "nat \<Rightarrow> semantic" where
  "semantic_rule i = snd (snd (CreateGrammar ! i))"

section \<open>Running the semantic rules\<close>

text \<open>The beginnings for which the rules count on being called.\<close>

definition needs_partial :: "grammar_symbol list \<Rightarrow> nat \<Rightarrow> bool" where
  "needs_partial rhs k \<longleftrightarrow>
     (case rhs of
        [TM tok, NT OPT_INTENT, _, _] \<Rightarrow> k = (if tok = TK_STRINGDECL then 3 else 1)
      | [TM _, _, TM TK_DIM, _, _, _, _, _, _] \<Rightarrow> k = 6
      | [NT OPT_RECURSIVE, _, _, _, _, _, _, _, _] \<Rightarrow> k \<in> {3, 5}
      | [NT OPT_RECURSIVE, _, _, _, _, _, _, _, _, _, _, _, _] \<Rightarrow> k \<in> {6, 9}
      | _ \<Rightarrow> False)"

definition needed_partials :: "(nat \<times> nat) set" where
  "needed_partials =
     {(i, k). i < length CreateGrammar \<and> needs_partial (fst (snd (CreateGrammar ! i))) k}"

function (sequential) run_rules :: "(nat \<times> nat) set \<Rightarrow> ptree \<Rightarrow> parser_ctx \<Rightarrow> (sval \<times> parser_ctx) result"
  and run_symbols :: "(nat \<times> nat) set \<Rightarrow> nat \<Rightarrow> ptree list \<Rightarrow> sval list \<Rightarrow> parser_ctx \<Rightarrow>
    (sval list \<times> parser_ctx) result" where
  "run_rules partial_match (Leaf t) ctx = Ok (SNode (fst (snd t)), ctx)"
| "run_rules partial_match (Node i ts) ctx =
     rbind (run_symbols partial_match i ts [] ctx) (\<lambda>(args, ctx). semantic_rule i True args ctx)"
| "run_symbols partial_match i [] args ctx = Ok (args, ctx)"
| "run_symbols partial_match i (t # ts) args ctx =
     rbind (run_rules partial_match t ctx) (\<lambda>(v, ctx).
     rbind (if (i, length args + 1) \<in> partial_match
       then rbind (semantic_rule i False (args @ [v]) ctx) (\<lambda>(_, ctx). Ok ctx) else Ok ctx) (\<lambda>ctx.
     run_symbols partial_match i ts (args @ [v]) ctx))"
  by pat_completeness auto

termination
  by (relation "measure (case_sum (\<lambda>(p, t, ctx). size t) (\<lambda>(p, i, ts, args, ctx). size_list size ts))") auto

text \<open>
  A text parses to a tree and a context: its tokens are those of a derivation from the start,
  and the semantic rules of that derivation give the context.
\<close>

definition parses :: "env \<Rightarrow> (nat \<times> nat) set \<Rightarrow> string \<Rightarrow> parser_ctx \<Rightarrow> parser_ctx \<Rightarrow> bool" where
  "parses e partial_match text ctx ctx' \<longleftrightarrow>
     (\<exists>t h v. GetAllTokens e 1 text = Ok (fringe t @ [h]) \<and> fst h = TK_HALT \<and>
       derivation t \<and> root t = NT START \<and> run_rules partial_match t ctx = Ok (v, ctx'))"

end
