(* ===== verification/GrammarFacts.thy ===== *)
theory GrammarFacts
  imports Grammar
begin

text \<open>
  Facts about the semantic rules and their runs over a derivation: which calls for incomplete
  right-hand sides matter, what every rule keeps of the symbol table, and that scopes are left
  as they were found.
\<close>

section \<open>Incomplete right-hand sides\<close>

lemma on_full_partial [simp]: "on_full f False args ctx = Ok (SNull, ctx)"
  by (simp add: on_full_def)

lemma on_full_ctx: "on_full f full_match args ctx = Ok (v, ctx') \<Longrightarrow> ctx' = ctx"
  by (auto simp: on_full_def rbind_eq_Ok split: if_splits)

text \<open>The rules that only build a value, and those that change the context.\<close>

lemmas value_rules =
  rule_statements_def rule_no_statements_def rule_arg_def rule_program_def rule_expressions_def
  rule_expression_def rule_print_def rule_norm_def rule_not_def rule_plus_def rule_minus_def
  rule_mult_def rule_div_def rule_mod_def rule_pow_def rule_bool_def rule_comp_def
  rule_int_constants_def rule_int_constant_def rule_no_idents_def rule_idents_def rule_ident_def
  rule_real_def rule_int_def rule_cplx_def rule_quat_def rule_bool_const_def rule_str_def
  rule_assign_def rule_multi_assign_def rule_array_access_def rule_array_range_def
  rule_if_def rule_if_else_def rule_select_def rule_while_def rule_ranged_loop_def rule_break_def
  rule_break_num_def rule_next_def rule_next_num_def rule_label_def rule_goto_def rule_comefrom_def
  rule_cases_def rule_case_def rule_default_def rule_range_def rule_range_inc_def
  rule_recursive_def rule_intent_in_def rule_intent_out_def rule_return_def build1_def build2_def

lemmas context_rules =
  rule_start_def rule_read_def rule_variables_def rule_variable_def rule_variable_assign_def
  rule_decl_def rule_decl_array_def rule_decl_string_def rule_decl_string_dim_def rule_var_def
  rule_array_def rule_procedure_def rule_function_def rule_call_def rule_call_args_def null_rule_def

lemmas grammar_defs =
  CreateGrammar_def grammar_rules_def operator_rules_def variable_rules_def array_rules_def
  loop_rules_def function_rules_def plain_decl_def dim_decl_def

definition idle_rule :: "production \<Rightarrow> bool" where
  "idle_rule p \<longleftrightarrow>
     (\<forall>args ctx. \<not> needs_partial (fst (snd p)) (length args) \<longrightarrow>
        snd (snd p) False args ctx = Ok (SNull, ctx))"

lemma idle_on_full [simp]: "idle_rule (nt, rhs, on_full f)"
  by (simp add: idle_rule_def)

lemma idle_context [simp]:
  "idle_rule (nt, rhs, rule_start)" "idle_rule (nt, rhs, rule_read)" "idle_rule (nt, rhs, rule_variables)"
  "idle_rule (nt, rhs, rule_variable)" "idle_rule (nt, rhs, rule_variable_assign)" "idle_rule (nt, rhs, rule_var)"
  "idle_rule (nt, rhs, rule_array)" "idle_rule (nt, rhs, rule_call)" "idle_rule (nt, rhs, rule_call_args)"
  "idle_rule (nt, rhs, null_rule)"
  by (simp_all add: idle_rule_def context_rules)

lemma idle_decl [simp]:
  "tok \<noteq> TK_STRINGDECL \<Longrightarrow> idle_rule (plain_decl tok (rule_decl ty))"
  "idle_rule (plain_decl TK_STRINGDECL rule_decl_string)"
  "idle_rule (dim_decl tok dims (rule_decl_array ty))" "idle_rule (dim_decl tok dims rule_decl_string_dim)"
  by (simp_all add: idle_rule_def plain_decl_def dim_decl_def needs_partial_def rule_decl_def
      rule_decl_array_def rule_decl_string_def rule_decl_string_dim_def)

lemma idle_function:
  "list_all idle_rule function_rules"
  by (simp add: function_rules_def idle_rule_def needs_partial_def value_rules context_rules
      procedure_partial_def function_partial_def)

lemma rules_idle: "list_all idle_rule CreateGrammar"
proof -
  have "list_all idle_rule grammar_rules" by (simp add: grammar_rules_def value_rules)
  moreover have "list_all idle_rule operator_rules" by (simp add: operator_rules_def value_rules)
  moreover have "list_all idle_rule variable_rules" by (simp add: variable_rules_def value_rules)
  moreover have "list_all idle_rule array_rules" by (simp add: array_rules_def value_rules)
  moreover have "list_all idle_rule loop_rules" by (simp add: loop_rules_def value_rules)
  ultimately show ?thesis using idle_function by (simp add: CreateGrammar_def)
qed

lemma extra_partial:
  assumes "i < length CreateGrammar" "(i, length args) \<notin> needed_partials"
  shows "semantic_rule i False args ctx = Ok (SNull, ctx)"
proof -
  have "idle_rule (CreateGrammar ! i)" using rules_idle assms(1) by (simp add: list_all_length)
  then show ?thesis using assms by (simp add: idle_rule_def needed_partials_def semantic_rule_def)
qed

text \<open>Calls beyond the needed ones change nothing.\<close>

lemma run_rules_partial:
  "derivation t \<Longrightarrow> run_rules pm t ctx = run_rules (pm \<inter> needed_partials) t ctx"
  "\<forall>t \<in> set ts. derivation t \<Longrightarrow> i < length CreateGrammar \<Longrightarrow>
   run_symbols pm i ts args ctx = run_symbols (pm \<inter> needed_partials) i ts args ctx"
proof (induction pm t ctx and pm i ts args ctx rule: run_rules_run_symbols.induct)
  case (1 pm t ctx)
  show ?case by (simp only: run_rules.simps)
next
  case (2 pm i ts ctx)
  have d: "\<forall>t \<in> set ts. derivation t" "i < length CreateGrammar" using "2.prems" by simp_all
  have "run_symbols pm i ts [] ctx = run_symbols (pm \<inter> needed_partials) i ts [] ctx" by (rule "2.IH" [OF d])
  then show ?case by (simp only: run_rules.simps)
next
  case (3 pm i args ctx)
  show ?case by (simp only: run_symbols.simps)
next
  case (4 pm i t ts args ctx)
  have t: "run_rules pm t ctx = run_rules (pm \<inter> needed_partials) t ctx"
    using "4.IH"(1) "4.prems" by (simp only: list.set_intros)
  have p: "(if (i, length args + 1) \<in> pm then rbind (semantic_rule i False (args @ [v]) c) (\<lambda>(_, c). Ok c) else Ok c) =
      (if (i, length args + 1) \<in> pm \<inter> needed_partials
       then rbind (semantic_rule i False (args @ [v]) c) (\<lambda>(_, c). Ok c) else Ok c)" for v c
    using extra_partial [of i "args @ [v]" c] "4.prems"(2) by auto
  show ?case
    unfolding run_symbols.simps t [symmetric] p [symmetric]
    by (intro rbind_cong refl) (use 4 in \<open>auto split: prod.split intro!: rbind_cong\<close>)
qed

section \<open>What the rules keep of the symbol table\<close>

text \<open>Symbols are stored once, under their scoped names, and have no addresses while parsing.\<close>

definition parse_tab :: "symtab \<Rightarrow> bool" where
  "parse_tab tab \<longleftrightarrow> symtab_wf tab \<and> (\<forall>p \<in> set tab. sy_addr (snd p) = None)"

lemma parse_tab_upd:
  assumes "parse_tab tab" "\<And>s. scoped_name (f s) = scoped_name s" "\<And>s. sy_addr (f s) = sy_addr s"
  shows "parse_tab (upd_sym n f tab)"
  unfolding parse_tab_def
proof
  show "symtab_wf (upd_sym n f tab)" using assms by (simp add: parse_tab_def upd_sym_wf)
  show "\<forall>p \<in> set (upd_sym n f tab). sy_addr (snd p) = None"
    using assms(1,3) by (auto simp: parse_tab_def upd_sym_def)
qed

lemma parse_tab_AddSymbol:
  assumes "parse_tab tab"
  shows "parse_tab (snd (AddSymbol scope name ty dims add tab))"
  using assms AddSymbol_wf [of tab scope name ty dims add]
  by (auto simp: parse_tab_def AddSymbol_def insert_sym_def Symbol0_def Let_def)

lemma parse_tab_AddFunc:
  assumes "parse_tab tab"
  shows "parse_tab (snd (AddFunc scope name rty as rd rt ext rec tab))"
  using assms AddFunc_wf [of tab scope name rty as rd rt ext rec]
  by (auto simp: parse_tab_def AddFunc_def insert_sym_def Symbol0_def Let_def)

lemma parse_tab_AddExtFunc:
  assumes "parse_tab tab"
  shows "parse_tab (snd (AddExtFunc scope name en rty as rd rt tab))"
proof -
  obtain r t where 1: "AddFunc scope name rty as rd rt True True tab = (r, t)" by fastforce
  then have "parse_tab t" using parse_tab_AddFunc [OF assms, of scope name rty as rd rt True True] by simp
  then show ?thesis using 1 by (auto simp: AddExtFunc_def intro: parse_tab_upd split: option.split)
qed

text \<open>A context with a good table, in a given scope.\<close>

definition good_ctx :: "t_str list \<Rightarrow> parser_ctx \<Rightarrow> bool" where
  "good_ctx scope ctx \<longleftrightarrow> parse_tab (m_symbols ctx) \<and> m_curscope ctx = scope"

lemma good_ctx_updates [simp]:
  "good_ctx scope (ctx\<lparr>m_symtype := ty\<rparr>) = good_ctx scope ctx"
  "good_ctx scope (ctx\<lparr>m_symdims := ds\<rparr>) = good_ctx scope ctx"
  "good_ctx scope (ctx\<lparr>m_statements := ss\<rparr>) = good_ctx scope ctx"
  by (simp_all add: good_ctx_def)

lemma good_ctx_syms:
  "good_ctx scope ctx \<Longrightarrow> parse_tab tab \<Longrightarrow> good_ctx scope (ctx\<lparr>m_symbols := tab\<rparr>)"
  by (simp add: good_ctx_def)

lemma good_ctx_upd:
  assumes "good_ctx scope ctx" "\<And>s. scoped_name (f s) = scoped_name s" "\<And>s. sy_addr (f s) = sy_addr s"
  shows "good_ctx scope (ctx\<lparr>m_symbols := upd_sym n f (m_symbols ctx)\<rparr>)"
  using assms by (intro good_ctx_syms parse_tab_upd) (auto simp: good_ctx_def)

lemma good_retype_known:
  assumes "good_ctx scope ctx" "retype_known sy ctx = Ok (r, ctx')"
  shows "good_ctx scope ctx'"
proof -
  let ?ctx1 = "ctx\<lparr>m_symbols := upd_sym (scoped_name sy) (retype_sym ctx) (m_symbols ctx)\<rparr>"
  have 1: "good_ctx scope ?ctx1" using assms(1) by (rule good_ctx_upd) (simp_all add: retype_sym_def)
  have 2: "good_ctx scope (?ctx1\<lparr>m_symbols := upd_sym n (set_argty i ty) (m_symbols ?ctx1)\<rparr>)" for n i ty
    using 1 by (rule good_ctx_upd) (simp_all add: set_argty_def)
  show ?thesis
    using assms(2) 1 2 unfolding retype_known_def Let_def
    by (cases "is_arg sy") (auto simp: rbind_eq_Ok split: option.split_asm if_split_asm)
qed

lemma good_AddScopedSymbol:
  assumes "good_ctx scope ctx" "AddScopedSymbol name ctx = Ok (r, ctx')"
  shows "good_ctx scope ctx'"
proof -
  have "good_ctx scope (ctx\<lparr>m_symbols := snd (AddSymbol sc name ty ds True (m_symbols ctx))\<rparr>)" for sc ty ds
    using assms(1) by (intro good_ctx_syms parse_tab_AddSymbol) (simp_all add: good_ctx_def)
  then have new: "good_ctx scope ctx'" if "AddSymbol sc name (m_symtype ctx) (m_symdims ctx) True (m_symbols ctx) = (r, tab)"
      "ctx' = ctx\<lparr>m_symbols := tab\<rparr>" for sc tab
    using that by (metis snd_conv)
  obtain sc where sc: "GetScopeName 0 True ctx = Ok sc" by simp
  show ?thesis
  proof (cases "FindSymbol (m_symbols ctx) (sc @ name)")
    case None
    then show ?thesis using assms(2) sc new by (auto simp: AddScopedSymbol_def split: prod.split_asm)
  next
    case (Some sy)
    then show ?thesis
      using assms sc good_retype_known [OF assms(1), of sy r ctx']
      by (auto simp: AddScopedSymbol_def split: if_split_asm)
  qed
qed

lemma good_count_ref: "good_ctx scope ctx \<Longrightarrow> good_ctx scope (count_ref sy ctx)"
  by (auto simp: count_ref_def intro: good_ctx_upd split: option.split)

lemma good_count_call: "good_ctx scope ctx \<Longrightarrow> good_ctx scope (count_call f ctx)"
  by (auto simp: count_call_def intro: good_count_ref split: option.split)

section \<open>What the rules keep of the context\<close>

definition keeps_ctx :: "semantic \<Rightarrow> bool" where
  "keeps_ctx rule \<longleftrightarrow>
     (\<forall>scope full_match args ctx v ctx'. good_ctx scope ctx \<longrightarrow> rule full_match args ctx = Ok (v, ctx') \<longrightarrow>
        good_ctx scope ctx')"

lemma keepsI:
  "(\<And>scope full_match args ctx v ctx'. good_ctx scope ctx \<Longrightarrow> rule full_match args ctx = Ok (v, ctx') \<Longrightarrow>
     good_ctx scope ctx') \<Longrightarrow> keeps_ctx rule"
  unfolding keeps_ctx_def by blast

lemma keeps_on_full [simp]: "keeps_ctx (on_full f)"
  by (rule keepsI) (auto dest: on_full_ctx)

lemma good_add_variable:
  "good_ctx scope ctx \<Longrightarrow> add_variable name vars ctx = Ok (vs, ctx') \<Longrightarrow> good_ctx scope ctx'"
  by (auto simp: add_variable_def rbind_eq_Ok split: option.split_asm dest: good_AddScopedSymbol)

lemma keeps_variables [simp]:
  "keeps_ctx rule_variables" "keeps_ctx rule_variable" "keeps_ctx rule_variable_assign"
  by (rule keepsI;
      auto simp: rule_variables_def rule_variable_def rule_variable_assign_def rbind_eq_Ok split: if_split_asm
        dest: good_add_variable)+

lemma good_decl:
  "good_ctx scope ctx \<Longrightarrow> good_ctx scope (SetSymType ty ctx)"
  "good_ctx scope ctx \<Longrightarrow> good_ctx scope (SetSymDims ds ctx)"
  "good_ctx scope ctx \<Longrightarrow> good_ctx scope (SetSymDim d ctx)"
  by (simp_all add: SetSymType_def SetSymDims_def SetSymDim_def)

lemma keeps_decl [simp]:
  "keeps_ctx (rule_decl ty)" "keeps_ctx rule_decl_string"
  "keeps_ctx (rule_decl_array ty)" "keeps_ctx rule_decl_string_dim"
  by (rule keepsI;
      auto simp: rule_decl_def rule_decl_string_def rule_decl_array_def rule_decl_string_dim_def rbind_eq_Ok
        split: if_split_asm dest!: on_full_ctx intro: good_decl)+

lemma keeps_start [simp]: "keeps_ctx rule_start"
  by (rule keepsI) (auto simp: rule_start_def SetStatements_def rbind_eq_Ok split: if_split_asm)

lemma keeps_read [simp]: "keeps_ctx rule_read"
  by (rule keepsI) (auto simp: rule_read_def rbind_eq_Ok split: if_split_asm)

lemma keeps_var [simp]: "keeps_ctx rule_var"
  by (rule keepsI)
    (auto simp: rule_var_def GetConst_def rbind_eq_Ok split: if_split_asm option.split_asm intro: good_count_ref)

lemma keeps_array [simp]: "keeps_ctx rule_array"
  by (rule keepsI) (auto simp: rule_array_def dest: on_full_ctx)

lemma keeps_call [simp]: "keeps_ctx rule_call" "keeps_ctx rule_call_args"
  by (rule keepsI; auto simp: rule_call_def rule_call_args_def rbind_eq_Ok split: if_split_asm
      intro: good_count_call)+

lemma keeps_null [simp]: "keeps_ctx null_rule"
  by (rule keepsI) (simp add: null_rule_def)

lemma rules_keep:
  "list_all (\<lambda>p. keeps_ctx (snd (snd p))) (grammar_rules @ operator_rules @ variable_rules @ array_rules @ loop_rules)"
  "list_all (\<lambda>p. keeps_ctx (snd (snd p))) (tl (tl function_rules))"
proof -
  have "list_all (\<lambda>p. keeps_ctx (snd (snd p))) grammar_rules" by (simp add: grammar_rules_def value_rules)
  moreover have "list_all (\<lambda>p. keeps_ctx (snd (snd p))) operator_rules" by (simp add: operator_rules_def value_rules)
  moreover have "list_all (\<lambda>p. keeps_ctx (snd (snd p))) variable_rules"
    by (simp add: variable_rules_def value_rules plain_decl_def dim_decl_def)
  moreover have "list_all (\<lambda>p. keeps_ctx (snd (snd p))) array_rules" by (simp add: array_rules_def value_rules)
  moreover have "list_all (\<lambda>p. keeps_ctx (snd (snd p))) loop_rules" by (simp add: loop_rules_def value_rules)
  ultimately show "list_all (\<lambda>p. keeps_ctx (snd (snd p)))
      (grammar_rules @ operator_rules @ variable_rules @ array_rules @ loop_rules)" by simp
  show "list_all (\<lambda>p. keeps_ctx (snd (snd p))) (tl (tl function_rules))"
    by (simp add: function_rules_def value_rules)
qed

section \<open>Functions enter and leave their scope\<close>

lemma good_Enter: "good_ctx scope ctx \<Longrightarrow> good_ctx (scope @ [f]) (EnterScope f ctx)"
  by (simp add: good_ctx_def EnterScope_def)

lemma good_Leave: "good_ctx (scope @ [f]) ctx \<Longrightarrow> LeaveScope g ctx = Ok ctx' \<Longrightarrow> good_ctx scope ctx'"
  by (auto simp: good_ctx_def LeaveScope_def)

lemma good_mark_symbol:
  assumes "good_ctx scope ctx" "mark_symbol mark name ctx = Ok ctx'"
    and "\<And>s. scoped_name (mark s) = scoped_name s" "\<And>s. sy_addr (mark s) = sy_addr s"
  shows "good_ctx scope ctx'"
proof -
  obtain r c where c: "AddScopedSymbol name ctx = Ok (r, c)"
    using assms(2) by (auto simp: mark_symbol_def rbind_eq_Ok)
  have "good_ctx scope c" using good_AddScopedSymbol [OF assms(1) c] .
  then show ?thesis
    using assms(2) c good_ctx_upd [of scope c mark] assms(3,4)
    by (auto simp: mark_symbol_def split: option.split_asm if_split_asm)
qed

lemma good_register_args:
  "good_ctx scope ctx \<Longrightarrow> register_args as i ctx = Ok ctx' \<Longrightarrow> good_ctx scope ctx'"
proof (induction as arbitrary: i ctx)
  case (Cons a as)
  obtain c where c: "mark_symbol (\<lambda>s. s\<lparr>is_arg := True, argidx := i\<rparr>) (fst a) ctx = Ok c"
    "register_args as (i + 1) c = Ok ctx'"
    using Cons.prems(2) by (auto simp: rbind_eq_Ok)
  have "good_ctx scope c" by (rule good_mark_symbol [OF Cons.prems(1) c(1)]) simp_all
  then show ?case by (rule Cons.IH [OF _ c(2)])
qed simp

lemma good_register_rets:
  "good_ctx scope ctx \<Longrightarrow> register_rets as i ctx = Ok ctx' \<Longrightarrow> good_ctx scope ctx'"
proof (induction as arbitrary: i ctx)
  case (Cons a as)
  obtain c where c: "mark_symbol (\<lambda>s. s\<lparr>is_ret := True, retidx := i\<rparr>) (fst a) ctx = Ok c"
    "register_rets as (i + 1) c = Ok ctx'"
    using Cons.prems(2) by (auto simp: rbind_eq_Ok)
  have "good_ctx scope c" by (rule good_mark_symbol [OF Cons.prems(1) c(1)]) simp_all
  then show ?case by (rule Cons.IH [OF _ c(2)])
qed simp

lemma good_register_func:
  "good_ctx scope ctx \<Longrightarrow> register_func name rty as mult rec ctx = Ok ctx' \<Longrightarrow> good_ctx scope ctx'"
  by (auto simp: register_func_def rbind_eq_Ok intro!: good_ctx_syms parse_tab_AddFunc simp: good_ctx_def)

lemma update_args_Cons:
  assumes "update_args f (a # as) ctx = Ok (as', ctx')"
  obtains (stop) "ctx' = ctx" "as' = a # as"
    | (step) sy func as1 where "FindScopedSymbol (fst a) ctx = Ok (Some sy)" "is_arg sy"
      "FindGlobalSymbol f ctx = Some func" "argidx sy < length (argty func)" "as' = (fst a, sy_ty sy, sy_dims sy) # as1"
      "update_args f as (ctx\<lparr>m_symbols := upd_sym f (set_argty (argidx sy) (sy_ty sy)) (m_symbols ctx)\<rparr>) = Ok (as1, ctx')"
proof -
  obtain symb where "FindScopedSymbol (fst a) ctx = Ok symb" by (simp add: FindScopedSymbol_eq)
  then show thesis
    using assms stop step
    by (cases symb) (auto simp: rbind_eq_Ok split: if_split_asm option.split_asm)
qed

lemma update_rets_Cons:
  assumes "update_rets f (a # as) ctx = Ok (as', ctx')"
  obtains (stop) "ctx' = ctx" "as' = a # as"
    | (step) sy func as1 where "FindScopedSymbol (fst a) ctx = Ok (Some sy)" "is_ret sy"
      "FindGlobalSymbol f ctx = Some func" "retidx sy < length (sy_elems func)" "as' = (fst a, sy_ty sy, sy_dims sy) # as1"
      "update_rets f as (ctx\<lparr>m_symbols := upd_sym f (set_ret (retidx sy) sy) (m_symbols ctx)\<rparr>) = Ok (as1, ctx')"
proof -
  obtain symb where "FindScopedSymbol (fst a) ctx = Ok symb" by (simp add: FindScopedSymbol_eq)
  then show thesis
    using assms stop step
    by (cases symb) (auto simp: rbind_eq_Ok split: if_split_asm option.split_asm)
qed

lemma good_update_args:
  "good_ctx scope ctx \<Longrightarrow> update_args f as ctx = Ok (as', ctx') \<Longrightarrow> good_ctx scope ctx'"
proof (induction as arbitrary: ctx as')
  case (Cons a as)
  from Cons.prems(2) show ?case
  proof (cases rule: update_args_Cons)
    case stop
    then show ?thesis using Cons.prems(1) by simp
  next
    case (step sy func as1)
    show ?thesis by (rule Cons.IH [OF good_ctx_upd [OF Cons.prems(1)] step(6)]) (simp_all add: set_argty_def)
  qed
qed simp

lemma good_update_rets:
  "good_ctx scope ctx \<Longrightarrow> update_rets f as ctx = Ok (as', ctx') \<Longrightarrow> good_ctx scope ctx'"
proof (induction as arbitrary: ctx as')
  case (Cons a as)
  from Cons.prems(2) show ?case
  proof (cases rule: update_rets_Cons)
    case stop
    then show ?thesis using Cons.prems(1) by simp
  next
    case (step sy func as1)
    show ?thesis by (rule Cons.IH [OF good_ctx_upd [OF Cons.prems(1)] step(6)]) (simp_all add: set_ret_def)
  qed
qed simp

lemmas good_function_steps =
  good_Enter good_register_args good_register_rets good_register_func good_update_args good_update_rets

lemma good_update_types:
  "good_ctx scope ctx \<Longrightarrow> update_func_arg_types as f ctx = Ok (as', ctx') \<Longrightarrow> good_ctx scope ctx'"
  "good_ctx scope ctx \<Longrightarrow> update_func_ret_types as f ctx = Ok (as', ctx') \<Longrightarrow> good_ctx scope ctx'"
  by (auto simp: update_func_arg_types_def update_func_ret_types_def split: option.split_asm if_split_asm
      dest: good_update_args good_update_rets)

lemma good_update_Leave:
  assumes "good_ctx (scope @ [f]) ctx" "update_func_arg_types as g ctx = Ok (as', c1)"
  shows "LeaveScope h c1 = Ok ctx' \<Longrightarrow> good_ctx scope ctx'"
    and "update_func_ret_types rs g c1 = Ok (rs', c2) \<Longrightarrow> LeaveScope h c2 = Ok ctx' \<Longrightarrow> good_ctx scope ctx'"
  using good_update_types(1) [OF assms] by (blast intro: good_Leave good_update_types(2))+

text \<open>After which symbol of its right-hand side a rule is in the scope of its function.\<close>

definition entered :: "grammar_symbol list \<Rightarrow> nat \<Rightarrow> bool" where
  "entered rhs k \<longleftrightarrow>
     (case rhs of
        [NT OPT_RECURSIVE, _, _, _, _, _, _, _, _] \<Rightarrow> k \<ge> 3
      | [NT OPT_RECURSIVE, _, _, _, _, _, _, _, _, _, _, _, _] \<Rightarrow> k \<ge> 6
      | _ \<Rightarrow> False)"

definition stage :: "grammar_symbol list \<Rightarrow> nat \<Rightarrow> t_str list \<Rightarrow> parser_ctx \<Rightarrow> bool" where
  "stage rhs k scope ctx \<longleftrightarrow> (if entered rhs k then \<exists>f. good_ctx (scope @ [f]) ctx else good_ctx scope ctx)"

definition scoped_rule :: "production \<Rightarrow> bool" where
  "scoped_rule p \<longleftrightarrow>
     (case p of (nt, rhs, rule) \<Rightarrow>
        \<not> entered rhs 0 \<and>
        (\<forall>k. \<not> needs_partial rhs (Suc k) \<longrightarrow> entered rhs (Suc k) = entered rhs k) \<and>
        (\<forall>scope k args ctx v ctx'. length args = Suc k \<longrightarrow> stage rhs k scope ctx \<longrightarrow>
           rule False args ctx = Ok (v, ctx') \<longrightarrow> stage rhs (Suc k) scope ctx') \<and>
        (\<forall>scope args ctx v ctx'. length args = length rhs \<longrightarrow> stage rhs (length rhs) scope ctx \<longrightarrow>
           rule True args ctx = Ok (v, ctx') \<longrightarrow> good_ctx scope ctx'))"

lemma scoped_keeps:
  assumes "keeps_ctx rule" "\<And>k. \<not> entered rhs k"
  shows "scoped_rule (nt, rhs, rule)"
  using assms unfolding scoped_rule_def stage_def keeps_ctx_def by (auto 0 4)

lemma procedure_partial_good:
  assumes "procedure_partial args ctx = Ok ctx'"
  shows "length args = 3 \<Longrightarrow> good_ctx scope ctx \<Longrightarrow> \<exists>f. good_ctx (scope @ [f]) ctx'"
    "length args \<noteq> 3 \<Longrightarrow> good_ctx scope ctx \<Longrightarrow> good_ctx scope ctx'"
  using assms
  by (auto simp: procedure_partial_def rbind_eq_Ok split: if_split_asm
      intro: good_Enter good_register_func good_register_args)

lemma good_registers:
  assumes "good_ctx scope ctx" "register_args as 0 ctx = Ok c1" "register_rets rs 0 c1 = Ok c2"
    and "register_func name rty as mult rec c2 = Ok ctx'"
  shows "good_ctx scope ctx'"
  by (rule good_register_func [OF good_register_rets [OF good_register_args [OF assms(1,2)] assms(3)] assms(4)])

lemma function_partial_good:
  assumes "function_partial args ctx = Ok ctx'"
  shows "length args = 6 \<Longrightarrow> good_ctx scope ctx \<Longrightarrow> \<exists>f. good_ctx (scope @ [f]) ctx'"
    "length args \<noteq> 6 \<Longrightarrow> good_ctx scope ctx \<Longrightarrow> good_ctx scope ctx'"
  using assms
  by (auto simp: function_partial_def rbind_eq_Ok split: if_split_asm
      intro: good_Enter good_registers)

lemma scoped_procedure: "scoped_rule (hd function_rules)"
proof -
  have p: "rule_procedure False args ctx = Ok (v, ctx') \<Longrightarrow> procedure_partial args ctx = Ok ctx'" for args ctx v ctx'
    by (auto simp: rule_procedure_def rbind_eq_Ok)
  have 2: "good_ctx scope ctx'"
    if "good_ctx (scope @ [f]) ctx" "length args = 9" "rule_procedure True args ctx = Ok (v, ctx')" for scope f args ctx v ctx'
    using that
    by (auto simp: rule_procedure_def procedure_partial_def rbind_eq_Ok intro: good_update_Leave(1))
  have "scoped_rule (FUNCTION, [NT OPT_RECURSIVE, TM TK_PROC, TM TK_IDENT, ch CHR ''('', NT FULL_IDENTLIST,
      ch CHR '')'', NT STATEMENTS, TM TK_END, TM TK_PROC], rule_procedure)"
    unfolding scoped_rule_def prod.case
  proof (intro conjI allI impI, goal_cases)
    case (3 scope k args ctx v ctx')
    then show ?case
      using procedure_partial_good [OF p [OF 3(3)]] by (cases "k = 2") (fastforce simp: stage_def entered_def)+
  next
    case (4 scope args ctx v ctx')
    then show ?case using 2 [of scope _ ctx args v ctx'] by (auto simp: stage_def entered_def)
  qed (auto simp: entered_def needs_partial_def)
  then show ?thesis by (simp add: function_rules_def)
qed

lemma scoped_function: "scoped_rule (hd (tl function_rules))"
proof -
  have p: "rule_function False args ctx = Ok (v, ctx') \<Longrightarrow> function_partial args ctx = Ok ctx'" for args ctx v ctx'
    by (auto simp: rule_function_def rbind_eq_Ok)
  have 2: "good_ctx scope ctx'"
    if "good_ctx (scope @ [f]) ctx" "length args = 13" "rule_function True args ctx = Ok (v, ctx')" for scope f args ctx v ctx'
    using that
    by (auto simp: rule_function_def function_partial_def rbind_eq_Ok intro: good_update_Leave(2))
  have "scoped_rule (FUNCTION, [NT OPT_RECURSIVE, TM TK_FUNC, TM TK_IDENT, ch CHR ''('', NT FULL_IDENTLIST,
      ch CHR '')'', TM TK_RESULTS, ch CHR ''('', NT FULL_IDENTLIST, ch CHR '')'',
      NT STATEMENTS, TM TK_END, TM TK_FUNC], rule_function)"
    unfolding scoped_rule_def prod.case
  proof (intro conjI allI impI, goal_cases)
    case (3 scope k args ctx v ctx')
    then show ?case
      using function_partial_good [OF p [OF 3(3)]] by (cases "k = 5") (fastforce simp: stage_def entered_def)+
  next
    case (4 scope args ctx v ctx')
    then show ?case using 2 [of scope _ ctx args v ctx'] by (auto simp: stage_def entered_def)
  qed (auto simp: entered_def needs_partial_def)
  then show ?thesis by (simp add: function_rules_def)
qed

lemma no_entered:
  "list_all (\<lambda>p. \<forall>k. \<not> entered (fst (snd p)) k) (grammar_rules @ operator_rules @ variable_rules @ array_rules @ loop_rules)"
  "list_all (\<lambda>p. \<forall>k. \<not> entered (fst (snd p)) k) (tl (tl function_rules))"
  by (simp_all add: grammar_defs entered_def)

lemma rules_scoped: "list_all scoped_rule CreateGrammar"
proof -
  have k: "scoped_rule p" if "keeps_ctx (snd (snd p))" "\<forall>k. \<not> entered (fst (snd p)) k" for p
    using scoped_keeps [of "snd (snd p)" "fst (snd p)" "fst p"] that by simp
  have g: "list_all scoped_rule (grammar_rules @ operator_rules @ variable_rules @ array_rules @ loop_rules)"
    using rules_keep(1) no_entered(1) k unfolding list_all_iff by blast
  moreover have "list_all scoped_rule (tl (tl function_rules))"
    using rules_keep(2) no_entered(2) k unfolding list_all_iff by blast
  moreover have "function_rules = hd function_rules # hd (tl function_rules) # tl (tl function_rules)"
    by (simp add: function_rules_def)
  ultimately have "list_all scoped_rule function_rules"
    using scoped_procedure scoped_function by (metis list.pred_inject(2))
  with g show ?thesis by (simp add: CreateGrammar_def)
qed

section \<open>A run leaves the scopes as it found them\<close>

lemma stage_child:
  assumes "stage rhs k scope ctx" "\<And>sc. good_ctx sc ctx \<Longrightarrow> good_ctx sc ctx'"
  shows "stage rhs k scope ctx'"
  using assms by (auto simp: stage_def split: if_splits)

lemma stage_partial:
  assumes "scoped_rule (nt, rhs, rule)" "stage rhs k scope ctx" "length args = k"
    and "needs_partial rhs (Suc k) \<Longrightarrow> called"
    and "(if called then rbind (rule False (args @ [v]) ctx) (\<lambda>(_, c). Ok c) else Ok ctx) = Ok ctx'"
  shows "stage rhs (Suc k) scope ctx'"
proof (cases called)
  case True
  then obtain w where "rule False (args @ [v]) ctx = Ok (w, ctx')" using assms(5) by (auto simp: rbind_eq_Ok)
  then show ?thesis using assms(1,2,3) unfolding scoped_rule_def prod.case by (metis length_append_singleton)
next
  case False
  then have "\<not> needs_partial rhs (Suc k)" using assms(4) by blast
  moreover have "ctx' = ctx" using False assms(5) by simp
  ultimately show ?thesis using assms(1,2) by (simp add: scoped_rule_def stage_def)
qed

lemma production_scoped:
  "i < length CreateGrammar \<Longrightarrow> scoped_rule (fst (CreateGrammar ! i), fst (snd (CreateGrammar ! i)), semantic_rule i)"
  using rules_scoped by (simp add: list_all_length semantic_rule_def)

lemma run_scoped:
  "derivation t \<Longrightarrow> needed_partials \<subseteq> pm \<Longrightarrow> good_ctx scope ctx \<Longrightarrow> run_rules pm t ctx = Ok (v, ctx') \<Longrightarrow>
   good_ctx scope ctx'"
  "\<forall>t \<in> set ts. derivation t \<Longrightarrow> i < length CreateGrammar \<Longrightarrow> needed_partials \<subseteq> pm \<Longrightarrow>
   stage (fst (snd (CreateGrammar ! i))) (length args) scope ctx \<Longrightarrow>
   run_symbols pm i ts args ctx = Ok (args', ctx') \<Longrightarrow>
   length args' = length args + length ts \<and> stage (fst (snd (CreateGrammar ! i))) (length args') scope ctx'"
proof (induction pm t ctx and pm i ts args ctx arbitrary: scope v ctx' and scope args' ctx'
    rule: run_rules_run_symbols.induct)
  case (1 pm t ctx)
  then show ?case by simp
next
  case (2 pm i ts ctx)
  let ?rhs = "fst (snd (CreateGrammar ! i))"
  obtain args c where a: "run_symbols pm i ts [] ctx = Ok (args, c)" and r: "semantic_rule i True args c = Ok (v, ctx')"
    using "2.prems"(4) by (auto simp: rbind_eq_Ok)
  have d: "\<forall>t \<in> set ts. derivation t" "i < length CreateGrammar" "length ts = length ?rhs"
    using "2.prems"(1) by (simp_all flip: length_map [of root])
  have s: "scoped_rule (fst (CreateGrammar ! i), ?rhs, semantic_rule i)" using d(2) by (rule production_scoped)
  then have st: "stage ?rhs (length ([] :: sval list)) scope ctx"
    using "2.prems"(3) by (simp add: scoped_rule_def stage_def)
  have "length args = length ?rhs \<and> stage ?rhs (length args) scope c"
    using "2.IH" [OF d(1,2) "2.prems"(2) st a] d(3) by auto
  then show ?case using s r unfolding scoped_rule_def prod.case by metis
next
  case (3 pm i args ctx)
  then show ?case by simp
next
  case (4 pm i t ts args ctx)
  let ?rhs = "fst (snd (CreateGrammar ! i))"
  obtain v c where t: "run_rules pm t ctx = Ok (v, c)"
    using "4.prems"(5) by (cases "run_rules pm t ctx") auto
  let ?p = "if (i, length args + 1) \<in> pm then rbind (semantic_rule i False (args @ [v]) c) (\<lambda>(_, c). Ok c) else Ok c"
  have "rbind ?p (run_symbols pm i ts (args @ [v])) = Ok (args', ctx')"
    using "4.prems"(5) unfolding run_symbols.simps t rbind.simps prod.case .
  then obtain c1 where p: "?p = Ok c1" and r: "run_symbols pm i ts (args @ [v]) c1 = Ok (args', ctx')"
    unfolding rbind_eq_Ok by blast
  have "stage ?rhs (length args) scope c"
    using "4.IH"(1) [OF _ "4.prems"(3) _ t] "4.prems"(1,4) by (blast intro: stage_child list.set_intros(1))
  moreover have "(i, length args + 1) \<in> pm" if "needs_partial ?rhs (Suc (length args))"
    using that "4.prems"(2,3) by (auto simp: needed_partials_def)
  ultimately have st: "stage ?rhs (length (args @ [v])) scope c1"
    using stage_partial [OF production_scoped [OF "4.prems"(2)] _ refl _ p] by simp
  then show ?case using "4.IH"(2) [OF t refl p _ "4.prems"(2,3) st r] "4.prems"(1) by auto
qed

lemma parse_good:
  assumes "derivation t" "needed_partials \<subseteq> pm" "run_rules pm t ctx = Ok (v, ctx')"
    and "parse_tab (m_symbols ctx)"
  shows "m_curscope ctx' = m_curscope ctx" "parse_tab (m_symbols ctx')"
  using run_scoped(1) [OF assms(1,2) _ assms(3), of "m_curscope ctx"] assms(4) by (simp_all add: good_ctx_def)

end
