(* ===== verification/Driver.thy ===== *)
theory Driver
  imports CompileMain GrammarFacts AstOpt
begin

text \<open>
  The compiler (codegen/main.cpp): the text is lexed and parsed with the external functions in
  the symbol table, the statements are optimised on request and compiled. The parser of the
  LALR(1) library is the parameter \<open>parser\<close>; what is asked of it, that the derivation it finds
  is one of the tokens, is the hypothesis \<open>lalr_parser\<close>. Files, messages and the printed tree are
  left out.
\<close>

definition lalr_parser :: "(t_toknode list \<Rightarrow> ptree option) \<Rightarrow> bool" where
  "lalr_parser parser \<longleftrightarrow>
     (\<forall>tokens t. parser tokens = Some t \<longrightarrow>
        derivation t \<and> root t = NT START \<and> (\<exists>h. tokens = fringe t @ [h] \<and> fst h = TK_HALT))"

definition parse_failure :: exc where
  "parse_failure = RuntimeError ''Parser reports failure.''"

definition parse_text :: "env \<Rightarrow> (t_toknode list \<Rightarrow> ptree option) \<Rightarrow> (nat \<times> nat) set \<Rightarrow> string \<Rightarrow>
    (ast list \<times> symtab) result" where
  "parse_text e parser partial_match text =
     rbind (add_ext_funcs False ParserContext0) (\<lambda>ctx.
     rbind (GetAllTokens e 1 text) (\<lambda>tokens.
     case parser tokens of
       None \<Rightarrow> Throw parse_failure
     | Some t \<Rightarrow>
         rbind (run_rules partial_match t ctx) (\<lambda>(ast, ctx).
         if ast = SNull then Throw parse_failure
         else case m_statements ctx of
           None \<Rightarrow> Throw parse_failure
         | Some stmts \<Rightarrow> Ok (stmts, m_symbols ctx))))"

definition optimise_stmts :: "env \<Rightarrow> ast list \<Rightarrow> ast list result" where
  "optimise_stmts e stmts =
     rbind (opt_seq (map (opt e) stmts) \<lparr>m_arith_opts = 0, m_logic_opts = 0\<rparr>) (\<lambda>(stmts, st). Ok stmts)"

definition mcc :: "env \<Rightarrow> (t_toknode list \<Rightarrow> ptree option) \<Rightarrow> (nat \<times> nat) set \<Rightarrow> bool \<Rightarrow> string \<Rightarrow> cg result" where
  "mcc e parser partial_match optimise text =
     rbind (parse_text e parser partial_match text) (\<lambda>(stmts, syms).
     rbind (if optimise then optimise_stmts e stmts else Ok stmts) (compile_program syms))"

section \<open>The symbol table behind the parser\<close>

lemma parse_tab_ext: "parse_tab tab \<Longrightarrow> parse_tab (reg_ext_funcs scope fs tab)"
  by (induction fs arbitrary: tab) (auto intro: parse_tab_AddExtFunc split: prod.split)

lemma start_ctx:
  "add_ext_funcs False ParserContext0 =
   Ok (ParserContext0\<lparr>m_symbols := reg_ext_funcs [] (ext_funcs False) []\<rparr>)"
  by (simp add: add_ext_funcs_def ParserContext0_def)

lemma parse_text_tab:
  assumes "lalr_parser parser" "needed_partials \<subseteq> pm" "parse_text e parser pm text = Ok (prog, syms)"
  shows "parse_tab syms"
proof -
  let ?ctx = "ParserContext0\<lparr>m_symbols := reg_ext_funcs [] (ext_funcs False) []\<rparr>"
  obtain tokens t v ctx where 1: "parser tokens = Some t" "run_rules pm t ?ctx = Ok (v, ctx)" "syms = m_symbols ctx"
    using assms(3) unfolding parse_text_def start_ctx
    by (auto simp: rbind_eq_Ok split: option.split_asm if_split_asm)
  have "derivation t" using assms(1) 1(1) by (simp add: lalr_parser_def)
  moreover have "parse_tab []" by (simp add: parse_tab_def symtab_wf_def)
  then have "parse_tab (m_symbols ?ctx)" by (simp add: parse_tab_ext)
  ultimately show ?thesis using parse_good(2) [OF _ assms(2) 1(2)] 1(3) by simp
qed

text \<open>The variables of a program, as the reference semantics sees them: the global ones of the table.\<close>

definition source_cfg :: "env \<Rightarrow> symtab \<Rightarrow> cfg" where
  "source_cfg e tab =
     \<lparr>cfg_env = e, cfg_eps = 0x3CB0000000000000, cfg_prec = 6,
      cfg_vars = (\<lambda>x.
        case FindSymbol tab x of
          None \<Rightarrow> None
        | Some sy \<Rightarrow>
            if global_var sy then case GetSymSize sy of Ok n \<Rightarrow> Some (sy_ty sy, nat n) | _ \<Rightarrow> None
            else None)\<rparr>"

lemma vars_tab_source: "vars_tab (source_cfg e tab) tab"
proof -
  have "0 \<le> n" if "GetSymSize sy = Ok n" for sy n
    using sym_size_nonneg [of sy] that by (simp add: sym_size_def)
  then show ?thesis
    by (auto simp: vars_tab_def source_cfg_def split: option.split_asm if_split_asm result.split_asm)
qed

lemma source_fresh:
  assumes "parse_tab tab" "frame_size tab < 2 ^ 31"
  shows "fresh_syms (source_cfg e tab) tab"
  using assms vars_tab_source [of e tab] by (auto simp: fresh_syms_def parse_tab_def)

theorem source_correct:
  assumes parser: "lalr_parser parser" "needed_partials \<subseteq> pm"
    and src: "parse_text e parser pm text = Ok (prog, syms)" "mcc e parser pm False text = Ok c"
    and sem: "stmt_frag (source_cfg e syms) (ASTStmts prog)" "sem (source_cfg e syms) Map.empty (ASTStmts prog) m \<rho>"
    and mem: "7 \<le> sz" "int (length (cg_ostr c)) + int (max m 9) + frame_size syms + sz + 1 \<le> memsize" "memsize < 2 ^ 31"
  obtains s0 n s' where "SetMem 0 (cg_ostr c) True (new_vm sz memsize) = Ok s0"
    "run e n s0 = Ok (Halted, s')" "vars_in_memory (cg_syms c) s' \<rho>" "m_sp s' = memsize - (sz + 1)"
proof -
  have c: "compile_program syms prog = Ok c" using src by (simp add: mcc_def)
  have "frame_size syms < 2 ^ 31" using mem by simp
  then have f: "fresh_syms (source_cfg e syms) syms" using source_fresh parse_text_tab [OF parser src(1)] by blast
  obtain s0 n s' where 1: "SetMem 0 (cg_ostr c) True (new_vm sz memsize) = Ok s0"
    "run (cfg_env (source_cfg e syms)) n s0 = Ok (Halted, s')" "vars_in_memory (cg_syms c) s' \<rho>"
    "m_sp s' = memsize - (sz + 1)"
    by (rule program_correct [OF f sem c _ _ mem]) (simp_all add: source_cfg_def)
  show thesis using that [OF 1(1) _ 1(3,4)] 1(2) by (simp add: source_cfg_def)
qed

end
