(* ===== verification/LexFacts.thy ===== *)
theory LexFacts
  imports Lexer VmOpsFacts
begin

text \<open>
  What the lexer does with a well-spaced text. A word is an identifier, a keyword, a decimal
  number, an operator or a string literal; a text is a list of words, each with the blank or line
  end behind it. The tokens of the text are those of its words, with their lines.
\<close>

section \<open>Words\<close>

datatype lexword =
    WIdent string
  | WKey string
  | WInt nat
  | WOp string
  | WText string

fun spell :: "lexword \<Rightarrow> string" where
  "spell (WIdent s) = s"
| "spell (WKey s) = s"
| "spell (WInt n) = show_nat n"
| "spell (WOp s) = s"
| "spell (WText s) = [CHR 0x22] @ s @ [CHR 0x22]"

fun op_token :: "string \<Rightarrow> Token \<times> t_lval option" where
  "op_token s =
     (case map_of operators s of
        Some tok \<Rightarrow> (tok, op_lval tok s)
      | None \<Rightarrow> (TK_CHAR (hd s), None))"

fun word_token :: "lexword \<Rightarrow> Token \<times> t_lval option" where
  "word_token (WIdent s) = (TK_IDENT, Some (LStr s))"
| "word_token (WKey s) = (the (map_of keyword_tokens s), Some (LStr s))"
| "word_token (WInt n) = (TK_INT, Some (LInt (word_of_int (int n))))"
| "word_token (WOp s) = op_token s"
| "word_token (WText s) = (TK_STR, Some (LStr s))"

fun proper :: "lexword \<Rightarrow> bool" where
  "proper (WIdent s) \<longleftrightarrow> match_ident s \<and> map_of keyword_tokens s = None"
| "proper (WKey s) \<longleftrightarrow> s \<in> fst ` set keyword_tokens"
| "proper (WInt n) \<longleftrightarrow> int n \<le> int_max"
| "proper (WOp s) \<longleftrightarrow> s \<in> fst ` set operators - {''xor''} \<union> (\<lambda>c. [c]) ` set single_chars"
| "proper (WText s) \<longleftrightarrow> CHR 0x22 \<notin> set s \<and> CHR 0x0A \<notin> set s \<and> CHR 0x5C \<notin> set s"

definition blank :: "char \<Rightarrow> bool" where
  "blank c \<longleftrightarrow> c = CHR '' '' \<or> c = CHR 0x09 \<or> c = CHR 0x0A"

definition next_line :: "nat \<Rightarrow> char \<Rightarrow> nat" where
  "next_line line c = (if c = CHR 0x0A then line + 1 else line)"

definition spaced :: "(lexword \<times> char) list \<Rightarrow> string" where
  "spaced ws = concat (map (\<lambda>(w, s). spell w @ [s]) ws)"

fun layout :: "nat \<Rightarrow> (lexword \<times> char) list \<Rightarrow> t_toknode list" where
  "layout line [] = [tok_node (TK_HALT, None, line)]"
| "layout line ((w, s) # ws) =
     tok_node (fst (word_token w), snd (word_token w), line) # layout (next_line line s) ws"

section \<open>No token contains a blank\<close>

lemma blank_not_digit: "blank s \<Longrightarrow> \<not> is_digit s"
  by (auto simp: blank_def is_digit_def)

lemma blank_not_letter: "blank s \<Longrightarrow> \<not> is_letter s" "blank s \<Longrightarrow> \<not> is_alnum s"
  by (auto simp: blank_def is_letter_def is_alnum_def is_digit_def)

lemma dropWhile_keeps_last:
  "\<not> P s \<Longrightarrow> \<exists>r'. dropWhile P (r @ [s]) = r' @ [s]"
  by (induction r) auto

lemma skip_keeps_last:
  assumes "blank s"
  shows "\<exists>r'. skip_fraction (r @ [s]) = r' @ [s]" "\<exists>r'. skip_sign (r @ [s]) = r' @ [s]"
    "\<exists>r'. skip_exponent (r @ [s]) = r' @ [s]"
proof -
  note drop = dropWhile_keeps_last [where P = is_digit, OF blank_not_digit [OF assms]]
  have s: "s \<notin> {CHR ''.'', CHR ''+'', CHR ''-'', CHR ''E'', CHR ''e''}"
    using assms by (auto simp: blank_def)
  show "\<exists>r'. skip_fraction (r @ [s]) = r' @ [s]"
    using drop s by (cases r) (auto simp: skip_fraction_def)
  show sign: "\<exists>r'. skip_sign (r @ [s]) = r' @ [s]" for r
    using s by (cases r) (auto simp: skip_sign_def)
  have "\<exists>r'. dropWhile is_digit (skip_sign (r @ [s])) = r' @ [s]" for r
    using sign [of r] drop by fastforce
  then show "\<exists>r'. skip_exponent (r @ [s]) = r' @ [s]"
    using s by (cases r) (auto simp: skip_exponent_def)
qed

lemma no_real_blank: "blank s \<Longrightarrow> \<not> match_real (w @ [s])"
  using dropWhile_keeps_last [where P = is_digit, OF blank_not_digit] skip_keeps_last
  unfolding match_real_def by (metis snoc_eq_iff_butlast)

lemma no_table_blank:
  assumes "blank s"
  shows "map_of keyword_tokens (w @ [s]) = None" "map_of operators (w @ [s]) = None"
proof -
  have "list_all (\<lambda>(k, _). \<not> blank (last k)) keyword_tokens" "list_all (\<lambda>(k, _). \<not> blank (last k)) operators"
    by (simp_all add: keyword_tokens_def operators_def blank_def)
  then show "map_of keyword_tokens (w @ [s]) = None" "map_of operators (w @ [s]) = None"
    using assms by (fastforce simp: map_of_eq_None_iff list_all_iff)+
qed

lemma no_int_blank:
  assumes "blank s" "w \<noteq> []"
  shows "int_matches (w @ [s]) line = Ok []"
proof -
  have d: "\<not> all_digits (v @ [s])" for v
    using blank_not_digit [OF assms(1)] by (simp add: all_digits_def)
  have "\<not> all_digits (drop 2 (w @ [s]))"
    using d [of "drop 2 w"] assms(2) by (cases "length w < 2") (auto simp: all_digits_def)
  moreover have "w @ [s] \<notin> {''0x'', ''0b''}"
    using assms(1) by (auto simp: blank_def append_eq_Cons_conv)
  ultimately show ?thesis using d by (auto simp: int_matches_def match_int_def)
qed

lemma no_word_blank:
  assumes "blank s"
  shows "word_matches (w @ [s]) line = []"
proof -
  have a: "\<not> list_all is_alnum (v @ [s])" "\<not> list_all is_letter (v @ [s])" for v
    using blank_not_letter [OF assms] by simp_all
  have i: "\<not> match_ident (v @ [s])" for v
    using a(1) blank_not_letter [OF assms] by (cases v) (auto simp: match_ident_def)
  have "\<not> match_label (w @ [s])" "\<not> match_partial (w @ [s])"
    using i a assms by (cases w; auto simp: match_label_def match_partial_def blank_def)+
  moreover have "w @ [s] \<noteq> ''.true.''" "w @ [s] \<noteq> ''.false.''"
    using assms by (auto simp: blank_def append_eq_Cons_conv)
  ultimately show ?thesis using i no_table_blank [OF assms] by (simp add: word_matches_def)
qed

lemma no_match_blank:
  assumes "blank s" "w \<noteq> []"
  shows "GetMatchingTokens e (w @ [s]) line = Ok []"
proof -
  have "op_matches (w @ [s]) line =
      (case w @ [s] of [c] \<Rightarrow> if c \<in> set single_chars then [(TK_CHAR c, None, line)] else [] | _ \<Rightarrow> [])"
    by (simp add: op_matches_def no_table_blank [OF assms(1)])
  also have "\<dots> = []" using assms(2) by (auto split: list.split simp: append_eq_Cons_conv)
  finally have "op_matches (w @ [s]) line = []" .
  then show ?thesis
    using no_int_blank [OF assms] no_real_blank [OF assms(1)] no_word_blank [OF assms(1)]
    by (simp add: GetMatchingTokens_def real_matches_def)
qed

section \<open>The longest match\<close>

text \<open>
  Every beginning of the word matches, but not the word with the next character: then the loop
  takes the word, up to this character.
\<close>

definition matches :: "env \<Rightarrow> string \<Rightarrow> nat \<Rightarrow> t_lexer_match \<Rightarrow> bool" where
  "matches e w line m \<longleftrightarrow> (\<exists>ms. GetMatchingTokens e w line = Ok (m # ms))"

lemma next_loop_munch:
  assumes "longest \<noteq> []" "GetMatchingTokens e (p @ w @ [s]) line = Ok []"
    and "\<And>n. n < length w \<Longrightarrow> \<exists>m. matches e (p @ take (Suc n) w) line m"
    and "if w = [] then hd longest = m else matches e (p @ w) line m"
  shows "next_loop e False False p longest line (w @ s # cs) = Ok (m, s # cs, line)"
  using assms
proof (induction w arbitrary: p longest)
  case Nil
  then show ?case by (cases longest) auto
next
  case (Cons c w)
  obtain m0 ms where m0: "GetMatchingTokens e (p @ [c]) line = Ok (m0 # ms)"
    using Cons.prems(3) [of 0] by (auto simp: matches_def)
  have "next_loop e False False (p @ [c]) (m0 # ms) line (w @ s # cs) = Ok (m, s # cs, line)"
  proof (rule Cons.IH)
    show "\<exists>m. matches e ((p @ [c]) @ take (Suc n) w) line m" if "n < length w" for n
      using Cons.prems(3) [of "Suc n"] that by simp
    show "if w = [] then hd (m0 # ms) = m else matches e ((p @ [c]) @ w) line m"
      using Cons.prems(4) m0 by (auto simp: matches_def)
  qed (use Cons.prems in auto)
  then show ?case using Cons.prems(1) m0 by simp
qed

definition starts_word :: "char \<Rightarrow> bool" where
  "starts_word c \<longleftrightarrow> \<not> blank c \<and> c \<noteq> CHR 0x22 \<and> c \<noteq> CHR ''!''"

lemma GetNextToken_word:
  assumes "w \<noteq> []" "starts_word (hd w)" "GetMatchingTokens e (w @ [s]) line = Ok []"
    and "\<And>n. 0 < n \<Longrightarrow> n \<le> length w \<Longrightarrow> \<exists>m. matches e (take n w) line m" "matches e w line m"
  shows "GetNextToken e line (w @ s # cs) = Ok (m, s # cs, line)"
proof -
  obtain c w' where w: "w = c # w'" using assms(1) by (cases w) auto
  obtain m0 ms where m0: "GetMatchingTokens e [c] line = Ok (m0 # ms)"
    using assms(4) [of 1] w by (auto simp: matches_def)
  have "next_loop e False False [c] (m0 # ms) line (w' @ s # cs) = Ok (m, s # cs, line)"
  proof (rule next_loop_munch)
    show "\<exists>m. matches e ([c] @ take (Suc n) w') line m" if "n < length w'" for n
      using assms(4) [of "Suc (Suc n)"] that w by simp
    show "if w' = [] then hd (m0 # ms) = m else matches e ([c] @ w') line m"
      using assms(5) m0 w by (auto simp: matches_def)
  qed (use assms(3) w in auto)
  then show ?thesis using assms(2) m0 w by (auto simp: GetNextToken_def starts_word_def blank_def)
qed

section \<open>The tokens of the words\<close>

lemma letter_not_digit: "is_letter c \<Longrightarrow> \<not> is_digit c"
  by (auto simp: is_letter_def is_digit_def Let_def)

lemma ident_matches:
  assumes "match_ident w"
  shows "GetMatchingTokens e w line = Ok (word_matches w line @ op_matches w line)" "word_matches w line \<noteq> []"
proof -
  obtain c cs where w: "w = c # cs" "is_letter c" using assms by (auto simp: match_ident_def split: list.splits)
  have "c \<noteq> CHR ''0''" using w(2) by (auto simp: is_letter_def)
  then have "int_matches w line = Ok []"
    using w letter_not_digit [OF w(2)] by (auto simp: int_matches_def match_int_def all_digits_def)
  moreover have "\<not> match_real w" using w letter_not_digit [OF w(2)] by (simp add: match_real_def)
  ultimately show "GetMatchingTokens e w line = Ok (word_matches w line @ op_matches w line)"
    using w(1) by (simp add: GetMatchingTokens_def real_matches_def)
  show "word_matches w line \<noteq> []"
    using assms by (auto simp: word_matches_def split: option.split)
qed

lemma ident_match: "match_ident w \<Longrightarrow> \<exists>m. matches e w line m"
  using ident_matches(1) [of w e line] ident_matches(2) [of w line] by (cases "word_matches w line") (auto simp: matches_def)

lemma ident_take:
  "match_ident w \<Longrightarrow> 0 < n \<Longrightarrow> match_ident (take n w)"
  by (cases n) (auto simp: match_ident_def list_all_iff split: list.splits dest: in_set_takeD)

lemma ident_starts: "match_ident w \<Longrightarrow> starts_word (hd w)"
  by (auto simp: match_ident_def starts_word_def blank_def is_letter_def split: list.splits)

lemma next_ident:
  assumes "match_ident w" "blank s" "word_matches w line = [m]"
  shows "GetNextToken e line (w @ s # cs) = Ok (m, s # cs, line)"
proof (rule GetNextToken_word)
  show "w \<noteq> []" "starts_word (hd w)" using assms(1) ident_starts by (auto simp: match_ident_def)
  show "\<exists>m. matches e (take n w) line m" if "0 < n" for n
    by (rule ident_match [OF ident_take [OF assms(1) that]])
  show "matches e w line m" using ident_matches(1) [OF assms(1)] assms(3) by (simp add: matches_def)
  show "GetMatchingTokens e (w @ [s]) line = Ok []" using assms(1,2) by (intro no_match_blank) (auto simp: match_ident_def)
qed

lemma keyword_ident:
  assumes "map_of keyword_tokens w = Some tok"
  shows "match_ident w" "tok \<noteq> TK_HALT"
proof -
  have "list_all (\<lambda>(k, t). match_ident k \<and> t \<noteq> TK_HALT) keyword_tokens"
    by (simp add: keyword_tokens_def match_ident_def is_letter_def is_alnum_def)
  then show "match_ident w" "tok \<noteq> TK_HALT"
    using map_of_SomeD [OF assms] by (auto simp: list_all_iff)
qed

lemma digits_match:
  assumes "all_digits w"
  shows "matches e w line (TK_INT, Some (LInt (fst (read_int w))), line)"
  using assms
  by (auto simp: matches_def GetMatchingTokens_def int_matches_def match_int_def int_lval_def all_digits_def)

lemma next_digits:
  assumes "all_digits w" "blank s"
  shows "GetNextToken e line (w @ s # cs) = Ok ((TK_INT, Some (LInt (fst (read_int w))), line), s # cs, line)"
proof (rule GetNextToken_word)
  show "w \<noteq> []" using assms(1) by (simp add: all_digits_def)
  show "starts_word (hd w)"
    using assms(1) by (cases w) (auto simp: all_digits_def starts_word_def blank_def is_digit_def)
  show "\<exists>m. matches e (take n w) line m" if "0 < n" for n
    using assms(1) that digits_match [of "take n w"]
    by (fastforce simp: all_digits_def list_all_iff dest: in_set_takeD)
  show "GetMatchingTokens e (w @ [s]) line = Ok []" using assms by (intro no_match_blank) (auto simp: all_digits_def)
qed (rule digits_match [OF assms(1)])

text \<open>Beginnings of an operator match: other operators, single characters, labels, a lone dot.\<close>

definition begins :: "string \<Rightarrow> bool" where
  "begins w \<longleftrightarrow> map_of operators w \<noteq> None \<or> match_label w \<or> match_partial w \<or>
     (\<exists>c. w = [c] \<and> c \<in> set single_chars)"

definition op_word :: "string \<Rightarrow> bool" where
  "op_word w \<longleftrightarrow> w \<noteq> [] \<and> starts_word (hd w) \<and> \<not> is_digit (hd w) \<and> \<not> is_letter (hd w) \<and>
     list_all (\<lambda>n. begins (take n w)) [1..<length w]"

lemma sign_matches:
  assumes "w \<noteq> []" "\<not> is_digit (hd w)"
  shows "GetMatchingTokens e w line = Ok (word_matches w line @ op_matches w line)"
proof -
  have "hd w \<noteq> CHR ''0''" using assms(2) by (auto simp: is_digit_def)
  then have "int_matches w line = Ok []"
    using assms by (cases w) (auto simp: int_matches_def match_int_def all_digits_def)
  moreover have "\<not> match_real w" using assms by (cases w) (auto simp: match_real_def)
  ultimately show ?thesis using assms(1) by (simp add: GetMatchingTokens_def real_matches_def)
qed

lemma begins_match:
  assumes "begins w" "w \<noteq> []" "\<not> is_digit (hd w)"
  shows "\<exists>m. matches e w line m"
proof -
  have "word_matches w line @ op_matches w line \<noteq> []"
    using assms(1) by (auto simp: begins_def word_matches_def op_matches_def split: option.split)
  then show ?thesis
    using sign_matches [OF assms(2,3)] by (cases "word_matches w line @ op_matches w line") (auto simp: matches_def)
qed

lemma next_op:
  assumes "op_word w" "blank s" "word_matches w line @ op_matches w line = m # ms"
  shows "GetNextToken e line (w @ s # cs) = Ok (m, s # cs, line)"
proof (rule GetNextToken_word)
  have w: "w \<noteq> []" "\<not> is_digit (hd w)" using assms(1) by (auto simp: op_word_def)
  show m: "matches e w line m" using sign_matches [OF w] assms(3) by (simp add: matches_def)
  show "\<exists>m. matches e (take n w) line m" if "0 < n" "n \<le> length w" for n
  proof (cases "n = length w")
    case True
    then show ?thesis using m by (intro exI [of _ m]) simp
  next
    case False
    then have "begins (take n w)" using assms(1) that by (simp add: op_word_def list_all_iff)
    then show ?thesis using that w by (intro begins_match) auto
  qed
qed (use assms in \<open>auto simp: op_word_def intro: no_match_blank\<close>)

text \<open>In the table of operators only \<open>xor\<close> begins with a letter; the others are no words.\<close>

lemma operators_proper:
  "list_all (\<lambda>(w, tok). w = ''xor'' \<or> op_word w \<and> word_matches w 0 = []) operators"
  by (simp add: operators_def op_word_def begins_def starts_word_def blank_def is_digit_def is_letter_def is_alnum_def
      word_matches_def keyword_tokens_def match_ident_def match_label_def match_partial_def single_chars_def
      upt_rec)

lemma single_proper:
  "list_all (\<lambda>c. op_word [c] \<and> word_matches [c] 0 = [] \<and> map_of operators [c] = None) single_chars"
  by (simp add: operators_def op_word_def begins_def starts_word_def blank_def is_digit_def is_letter_def is_alnum_def
      word_matches_def keyword_tokens_def match_ident_def match_label_def match_partial_def single_chars_def
      upt_rec)

lemma word_matches_line: "word_matches w line = [] \<longleftrightarrow> word_matches w 0 = []"
  by (simp add: word_matches_def split: option.split)

lemma op_token_matches:
  assumes "proper (WOp w)"
  shows "op_word w" "word_matches w line @ op_matches w line = [(fst (op_token w), snd (op_token w), line)]"
proof -
  show "op_word w"
    using assms operators_proper single_proper by (auto simp: list_all_iff)
  have nil: "word_matches w line = []"
    using assms operators_proper single_proper by (auto simp: list_all_iff word_matches_line [of w line])
  consider tok where "map_of operators w = Some tok" | c where "w = [c]" "c \<in> set single_chars" "map_of operators w = None"
    using assms by (cases "map_of operators w") (auto simp: map_of_eq_None_iff)
  then show "word_matches w line @ op_matches w line = [(fst (op_token w), snd (op_token w), line)]"
    using nil by cases (auto simp: op_matches_def)
qed

lemma replace_escape_id: "CHR 0x5C \<notin> set w \<Longrightarrow> replace_escape l r w = w"
  by (induction l r w rule: replace_escape.induct) auto

lemma next_loop_literal:
  assumes "CHR 0x22 \<notin> set w" "CHR 0x0A \<notin> set w" "CHR 0x5C \<notin> set v" "CHR 0x5C \<notin> set w"
  shows "next_loop e False True v [] line (w @ CHR 0x22 # cs) = Ok ((TK_STR, Some (LStr (v @ w)), line), cs, line)"
  using assms by (induction w arbitrary: v) (auto simp: replace_escapes_def replace_escape_id)

lemma read_show_nat:
  assumes "int n \<le> int_max"
  shows "all_digits (show_nat n)" "fst (read_int (show_nat n)) = word_of_int (int n)"
proof -
  show "all_digits (show_nat n)"
    using show_nat_digits [of _ n] show_nat_nonempty [of n] by (auto simp: all_digits_def list_all_iff)
  have n: "int n < 2 ^ 63" using assms by (simp add: int_max_def)
  have s: "sint (word_of_int (int n) :: t_int) = int n"
    using n by (intro sint_of_int) auto
  then have "show_int (word_of_int (int n)) = show_nat n" by (simp add: show_int_def)
  then show "fst (read_int (show_nat n)) = word_of_int (int n)"
    using read_show_int [of "word_of_int (int n)"] by simp
qed

text \<open>A proper word in front of a blank is the next token.\<close>

lemma next_word:
  assumes "proper w" "blank s"
  shows "GetNextToken e line (spell w @ s # cs) =
    Ok ((fst (word_token w), snd (word_token w), line), s # cs, line)"
proof (cases w)
  case (WIdent v)
  then have "word_matches v line = [(TK_IDENT, Some (LStr v), line)]"
    using assms(1) by (auto simp: word_matches_def match_ident_def is_letter_def)
  then show ?thesis using WIdent assms next_ident [of v s line] by simp
next
  case (WKey v)
  then obtain tok where tok: "map_of keyword_tokens v = Some tok"
    using assms(1) by (cases "map_of keyword_tokens v") (auto simp: map_of_eq_None_iff)
  then have "word_matches v line = [(tok, Some (LStr v), line)]" by (simp add: word_matches_def)
  then show ?thesis using WKey assms(2) tok next_ident [OF keyword_ident(1) [OF tok]] by simp
next
  case (WInt n)
  then show ?thesis using assms next_digits [OF read_show_nat(1)] read_show_nat(2) by simp
next
  case (WOp v)
  then show ?thesis using assms next_op [OF op_token_matches(1) assms(2) op_token_matches(2)] by simp
next
  case (WText v)
  then show ?thesis
    using assms(1) next_loop_literal [of v "[]"] by (simp add: GetNextToken_def)
qed

section \<open>The tokens of a text\<close>

lemma skip_blank:
  assumes "blank s"
  shows "GetAllTokens e line (s # cs) = GetAllTokens e (next_line line s) cs"
  using assms by (subst (1 2) GetAllTokens.simps) (auto simp: GetNextToken_def blank_def next_line_def)

lemma op_token_halt: "proper (WOp w) \<Longrightarrow> fst (op_token w) \<noteq> TK_HALT"
proof -
  assume w: "proper (WOp w)"
  have "list_all (\<lambda>(k, t). t \<noteq> TK_HALT) operators" by (simp add: operators_def)
  then show ?thesis by (auto simp: list_all_iff split: option.split dest: map_of_SomeD)
qed

lemma word_token_halt: "proper w \<Longrightarrow> fst (word_token w) \<noteq> TK_HALT"
proof (cases w)
  case (WKey v)
  assume "proper w"
  then obtain tok where "map_of keyword_tokens v = Some tok"
    using WKey by (cases "map_of keyword_tokens v") (auto simp: map_of_eq_None_iff)
  then show ?thesis using WKey keyword_ident(2) by simp
qed (use op_token_halt in auto)

text \<open>The words in front of some other text are lexed first; \<open>last_line\<close> is the line they end in.\<close>

definition last_line :: "nat \<Rightarrow> (lexword \<times> char) list \<Rightarrow> nat" where
  "last_line = foldl (\<lambda>line (w, s). next_line line s)"

lemma lex_prefix:
  assumes "\<forall>(w, s) \<in> set ws. proper w \<and> blank s"
  shows "GetAllTokens e line (spaced ws @ cs) =
    rbind (GetAllTokens e (last_line line ws) cs) (\<lambda>ts. Ok (butlast (layout line ws) @ ts))"
  using assms
proof (induction ws arbitrary: line)
  case Nil
  show ?case by (simp add: spaced_def last_line_def)
next
  case (Cons p ws)
  obtain w s where p: "p = (w, s)" by (cases p)
  then have w: "proper w" "blank s" using Cons.prems by auto
  have n: "layout l ws \<noteq> []" for l by (cases ws) auto
  have "spaced (p # ws) @ cs = spell w @ s # spaced ws @ cs" by (simp add: spaced_def p)
  then have "GetAllTokens e line (spaced (p # ws) @ cs) =
      rbind (GetAllTokens e line (s # spaced ws @ cs)) (\<lambda>ts. Ok (tok_node (fst (word_token w), snd (word_token w), line) # ts))"
    using next_word [OF w] word_token_halt [OF w(1)] by (subst GetAllTokens.simps) simp
  then show ?case using Cons.IH Cons.prems p n by (simp add: skip_blank [OF w(2)] last_line_def)
qed

lemma layout_last: "layout line ws = butlast (layout line ws) @ [tok_node (TK_HALT, None, last_line line ws)]"
proof (induction ws arbitrary: line)
  case (Cons p ws)
  obtain w s where p: "p = (w, s)" by (cases p)
  have "layout l ws \<noteq> []" for l by (cases ws) auto
  then show ?case using Cons.IH [of "next_line line s"] p by (simp add: last_line_def)
qed (simp add: last_line_def)

lemma lex_nil: "GetAllTokens e line [] = Ok [tok_node (TK_HALT, None, line)]"
  by (subst GetAllTokens.simps) (simp add: GetNextToken_def)

lemma lex_spaced:
  assumes "\<forall>(w, s) \<in> set ws. proper w \<and> blank s"
  shows "GetAllTokens e line (spaced ws) = Ok (layout line ws)"
  using lex_prefix [OF assms, of e line "[]"] layout_last [of line ws] by (simp add: lex_nil)

section \<open>Shape of the list of tokens\<close>

lemma fst_tok_node [simp]: "fst (tok_node m) = fst m"
  by (cases m) (simp add: tok_node_def)

text \<open>\<open>HALT\<close> comes last and only there, and every other token has taken a character.\<close>

lemma tokens_shape:
  "GetAllTokens e line cs = Ok ts \<Longrightarrow>
   \<exists>ts' h. ts = ts' @ [h] \<and> fst h = TK_HALT \<and> (\<forall>t \<in> set ts'. fst t \<noteq> TK_HALT) \<and> length ts' \<le> length cs"
proof (induction e line cs arbitrary: ts rule: GetAllTokens.induct)
  case (1 e line cs)
  obtain m rest line' where m: "GetNextToken e line cs = Ok (m, rest, line')"
    using "1.prems" by (subst (asm) GetAllTokens.simps) (auto simp: rbind_eq_Ok)
  have f: "fst (tok_node m) = fst m" by simp
  show ?case
  proof (cases "fst m = TK_HALT")
    case True
    then have "ts = [] @ [tok_node m]" using "1.prems" m by (subst (asm) GetAllTokens.simps) simp
    then show ?thesis using True f by force
  next
    case False
    then obtain us where us: "GetAllTokens e line' rest = Ok us" "ts = tok_node m # us"
      using "1.prems" m by (subst (asm) GetAllTokens.simps) (auto simp: rbind_eq_Ok)
    from "1.IH" [OF m refl refl False us(1)] obtain ts' h where h: "us = ts' @ [h]" "fst h = TK_HALT"
      "\<forall>t \<in> set ts'. fst t \<noteq> TK_HALT" "length ts' \<le> length rest" by blast
    moreover have "length rest < length cs" using m False next_loop_shorter by (fastforce simp: GetNextToken_def)
    ultimately show ?thesis using us(2) False f by (intro exI [of _ "tok_node m # ts'"] exI [of _ h]) auto
  qed
qed

text \<open>Nothing in the lexer is undefined.\<close>

lemma matching_defined: "defined (GetMatchingTokens e str line)"
  by (auto simp: GetMatchingTokens_def int_matches_def int_lval_def intro!: defined_rbindI split: option.split)

lemma next_loop_defined: "defined (next_loop e cmt in_str input longest line cs)"
proof (induction cs arbitrary: cmt in_str input longest line)
  case (Cons c cs)
  have "defined (rbind (GetMatchingTokens e (input @ [c]) line) (\<lambda>matching.
      case (matching, longest) of
        (m # _, _) \<Rightarrow> if cs = [] then Ok (m, [], line) else next_loop e cmt in_str (input @ [c]) matching line cs
      | ([], m # _) \<Rightarrow> Ok (m, c # cs, line)
      | ([], []) \<Rightarrow> Throw (invalid_input line (input @ [c]))))"
    by (rule defined_rbindI [OF matching_defined]) (auto simp: Cons.IH split: list.split)
  then show ?case using Cons.IH by simp
qed simp

lemma tokens_defined: "defined (GetAllTokens e line cs)"
proof (induction e line cs rule: GetAllTokens.induct)
  case (1 e line cs)
  show ?case
    by (subst GetAllTokens.simps)
      (auto simp: GetNextToken_def next_loop_defined 1 intro!: defined_rbindI split: prod.split)
qed

section \<open>Texts that are lexed in unexpected ways\<close>

text \<open>\<open>xor\<close> is an identifier first, so it is never the operator.\<close>

definition no_xor :: "t_lexer_match list \<Rightarrow> bool" where
  "no_xor ms \<longleftrightarrow> (\<forall>m ms'. ms = m # ms' \<longrightarrow> fst m \<noteq> TK_XOR)"

lemma no_xor_operator: "map_of operators str = Some TK_XOR \<Longrightarrow> str = ''xor''"
proof -
  have "list_all (\<lambda>(k, t). t = TK_XOR \<longrightarrow> k = ''xor'') operators" by (simp add: operators_def)
  then show "map_of operators str = Some TK_XOR \<Longrightarrow> str = ''xor''"
    by (auto simp: list_all_iff dest: map_of_SomeD)
qed

lemma no_xor_matches:
  assumes "GetMatchingTokens e str line = Ok ms"
  shows "no_xor ms"
proof -
  have k: "list_all (\<lambda>(k, t). t \<noteq> TK_XOR) keyword_tokens" by (simp add: keyword_tokens_def)
  have w: "fst m \<noteq> TK_XOR" if "m \<in> set (word_matches str line)" for m
    using that k by (auto simp: word_matches_def list_all_iff split: option.split_asm if_split_asm dest: map_of_SomeD)
  have x: "word_matches ''xor'' line = [(TK_IDENT, Some (LStr ''xor''), line)]"
    by (simp add: word_matches_def keyword_tokens_def match_ident_def is_letter_def is_alnum_def)
  have o: "str = ''xor''" if "m \<in> set (op_matches str line)" "fst m = TK_XOR" for m
    using that by (auto simp: op_matches_def split: option.split_asm list.split_asm if_split_asm intro: no_xor_operator)
  have i: "fst m \<noteq> TK_XOR" if "int_matches str line = Ok is" "m \<in> set is" for m "is"
    using that by (auto simp: int_matches_def rbind_eq_Ok split: option.split_asm if_split_asm)
  have r: "fst m \<noteq> TK_XOR" if "m \<in> set (real_matches e str line)" for m
    using that by (auto simp: real_matches_def split: if_split_asm)
  show ?thesis
  proof (cases "str = []")
    case False
    then obtain "is" where 1: "int_matches str line = Ok is"
      "ms = is @ real_matches e str line @ word_matches str line @ op_matches str line"
      using assms by (auto simp: GetMatchingTokens_def rbind_eq_Ok)
    show ?thesis
      unfolding no_xor_def
    proof (intro allI impI notI)
      fix m ms'
      assume m: "ms = m # ms'" "fst m = TK_XOR"
      have "m \<notin> set (is @ real_matches e str line @ word_matches str line)"
        using i [OF 1(1), of m] r [of m] w [of m] m(2) by auto
      then have "is @ real_matches e str line @ word_matches str line = []"
        using 1(2) m(1) by (metis append_assoc append_eq_Cons_conv list.set_intros(1))
      then have nil: "word_matches str line = []" "m # ms' = op_matches str line" using 1(2) m(1) by simp_all
      have "m \<in> set (op_matches str line)" unfolding nil(2) [symmetric] by simp
      then have "str = ''xor''" using m(2) by (rule o)
      then show False using nil(1) x by simp
    qed
  qed (use assms in \<open>simp add: GetMatchingTokens_def no_xor_def\<close>)
qed

lemma no_xor_loop:
  "next_loop e cmt in_str input longest line cs = Ok (m, rest, line') \<Longrightarrow> no_xor longest \<Longrightarrow> fst m \<noteq> TK_XOR"
proof (induction cs arbitrary: cmt in_str input longest line)
  case Nil
  then show ?case by (cases longest) (auto simp: no_xor_def)
next
  case (Cons c cs)
  from Cons.prems(1) show ?case
  proof (cases rule: next_loop_cases)
    case (more ms)
    then show ?thesis using Cons.IH no_xor_matches by blast
  next
    case (end_of_input ms)
    then show ?thesis using no_xor_matches by (fastforce simp: no_xor_def)
  qed (use Cons in \<open>auto simp: no_xor_def\<close>)
qed

lemma tokens_no_xor: "GetAllTokens e line cs = Ok ts \<Longrightarrow> t \<in> set ts \<Longrightarrow> fst t \<noteq> TK_XOR"
proof (induction e line cs arbitrary: ts rule: GetAllTokens.induct)
  case (1 e line cs)
  obtain m rest line' where m: "GetNextToken e line cs = Ok (m, rest, line')"
    using "1.prems" by (subst (asm) GetAllTokens.simps) (auto simp: rbind_eq_Ok)
  have "fst m \<noteq> TK_XOR"
    using m no_xor_loop [where longest = "[]"] by (fastforce simp: GetNextToken_def no_xor_def)
  then have x: "fst (tok_node m) \<noteq> TK_XOR" by simp
  show ?case
  proof (cases "fst m = TK_HALT")
    case True
    then have "ts = [tok_node m]" using "1.prems"(1) m by (subst (asm) GetAllTokens.simps) simp
    then show ?thesis using "1.prems"(2) x by simp
  next
    case False
    then obtain us where "GetAllTokens e line' rest = Ok us" "ts = tok_node m # us"
      using "1.prems"(1) m by (subst (asm) GetAllTokens.simps) (auto simp: rbind_eq_Ok)
    then show ?thesis using "1.IH" [OF m refl refl False] "1.prems"(2) x by auto
  qed
qed

text \<open>A string without an end takes the rest of the text, and no token.\<close>

lemma open_string_loop:
  "CHR 0x22 \<notin> set cs \<Longrightarrow> \<exists>line'. next_loop e cmt True input [] line cs = Ok ((TK_HALT, None, line'), [], line')"
  by (induction cs arbitrary: cmt input line) auto

lemma open_string: "CHR 0x22 \<notin> set cs \<Longrightarrow> \<exists>line'. GetAllTokens e line (CHR 0x22 # cs) = Ok [tok_node (TK_HALT, None, line')]"
  using open_string_loop [of cs e False "[]" line]
  by (subst GetAllTokens.simps) (auto simp: GetNextToken_def)

text \<open>After a number, the first two characters of \<open>.eq.\<close> are taken for a fraction and an exponent.\<close>

lemma digit_starts:
  assumes "is_digit c"
  shows "word_matches (c # cs) line = []" "2 \<le> length (c # cs) \<Longrightarrow> op_matches (c # cs) line = []"
proof -
  have "list_all (\<lambda>(k, t). k \<noteq> [] \<and> \<not> is_digit (hd k)) keyword_tokens" "list_all (\<lambda>(k, t). k \<noteq> [] \<and> \<not> is_digit (hd k)) operators"
    by (simp_all add: keyword_tokens_def operators_def is_digit_def)
  then have "map_of keyword_tokens (c # cs) = None" "map_of operators (c # cs) = None"
    using assms by (fastforce simp: map_of_eq_None_iff list_all_iff)+
  then show "word_matches (c # cs) line = []" "2 \<le> length (c # cs) \<Longrightarrow> op_matches (c # cs) line = []"
    using assms letter_not_digit [of c]
    by (auto simp: word_matches_def op_matches_def match_ident_def match_label_def match_partial_def is_digit_def split: list.split)
qed

lemma number_matches:
  assumes "all_digits ds" "cs \<noteq> []" "hd cs = CHR ''.''"
  shows "GetMatchingTokens e (ds @ cs) line =
    Ok (if skip_exponent (skip_fraction cs) = [] then [(TK_REAL, Some (LReal (fst (e_parse_real e (ds @ cs)))), line)] else [])"
proof -
  obtain c ds' where c: "ds = c # ds'" "is_digit c" using assms(1) by (cases ds) (auto simp: all_digits_def)
  obtain cs' where cs: "cs = CHR ''.'' # cs'" using assms(2,3) by (cases cs) auto
  have dot: "\<not> is_digit CHR ''.''" by (simp add: is_digit_def)
  have d: "list_all is_digit ds" "ds \<noteq> []" using assms(1) by (simp_all add: all_digits_def)
  then have t: "takeWhile is_digit (ds @ cs) = ds" "dropWhile is_digit (ds @ cs) = cs"
    using cs dot by (simp_all add: list_all_iff takeWhile_append2 dropWhile_append2)
  have x: "take 2 (ds @ cs) \<notin> {''0x'', ''0b''}"
    using d cs by (cases ds; cases "tl ds") (auto simp: is_digit_def)
  have "v \<notin> {''0x'', ''0b''}" if "take 2 v \<notin> {''0x'', ''0b''}" for v :: string using that by auto
  then have y: "ds @ cs \<notin> {''0x'', ''0b''}" using x by blast
  have "int_matches (ds @ cs) line = Ok []"
    using x y cs dot by (auto simp: int_matches_def match_int_def all_digits_def)
  moreover have "match_real (ds @ cs) \<longleftrightarrow> skip_exponent (skip_fraction cs) = []" using d(2) t by (simp add: match_real_def)
  moreover have "word_matches (ds @ cs) line = []" "op_matches (ds @ cs) line = []"
    using digit_starts [OF c(2), of "ds' @ cs"] c(1) cs by (simp_all add: Suc_le_eq)
  ultimately show ?thesis using d(2) by (simp add: GetMatchingTokens_def real_matches_def)
qed

lemma eq_after_number:
  assumes "all_digits ds"
  shows "GetNextToken e line (ds @ ''.eq.'' @ cs) =
    Ok ((TK_REAL, Some (LReal (fst (e_parse_real e (ds @ ''.e'')))), line), ''q.'' @ cs, line)"
proof -
  have d: "ds \<noteq> []" "starts_word (hd ds)"
    using assms by (cases ds; auto simp: all_digits_def starts_word_def blank_def is_digit_def)+
  have e: "skip_exponent (skip_fraction ''.'') = []" "skip_exponent (skip_fraction ''.e'') = []"
      "skip_exponent (skip_fraction ''.eq'') \<noteq> []"
    by (simp_all add: skip_exponent_def skip_fraction_def skip_sign_def is_digit_def)
  have "GetNextToken e line ((ds @ ''.e'') @ CHR ''q'' # CHR ''.'' # cs) =
      Ok ((TK_REAL, Some (LReal (fst (e_parse_real e (ds @ ''.e'')))), line), CHR ''q'' # CHR ''.'' # cs, line)"
  proof (rule GetNextToken_word)
    show "ds @ ''.e'' \<noteq> []" "starts_word (hd (ds @ ''.e''))" using d by simp_all
    show "GetMatchingTokens e ((ds @ ''.e'') @ [CHR ''q'']) line = Ok []"
      using number_matches [OF assms, of "''.eq''"] e(3) by simp
    show "matches e (ds @ ''.e'') line (TK_REAL, Some (LReal (fst (e_parse_real e (ds @ ''.e'')))), line)"
      using number_matches [OF assms, of "''.e''"] e(2) by (simp add: matches_def)
    show "\<exists>m. matches e (take n (ds @ ''.e'')) line m" if n: "0 < n" "n \<le> length (ds @ ''.e'')" for n
    proof -
      consider "n \<le> length ds" | "n = length ds + 1" | "n = length ds + 2" using n(2) by fastforce
      then show ?thesis
      proof cases
        case 1
        then have "all_digits (take n ds)"
          using assms n(1) by (auto simp: all_digits_def list_all_iff dest: in_set_takeD)
        then show ?thesis using 1 digits_match by (metis diff_is_0_eq self_append_conv take0 take_append)
      qed (use number_matches [OF assms, of "''.''"] number_matches [OF assms, of "''.e''"] e in \<open>auto simp: matches_def\<close>)
    qed
  qed
  then show ?thesis by simp
qed

end
