(* ===== verification/DeclFacts.thy ===== *)
theory DeclFacts
  imports GrammarFacts
begin

text \<open>
  What declarations and functions leave in the symbol table: the dimensions of complex and
  quaternion arrays, arguments named twice, and the signature of a function.
\<close>

section \<open>Dimensions of complex and quaternion arrays\<close>

lemma leaf_root: "root t = TM tok \<Longrightarrow> \<exists>a l. t = Leaf (tok, a, l)"
  by (cases t) auto

lemma decl_productions:
  "CreateGrammar ! 39 = dim_decl TK_CPLXDECL (TM TK_INT) (rule_decl_array ST_CPLX_ARRAY)"
  "CreateGrammar ! 40 = dim_decl TK_QUATDECL (TM TK_INT) (rule_decl_array ST_QUAT_ARRAY)"
  by (simp_all add: grammar_defs)

lemma decl_array_partial:
  "length args \<noteq> 6 \<Longrightarrow> rule_decl_array ty False args ctx = Ok (SNull, ctx)"
  "length args = 6 \<Longrightarrow> args ! 4 = SNode (ASTNumInt n) \<Longrightarrow> rule_decl_array ty full_match args ctx = Undefined UB_Null"
  by (simp_all add: rule_decl_array_def cast_arg_def arg_def)

lemma one_dimension:
  assumes i: "i < length CreateGrammar" "CreateGrammar ! i = dim_decl tok (TM TK_INT) (rule_decl_array ty)"
    and d: "derivation (Node i ts)" "ts ! 4 = Leaf (TK_INT, ASTNumInt n, l)" and pm: "needed_partials \<subseteq> pm"
  shows "run_rules pm (Node i ts) ctx = Undefined UB_Null"
proof -
  have p: "pm \<inter> needed_partials = needed_partials" using pm by blast
  have "map root ts = [TM tok, ch CHR '','', TM TK_DIM, ch CHR ''('', TM TK_INT, ch CHR '')'',
      NT OPT_INTENT, TM TK_TYPESEP, NT VARIABLES]"
    using d(1) i(2) by (simp add: dim_decl_def)
  then obtain t0 t1 t2 t3 t4 t5 rest where ts: "ts = t0 # t1 # t2 # t3 # t4 # t5 # rest"
      and r: "root t0 = TM tok" "root t1 = ch CHR '',''" "root t2 = TM TK_DIM" "root t3 = ch CHR ''(''" "root t5 = ch CHR '')''"
    by (auto simp: map_eq_Cons_conv)
  obtain a0 a1 a2 a3 a5 l0 l1 l2 l3 l5 where l: "t0 = Leaf (tok, a0, l0)" "t1 = Leaf (TK_CHAR CHR '','', a1, l1)"
      "t2 = Leaf (TK_DIM, a2, l2)" "t3 = Leaf (TK_CHAR CHR ''('', a3, l3)" "t5 = Leaf (TK_CHAR CHR '')'', a5, l5)"
    using r [THEN leaf_root] by auto
  have t4: "t4 = Leaf (TK_INT, ASTNumInt n, l)" using d(2) ts by simp
  have s: "semantic_rule i = rule_decl_array ty" using i(2) by (simp add: semantic_rule_def dim_decl_def)
  have k: "(i, k) \<in> needed_partials \<longleftrightarrow> k = 6" for k
    using i by (simp add: needed_partials_def dim_decl_def needs_partial_def)
  have "run_symbols needed_partials i ts [] ctx = Undefined UB_Null"
    unfolding ts l t4 by (simp add: s k decl_array_partial)
  then have "run_rules needed_partials (Node i ts) ctx = Undefined UB_Null" by simp
  then show ?thesis using run_rules_partial(1) [OF d(1), of pm ctx] p by simp
qed

section \<open>The rule of \<open>xor\<close>\<close>

fun used_rules :: "ptree \<Rightarrow> nat set" where
  "used_rules (Leaf t) = {}"
| "used_rules (Node i ts) = insert i (\<Union> (used_rules ` set ts))"

lemma fringe_root: "derivation t \<Longrightarrow> root t = TM tok \<Longrightarrow> tok \<in> fst ` set (fringe t)"
  by (cases t) auto

lemma xor_rule: "derivation t \<Longrightarrow> 20 \<in> used_rules t \<Longrightarrow> TK_XOR \<in> fst ` set (fringe t)"
proof (induction t rule: derivation.induct)
  case (2 i ts)
  show ?case
  proof (cases "i = 20")
    case True
    have "fst (snd (CreateGrammar ! 20)) = [NT EXPRESSION, TM TK_XOR, NT EXPRESSION]" by (simp add: grammar_defs)
    then have "TM TK_XOR \<in> root ` set ts" using "2.prems"(1) True by (metis derivation.simps(2) list.set_intros list.set_map)
    then obtain t where "t \<in> set ts" "root t = TM TK_XOR" by force
    then show ?thesis using "2.prems"(1) fringe_root [of t TK_XOR] by fastforce
  next
    case False
    then obtain t where t: "t \<in> set ts" "20 \<in> used_rules t" using "2.prems"(2) by auto
    then have "TK_XOR \<in> fst ` set (fringe t)" using "2.IH" "2.prems"(1) by simp
    then show ?thesis using t(1) by auto
  qed
qed simp

section \<open>Arguments named twice\<close>

abbreviation "prefix_of scope \<equiv> concat (map (\<lambda>n. n @ get_scopenameseparator) scope)"

lemma GetScopeName_plain:
  "m_curscope ctx = scope @ [f] \<Longrightarrow> GetScopeName 0 False ctx = Ok (prefix_of scope @ f)"
  "m_curscope ctx = scope @ [f] \<Longrightarrow> GetScopeName 1 True ctx = Ok (prefix_of scope)"
  by (cases scope rule: rev_cases; simp add: GetScopeName_def Let_def butlast_append)+

lemma add_new_symbol:
  assumes "FindScopedSymbol name ctx = Ok None"
  obtains sy tab where "AddScopedSymbol name ctx = Ok (Some sy, ctx\<lparr>m_symbols := tab\<rparr>)"
    "tab = insert_sym sy (m_symbols ctx)" "scoped_name sy = prefix_of (m_curscope ctx) @ name"
    "sy_ty sy = m_symtype ctx" "\<not> is_tmp sy" "\<not> is_arg sy"
  using assms
  by (auto simp: AddScopedSymbol_def FindScopedSymbol_eq AddSymbol_def Let_def Symbol0_def)

lemma mark_new_arg:
  assumes new: "FindScopedSymbol name ctx = Ok None" and i: "m_curscope ctx = scope @ [f]"
  obtains ctx1 sy where "mark_symbol (\<lambda>s. s\<lparr>is_arg := True, argidx := i\<rparr>) name ctx = Ok ctx1"
    "FindScopedSymbol name ctx1 = Ok (Some sy)" "is_arg sy" "sy_ty sy = m_symtype ctx"
    "FindSymbol (m_symbols ctx1) (prefix_of scope @ f) = FindSymbol (m_symbols ctx) (prefix_of scope @ f)"
    "m_curscope ctx1 = m_curscope ctx" "m_symtype ctx1 = m_symtype ctx"
proof -
  obtain sy tab where s: "AddScopedSymbol name ctx = Ok (Some sy, ctx\<lparr>m_symbols := tab\<rparr>)"
    "tab = insert_sym sy (m_symbols ctx)" "scoped_name sy = prefix_of (m_curscope ctx) @ name"
    "sy_ty sy = m_symtype ctx" "\<not> is_tmp sy" "\<not> is_arg sy" by (rule add_new_symbol [OF new])
  have none: "FindSymbol (m_symbols ctx) (scoped_name sy) = None" using new s(3) by (simp add: FindScopedSymbol_eq)
  have ne: "prefix_of scope @ f \<noteq> prefix_of (m_curscope ctx) @ name" using i by (simp add: get_scopenameseparator_def)
  show thesis
    by (rule that [of "ctx\<lparr>m_symbols := upd_sym (scoped_name sy) (\<lambda>s. s\<lparr>is_arg := True, argidx := i\<rparr>) tab\<rparr>"
          "sy\<lparr>is_arg := True, argidx := i\<rparr>"])
      (use s none ne in \<open>simp_all add: mark_symbol_def FindScopedSymbol_eq FindSymbol_upd FindSymbol_insert\<close>)
qed

lemma duplicate_arg:
  assumes "m_curscope ctx = scope @ [f]" "FindGlobalSymbol (prefix_of scope @ f) ctx = None"
    and "FindScopedSymbol name ctx = Ok None" "m_symtype ctx \<noteq> ST_FUNC" "fst a = name" "fst b = name"
  shows "register_args (a # b # as) i ctx = Undefined UB_Null"
proof -
  obtain ctx1 sy where 1: "mark_symbol (\<lambda>s. s\<lparr>is_arg := True, argidx := i\<rparr>) name ctx = Ok ctx1"
    "FindScopedSymbol name ctx1 = Ok (Some sy)" "is_arg sy" "sy_ty sy = m_symtype ctx"
    "FindSymbol (m_symbols ctx1) (prefix_of scope @ f) = FindSymbol (m_symbols ctx) (prefix_of scope @ f)"
    "m_curscope ctx1 = m_curscope ctx" "m_symtype ctx1 = m_symtype ctx"
    by (rule mark_new_arg [OF assms(3,1)])
  let ?ctx2 = "ctx1\<lparr>m_symbols := upd_sym (scoped_name sy) (retype_sym ctx1) (m_symbols ctx1)\<rparr>"
  have "GetScopeName 0 False ?ctx2 = Ok (prefix_of scope @ f)"
    by (rule GetScopeName_plain(1)) (simp add: 1(6) assms(1))
  moreover have "FindSymbol (m_symbols ?ctx2) (prefix_of scope @ f) = None"
    using 1(5) assms(2)
    by (cases "prefix_of scope @ f = scoped_name sy") (simp_all add: FindSymbol_upd FindGlobalSymbol_def)
  ultimately have "AddScopedSymbol name ctx1 = Ok (None, ?ctx2)"
    using 1(2,3,4) assms(4) by (simp add: AddScopedSymbol_def retype_known_def FindScopedSymbol_eq)
  then show ?thesis using 1(1) assms(5,6) by (simp add: mark_symbol_def)
qed

section \<open>The signature of a function\<close>

text \<open>Every argument has a symbol in the scope that knows its position.\<close>

definition arg_symbols :: "parser_ctx \<Rightarrow> nat \<Rightarrow> argname list \<Rightarrow> symbol list \<Rightarrow> bool" where
  "arg_symbols ctx i as sys \<longleftrightarrow> length sys = length as \<and>
     (\<forall>j < length as. FindScopedSymbol (fst (as ! j)) ctx = Ok (Some (sys ! j)) \<and> is_arg (sys ! j) \<and>
        argidx (sys ! j) = i + j)"

lemma arg_symbols_Cons:
  "arg_symbols ctx i (a # as) sys \<longleftrightarrow>
   (\<exists>sy sys'. sys = sy # sys' \<and> FindScopedSymbol (fst a) ctx = Ok (Some sy) \<and> is_arg sy \<and> argidx sy = i \<and>
      arg_symbols ctx (Suc i) as sys')"
  by (cases sys) (auto simp: arg_symbols_def All_less_Suc2)

lemma arg_symbols_upd:
  assumes "arg_symbols ctx i as sys" "m_curscope ctx = scope @ [f]"
  shows "arg_symbols (ctx\<lparr>m_symbols := upd_sym (prefix_of scope @ f) g (m_symbols ctx)\<rparr>) i as sys"
  using assms by (simp add: arg_symbols_def FindScopedSymbol_eq FindSymbol_upd get_scopenameseparator_def)

definition typed_arg :: "argname \<Rightarrow> symbol \<Rightarrow> argname" where
  "typed_arg a sy = (fst a, sy_ty sy, sy_dims sy)"

lemma update_args_types:
  assumes "arg_symbols ctx i as sys" "m_curscope ctx = scope @ [f]"
    and "FindSymbol (m_symbols ctx) (prefix_of scope @ f) = Some func" "i + length as = length (argty func)"
  shows "\<exists>ctx' func'. update_args (prefix_of scope @ f) as ctx = Ok (map2 typed_arg as sys, ctx') \<and>
    FindSymbol (m_symbols ctx') (prefix_of scope @ f) = Some func' \<and>
    argty func' = take i (argty func) @ map sy_ty sys \<and> m_curscope ctx' = m_curscope ctx"
  using assms
proof (induction as arbitrary: i sys ctx func)
  case Nil
  then show ?case by (simp add: arg_symbols_def)
next
  case (Cons a as)
  let ?f = "prefix_of scope @ f"
  obtain sy sys' where sy: "sys = sy # sys'" "FindScopedSymbol (fst a) ctx = Ok (Some sy)" "is_arg sy" "argidx sy = i"
    "arg_symbols ctx (Suc i) as sys'" using Cons.prems(1) by (auto simp: arg_symbols_Cons)
  let ?ctx = "ctx\<lparr>m_symbols := upd_sym ?f (set_argty i (sy_ty sy)) (m_symbols ctx)\<rparr>"
  let ?func = "set_argty i (sy_ty sy) func"
  have f: "FindSymbol (m_symbols ?ctx) ?f = Some ?func" using Cons.prems(3) by (simp add: FindSymbol_upd)
  have l: "Suc i + length as = length (argty ?func)" using Cons.prems(4) by (simp add: set_argty_def)
  from Cons.IH [OF arg_symbols_upd [OF sy(5) Cons.prems(2)] _ f l] Cons.prems(2)
  obtain ctx' func' where 1: "update_args ?f as ?ctx = Ok (map2 typed_arg as sys', ctx')"
    "FindSymbol (m_symbols ctx') ?f = Some func'" "argty func' = take (Suc i) (argty ?func) @ map sy_ty sys'"
    "m_curscope ctx' = m_curscope ctx" by auto
  have "take (Suc i) (argty ?func) = take i (argty func) @ [sy_ty sy]"
    using Cons.prems(4) by (simp add: set_argty_def take_Suc_conv_app_nth)
  then show ?case
    using 1 sy Cons.prems(3,4) by (simp add: FindGlobalSymbol_def typed_arg_def)
qed

lemma procedure_signature_lemma:
  assumes run: "rule_procedure True args ctx = Ok (v, ctx')" and n: "length args = 9"
    and nodes: "args ! 2 = SNode (ASTStrConst f)" "args ! 4 = SNode (ASTInternalArgNames as)"
    and sys: "arg_symbols ctx 0 as sys" and scope: "m_curscope ctx = scope @ [f]"
  shows "\<exists>body func. v = SNode (ASTFunc f (map2 typed_arg as sys) body []) \<and>
    FindGlobalSymbol (prefix_of scope @ f) ctx' = Some func \<and> argty func = map sy_ty sys \<and> m_curscope ctx' = scope"
proof -
  have c: "cast_arg as_str args 2 = Ok f" "cast_arg as_args args 4 = Ok as"
    using n nodes by (simp_all add: cast_arg_def arg_def)
  obtain body as' ctx1 where 1: "update_func_arg_types as (prefix_of scope @ f) ctx = Ok (as', ctx1)"
      "LeaveScope f ctx1 = Ok ctx'" "v = SNode (ASTFunc f as' body [])"
    using run n c GetScopeName_plain(2) [OF scope]
    by (auto simp: rule_procedure_def procedure_partial_def rbind_eq_Ok)
  obtain func where f: "FindSymbol (m_symbols ctx) (prefix_of scope @ f) = Some func" "length (argty func) = length as"
      "update_args (prefix_of scope @ f) as ctx = Ok (as', ctx1)"
    using 1(1) by (auto simp: update_func_arg_types_def FindGlobalSymbol_def split: option.split_asm if_split_asm)
  have "\<exists>func'. as' = map2 typed_arg as sys \<and> FindSymbol (m_symbols ctx1) (prefix_of scope @ f) = Some func' \<and>
      argty func' = map sy_ty sys \<and> m_curscope ctx1 = m_curscope ctx"
    using update_args_types [OF sys scope f(1)] f(2,3) by auto
  moreover have "m_symbols ctx' = m_symbols ctx1" "m_curscope ctx' = butlast (m_curscope ctx1)"
    using 1(2) by (auto simp: LeaveScope_def split: if_split_asm)
  ultimately show ?thesis using 1(3) scope by (auto simp: FindGlobalSymbol_def)
qed

end
