(* ===== verification/ParseDemo.thy ===== *)
theory ParseDemo
  imports LexFacts DeclFacts
begin

text \<open>
  A program text with its tokens and its derivation, for the instances of the properties: it
  declares an integer and counts it up to a limit.
\<close>

definition count_words :: "nat \<Rightarrow> (lexword \<times> char) list" where
  "count_words n =
     [(WKey ''integer'', CHR '' ''), (WOp ''::'', CHR '' ''), (WIdent ''i'', CHR 0x0A),
      (WKey ''do'', CHR '' ''), (WKey ''while'', CHR '' ''), (WOp ''('', CHR '' ''), (WIdent ''i'', CHR '' ''),
      (WOp ''<'', CHR '' ''), (WInt n, CHR '' ''), (WOp '')'', CHR 0x0A),
      (WIdent ''i'', CHR '' ''), (WOp ''='', CHR '' ''), (WIdent ''i'', CHR '' ''), (WOp ''+'', CHR '' ''), (WInt 1, CHR 0x0A),
      (WKey ''end'', CHR '' ''), (WKey ''do'', CHR 0x0A)]"

definition wleaf :: "lexword \<Rightarrow> nat \<Rightarrow> ptree" where
  "wleaf w line = Leaf (tok_node (fst (word_token w), snd (word_token w), line))"

definition var_tree :: "nat \<Rightarrow> ptree" where
  "var_tree line = Node 55 [wleaf (WIdent ''i'') line]"

definition decl_tree :: ptree where
  "decl_tree = Node 32 [wleaf (WKey ''integer'') 1, Node 84 [], wleaf (WOp ''::'') 1, Node 28 [wleaf (WIdent ''i'') 1]]"

definition test_tree :: "nat \<Rightarrow> ptree" where
  "test_tree n = Node 24 [var_tree 2, wleaf (WOp ''<'') 2, Node 50 [wleaf (WInt n) 2]]"

definition body_tree :: ptree where
  "body_tree = Node 3 [Node 56 [wleaf (WIdent ''i'') 3, wleaf (WOp ''='') 3,
     Node 12 [var_tree 3, wleaf (WOp ''+'') 3, Node 50 [wleaf (WInt 1) 3]]]]"

definition loop_tree :: "nat \<Rightarrow> ptree" where
  "loop_tree n = Node 64 [wleaf (WKey ''do'') 2, wleaf (WKey ''while'') 2, wleaf (WOp ''('') 2, test_tree n,
     wleaf (WOp '')'') 2, Node 1 [body_tree, Node 2 []], wleaf (WKey ''end'') 4, wleaf (WKey ''do'') 4]"

definition count_tree :: "nat \<Rightarrow> ptree" where
  "count_tree n = Node 0 [Node 1 [decl_tree, Node 1 [loop_tree n, Node 2 []]]]"

lemmas tree_defs = wleaf_def var_tree_def decl_tree_def test_tree_def body_tree_def loop_tree_def count_tree_def

lemma count_words_proper: "int n \<le> int_max \<Longrightarrow> \<forall>(w, s) \<in> set (count_words n). proper w \<and> blank s"
  by (simp add: count_words_def blank_def match_ident_def is_letter_def keyword_tokens_def operators_def single_chars_def
      int_max_def)

lemma productions:
  "length CreateGrammar = 89"
  "CreateGrammar ! 0 = (START, [NT STATEMENTS], rule_start)"
  "CreateGrammar ! 1 = (STATEMENTS, [NT STATEMENT, NT STATEMENTS], rule_statements)"
  "CreateGrammar ! 2 = (STATEMENTS, [], rule_no_statements)"
  "CreateGrammar ! 3 = (STATEMENT, [NT EXPRESSION], rule_arg 0)"
  "CreateGrammar ! 12 = (EXPRESSION, [NT EXPRESSION, ch CHR ''+'', NT EXPRESSION], rule_plus)"
  "CreateGrammar ! 24 = (EXPRESSION, [NT EXPRESSION, ch CHR ''<'', NT EXPRESSION], rule_comp CMP_LT)"
  "CreateGrammar ! 28 = (VARIABLES, [TM TK_IDENT], rule_variable)"
  "CreateGrammar ! 32 = (STATEMENT, [TM TK_INTDECL, NT OPT_INTENT, TM TK_TYPESEP, NT VARIABLES], rule_decl ST_INT)"
  "CreateGrammar ! 50 = (EXPRESSION, [TM TK_INT], rule_int)"
  "CreateGrammar ! 55 = (EXPRESSION, [TM TK_IDENT], rule_var)"
  "CreateGrammar ! 56 = (EXPRESSION, [TM TK_IDENT, ch CHR ''='', NT EXPRESSION], rule_assign)"
  "CreateGrammar ! 64 = (STATEMENT, [TM TK_DO, TM TK_WHILE, ch CHR ''('', NT EXPRESSION, ch CHR '')'', NT STATEMENTS,
     TM TK_END, TM TK_DO], rule_while)"
  "CreateGrammar ! 84 = (OPT_INTENT, [], null_rule)"
  by (simp_all add: grammar_defs)

lemma tree_tokens [simp]:
  "tok_node (fst (word_token (WKey ''integer'')), snd (word_token (WKey ''integer'')), l) = (TK_INTDECL, ASTStrConst ''integer'', l)"
  "tok_node (fst (word_token (WKey ''do'')), snd (word_token (WKey ''do'')), l) = (TK_DO, ASTStrConst ''do'', l)"
  "tok_node (fst (word_token (WKey ''while'')), snd (word_token (WKey ''while'')), l) = (TK_WHILE, ASTStrConst ''while'', l)"
  "tok_node (fst (word_token (WKey ''end'')), snd (word_token (WKey ''end'')), l) = (TK_END, ASTStrConst ''end'', l)"
  "tok_node (fst (word_token (WOp ''::'')), snd (word_token (WOp ''::'')), l) = (TK_TYPESEP, ASTStrConst ''::'', l)"
  "tok_node (fst (word_token (WOp ''('')), snd (word_token (WOp ''('')), l) = (TK_CHAR CHR ''('', ASTNumInt (- 1), l)"
  "tok_node (fst (word_token (WOp '')'')), snd (word_token (WOp '')'')), l) = (TK_CHAR CHR '')'', ASTNumInt (- 1), l)"
  "tok_node (fst (word_token (WOp ''='')), snd (word_token (WOp ''='')), l) = (TK_CHAR CHR ''='', ASTNumInt (- 1), l)"
  "tok_node (fst (word_token (WOp ''<'')), snd (word_token (WOp ''<'')), l) = (TK_CHAR CHR ''<'', ASTNumInt (- 1), l)"
  "tok_node (fst (word_token (WOp ''+'')), snd (word_token (WOp ''+'')), l) = (TK_CHAR CHR ''+'', ASTNumInt (- 1), l)"
  "tok_node (fst (word_token (WIdent x)), snd (word_token (WIdent x)), l) = (TK_IDENT, ASTStrConst x, l)"
  "tok_node (fst (word_token (WInt n)), snd (word_token (WInt n)), l) = (TK_INT, ASTNumInt (word_of_int (int n)), l)"
  by (simp_all add: tok_node_def keyword_tokens_def operators_def)

lemma count_derivation: "derivation (count_tree n)" "root (count_tree n) = NT START"
  by (simp_all add: tree_defs productions del: One_nat_def word_token.simps fst_tok_node)

lemma count_fringe:
  "layout 1 (count_words n) = fringe (count_tree n) @ [tok_node (TK_HALT, None, 5)]"
  by (simp add: count_words_def tree_defs next_line_def del: One_nat_def word_token.simps fst_tok_node)

lemma count_lexed:
  "int n \<le> int_max \<Longrightarrow>
   GetAllTokens e 1 (spaced (count_words n)) = Ok (fringe (count_tree n) @ [tok_node (TK_HALT, None, 5)])"
  by (simp only: lex_spaced [OF count_words_proper] count_fringe)

section \<open>Its run\<close>

lemma needs:
  "(i, k) \<in> needed_partials \<longleftrightarrow> i < 89 \<and> needs_partial (fst (snd (CreateGrammar ! i))) k"
  by (simp add: needed_partials_def productions(1))

text \<open>The variable is new in a table with a context in the global scope.\<close>

definition i_sym :: "nat \<Rightarrow> symbol" where
  "i_sym n = Symbol0\<lparr>sy_name := ''i'', scoped_name := ''i'', sy_ty := ST_INT, refcnt := n\<rparr>"

lemmas run_defs = semantic_rule_def productions productions(3) [unfolded One_nat_def] Let_def needs needs_partial_def cast_arg_def arg_def node_arg_def on_full_def
  build1_def build2_def rule_start_def rule_statements_def rule_no_statements_def rule_arg_def rule_plus_def rule_comp_def
  rule_variable_def rule_decl_def decl_value_def cast_value_def rule_int_def rule_var_def rule_assign_def rule_while_def
  null_rule_def

definition parsed_prog :: "nat \<Rightarrow> ast list" where
  "parsed_prog n =
     [ASTVarDecl [''i''] None False False,
      ASTLoop (ASTComp (ASTVar ''i'') (ASTNumInt (word_of_int (int n))) CMP_LT)
        (ASTStmts [ASTAssign [''i''] (Some (ASTPlus (ASTVar ''i'') (ASTNumInt 1) False))])]"

lemma FindSymbol_i_sym:
  "FindSymbol tab ''i'' = None \<Longrightarrow> FindSymbol (insert_sym (i_sym k) tab) ''i'' = Some (i_sym k)"
  using FindSymbol_insert [of tab "i_sym k" "''i''"] by (simp add: i_sym_def)

lemma upd_i_sym:
  assumes "FindSymbol tab ''i'' = None"
  shows "upd_sym ''i'' (\<lambda>s. s\<lparr>refcnt := Suc (refcnt s)\<rparr>) (insert_sym (i_sym k) tab) = insert_sym (i_sym (Suc k)) tab"
proof -
  have "\<forall>p \<in> set tab. (case p of (n, sy) \<Rightarrow> if n = ''i'' then (n, f sy) else (n, sy)) = p" for f
    using assms by (force simp: FindSymbol_None)
  then show ?thesis by (simp add: upd_sym_def insert_sym_def i_sym_def map_idI)
qed

definition counted :: "parser_ctx \<Rightarrow> nat \<Rightarrow> symtab \<Rightarrow> parser_ctx" where
  "counted ctx k tab = ctx\<lparr>m_symbols := insert_sym (i_sym k) tab, m_symtype := ST_INT\<rparr>"

definition before_count :: "parser_ctx \<Rightarrow> bool" where
  "before_count ctx \<longleftrightarrow> m_curscope ctx = [] \<and> FindSymbol (m_symbols ctx) ''i'' = None \<and>
     map_of (m_consts ctx) ''i'' = None \<and> m_symdims ctx = [1]"

lemma run_word_leaf:
  assumes "before_count ctx"
  shows "run_rules needed_partials (var_tree l) (counted ctx k (m_symbols ctx)) =
    Ok (SNode (ASTVar ''i''), counted ctx (Suc k) (m_symbols ctx))"
  using assms FindSymbol_i_sym [of "m_symbols ctx" k] upd_i_sym [of "m_symbols ctx" k]
  by (simp add: var_tree_def wleaf_def run_defs GetConst_def FindScopedSymbol_eq count_ref_def before_count_def counted_def
      del: word_token.simps fst_tok_node)
    (simp add: i_sym_def)

lemma run_decl:
  assumes "before_count ctx"
  shows "run_rules needed_partials decl_tree ctx =
    Ok (SNode (ASTVarDecl [''i''] None False False), counted ctx 0 (m_symbols ctx))"
  using assms
  by (simp add: decl_tree_def wleaf_def run_defs add_variable_def AddScopedSymbol_def AddSymbol_def SetSymType_def
      CheckSymbolForConflicts_def Symbol0_def i_sym_def before_count_def counted_def
      del: word_token.simps fst_tok_node)

lemma run_test:
  assumes "before_count ctx"
  shows "run_rules needed_partials (test_tree n) (counted ctx k (m_symbols ctx)) =
    Ok (SNode (ASTComp (ASTVar ''i'') (ASTNumInt (word_of_int (int n))) CMP_LT), counted ctx (Suc k) (m_symbols ctx))"
  by (simp add: test_tree_def wleaf_def run_defs run_word_leaf [OF assms] del: word_token.simps fst_tok_node)

lemma run_body:
  assumes "before_count ctx"
  shows "run_rules needed_partials body_tree (counted ctx k (m_symbols ctx)) =
    Ok (SNode (ASTAssign [''i''] (Some (ASTPlus (ASTVar ''i'') (ASTNumInt 1) False))), counted ctx (Suc k) (m_symbols ctx))"
  by (simp add: body_tree_def wleaf_def run_defs run_word_leaf [OF assms] del: word_token.simps fst_tok_node)

lemma run_loop:
  assumes "before_count ctx"
  shows "run_rules needed_partials (loop_tree n) (counted ctx k (m_symbols ctx)) =
    Ok (SNode (ASTLoop (ASTComp (ASTVar ''i'') (ASTNumInt (word_of_int (int n))) CMP_LT)
        (ASTStmts [ASTAssign [''i''] (Some (ASTPlus (ASTVar ''i'') (ASTNumInt 1) False))])),
      counted ctx (Suc (Suc k)) (m_symbols ctx))"
  by (simp add: loop_tree_def wleaf_def run_defs run_test [OF assms] run_body [OF assms] del: word_token.simps fst_tok_node)

lemma count_run:
  assumes "before_count ctx"
  shows "run_rules needed_partials (count_tree n) ctx =
    Ok (SNode (ASTStmts (parsed_prog n)), counted ctx (Suc (Suc 0)) (m_symbols ctx)\<lparr>m_statements := Some (parsed_prog n)\<rparr>)"
  by (simp add: count_tree_def run_defs run_decl [OF assms] run_loop [OF assms] parsed_prog_def SetStatements_def)

end
