(* ===== verification/ParserProperties.thy ===== *)
theory ParserProperties
  imports Driver ParseDemo CompilerProperties
begin

text \<open>
  The properties of the lexer, the grammar with its semantic rules, and the compiler from text
  to running code, each with an instance where it has hypotheses. The instances are about the
  text \<open>count_words\<close>.
\<close>

section \<open>The counting program from its text\<close>

abbreviation "ext_syms \<equiv> reg_ext_funcs [] (ext_funcs False) []"

abbreviation "count_text n \<equiv> spaced (count_words n)"

definition count_parser :: "nat \<Rightarrow> t_toknode list \<Rightarrow> ptree option" where
  "count_parser n tokens =
     (if tokens = fringe (count_tree n) @ [tok_node (TK_HALT, None, 5)] then Some (count_tree n) else None)"

lemma count_lalr: "lalr_parser (count_parser n)"
  using count_derivation [of n] by (auto simp: lalr_parser_def count_parser_def tok_node_def)

lemma FindSymbol_ext:
  "FindSymbol tab x = None \<Longrightarrow> x \<notin> fst ` set fs \<Longrightarrow> FindSymbol (reg_ext_funcs [] fs tab) x = None"
  by (induction fs arbitrary: tab)
    (auto simp: AddExtFunc_def AddFunc_def Let_def FindSymbol_upd FindSymbol_insert split: option.split)

lemma funcs_ext:
  "\<forall>p \<in> set tab. sy_ty (snd p) = ST_FUNC \<Longrightarrow> \<forall>p \<in> set (reg_ext_funcs scope fs tab). sy_ty (snd p) = ST_FUNC"
proof (induction fs arbitrary: tab)
  case (Cons f fs)
  obtain name rty as where f: "f = (name, rty, as)" by (cases f)
  have "\<forall>p \<in> set (snd (AddExtFunc scope name name rty as None None tab)). sy_ty (snd p) = ST_FUNC"
    using Cons.prems by (auto simp: AddExtFunc_def AddFunc_def Let_def insert_sym_def upd_sym_def)
  then show ?case using Cons.IH f by simp
qed simp

lemma ext_start: "before_count (ParserContext0\<lparr>m_symbols := ext_syms\<rparr>)"
  using FindSymbol_ext [of "[]" "''i''" "ext_funcs False"]
  by (simp add: before_count_def ParserContext0_def FindSymbol_def ext_funcs_def)

lemma count_parsed:
  assumes "int n \<le> int_max"
  shows "parse_text e (count_parser n) needed_partials (count_text n) =
    Ok (parsed_prog n, insert_sym (i_sym 2) ext_syms)"
proof -
  have "count_parser n (fringe (count_tree n) @ [tok_node (TK_HALT, None, 5)]) = Some (count_tree n)"
    by (simp add: count_parser_def)
  then show ?thesis
    using count_lexed [OF assms, of e] count_run [OF ext_start, of n]
    by (simp add: parse_text_def start_ctx counted_def numeral_2_eq_2)
qed

text \<open>Its table has one variable, and the functions take no room in the frame.\<close>

definition one_var :: "symtab \<Rightarrow> symbol \<Rightarrow> symtab" where
  "one_var tab sy = tab @ [(''i'', sy)]"

lemma one_var_laws:
  assumes "FindSymbol tab ''i'' = None"
  shows "FindSymbol (one_var tab sy) ''i'' = Some sy" "upd_sym ''i'' f (one_var tab sy) = one_var tab (f sy)"
proof -
  show "FindSymbol (one_var tab sy) ''i'' = Some sy"
    using assms by (simp add: one_var_def FindSymbol_def map_add_def)
  have "\<forall>p \<in> set tab. (case p of (n, sy) \<Rightarrow> if n = ''i'' then (n, f sy) else (n, sy)) = p"
    using assms by (force simp: FindSymbol_None)
  then show "upd_sym ''i'' f (one_var tab sy) = one_var tab (f sy)"
    by (simp add: one_var_def upd_sym_def map_idI)
qed

lemma one_var_frame:
  assumes "\<forall>p \<in> set tab. sy_ty (snd p) = ST_FUNC"
  shows "frame_size (one_var tab (i_sym k)) = 9"
    "sum_sizes (filter P (map snd (one_var tab sy))) a = sum_sizes (if P sy then [sy] else []) a"
proof -
  have "frame_size tab = 0" using assms(1) by (induction tab) (auto simp: frame_size_def global_var_def)
  then show "frame_size (one_var tab (i_sym k)) = 9"
    by (simp add: frame_size_def one_var_def global_var_def sym_size_def GetSymSize_def i_sym_def Symbol0_def)
  have "sum_sizes (filter P (map snd tab) @ ys) a = sum_sizes ys a" for ys
    using assms(1) by (induction tab) auto
  then show "sum_sizes (filter P (map snd (one_var tab sy))) a = sum_sizes (if P sy then [sy] else []) a"
    by (simp add: one_var_def)
qed

lemmas no_table_defs = compile_program_def cg_Start_def cg_Finish_def emit_frame_def GetStackFrameSize_def
  FindSymbolsWithSameScope_def i_sym_def Symbol0_def Codegen0_def ConstTab0_def GetBytes_def
  GetSymSize_def to_size_def GetSym_def of_type_def m_int_const_def dummy_sym_def
  visit_Stmts_def visit_VarDecl_def declare_var_def check_decl_def place_var_def init_var_def AssignVar_def the_addr_def
  base_reg_def visit_Assign_def gen_opt_def assign_to_def CastTo_def cast_op_def visit_Loop_def enter_loop_def finish_loop_def
  comefroms_def drop_comefroms_def patch_all_def patch_def overwrite_def tellp_def emit_def skip_bytes_def emit_jump_def
  visit_Comp_def gen_binary_def gen_operands_def GetCastSymType_def visit_Plus_def PushVar_def visit_NumConst_def
  PushIntConst_def push_int_def push_addr_def patch_consts_def first_sym_def Let_def

lemma count_text_compiles:
  assumes "\<forall>p \<in> set tab. sy_ty (snd p) = ST_FUNC" "FindSymbol tab ''i'' = None"
  shows "\<exists>c sy. compile_program (one_var tab (i_sym 2)) (parsed_prog n) = Ok c \<and> length (cg_ostr c) = 101 \<and>
     FindSymbol (cg_syms c) ''i'' = Some sy \<and> sy_addr sy = Some (- 9)"
  unfolding parsed_prog_def
  by (simp add: no_table_defs one_var_frame(2) [OF assms(1)] one_var_laws [OF assms(2)])

text \<open>The variables of its table are those of the counting program.\<close>

lemma count_source_cfg:
  assumes "\<forall>p \<in> set tab. sy_ty (snd p) = ST_FUNC" "FindSymbol tab ''i'' = None"
  shows "source_cfg e (one_var tab (i_sym 2)) = count_cfg e"
proof -
  have i: "global_var (i_sym 2)" "GetSymSize (i_sym 2) = Ok 9" "sy_ty (i_sym 2) = ST_INT"
    by (simp_all add: global_var_def i_sym_def Symbol0_def GetSymSize_def)
  have "\<not> global_var sy" if "FindSymbol (one_var tab (i_sym 2)) x = Some sy" "x \<noteq> ''i''" for x sy
    using that assms(1) by (auto simp: one_var_def FindSymbol_def global_var_def dest!: map_of_SomeD split: if_split_asm)
  then have "cfg_vars (source_cfg e (one_var tab (i_sym 2))) = [''i'' \<mapsto> (ST_INT, 9)]"
    using one_var_laws(1) [OF assms(2)] i by (auto simp: source_cfg_def fun_eq_iff split: option.split)
  then show ?thesis by (simp add: source_cfg_def count_cfg_def)
qed

section \<open>From text to a halted machine\<close>

text \<open>
  C1. The compiler is correct from the text on: whatever derivation of the tokens the parser
  finds, if the program consists of declarations, assignments, conditionals and loops, and the
  reference semantics takes the empty store to \<open>\<rho>\<close>, then the code that \<open>mcc\<close> makes of the text,
  loaded into a machine with enough memory, halts with an empty stack and every variable in
  memory at its value in \<open>\<rho>\<close>. The variables and their sizes are those that the semantic rules
  have entered in the symbol table.
\<close>

theorem source_program_halts:
  assumes "lalr_parser parser" "needed_partials \<subseteq> pm"
    and "parse_text e parser pm text = Ok (prog, syms)" "mcc e parser pm False text = Ok c"
    and "stmt_frag (source_cfg e syms) (ASTStmts prog)" "sem (source_cfg e syms) Map.empty (ASTStmts prog) m \<rho>"
    and "7 \<le> sz" "int (length (cg_ostr c)) + int (max m 9) + frame_size syms + sz + 1 \<le> memsize" "memsize < 2 ^ 31"
  shows "\<exists>s0 n s'. SetMem 0 (cg_ostr c) True (new_vm sz memsize) = Ok s0 \<and> run e n s0 = Ok (Halted, s') \<and>
    vars_in_memory (cg_syms c) s' \<rho> \<and> m_sp s' = memsize - (sz + 1)"
  by (rule source_correct [OF assms]) blast

theorem source_program_halts_witness:
  "\<exists>c s0 n s'. mcc demo_env (count_parser 3) needed_partials False (count_text 3) = Ok c \<and>
    SetMem 0 (cg_ostr c) True (new_vm 55 4096) = Ok s0 \<and> run demo_env n s0 = Ok (Halted, s') \<and>
    vars_in_memory (cg_syms c) s' [''i'' \<mapsto> IntD 3] \<and> m_sp s' = 4040"
proof -
  have tab: "\<forall>p \<in> set ext_syms. sy_ty (snd p) = ST_FUNC" "FindSymbol ext_syms ''i'' = None"
    using funcs_ext [of "[]"] ext_start by (simp_all add: before_count_def)
  let ?syms = "one_var ext_syms (i_sym 2)"
  have syms: "insert_sym (i_sym 2) ext_syms = ?syms" by (simp add: insert_sym_def one_var_def i_sym_def)
  have p: "parse_text demo_env (count_parser 3) needed_partials (count_text 3) = Ok (parsed_prog 3, ?syms)"
    using count_parsed [of 3 demo_env] syms by (simp add: int_max_def)
  obtain c where c: "compile_program ?syms (parsed_prog 3) = Ok c" "length (cg_ostr c) = 101"
    using count_text_compiles [OF tab, of 3] by blast
  then have m: "mcc demo_env (count_parser 3) needed_partials False (count_text 3) = Ok c" by (simp add: mcc_def p)
  have K: "source_cfg demo_env ?syms = count_cfg demo_env" by (rule count_source_cfg [OF tab])
  have prog: "parsed_prog 3 = [ASTVarDecl [''i''] None False False, ASTLoop (count_test 3) (ASTStmts [count_body])]"
    by (simp add: parsed_prog_def count_test_def count_body_def)
  obtain k where k: "k \<le> 18" "sem (count_cfg demo_env) Map.empty (ASTStmts (parsed_prog 3)) k [''i'' \<mapsto> IntD 3]"
    using count_up_sem [OF _ count_block_up [OF count_body_up], of 3 demo_env] prog by auto
  have f: "stmt_frag (count_cfg demo_env) (ASTStmts (parsed_prog 3))"
    by (simp add: prog count_test_def count_body_def count_cfg_def)
  from source_program_halts [OF count_lalr subset_refl p m, of k "[''i'' \<mapsto> IntD 3]" 55 4096] show ?thesis
    using m K f k c(2) one_var_frame(1) [OF tab(1), of 2] by (auto simp: max_def)
qed

section \<open>Tokens\<close>

text \<open>
  C4. Spelling and lexing are inverse: a text of identifiers, keywords, decimal numbers, operators
  and string literals, each followed by a blank or a line end, has exactly their tokens, with
  their values and the lines they stand in.
\<close>

theorem lexer_roundtrip:
  assumes "\<forall>(w, s) \<in> set ws. proper w \<and> blank s"
  shows "GetAllTokens e line (spaced ws) = Ok (layout line ws)"
  by (rule lex_spaced [OF assms])

theorem lexer_roundtrip_witness:
  "GetAllTokens demo_env 1 ''i = 12 '' =
    Ok [(TK_IDENT, ASTStrConst ''i'', 1), (TK_CHAR CHR ''='', ASTNumInt (- 1), 1), (TK_INT, ASTNumInt 12, 1),
      (TK_HALT, ASTNumInt (- 1), 1)]"
proof -
  let ?ws = "[(WIdent ''i'', CHR '' ''), (WOp ''='', CHR '' ''), (WInt 12, CHR '' '')]"
  have w: "\<forall>(w, s) \<in> set ?ws. proper w \<and> blank s"
    by (simp add: blank_def match_ident_def is_letter_def keyword_tokens_def single_chars_def int_max_def)
  have n: "show_nat 12 = ''12''" by (simp add: show_nat.simps digit_def char_of_def bit_Suc_0_iff)
  show ?thesis
    using lexer_roundtrip [OF w, of demo_env 1]
    by (simp add: spaced_def n next_line_def tok_node_def operators_def)
qed

text \<open>
  C20. Lexing ends for every text, and when it does not throw, the list of tokens ends with the
  only \<open>HALT\<close>, and no text has more other tokens than characters.
\<close>

theorem tokens_end_with_halt:
  "(\<exists>x. GetAllTokens e line text = Throw x) \<or>
   (\<exists>ts h. GetAllTokens e line text = Ok (ts @ [h]) \<and> fst h = TK_HALT \<and> TK_HALT \<notin> fst ` set ts \<and>
      length ts \<le> length text)"
  using tokens_shape [of e line "text"] tokens_defined [of e line "text"]
  by (cases "GetAllTokens e line text") fastforce+

text \<open>
  C36. The operator \<open>xor\<close> cannot be written: its spelling matches an identifier first, so no text
  has the token of the operator, and no derivation of the tokens of a text uses its rule.
\<close>

theorem xor_never_lexed:
  assumes "GetAllTokens e line text = Ok tokens"
  shows "TK_XOR \<notin> fst ` set tokens \<and>
    (\<forall>t h. derivation t \<longrightarrow> tokens = fringe t @ [h] \<longrightarrow> 20 \<notin> used_rules t)"
  using tokens_no_xor [OF assms] xor_rule by fastforce

theorem xor_never_lexed_witness:
  "TK_XOR \<notin> fst ` set [tok_node (TK_IDENT, Some (LStr ''xor''), 1), tok_node (TK_HALT, None, 1)]"
proof -
  have "GetAllTokens demo_env 1 (spaced [(WIdent ''xor'', CHR '' '')]) =
      Ok [tok_node (TK_IDENT, Some (LStr ''xor''), 1), tok_node (TK_HALT, None, 1)]"
    by (subst lex_spaced) (simp_all add: blank_def match_ident_def is_letter_def is_alnum_def keyword_tokens_def next_line_def)
  from xor_never_lexed [OF this] show ?thesis by (rule conjunct1)
qed

text \<open>
  C38. A string literal without its closing quote is not an error: the rest of the text is
  dropped, and the tokens are those in front of it.
\<close>

theorem open_string_drops_rest:
  assumes "\<forall>(w, s) \<in> set ws. proper w \<and> blank s" "CHR 0x22 \<notin> set rest"
  shows "\<exists>last. GetAllTokens e line (spaced ws @ CHR 0x22 # rest) =
    Ok (butlast (layout line ws) @ [tok_node (TK_HALT, None, last)])"
proof -
  obtain l where "GetAllTokens e (last_line line ws) (CHR 0x22 # rest) = Ok [tok_node (TK_HALT, None, l)]"
    using open_string [OF assms(2)] by blast
  then show ?thesis using lex_prefix [OF assms(1), of e line "CHR 0x22 # rest"] by auto
qed

theorem open_string_drops_rest_witness:
  "\<exists>last. GetAllTokens demo_env 1 (''i = '' @ [CHR 0x22] @ ''abc'') =
    Ok ([tok_node (TK_IDENT, Some (LStr ''i''), 1), tok_node (TK_CHAR CHR ''='', None, 1)] @ [tok_node (TK_HALT, None, last)])"
  using open_string_drops_rest [of "[(WIdent ''i'', CHR '' ''), (WOp ''='', CHR '' '')]" "''abc''" demo_env 1]
  by (simp add: blank_def match_ident_def is_letter_def keyword_tokens_def single_chars_def spaced_def next_line_def operators_def)

text \<open>
  C39. A comparison \<open>.eq.\<close> right behind a number is not recognised: the point and the first letter
  are taken for the fraction and the exponent of a real, and the next token starts with \<open>q\<close>.
\<close>

theorem eq_after_number_lost:
  assumes "all_digits ds"
  shows "GetNextToken e line (ds @ ''.eq.'' @ rest) =
    Ok ((TK_REAL, Some (LReal (fst (e_parse_real e (ds @ ''.e'')))), line), ''q.'' @ rest, line)"
  by (rule eq_after_number [OF assms])

theorem eq_after_number_lost_witness:
  "GetNextToken demo_env 1 ''1.eq.2'' = Ok ((TK_REAL, Some (LReal 0), 1), ''q.2'', 1)"
  using eq_after_number_lost [of "''1''" demo_env 1 "''2''"] by (simp add: all_digits_def is_digit_def demo_env_def)

section \<open>Semantic rules\<close>

text \<open>
  C5. Parsing leaves the scopes as it found them and the symbol table a table: whatever the
  derivation, if its semantic rules run through, every function has left its scope, each symbol
  is stored once under its scoped name, and no symbol has an address yet.
\<close>

theorem parser_keeps_scopes:
  assumes "derivation t" "needed_partials \<subseteq> pm" "run_rules pm t ctx = Ok (v, ctx')" "parse_tab (m_symbols ctx)"
  shows "m_curscope ctx' = m_curscope ctx \<and> symtab_wf (m_symbols ctx') \<and>
    (\<forall>n sy. FindSymbol (m_symbols ctx') n = Some sy \<longrightarrow> sy_addr sy = None)"
  using parse_good [OF assms] by (auto simp: parse_tab_def FindSymbol_def dest!: map_of_SomeD)

theorem parser_keeps_scopes_witness:
  "\<exists>v ctx'. run_rules needed_partials (count_tree 3) (ParserContext0\<lparr>m_symbols := ext_syms\<rparr>) = Ok (v, ctx') \<and>
    m_curscope ctx' = [] \<and> symtab_wf (m_symbols ctx')"
proof -
  have "parse_tab []" by (simp add: parse_tab_def symtab_wf_def)
  then have t: "parse_tab (m_symbols (ParserContext0\<lparr>m_symbols := ext_syms\<rparr>))" by (simp add: parse_tab_ext)
  from parser_keeps_scopes [OF count_derivation(1) subset_refl count_run [OF ext_start] t, of 3]
  show ?thesis using count_run [OF ext_start, of 3] by (simp add: ParserContext0_def)
qed

text \<open>
  C19. Only some beginnings of right-hand sides matter: the keyword of a scalar declaration, the
  closed dimensions of an array, the name and the argument lists of a function. Calls of the
  rules for any other beginnings, which depend on the parse tables, change nothing.
\<close>

theorem extra_calls_harmless:
  assumes "derivation t"
  shows "run_rules pm t ctx = run_rules (pm \<inter> needed_partials) t ctx"
  by (rule run_rules_partial(1) [OF assms])

theorem extra_calls_harmless_witness:
  "\<exists>ctx'. run_rules UNIV (count_tree 3) (ParserContext0\<lparr>m_symbols := ext_syms\<rparr>) = Ok (SNode (ASTStmts (parsed_prog 3)), ctx')"
  using extra_calls_harmless [OF count_derivation(1), of UNIV 3] count_run [OF ext_start, of 3] by simp

text \<open>
  C37. Arrays of complex numbers and of quaternions cannot be declared: the rule expects a list of
  dimensions where the grammar has a single integer, and follows a null pointer, whatever the
  other symbols are.
\<close>

theorem complex_array_undefined:
  assumes "i \<in> {39, 40}" "derivation (Node i ts)" "ts ! 4 = Leaf (TK_INT, ASTNumInt n, line)" "needed_partials \<subseteq> pm"
  shows "run_rules pm (Node i ts) ctx = Undefined UB_Null"
proof -
  have "i < length CreateGrammar" using assms(1) by (auto simp: productions(1))
  then show ?thesis using assms one_dimension decl_productions by blast
qed

theorem complex_array_undefined_witness:
  "run_rules needed_partials (Node 39 [wleaf (WKey ''complex'') 1, wleaf (WOp '','') 1, wleaf (WKey ''dimension'') 1,
     wleaf (WOp ''('') 1, wleaf (WInt 3) 1, wleaf (WOp '')'') 1, Node 84 [], wleaf (WOp ''::'') 1,
     Node 28 [wleaf (WIdent ''z'') 1]]) ParserContext0 = Undefined UB_Null"
proof (rule complex_array_undefined [where n = 3])
  show "derivation (Node 39 [wleaf (WKey ''complex'') 1, wleaf (WOp '','') 1, wleaf (WKey ''dimension'') 1,
     wleaf (WOp ''('') 1, wleaf (WInt 3) 1, wleaf (WOp '')'') 1, Node 84 [], wleaf (WOp ''::'') 1,
     Node 28 [wleaf (WIdent ''z'') 1]])"
    by (simp add: wleaf_def productions decl_productions dim_decl_def keyword_tokens_def operators_def)
qed (simp_all add: wleaf_def tok_node_def)

text \<open>
  Two arguments of one name are not reported: the second one has no symbol, because its
  function is registered only after its arguments, and marking it follows a null pointer.
\<close>

theorem duplicate_argument_undefined:
  assumes "m_curscope ctx = scope @ [f]" "FindGlobalSymbol (prefix_of scope @ f) ctx = None"
    and "FindScopedSymbol name ctx = Ok None" "m_symtype ctx \<noteq> ST_FUNC" "fst a = name" "fst b = name"
  shows "register_args (a # b # as) i ctx = Undefined UB_Null"
  by (rule duplicate_arg [OF assms])

theorem duplicate_argument_undefined_witness:
  "register_args [add_arg ''x'', add_arg ''x''] 0 (EnterScope ''f'' ParserContext0) = Undefined UB_Null"
  by (rule duplicate_argument_undefined [where scope = "[]" and f = "''f''" and name = "''x''"])
    (simp_all add: EnterScope_def ParserContext0_def FindGlobalSymbol_def FindScopedSymbol_eq FindSymbol_def add_arg_def)

text \<open>
  C17. A parsed procedure has its signature: when every argument has been declared in the body, the
  node of the procedure and its symbol have the types of the arguments, in their order, and the
  scope of the procedure is left.
\<close>

theorem procedure_signature:
  assumes "rule_procedure True args ctx = Ok (v, ctx')" "length args = 9"
    and "args ! 2 = SNode (ASTStrConst f)" "args ! 4 = SNode (ASTInternalArgNames as)"
    and "arg_symbols ctx 0 as sys" "m_curscope ctx = scope @ [f]"
  shows "\<exists>body func. v = SNode (ASTFunc f (map2 typed_arg as sys) body []) \<and>
    FindGlobalSymbol (prefix_of scope @ f) ctx' = Some func \<and> argty func = map sy_ty sys \<and> m_curscope ctx' = scope"
  by (rule procedure_signature_lemma [OF assms])

definition proc_ctx :: parser_ctx where
  "proc_ctx = ParserContext0\<lparr>m_curscope := [''p''], m_symbols :=
     [(''p::x'', Symbol0\<lparr>sy_name := ''x'', scoped_name := ''p::x'', scope_name := ''p::'', sy_ty := ST_INT, is_arg := True\<rparr>),
      (''p'', Symbol0\<lparr>sy_name := ''p'', scoped_name := ''p'', sy_ty := ST_FUNC, argty := [ST_UNKNOWN]\<rparr>)]\<rparr>"

definition proc_args :: "sval list" where
  "proc_args = [SNode (ASTInternalMisc False False False), SNode (ASTStrConst ''procedure''), SNode (ASTStrConst ''p''),
     SNode (ASTNumInt (- 1)), SNode (ASTInternalArgNames [add_arg ''x'']), SNode (ASTNumInt (- 1)), SNode (ASTStmts []),
     SNode (ASTStrConst ''end''), SNode (ASTStrConst ''procedure'')]"

theorem procedure_signature_witness:
  "\<exists>v ctx' func. rule_procedure True proc_args proc_ctx = Ok (v, ctx') \<and>
    FindGlobalSymbol ''p'' ctx' = Some func \<and> argty func = [ST_INT] \<and> m_curscope ctx' = []"
proof -
  let ?x = "Symbol0\<lparr>sy_name := ''x'', scoped_name := ''p::x'', scope_name := ''p::'', sy_ty := ST_INT, is_arg := True\<rparr>"
  have r: "\<exists>v ctx'. rule_procedure True proc_args proc_ctx = Ok (v, ctx')"
    by (simp add: rule_procedure_def procedure_partial_def proc_args_def proc_ctx_def cast_arg_def arg_def GetScopeName_def
        update_func_arg_types_def FindGlobalSymbol_def FindSymbol_def FindScopedSymbol_eq ParserContext0_def Symbol0_def
        get_scopenameseparator_def LeaveScope_def add_arg_def Let_def)
  then obtain v ctx' where v: "rule_procedure True proc_args proc_ctx = Ok (v, ctx')" by blast
  have s: "arg_symbols proc_ctx 0 [add_arg ''x''] [?x]"
    by (simp add: arg_symbols_def proc_ctx_def FindScopedSymbol_eq FindSymbol_def get_scopenameseparator_def add_arg_def Symbol0_def)
  from procedure_signature [OF v _ _ _ s, of "''p''" "[]"] v show ?thesis
    by (auto simp: proc_args_def proc_ctx_def Symbol0_def)
qed

end
