(* ===== verification/Printer.thy ===== *)
theory Printer
  imports Ast VmOps
begin

text \<open>
  The syntax tree printer (ast/print.cpp). A visitor writes to an output stream, whose state is
  the text it has got and the flag \<open>boolalpha\<close>, which stays set after the first truth value. How
  the stream writes real, complex and quaternion numbers belongs to libraries and is the
  parameter \<open>fmt\<close>. A null pointer that a visitor dereferences is undefined behaviour.
\<close>

record out_state =
  m_ostr :: string
  boolalpha :: bool

record print_fmt =
  fmt_real :: "t_real \<Rightarrow> string"
  fmt_cplx :: "t_cplx \<Rightarrow> string"
  fmt_quat :: "t_quat \<Rightarrow> string"

type_synonym printer = "out_state \<Rightarrow> out_state result"

section \<open>Writing to the stream\<close>

definition writes :: "string \<Rightarrow> printer" where
  "writes s st = Ok (st\<lparr>m_ostr := m_ostr st @ s\<rparr>)"

definition write_line :: "string \<Rightarrow> printer" where
  "write_line s = writes (s @ [CHR 0x0A])"

primrec prints :: "printer list \<Rightarrow> printer" where
  "prints [] st = Ok st"
| "prints (p # ps) st = rbind (p st) (prints ps)"

definition null_printer :: printer where
  "null_printer st = Undefined UB_Null"

text \<open>An attribute, an opening and a closing tag, an element around the output of a child.\<close>

definition quoted :: "string \<Rightarrow> string" where
  "quoted s = [CHR 0x22] @ s @ [CHR 0x22]"

definition attr :: "string \<Rightarrow> string \<Rightarrow> string" where
  "attr key val = '' '' @ key @ ''='' @ quoted val"

definition open_tag :: "string \<Rightarrow> string \<Rightarrow> printer" where
  "open_tag name attrs = write_line (''<'' @ name @ attrs @ ''>'')"

definition close_tag :: "string \<Rightarrow> printer" where
  "close_tag name = write_line (''</'' @ name @ ''>'')"

definition empty_tag :: "string \<Rightarrow> string \<Rightarrow> printer" where
  "empty_tag name attrs = write_line (''<'' @ name @ attrs @ '' />'')"

definition element :: "string \<Rightarrow> string \<Rightarrow> printer list \<Rightarrow> printer" where
  "element name attrs ps = prints [open_tag name attrs, prints ps, close_tag name]"

text \<open>The children of a list, each in an element with its index; an optional child.\<close>

fun indexed :: "string \<Rightarrow> nat \<Rightarrow> printer list \<Rightarrow> printer" where
  "indexed pre i [] = prints []"
| "indexed pre i (p # ps) = prints [element (pre @ show_nat i) [] [p], indexed pre (Suc i) ps]"

definition optional :: "string \<Rightarrow> printer option \<Rightarrow> printer" where
  "optional name p = (case p of None \<Rightarrow> prints [] | Some p \<Rightarrow> element name [] [p])"

definition show_flag :: "out_state \<Rightarrow> bool \<Rightarrow> string" where
  "show_flag st b = (if boolalpha st then if b then ''true'' else ''false'' else if b then ''1'' else ''0'')"

section \<open>Operators\<close>

definition print_UMinus :: "printer \<Rightarrow> printer" where
  "print_UMinus p = element ''UMinus'' [] [p]"

text \<open>The flags for the inverse operations are not printed.\<close>

definition print_Plus :: "printer \<Rightarrow> printer \<Rightarrow> bool \<Rightarrow> printer" where
  "print_Plus p1 p2 inverted = element ''Plus'' [] [p1, p2]"

definition print_Mult :: "printer \<Rightarrow> printer \<Rightarrow> bool \<Rightarrow> printer" where
  "print_Mult p1 p2 inverted = element ''Mult'' [] [p1, p2]"

definition print_Mod :: "printer \<Rightarrow> printer \<Rightarrow> printer" where
  "print_Mod p1 p2 = element ''Mod'' [] [p1, p2]"

definition print_Pow :: "printer \<Rightarrow> printer \<Rightarrow> printer" where
  "print_Pow p1 p2 = element ''Pow'' [] [p1, p2]"

definition print_Norm :: "printer \<Rightarrow> printer" where
  "print_Norm p = element ''Norm'' [] [p]"

fun comp_name :: "CompOp \<Rightarrow> string" where
  "comp_name CMP_EQU = ''equ''"
| "comp_name CMP_NEQ = ''neq''"
| "comp_name CMP_GT = ''gt''"
| "comp_name CMP_LT = ''lt''"
| "comp_name CMP_GEQ = ''geq''"
| "comp_name CMP_LEQ = ''leq''"

definition print_Comp :: "CompOp \<Rightarrow> printer \<Rightarrow> printer \<Rightarrow> printer" where
  "print_Comp op p1 p2 = element ''Comp'' (attr ''op'' (comp_name op)) [p1, p2]"

fun bool_name :: "BoolOp \<Rightarrow> string" where
  "bool_name BOOL_NOT = ''not''"
| "bool_name BOOL_AND = ''and''"
| "bool_name BOOL_OR = ''or''"
| "bool_name BOOL_XOR = ''xor''"

definition print_Bool :: "BoolOp \<Rightarrow> printer \<Rightarrow> printer option \<Rightarrow> printer" where
  "print_Bool op p1 p2 =
     element ''Bool'' (attr ''op'' (bool_name op)) [p1, case p2 of None \<Rightarrow> prints [] | Some p \<Rightarrow> p]"

section \<open>Variables and constants\<close>

definition print_Var :: "t_str \<Rightarrow> printer" where
  "print_Var ident = empty_tag ''Var'' (attr ''ident'' ident)"

fun var_tags :: "nat \<Rightarrow> t_str list \<Rightarrow> printer" where
  "var_tags i [] = prints []"
| "var_tags i (var # vars) =
     prints [empty_tag (''var_'' @ show_nat i) (attr ''ident'' var), var_tags (Suc i) vars]"

definition print_VarDecl :: "t_str list \<Rightarrow> printer option \<Rightarrow> printer" where
  "print_VarDecl vars passign =
     element ''VarDecl'' [] [var_tags 0 vars, case passign of None \<Rightarrow> prints [] | Some p \<Rightarrow> p]"

fun ident_tags :: "nat \<Rightarrow> t_str list \<Rightarrow> printer" where
  "ident_tags i [] = prints []"
| "ident_tags i (ident # idents) =
     prints [write_line (''<ident_'' @ show_nat i @ ''>'' @ ident @ ''</ident_'' @ show_nat i @ ''>''),
       ident_tags (Suc i) idents]"

text \<open>An assignment to nothing is not printed, and its expression may be null.\<close>

definition print_Assign :: "t_str list \<Rightarrow> printer option \<Rightarrow> printer" where
  "print_Assign idents pexpr =
     (let p = (case pexpr of None \<Rightarrow> null_printer | Some p \<Rightarrow> p) in
      case idents of
        [] \<Rightarrow> prints []
      | [ident] \<Rightarrow> element ''Assign'' (attr ''ident'' ident) [p]
      | _ \<Rightarrow> element ''MultiAssign'' [] [ident_tags 0 idents, element ''rhs'' [] [p]])"

definition print_VarRange :: "t_str \<Rightarrow> printer option \<Rightarrow> printer option \<Rightarrow> printer option \<Rightarrow> printer" where
  "print_VarRange ident pbegin pend pinc =
     element ''VarRange'' (attr ''ident'' ident)
       [optional ''begin'' pbegin, optional ''end'' pend, optional ''inc'' pinc]"

definition print_StrConst :: "t_str \<Rightarrow> printer" where
  "print_StrConst val = empty_tag ''Const'' (attr ''type'' ''str'' @ attr ''val'' val)"

definition print_NumReal :: "print_fmt \<Rightarrow> t_real \<Rightarrow> printer" where
  "print_NumReal fmt val = empty_tag ''Const'' (attr ''type'' ''scalar'' @ attr ''val'' (fmt_real fmt val))"

definition print_NumInt :: "t_int \<Rightarrow> printer" where
  "print_NumInt val = empty_tag ''Const'' (attr ''type'' ''integer'' @ attr ''val'' (show_int val))"

definition print_NumConstList :: "t_int list \<Rightarrow> printer" where
  "print_NumConstList vals =
     empty_tag ''Const'' (attr ''type'' ''integers'' @ attr ''val'' (concat (map (\<lambda>val. show_int val @ '', '') vals)))"

definition print_NumCplx :: "print_fmt \<Rightarrow> t_cplx \<Rightarrow> printer" where
  "print_NumCplx fmt val = empty_tag ''Const'' (attr ''type'' ''complex'' @ attr ''val'' (fmt_cplx fmt val))"

definition print_NumQuat :: "print_fmt \<Rightarrow> t_quat \<Rightarrow> printer" where
  "print_NumQuat fmt val = empty_tag ''Const'' (attr ''type'' ''quaternion'' @ attr ''val'' (fmt_quat fmt val))"

text \<open>The manipulator \<open>std::boolalpha\<close> changes the stream for good.\<close>

definition print_NumBool :: "bool \<Rightarrow> printer" where
  "print_NumBool val st =
     (let st = st\<lparr>boolalpha := True\<rparr> in
      empty_tag ''Const'' (attr ''type'' ''bool'' @ attr ''val'' (show_flag st val)) st)"

definition print_ExprList :: "printer list \<Rightarrow> printer" where
  "print_ExprList ps = element ''ExprList'' [] [indexed ''expr_'' 0 ps]"

section \<open>Arrays\<close>

definition print_ArrayAccess :: "printer \<Rightarrow> printer option \<Rightarrow> printer option \<Rightarrow> bool \<Rightarrow> printer" where
  "print_ArrayAccess pterm pnum1 pnum2 ranged12 st =
     element ''ArrayAccess'' (attr ''is_range_12'' (show_flag st ranged12))
       [element ''idx1'' [] [case pnum1 of None \<Rightarrow> null_printer | Some p \<Rightarrow> p],
        optional ''idx2'' pnum2, element ''term'' [] [pterm]] st"

definition print_ArrayAssign :: "t_str \<Rightarrow> printer \<Rightarrow> printer option \<Rightarrow> printer option \<Rightarrow> bool \<Rightarrow> printer" where
  "print_ArrayAssign ident pexpr pnum1 pnum2 ranged12 st =
     element ''ArrayAssign'' (attr ''ident'' ident @ attr ''is_range_12'' (show_flag st ranged12))
       [element ''idx1'' [] [case pnum1 of None \<Rightarrow> null_printer | Some p \<Rightarrow> p],
        optional ''idx2'' pnum2, element ''expr'' [] [pexpr]] st"

section \<open>Functions\<close>

definition print_Call :: "t_str \<Rightarrow> printer list \<Rightarrow> printer" where
  "print_Call ident ps = element ''Call'' (attr ''ident'' ident) [indexed ''arg_'' 0 ps]"

text \<open>
  The quotes of the type and of the dimensions: each dimension closes the attribute in front of
  it and its own, and nothing closes the type when there is none.
\<close>

fun dim_attrs :: "nat \<Rightarrow> nat list \<Rightarrow> string" where
  "dim_attrs i [] = []"
| "dim_attrs i (d # ds) =
     [CHR 0x22] @ '' dim'' @ show_nat i @ ''='' @ quoted (show_nat d) @ dim_attrs (Suc i) ds"

definition arg_attrs :: "argname \<Rightarrow> string" where
  "arg_attrs a = (case a of (name, ty, dims) \<Rightarrow>
     attr ''name'' name @ '' type='' @ [CHR 0x22] @ get_type_name ty @ dim_attrs 0 dims)"

fun arg_tags :: "string \<Rightarrow> nat \<Rightarrow> argname list \<Rightarrow> printer" where
  "arg_tags pre i [] = prints []"
| "arg_tags pre i (a # as) = prints [empty_tag (pre @ show_nat i) (arg_attrs a), arg_tags pre (Suc i) as]"

definition print_Stmts :: "printer list \<Rightarrow> printer" where
  "print_Stmts ps = element ''Stmts'' [] [indexed ''stmt_'' 0 ps]"

definition print_Func :: "t_str \<Rightarrow> argname list \<Rightarrow> argname list \<Rightarrow> printer list \<Rightarrow> printer" where
  "print_Func ident args rets ps =
     element ''Func'' (attr ''ident'' ident) [arg_tags ''arg_'' 0 args, arg_tags ''ret_'' 0 rets, print_Stmts ps]"

definition print_Return :: "printer list option \<Rightarrow> bool \<Rightarrow> printer" where
  "print_Return prets only_jump_to_func_end =
     (if only_jump_to_func_end then empty_tag ''Return'' []
      else case prets of
        None \<Rightarrow> null_printer
      | Some ps \<Rightarrow>
          if length ps = 0 then empty_tag ''Return'' []
          else if length ps = 1 then element ''Return'' [] [hd ps]
          else element ''MultiReturn'' [] [indexed ''val_'' 0 ps])"

section \<open>Conditions, loops and jumps\<close>

definition print_Cond :: "printer \<Rightarrow> printer \<Rightarrow> printer option \<Rightarrow> printer" where
  "print_Cond pcond pif pelse =
     element ''Cond'' [] [element ''cond'' [] [pcond], element ''if'' [] [pif], optional ''else'' pelse]"

definition print_Cases :: "printer \<Rightarrow> (printer \<times> printer) list \<Rightarrow> printer option \<Rightarrow> printer" where
  "print_Cases pexpr pcases pdefault =
     element ''Cases'' []
       [element ''expr'' [] [pexpr],
        prints (map (\<lambda>(pcond, pstmts). element ''case'' [] [element ''cond'' [] [pcond], element ''stmts'' [] [pstmts]])
          pcases),
        optional ''default'' pdefault]"

definition print_Loop :: "printer \<Rightarrow> printer \<Rightarrow> printer" where
  "print_Loop pcond pstmt = element ''Loop'' [] [element ''cond'' [] [pcond], element ''stmt'' [] [pstmt]]"

definition print_RangedLoop :: "printer \<Rightarrow> printer \<Rightarrow> printer" where
  "print_RangedLoop prange pstmt =
     element ''RangedLoop'' [] [element ''range'' [] [prange], element ''stmt'' [] [pstmt]]"

definition print_LoopBreak :: "t_int \<Rightarrow> printer" where
  "print_LoopBreak num = empty_tag ''Break'' (attr ''num'' (show_int num))"

definition print_LoopNext :: "t_int \<Rightarrow> printer" where
  "print_LoopNext num = empty_tag ''Next'' (attr ''num'' (show_int num))"

definition print_Label :: "t_str \<Rightarrow> printer" where
  "print_Label ident = empty_tag ''Label'' (attr ''ident'' ident)"

definition print_Jump :: "t_str \<Rightarrow> bool \<Rightarrow> printer" where
  "print_Jump label comefrom = empty_tag (if comefrom then ''Comefrom'' else ''Jump'') (attr ''label'' label)"

section \<open>The tree\<close>

text \<open>The dispatch of the visitor on the class of a node; the two internal nodes print nothing.\<close>

function (sequential) print_ast :: "print_fmt \<Rightarrow> ast \<Rightarrow> printer" where
  "print_ast f (ASTUMinus t) = print_UMinus (print_ast f t)"
| "print_ast f (ASTPlus t1 t2 inverted) = print_Plus (print_ast f t1) (print_ast f t2) inverted"
| "print_ast f (ASTMult t1 t2 inverted) = print_Mult (print_ast f t1) (print_ast f t2) inverted"
| "print_ast f (ASTMod t1 t2) = print_Mod (print_ast f t1) (print_ast f t2)"
| "print_ast f (ASTPow t1 t2) = print_Pow (print_ast f t1) (print_ast f t2)"
| "print_ast f (ASTNorm t) = print_Norm (print_ast f t)"
| "print_ast f (ASTVar ident) = print_Var ident"
| "print_ast f (ASTLabel ident) = print_Label ident"
| "print_ast f (ASTJump label comefrom) = print_Jump label comefrom"
| "print_ast f (ASTStmts stmts) = print_Stmts (map (print_ast f) stmts)"
| "print_ast f (ASTVarDecl vars a _ _) = print_VarDecl vars (map_option (print_ast f) a)"
| "print_ast f (ASTFunc ident args stmts rets) = print_Func ident args rets (map (print_ast f) stmts)"
| "print_ast f (ASTReturn rets only_jump) = print_Return (map_option (map (print_ast f)) rets) only_jump"
| "print_ast f (ASTExprList exprs _) = print_ExprList (map (print_ast f) exprs)"
| "print_ast f (ASTCall ident args) = print_Call ident (map (print_ast f) args)"
| "print_ast f (ASTAssign idents expr) = print_Assign idents (map_option (print_ast f) expr)"
| "print_ast f (ASTVarRange ident b e inc) =
     print_VarRange ident (map_option (print_ast f) (opt_node b)) (map_option (print_ast f) (opt_node e))
       (map_option (print_ast f) inc)"
| "print_ast f (ASTComp t1 t2 op) = print_Comp op (print_ast f t1) (print_ast f t2)"
| "print_ast f (ASTBool t1 t2 op) = print_Bool op (print_ast f t1) (map_option (print_ast f) t2)"
| "print_ast f (ASTCond cond s1 s2) = print_Cond (print_ast f cond) (print_ast f s1) (map_option (print_ast f) s2)"
| "print_ast f (ASTCases expr cases d) =
     print_Cases (print_ast f expr) (map (\<lambda>(c, s). (print_ast f c, print_ast f s)) cases) (map_option (print_ast f) d)"
| "print_ast f (ASTLoop cond stmt) = print_Loop (print_ast f cond) (print_ast f stmt)"
| "print_ast f (ASTRangedLoop ident b e inc stmt) =
     print_RangedLoop
       (print_VarRange ident (map_option (print_ast f) (opt_node b)) (map_option (print_ast f) (opt_node e))
         (map_option (print_ast f) inc))
       (print_ast f stmt)"
| "print_ast f (ASTLoopBreak num) = print_LoopBreak num"
| "print_ast f (ASTLoopNext num) = print_LoopNext num"
| "print_ast f (ASTArrayAccess t n1 n2 ranged12) =
     print_ArrayAccess (print_ast f t) (map_option (print_ast f) n1) (map_option (print_ast f) n2) ranged12"
| "print_ast f (ASTArrayAssign ident x n1 n2 ranged12) =
     print_ArrayAssign ident (print_ast f x) (map_option (print_ast f) n1) (map_option (print_ast f) n2) ranged12"
| "print_ast f (ASTNumReal val) = print_NumReal f val"
| "print_ast f (ASTNumInt val) = print_NumInt val"
| "print_ast f (ASTNumCplx val) = print_NumCplx f val"
| "print_ast f (ASTNumQuat val) = print_NumQuat f val"
| "print_ast f (ASTNumBool val) = print_NumBool val"
| "print_ast f (ASTNumConstList vals) = print_NumConstList vals"
| "print_ast f (ASTStrConst val) = print_StrConst val"
| "print_ast f ASTNull = null_printer"
| "print_ast f _ = prints []"
  by pat_completeness auto

termination
  by (relation "measure (\<lambda>(f, a). size a)") (force dest: size_mem size_case opt_node_Some)+

text \<open>The file written with the option that asks for the tree (codegen/main.cpp).\<close>

definition write_ast :: "print_fmt \<Rightarrow> ast list \<Rightarrow> string result" where
  "write_ast f stmts =
     rbind (element ''ast'' [] (map (\<lambda>stmt. prints [print_ast f stmt, write_line []]) stmts)
       \<lparr>m_ostr = [], boolalpha = False\<rparr>) (\<lambda>st. Ok (m_ostr st))"

end
