(* ===== verification/PrintFacts.thy ===== *)
theory PrintFacts
  imports Printer VmOpsFacts
begin

text \<open>
  What can be said of the printed tree. A printer that only adds text of some kind to the stream,
  and never fails, \<open>prints_to\<close> that kind; the locale \<open>output_kind\<close> asks of a kind of text that it is
  closed under what the visitors write, and shows that they print to it. It is interpreted for
  any text, which says that the printer does not fail, and for well-formed text: a sequence of
  elements whose tags are balanced and whose attributes are quoted.
\<close>

section \<open>Names and texts\<close>

definition name_char :: "char \<Rightarrow> bool" where
  "name_char c \<longleftrightarrow> is_digit c \<or> c = CHR ''_'' \<or> c \<in> set ''abcdefghijklmnopqrstuvwxyzABCDEFGHIJKLMNOPQRSTUVWXYZ''"

definition xml_name :: "string \<Rightarrow> bool" where
  "xml_name s \<longleftrightarrow> s \<noteq> [] \<and> list_all name_char s"

definition own_char :: "char \<Rightarrow> bool" where
  "own_char c \<longleftrightarrow> name_char c \<or> c \<in> set ''-, ''"

text \<open>The names and the values that the visitors write themselves.\<close>

lemma tag_names [simp]:
    "xml_name ''UMinus''" "xml_name ''Plus''" "xml_name ''Mult''" "xml_name ''Mod''" "xml_name ''Pow''"
    "xml_name ''Norm''" "xml_name ''Comp''" "xml_name ''Bool''" "xml_name ''Var''" "xml_name ''VarDecl''"
    "xml_name ''Assign''" "xml_name ''MultiAssign''" "xml_name ''rhs''" "xml_name ''VarRange''"
    "xml_name ''begin''" "xml_name ''end''" "xml_name ''inc''" "xml_name ''Const''" "xml_name ''ExprList''"
    "xml_name ''ArrayAccess''" "xml_name ''ArrayAssign''" "xml_name ''idx1''" "xml_name ''idx2''"
    "xml_name ''term''" "xml_name ''expr''" "xml_name ''Call''" "xml_name ''Func''" "xml_name ''Stmts''"
    "xml_name ''Return''" "xml_name ''MultiReturn''" "xml_name ''Cond''" "xml_name ''cond''" "xml_name ''if''"
    "xml_name ''else''" "xml_name ''Cases''" "xml_name ''case''" "xml_name ''stmts''" "xml_name ''default''"
    "xml_name ''Loop''" "xml_name ''stmt''" "xml_name ''RangedLoop''" "xml_name ''range''"
    "xml_name ''Break''" "xml_name ''Next''" "xml_name ''Label''" "xml_name ''Comefrom''" "xml_name ''Jump''"
    "xml_name ''ast''" "xml_name ''expr_''" "xml_name ''var_''" "xml_name ''ident_''" "xml_name ''arg_''"
    "xml_name ''ret_''" "xml_name ''stmt_''" "xml_name ''val_''" "xml_name ''op''" "xml_name ''ident''"
    "xml_name ''type''" "xml_name ''val''" "xml_name ''num''" "xml_name ''label''" "xml_name ''name''"
    "xml_name ''dim0''" "xml_name ''is_range_12''"
  by (simp_all add: xml_name_def name_char_def is_digit_def)

lemma name_nat: "list_all name_char (show_nat i)"
  using show_nat_digits [of _ i] by (auto simp: list_all_iff name_char_def)

lemma xml_name_nat [simp]: "xml_name pre \<Longrightarrow> xml_name (pre @ show_nat i)"
  by (simp add: xml_name_def name_nat)

definition own :: "string \<Rightarrow> bool" where
  "own s \<longleftrightarrow> list_all own_char s"

lemma own_append [simp]: "own (s @ t) \<longleftrightarrow> own s \<and> own t"
  by (simp add: own_def)

lemma own_nat [simp]: "own (show_nat i)"
  using name_nat [of i] by (auto simp: own_def list_all_iff own_char_def)

lemmas own_char_defs = own_def own_char_def name_char_def is_digit_def

lemma own_int [simp]: "own (show_int i)"
  using own_nat by (simp add: show_int_def own_def own_char_def)

lemma own_ints [simp]: "own (concat (map (\<lambda>val. show_int val @ '', '') vals))"
  using own_int by (induction vals) (simp_all add: own_def own_char_def)

lemma own_flag [simp]: "own (show_flag st b)"
  by (simp add: show_flag_def own_char_defs)

lemma own_type [simp]: "own (get_type_name ty)"
  by (cases ty) (simp_all add: own_char_defs)

lemma own_comp [simp]: "own (comp_name op)"
  by (cases op) (simp_all add: own_char_defs)

lemma own_bool [simp]: "own (bool_name op)"
  by (cases op) (simp_all add: own_char_defs)

lemma own_values [simp]:
    "own ''str''" "own ''scalar''" "own ''integer''" "own ''integers''" "own ''complex''" "own ''quaternion''"
    "own ''bool''"
  by (simp_all add: own_char_defs)

section \<open>Trees that can be printed\<close>

text \<open>
  No pointer that is followed is null, the texts are of the kind \<open>str_ok\<close>, and the dimensions of
  arguments satisfy \<open>dim\<close>.
\<close>

definition args_ok :: "(string \<Rightarrow> bool) \<Rightarrow> (nat list \<Rightarrow> bool) \<Rightarrow> argname list \<Rightarrow> bool" where
  "args_ok str_ok dim = list_all (\<lambda>(name, ty, dims). str_ok name \<and> dim dims)"

function (sequential) printable :: "(string \<Rightarrow> bool) \<Rightarrow> (nat list \<Rightarrow> bool) \<Rightarrow> ast \<Rightarrow> bool" where
  "printable str_ok dim (ASTUMinus t) = printable str_ok dim t"
| "printable str_ok dim (ASTPlus t1 t2 _) \<longleftrightarrow> printable str_ok dim t1 \<and> printable str_ok dim t2"
| "printable str_ok dim (ASTMult t1 t2 _) \<longleftrightarrow> printable str_ok dim t1 \<and> printable str_ok dim t2"
| "printable str_ok dim (ASTMod t1 t2) \<longleftrightarrow> printable str_ok dim t1 \<and> printable str_ok dim t2"
| "printable str_ok dim (ASTPow t1 t2) \<longleftrightarrow> printable str_ok dim t1 \<and> printable str_ok dim t2"
| "printable str_ok dim (ASTNorm t) = printable str_ok dim t"
| "printable str_ok dim (ASTVar ident) = str_ok ident"
| "printable str_ok dim (ASTLabel ident) = str_ok ident"
| "printable str_ok dim (ASTJump label _) = str_ok label"
| "printable str_ok dim (ASTStmts stmts) = list_all (printable str_ok dim) stmts"
| "printable str_ok dim (ASTVarDecl vars a _ _) \<longleftrightarrow> list_all str_ok vars \<and> pred_option (printable str_ok dim) a"
| "printable str_ok dim (ASTFunc ident args stmts rets) \<longleftrightarrow>
     str_ok ident \<and> args_ok str_ok dim args \<and> args_ok str_ok dim rets \<and> list_all (printable str_ok dim) stmts"
| "printable str_ok dim (ASTReturn rets only_jump) \<longleftrightarrow> only_jump \<or> (case rets of None \<Rightarrow> False | Some es \<Rightarrow> list_all (printable str_ok dim) es)"
| "printable str_ok dim (ASTExprList exprs _) = list_all (printable str_ok dim) exprs"
| "printable str_ok dim (ASTCall ident args) \<longleftrightarrow> str_ok ident \<and> list_all (printable str_ok dim) args"
| "printable str_ok dim (ASTAssign idents expr) \<longleftrightarrow>
     list_all str_ok idents \<and> (case expr of None \<Rightarrow> False | Some x \<Rightarrow> printable str_ok dim x)"
| "printable str_ok dim (ASTVarRange ident b e inc) \<longleftrightarrow> str_ok ident \<and> printable str_ok dim b \<and> printable str_ok dim e \<and> pred_option (printable str_ok dim) inc"
| "printable str_ok dim (ASTComp t1 t2 _) \<longleftrightarrow> printable str_ok dim t1 \<and> printable str_ok dim t2"
| "printable str_ok dim (ASTBool t1 t2 _) \<longleftrightarrow> printable str_ok dim t1 \<and> pred_option (printable str_ok dim) t2"
| "printable str_ok dim (ASTCond c s1 s2) \<longleftrightarrow> printable str_ok dim c \<and> printable str_ok dim s1 \<and> pred_option (printable str_ok dim) s2"
| "printable str_ok dim (ASTCases x cases d) \<longleftrightarrow>
     printable str_ok dim x \<and> list_all (\<lambda>(c, s). printable str_ok dim c \<and> printable str_ok dim s) cases \<and> pred_option (printable str_ok dim) d"
| "printable str_ok dim (ASTLoop c s) \<longleftrightarrow> printable str_ok dim c \<and> printable str_ok dim s"
| "printable str_ok dim (ASTRangedLoop ident b e inc s) \<longleftrightarrow>
     str_ok ident \<and> printable str_ok dim b \<and> printable str_ok dim e \<and> pred_option (printable str_ok dim) inc \<and> printable str_ok dim s"
| "printable str_ok dim (ASTArrayAccess t n1 n2 _) \<longleftrightarrow>
     printable str_ok dim t \<and> (case n1 of None \<Rightarrow> False | Some n \<Rightarrow> printable str_ok dim n) \<and> pred_option (printable str_ok dim) n2"
| "printable str_ok dim (ASTArrayAssign ident t n1 n2 _) \<longleftrightarrow>
     str_ok ident \<and> printable str_ok dim t \<and> (case n1 of None \<Rightarrow> False | Some n \<Rightarrow> printable str_ok dim n) \<and> pred_option (printable str_ok dim) n2"
| "printable str_ok dim (ASTStrConst val) = str_ok val"
| "printable str_ok dim ASTNull = False"
| "printable str_ok dim _ = True"
  by pat_completeness auto


termination
  by (relation "measure (\<lambda>(str_ok, dim, t). size t)") (force dest: size_mem size_case)+

lemma printable_node: "printable str_ok dim a \<Longrightarrow> opt_node a = Some a"
  by (cases "a = ASTNull") auto

definition fmt_ok :: "(string \<Rightarrow> bool) \<Rightarrow> print_fmt \<Rightarrow> bool" where
  "fmt_ok str_ok f \<longleftrightarrow> (\<forall>x. str_ok (fmt_real f x)) \<and> (\<forall>x. str_ok (fmt_cplx f x)) \<and> (\<forall>x. str_ok (fmt_quat f x))"

section \<open>Printers of a kind of text\<close>

definition prints_to :: "(string \<Rightarrow> bool) \<Rightarrow> printer \<Rightarrow> bool" where
  "prints_to good p \<longleftrightarrow> (\<forall>st. \<exists>s b. p st = Ok \<lparr>m_ostr = m_ostr st @ s, boolalpha = b\<rparr> \<and> good s)"

lemma prints_toI:
  "(\<And>st. \<exists>s b. p st = Ok \<lparr>m_ostr = m_ostr st @ s, boolalpha = b\<rparr> \<and> good s) \<Longrightarrow> prints_to good p"
  by (simp add: prints_to_def)

lemma writes_eq: "writes s st = Ok \<lparr>m_ostr = m_ostr st @ s, boolalpha = boolalpha st\<rparr>"
  by (cases st) (simp add: writes_def)

text \<open>What a printer writes may depend on the state it starts from.\<close>

lemma prints_to_state: "(\<And>st. prints_to good (p st)) \<Longrightarrow> prints_to good (\<lambda>st. p st st)"
  unfolding prints_to_def by blast

declare prints.simps(2) [simp del] indexed.simps(2) [simp del] var_tags.simps(2) [simp del]
  ident_tags.simps(2) [simp del] arg_tags.simps(2) [simp del]

lemmas printer_defs =
  print_UMinus_def print_Plus_def print_Mult_def print_Mod_def print_Pow_def print_Norm_def print_Comp_def
  print_Bool_def print_Var_def print_VarDecl_def print_VarRange_def print_StrConst_def print_NumReal_def
  print_NumInt_def print_NumConstList_def print_NumCplx_def print_NumQuat_def print_ExprList_def print_Call_def
  print_Stmts_def print_Func_def print_Cond_def print_Cases_def print_Loop_def print_RangedLoop_def
  print_LoopBreak_def print_LoopNext_def print_Label_def print_Jump_def

locale output_kind =
  fixes good :: "string \<Rightarrow> bool" and attrs_ok :: "string \<Rightarrow> bool"
    and str_ok :: "string \<Rightarrow> bool" and dim :: "nat list \<Rightarrow> bool"
  assumes good_Nil: "good []"
    and good_append: "good a \<Longrightarrow> good b \<Longrightarrow> good (a @ b)"
    and good_blank: "good [CHR 0x0A]"
    and good_empty: "xml_name n \<Longrightarrow> attrs_ok as \<Longrightarrow> good (''<'' @ n @ as @ '' />'' @ [CHR 0x0A])"
    and good_element: "xml_name n \<Longrightarrow> attrs_ok as \<Longrightarrow> good body \<Longrightarrow>
      good (''<'' @ n @ as @ ''>'' @ [CHR 0x0A] @ body @ ''</'' @ n @ ''>'' @ [CHR 0x0A])"
    and good_text: "xml_name n \<Longrightarrow> str_ok t \<Longrightarrow> good (''<'' @ n @ ''>'' @ t @ ''</'' @ n @ ''>'' @ [CHR 0x0A])"
    and attrs_Nil: "attrs_ok []"
    and attrs_Cons: "xml_name key \<Longrightarrow> str_ok val \<Longrightarrow> attrs_ok as \<Longrightarrow> attrs_ok (attr key val @ as)"
    and attrs_arg: "str_ok name \<Longrightarrow> dim dims \<Longrightarrow> attrs_ok (arg_attrs (name, ty, dims))"
    and str_own: "own s \<Longrightarrow> str_ok s"
begin

lemma prints_good: "list_all (prints_to good) ps \<Longrightarrow> prints_to good (prints ps)"
proof (induction ps)
  case Nil
  have "prints [] st = Ok \<lparr>m_ostr = m_ostr st @ [], boolalpha = boolalpha st\<rparr>" for st by (cases st) simp
  then show ?case using good_Nil by (blast intro: prints_toI)
next
  case (Cons p ps)
  then have p: "prints_to good p" and ps: "prints_to good (prints ps)" by simp_all
  show ?case
  proof (rule prints_toI)
    fix st
    obtain s b where 1: "p st = Ok \<lparr>m_ostr = m_ostr st @ s, boolalpha = b\<rparr>" "good s"
      using p unfolding prints_to_def by blast
    obtain s' b' where 2: "prints ps \<lparr>m_ostr = m_ostr st @ s, boolalpha = b\<rparr> =
        Ok \<lparr>m_ostr = (m_ostr st @ s) @ s', boolalpha = b'\<rparr>" "good s'"
      using ps unfolding prints_to_def by (metis out_state.select_convs(1))
    show "\<exists>s b. prints (p # ps) st = Ok \<lparr>m_ostr = m_ostr st @ s, boolalpha = b\<rparr> \<and> good s"
      using 1 2 good_append by (auto simp: prints.simps(2))
  qed
qed

lemma prints_Nil_good [simp]: "prints_to good (prints [])"
  by (simp add: prints_good)

lemma write_line_good:
  assumes "good (s @ [CHR 0x0A])"
  shows "prints_to good (write_line s)"
  using assms by (auto intro!: prints_toI simp: write_line_def writes_eq)

lemma empty_tag_good:
  assumes "xml_name n" "attrs_ok as"
  shows "prints_to good (empty_tag n as)"
  using good_empty [OF assms] by (simp add: empty_tag_def write_line_good)

lemma element_good:
  assumes n: "xml_name n" "attrs_ok as" and ps: "list_all (prints_to good) ps"
  shows "prints_to good (element n as ps)"
proof (rule prints_toI)
  fix st :: out_state
  let ?o = "''<'' @ n @ as @ ''>'' @ [CHR 0x0A]"
  obtain s b where 1: "prints ps \<lparr>m_ostr = m_ostr st @ ?o, boolalpha = boolalpha st\<rparr> =
      Ok \<lparr>m_ostr = (m_ostr st @ ?o) @ s, boolalpha = b\<rparr>" "good s"
    using prints_good [OF ps] unfolding prints_to_def by (metis out_state.select_convs(1))
  then show "\<exists>s b. element n as ps st = Ok \<lparr>m_ostr = m_ostr st @ s, boolalpha = b\<rparr> \<and> good s"
    using good_element [OF n 1(2)]
    by (auto simp: prints.simps(2) element_def open_tag_def close_tag_def write_line_def writes_eq)
qed

lemma indexed_good: "xml_name pre \<Longrightarrow> list_all (prints_to good) ps \<Longrightarrow> prints_to good (indexed pre i ps)"
proof (induction pre i ps rule: indexed.induct)
  case (2 pre i p ps)
  then show ?case
    using element_good [of "pre @ show_nat i" "[]" "[p]"]
    by (auto simp: indexed.simps(2) attrs_Nil intro!: prints_good)
qed simp

lemma optional_good: "xml_name n \<Longrightarrow> pred_option (prints_to good) p \<Longrightarrow> prints_to good (optional n p)"
  by (auto simp: optional_def attrs_Nil split: option.split intro: element_good)

lemma own_str [simp]: "own s \<Longrightarrow> str_ok s"
  by (rule str_own)

lemma attr_good: "xml_name key \<Longrightarrow> str_ok val \<Longrightarrow> attrs_ok (attr key val)"
  using attrs_Cons [OF _ _ attrs_Nil] by simp

lemma var_tags_good: "list_all str_ok vars \<Longrightarrow> prints_to good (var_tags i vars)"
proof (induction i vars rule: var_tags.induct)
  case (2 i var vars)
  have "xml_name (''var_'' @ show_nat i)" by (rule xml_name_nat) simp
  then show ?case
    using 2 by (auto simp: var_tags.simps(2) intro!: prints_good empty_tag_good attr_good)
qed simp

lemma ident_tags_good: "list_all str_ok idents \<Longrightarrow> prints_to good (ident_tags i idents)"
proof (induction i idents rule: ident_tags.induct)
  case (2 i ident idents)
  then show ?case
    using good_text [OF xml_name_nat [OF tag_names(51)], of ident i]
    by (auto simp: ident_tags.simps(2) intro!: prints_good write_line_good)
qed simp

lemma arg_tags_good: "args_ok str_ok dim as \<Longrightarrow> xml_name pre \<Longrightarrow> prints_to good (arg_tags pre i as)"
proof (induction pre i as rule: arg_tags.induct)
  case (2 pre i a as)
  have "attrs_ok (arg_attrs a)"
    using 2 attrs_arg by (cases a) (auto simp: args_ok_def)
  then show ?case
    using 2 by (auto simp: arg_tags.simps(2) args_ok_def intro!: prints_good empty_tag_good)
qed simp

lemma print_NumBool_good: "prints_to good (print_NumBool b)"
proof (rule prints_toI)
  fix st :: out_state
  have "prints_to good (empty_tag ''Const'' (attr ''type'' ''bool'' @ attr ''val'' (show_flag (st\<lparr>boolalpha := True\<rparr>) b)))"
    by (intro empty_tag_good attrs_Cons attr_good) simp_all
  then show "\<exists>s b'. print_NumBool b st = Ok \<lparr>m_ostr = m_ostr st @ s, boolalpha = b'\<rparr> \<and> good s"
    unfolding prints_to_def print_NumBool_def by (metis out_state.select_convs(1) out_state.surjective out_state.update_convs(2))
qed

lemmas printer_rules =
  element_good empty_tag_good attr_good attrs_Cons attrs_Nil indexed_good optional_good prints_good

lemma print_Assign_good:
  assumes "idents = [] \<or> list_all str_ok idents \<and> (case pexpr of None \<Rightarrow> False | Some p \<Rightarrow> prints_to good p)"
  shows "prints_to good (print_Assign idents pexpr)"
  using assms unfolding print_Assign_def Let_def
  by (cases idents; cases "tl idents"; cases pexpr)
    (auto simp: prints_Nil_good ident_tags_good intro!: printer_rules)

lemma print_Return_good:
  assumes "only_jump \<or> (case prets of None \<Rightarrow> False | Some ps \<Rightarrow> list_all (prints_to good) ps)"
  shows "prints_to good (print_Return prets only_jump)"
  using assms unfolding print_Return_def
  by (cases prets) (auto simp: neq_Nil_conv length_Suc_conv intro!: printer_rules)

lemma print_Array_good:
  assumes "prints_to good p" "pred_option (prints_to good) n2" "case n1 of None \<Rightarrow> False | Some n \<Rightarrow> prints_to good n"
  shows "prints_to good (print_ArrayAccess p n1 n2 r)" "str_ok ident \<Longrightarrow> prints_to good (print_ArrayAssign ident p n1 n2 r)"
  using assms unfolding print_ArrayAccess_def [abs_def] print_ArrayAssign_def [abs_def]
  by (rule_tac [!] prints_to_state) (auto split: option.split_asm intro!: printer_rules)

lemma print_ast_good: "fmt_ok str_ok f \<Longrightarrow> printable str_ok dim t \<Longrightarrow> prints_to good (print_ast f t)"
proof (induction f t rule: print_ast.induct)
  case (11 f vars a u v)
  then show ?case by (cases a) (auto simp: printer_defs var_tags_good intro!: printer_rules)
next
  case (12 f ident args stmts rets)
  then show ?case
    by (auto simp: printer_defs arg_tags_good list_all_iff intro!: element_good attr_good indexed_good attrs_Nil)
next
  case (13 f rets only_jump)
  then show ?case by (cases rets) (auto simp: list_all_iff intro!: print_Return_good)
next
  case (16 f idents expr)
  then show ?case by (cases expr) (auto intro!: print_Assign_good)
next
  case (17 f ident b e inc)
  then show ?case by (auto simp: printer_defs printable_node option.pred_set intro!: printer_rules)
next
  case (19 f t1 t2 op)
  then show ?case by (cases t2) (auto simp: printer_defs intro!: printer_rules)
next
  case (21 f x cases d)
  have "list_all (prints_to good) (map (\<lambda>x. element ''case'' [] [element ''cond'' [] [print_ast f (fst x)],
      element ''stmts'' [] [print_ast f (snd x)]]) cases)"
    using 21 by (fastforce simp: list_all_iff intro!: element_good attrs_Nil)
  then show ?case using 21
    by (cases d) (auto simp: printer_defs o_def case_prod_beta intro!: element_good attrs_Nil optional_good prints_good)
next
  case (23 f ident b e inc stmt)
  then show ?case by (auto simp: printer_defs printable_node option.pred_set intro!: printer_rules)
next
  case (26 f t n1 n2 r)
  then show ?case by (cases n1; cases n2) (auto intro!: print_Array_good)
next
  case (27 f ident t n1 n2 r)
  then show ?case by (cases n1; cases n2) (auto intro!: print_Array_good)
qed (auto simp: printer_defs fmt_ok_def list_all_iff option.pred_set print_NumBool_good
    intro!: printer_rules split: option.split)

lemma write_ast_good:
  assumes "fmt_ok str_ok f" "list_all (printable str_ok dim) prog"
  shows "\<exists>s. write_ast f prog = Ok s \<and> good s"
proof -
  have blank: "prints_to good (write_line [])" using good_blank write_line_good [of "[]"] by simp
  have "prints_to good (element ''ast'' [] (map (\<lambda>stmt. prints [print_ast f stmt, write_line []]) prog))"
    using assms by (auto simp: list.pred_map o_def blank list_all_iff intro!: element_good attrs_Nil prints_good print_ast_good)
  then obtain s b where "element ''ast'' [] (map (\<lambda>stmt. prints [print_ast f stmt, write_line []]) prog)
      \<lparr>m_ostr = [], boolalpha = False\<rparr> = Ok \<lparr>m_ostr = s, boolalpha = b\<rparr>" "good s"
    unfolding prints_to_def by (metis out_state.select_convs(1) append_Nil)
  then show ?thesis by (simp add: write_ast_def)
qed

end

section \<open>Any text\<close>

interpretation any_text: output_kind "\<lambda>_. True" "\<lambda>_. True" "\<lambda>_. True" "\<lambda>_. True"
  by unfold_locales simp_all

section \<open>Well-formed text\<close>

definition plain :: "string \<Rightarrow> bool" where
  "plain s \<longleftrightarrow> list_all (\<lambda>c. c \<notin> set ([CHR 0x22] @ ''<>&'')) s"

inductive xml_attrs :: "string \<Rightarrow> bool" where
  xattrs_Nil: "xml_attrs []"
| xattrs_Cons: "\<lbrakk>xml_name key; plain val; xml_attrs as\<rbrakk> \<Longrightarrow> xml_attrs (attr key val @ as)"

inductive xml :: "string \<Rightarrow> bool" where
  xml_Nil: "xml []"
| xml_blank: "xml rest \<Longrightarrow> xml ([CHR 0x0A] @ rest)"
| xml_empty: "\<lbrakk>xml_name n; xml_attrs as; xml rest\<rbrakk> \<Longrightarrow> xml (''<'' @ n @ as @ '' />'' @ [CHR 0x0A] @ rest)"
| xml_element: "\<lbrakk>xml_name n; xml_attrs as; xml body; xml rest\<rbrakk> \<Longrightarrow>
    xml (''<'' @ n @ as @ ''>'' @ [CHR 0x0A] @ body @ ''</'' @ n @ ''>'' @ [CHR 0x0A] @ rest)"
| xml_text: "\<lbrakk>xml_name n; plain t; xml rest\<rbrakk> \<Longrightarrow>
    xml (''<'' @ n @ ''>'' @ t @ ''</'' @ n @ ''>'' @ [CHR 0x0A] @ rest)"

lemma xml_append: "xml a \<Longrightarrow> xml b \<Longrightarrow> xml (a @ b)"
  by (induction rule: xml.induct) (auto simp del: append_Cons append_Cons_eq_iff
      intro: xml_blank [simplified] xml_empty [simplified] xml_element [simplified] xml_text [simplified])

lemma name_plain: "xml_name s \<Longrightarrow> plain s"
  unfolding xml_name_def plain_def list_all_iff name_char_def by (auto simp: is_digit_def)

lemma own_plain: "own s \<Longrightarrow> plain s"
  unfolding own_def own_char_def plain_def list_all_iff name_char_def by (fastforce simp: is_digit_def)

text \<open>An argument with one dimension has balanced quotes.\<close>

definition one_dim :: "nat list \<Rightarrow> bool" where
  "one_dim dims \<longleftrightarrow> length dims = 1"

lemma arg_attrs_one:
  "arg_attrs (name, ty, [d]) = attr ''name'' name @ attr ''type'' (get_type_name ty) @ attr ''dim0'' (show_nat d)"
  by (simp add: arg_attrs_def attr_def quoted_def show_nat.simps [of 0] digit_def char_of_def bit_Suc_0_iff)

lemma attr_attrs: "xml_name key \<Longrightarrow> plain val \<Longrightarrow> xml_attrs (attr key val)"
  using xattrs_Cons [OF _ _ xattrs_Nil] by simp

lemma arg_attrs_xml: "plain name \<Longrightarrow> one_dim dims \<Longrightarrow> xml_attrs (arg_attrs (name, ty, dims))"
  by (auto simp: one_dim_def length_Suc_conv arg_attrs_one own_plain intro!: xattrs_Cons attr_attrs)

interpretation well_formed: output_kind xml xml_attrs plain one_dim
  using xml_Nil xml_append xml_blank [OF xml_Nil] xml_empty [OF _ _ xml_Nil] xml_element [OF _ _ _ xml_Nil]
    xml_text [OF _ _ xml_Nil] xattrs_Nil xattrs_Cons arg_attrs_xml own_plain
  by unfold_locales simp_all

text \<open>Every quote in well-formed text has a partner.\<close>

definition quotes :: "string \<Rightarrow> nat" where
  "quotes s = count_list s (CHR 0x22)"

lemma quotes_append [simp]: "quotes (s @ t) = quotes s + quotes t"
  by (simp add: quotes_def)

lemma quotes_Cons [simp]: "quotes (c # s) = (if c = CHR 0x22 then Suc (quotes s) else quotes s)"
  by (simp add: quotes_def)

lemma quotes_Nil [simp]: "quotes [] = 0"
  by (simp add: quotes_def)

lemma quotes_plain [simp]: "plain s \<Longrightarrow> quotes s = 0"
  by (induction s) (auto simp: plain_def)

lemma quotes_attrs: "xml_attrs as \<Longrightarrow> even (quotes as)"
  by (induction rule: xml_attrs.induct) (auto simp: attr_def quoted_def name_plain)

lemma xml_quotes: "xml s \<Longrightarrow> even (quotes s)"
  by (induction rule: xml.induct) (auto simp: quotes_attrs name_plain)

end
