(* ===== verification/TreeFacts.thy ===== *)
theory TreeFacts
  imports Driver PrintFacts
begin

text \<open>
  The trees that the parser builds are complete, if an element or a range is only assigned to a
  variable: no pointer is null that a visitor follows. The values a production asks for and gives
  are typed by its symbols; null is the value of an assignment or an intent that is left out, and
  of an assignment to something else than a variable. The optimiser keeps a tree complete, and a
  complete tree can be printed.
\<close>

abbreviation complete :: "ast \<Rightarrow> bool" where
  "complete \<equiv> printable (\<lambda>_. True) (\<lambda>_. True)"

declare list.pred_True [simp]

lemma any_args [simp]: "args_ok (\<lambda>_. True) (\<lambda>_. True) as"
  by (induction as) (auto simp: args_ok_def)

section \<open>What the rules keep of the context\<close>

text \<open>The statements of the context change with the start rule only, and its constants never.\<close>

abbreviation kept :: "parser_ctx \<Rightarrow> ast list option \<times> (t_str \<times> t_variant) list" where
  "kept ctx \<equiv> (m_statements ctx, m_consts ctx)"

lemma AddScoped_kept:
  assumes "AddScopedSymbol name ctx = Ok (r, ctx')"
  shows "kept ctx' = kept ctx"
  using assms
  by (auto simp: AddScopedSymbol_def retype_known_def Let_def rbind_eq_Ok split: option.split_asm if_split_asm prod.split_asm)

lemma add_variable_kept:
  "add_variable name vars ctx = Ok (r, ctx') \<Longrightarrow> kept ctx' = kept ctx"
  by (auto simp: add_variable_def rbind_eq_Ok split: option.split_asm dest: AddScoped_kept)

lemma count_kept [simp]:
  "m_statements (count_ref sy ctx) = m_statements ctx" "m_consts (count_ref sy ctx) = m_consts ctx"
  "m_statements (count_call f ctx) = m_statements ctx" "m_consts (count_call f ctx) = m_consts ctx"
  by (auto simp: count_ref_def count_call_def split: option.split)

lemma set_kept [simp]:
  "m_statements (SetSymType ty ctx) = m_statements ctx" "m_consts (SetSymType ty ctx) = m_consts ctx"
  "m_statements (SetSymDims ds ctx) = m_statements ctx" "m_consts (SetSymDims ds ctx) = m_consts ctx"
  "m_statements (SetSymDim d ctx) = m_statements ctx" "m_consts (SetSymDim d ctx) = m_consts ctx"
  "m_statements (EnterScope f ctx) = m_statements ctx" "m_consts (EnterScope f ctx) = m_consts ctx"
  by (simp_all add: SetSymType_def SetSymDims_def SetSymDim_def EnterScope_def)

lemma Leave_kept: "LeaveScope f ctx = Ok ctx' \<Longrightarrow> kept ctx' = kept ctx"
  by (auto simp: LeaveScope_def split: if_split_asm)

lemma on_full_kept: "on_full f fm args ctx = Ok (v, ctx') \<Longrightarrow> kept ctx' = kept ctx"
  by (auto dest: on_full_ctx)

lemma mark_kept: "mark_symbol m name ctx = Ok ctx' \<Longrightarrow> kept ctx' = kept ctx"
  unfolding mark_symbol_def
  using AddScoped_kept [of name ctx]
  by (cases "AddScopedSymbol name ctx") (auto split: option.split_asm if_split_asm)

lemma register_kept:
  "register_args as i ctx = Ok ctx' \<Longrightarrow> kept ctx' = kept ctx"
  "register_rets as i ctx = Ok ctx' \<Longrightarrow> kept ctx' = kept ctx"
  by (induction as arbitrary: i ctx) (auto simp: rbind_eq_Ok dest: mark_kept)

lemma register_func_kept: "register_func n ty as rs rec ctx = Ok ctx' \<Longrightarrow> kept ctx' = kept ctx"
  by (auto simp: register_func_def rbind_eq_Ok)

lemma update_kept:
  "update_args f as ctx = Ok (as', ctx') \<Longrightarrow> kept ctx' = kept ctx"
  "update_rets f as ctx = Ok (as', ctx') \<Longrightarrow> kept ctx' = kept ctx"
proof (induction as arbitrary: as' ctx)
  case (Cons a as)
  {
    case 1
    then show ?case by (cases rule: update_args_Cons) (auto dest: Cons)
  next
    case 2
    then show ?case by (cases rule: update_rets_Cons) (auto dest: Cons)
  }
qed simp_all

lemma update_func_kept:
  "update_func_arg_types as f ctx = Ok (as', ctx') \<Longrightarrow> kept ctx' = kept ctx"
  "update_func_ret_types as f ctx = Ok (as', ctx') \<Longrightarrow> kept ctx' = kept ctx"
  by (auto simp: update_func_arg_types_def update_func_ret_types_def split: option.split_asm if_split_asm
      dest: update_kept)

lemma partial_kept:
  "procedure_partial args ctx = Ok ctx' \<Longrightarrow> kept ctx' = kept ctx"
  "function_partial args ctx = Ok ctx' \<Longrightarrow> kept ctx' = kept ctx"
  by (auto simp: procedure_partial_def function_partial_def rbind_eq_Ok split: if_split_asm
      dest!: register_func_kept register_kept)

section \<open>The rules\<close>

definition keeps_rest :: "semantic \<Rightarrow> bool" where
  "keeps_rest rule \<longleftrightarrow>
     (\<forall>full_match args ctx v ctx'. rule full_match args ctx = Ok (v, ctx') \<longrightarrow> kept ctx' = kept ctx)"

lemma keeps_restI:
  "(\<And>full_match args ctx v ctx'. rule full_match args ctx = Ok (v, ctx') \<Longrightarrow> kept ctx' = kept ctx) \<Longrightarrow> keeps_rest rule"
  unfolding keeps_rest_def by blast

lemma rest_on_full [simp]: "keeps_rest (on_full f)"
  by (rule keeps_restI) (auto dest: on_full_ctx)

lemma rest_context [simp]:
  "keeps_rest null_rule" "keeps_rest rule_read" "keeps_rest rule_variables" "keeps_rest rule_variable"
  "keeps_rest rule_variable_assign" "keeps_rest (rule_decl ty)" "keeps_rest (rule_decl_array ty)"
  "keeps_rest rule_decl_string" "keeps_rest rule_decl_string_dim" "keeps_rest rule_var"
  "keeps_rest rule_array" "keeps_rest rule_call" "keeps_rest rule_call_args"
  "keeps_rest rule_procedure" "keeps_rest rule_function"
  unfolding context_rules
  by (rule keeps_restI; auto simp: rbind_eq_Ok on_full_def GetConst_def Let_def split: if_split_asm prod.split_asm option.split_asm
      dest!: add_variable_kept partial_kept update_func_kept Leave_kept)+

lemma rules_keep_rest: "list_all (\<lambda>p. keeps_rest (snd (snd p))) (tl CreateGrammar)"
proof -
  have "list_all (\<lambda>p. keeps_rest (snd (snd p))) (tl grammar_rules)" by (simp add: grammar_rules_def value_rules)
  moreover have "list_all (\<lambda>p. keeps_rest (snd (snd p))) operator_rules" by (simp add: operator_rules_def value_rules)
  moreover have "list_all (\<lambda>p. keeps_rest (snd (snd p))) variable_rules"
    by (simp add: variable_rules_def value_rules plain_decl_def dim_decl_def)
  moreover have "list_all (\<lambda>p. keeps_rest (snd (snd p))) array_rules" by (simp add: array_rules_def value_rules)
  moreover have "list_all (\<lambda>p. keeps_rest (snd (snd p))) loop_rules" by (simp add: loop_rules_def value_rules)
  moreover have "list_all (\<lambda>p. keeps_rest (snd (snd p))) function_rules" by (simp add: function_rules_def value_rules)
  ultimately show ?thesis by (simp add: CreateGrammar_def grammar_rules_def)
qed

section \<open>Values of the semantic rules\<close>

text \<open>
  The values a symbol of the grammar can have: null only without an assignment, without an
  intent, and for the start.
\<close>

fun sval_ok :: "grammar_symbol \<Rightarrow> sval \<Rightarrow> bool" where
  "sval_ok s SNull \<longleftrightarrow> s \<in> {NT START, NT OPT_ASSIGN, NT OPT_INTENT}"
| "sval_ok s (SNode a) \<longleftrightarrow> complete a \<and> s \<noteq> NT CASES \<and>
     (s = NT STATEMENTS \<longrightarrow> as_stmts a \<noteq> None) \<and> (s = NT VARIABLES \<longrightarrow> as_decl a \<noteq> None)"
| "sval_ok s (SCases cases d) \<longleftrightarrow> s = NT CASES \<and>
     list_all (\<lambda>(c, s). complete c \<and> complete s) cases \<and> pred_option complete d"

lemma sval_node:
  "s \<notin> {NT START, NT OPT_ASSIGN, NT OPT_INTENT, NT CASES} \<Longrightarrow>
   sval_ok s v \<longleftrightarrow> (\<exists>a. v = SNode a \<and> complete a \<and>
     (s = NT STATEMENTS \<longrightarrow> as_stmts a \<noteq> None) \<and> (s = NT VARIABLES \<longrightarrow> as_decl a \<noteq> None))"
  by (cases v) auto

lemma sval_cases:
  "sval_ok (NT CASES) v \<longleftrightarrow>
   (\<exists>cs d. v = SCases cs d \<and> list_all (\<lambda>(c, s). complete c \<and> complete s) cs \<and> pred_option complete d)"
  by (cases v) auto

lemma complete_not_null [simp]: "complete a \<Longrightarrow> opt_node a = Some a"
  by (rule printable_node)

lemma pred_opt_node [simp]: "complete a \<Longrightarrow> pred_option complete (opt_node a)"
  by simp

lemma cast_Some [simp]:
  "as_stmts a = Some ss \<longleftrightarrow> a = ASTStmts ss"
  "as_exprs a = Some (es, ty) \<longleftrightarrow> a = ASTExprList es ty"
  "as_decl a = Some (vs, t, u, w) \<longleftrightarrow> a = ASTVarDecl vs t u w"
  "as_range a = Some (ident, b, e, inc) \<longleftrightarrow> a = ASTVarRange ident b e inc"
  by (auto elim: as_stmts.elims as_exprs.elims as_decl.elims as_range.elims)

lemma write_call_complete [simp]: "complete (write_call e) = complete e"
  by (simp add: write_call_def)

abbreviation std_consts :: "parser_ctx \<Rightarrow> bool" where
  "std_consts ctx \<equiv> m_consts ctx = m_consts ParserContext0"

lemma GetConst_std: "std_consts ctx \<Longrightarrow>
    GetConst ident ctx = (if ident = ''pi'' then (True, RealV 0x400921FB54442D18) else (False, RealV 0))"
  by (simp add: GetConst_def ParserContext0_def)

text \<open>What a production asks of its arguments, and gives; an assigned element is one of a variable.\<close>

definition target_ok :: "grammar_symbol list \<Rightarrow> sval list \<Rightarrow> bool" where
  "target_ok rhs args \<longleftrightarrow>
     (rhs \<noteq> [] \<and> last rhs = NT OPT_ASSIGN \<and> last args \<noteq> SNull \<longrightarrow> (\<exists>x. hd args = SNode (ASTVar x)))"

definition production_ok :: "production \<Rightarrow> bool" where
  "production_ok p \<longleftrightarrow>
     (case p of (nt, rhs, rule) \<Rightarrow>
        \<forall>args ctx v ctx'. list_all2 sval_ok rhs args \<longrightarrow> target_ok rhs args \<longrightarrow> std_consts ctx \<longrightarrow>
          rule True args ctx = Ok (v, ctx') \<longrightarrow> sval_ok (NT nt) v)"

lemma productionI:
  assumes "\<And>args ctx v ctx'. list_all2 sval_ok rhs args \<Longrightarrow> target_ok rhs args \<Longrightarrow> std_consts ctx \<Longrightarrow>
      rule True args ctx = Ok (v, ctx') \<Longrightarrow> sval_ok (NT nt) v"
  shows "production_ok (nt, rhs, rule)"
  using assms unfolding production_ok_def by auto

lemma production_value:
  assumes "\<And>args v. list_all2 sval_ok rhs args \<Longrightarrow> f args = Ok v \<Longrightarrow> sval_ok (NT nt) v"
  shows "production_ok (nt, rhs, on_full f)"
  by (rule productionI) (use assms in \<open>auto simp: on_full_def rbind_eq_Ok\<close>)

lemmas arg_defs = arg_def cast_arg_def node_arg_def cases_arg_def rbind_eq_Ok list_all2_Cons1 sval_node sval_cases

lemma cast_Ok [simp]: "(case r of None \<Rightarrow> Undefined u | Some x \<Rightarrow> Ok x) = Ok y \<longleftrightarrow> r = Some y"
  by (cases r) auto

lemma operator_ok: "list_all production_ok operator_rules"
  unfolding operator_rules_def value_rules list.pred_inject
  by (intro conjI TrueI production_value; force simp: arg_defs)

lemma loop_ok: "list_all production_ok loop_rules"
  unfolding loop_rules_def value_rules list.pred_inject
  by (intro conjI TrueI production_value; auto simp: arg_defs)

text \<open>The rules that use the context.\<close>

lemma read_call_complete:
  assumes "read_call ident ctx = Ok a"
  shows "complete a"
proof -
  obtain symb where f: "FindScopedSymbol ident ctx = Ok symb" by (simp add: FindScopedSymbol_eq)
  show ?thesis
  proof (cases symb)
    case (Some sy)
    then show ?thesis
      using assms f by (cases "sy_ty sy = ST_REAL"; cases "sy_ty sy = ST_INT") (auto simp: read_call_def Let_def)
  qed (use assms f in \<open>simp add: read_call_def\<close>)
qed

lemma read_calls_complete: "read_calls ids ctx = Ok as \<Longrightarrow> list_all complete as"
  by (induction ids arbitrary: as) (auto simp: rbind_eq_Ok dest: read_call_complete)

lemma start_ok: "production_ok (START, [NT STATEMENTS], rule_start)"
  by (rule productionI) (auto simp: rule_start_def cast_value_def arg_defs)

lemma grammar_ok: "list_all production_ok grammar_rules"
proof -
  have "production_ok (STATEMENT, [TM TK_READ, ch CHR ''*'', ch CHR '','', NT IDENTLIST], rule_read)"
    by (rule productionI) (auto simp: rule_read_def arg_defs dest: read_calls_complete)
  then show ?thesis
    unfolding grammar_rules_def value_rules list.pred_inject
    by (intro conjI TrueI start_ok production_value;
        auto simp: arg_defs cast_value_def list.pred_map o_def)
qed

lemma var_ok: "production_ok (EXPRESSION, [TM TK_IDENT], rule_var)"
proof (rule productionI)
  fix args ctx v ctx'
  assume std: "std_consts ctx" and r: "rule_var True args ctx = Ok (v, ctx')"
  obtain ident where i: "cast_arg as_str args 0 = Ok ident"
    using r by (auto simp: rule_var_def rbind_eq_Ok)
  show "sval_ok (NT EXPRESSION) v"
    using r i by (auto simp: rule_var_def GetConst_std [OF std] rbind_eq_Ok split: if_split_asm)
qed

lemma decl_value_ok:
  assumes "decl_value i j args = Ok v" "arg args j = Ok vars" "sval_ok (NT VARIABLES) vars"
  shows "sval_ok (NT STATEMENT) v"
  using assms
  by (auto simp: decl_value_def cast_arg_def rbind_eq_Ok sval_node cast_value_def split: if_split_asm)

lemma decl_ok:
  "production_ok (plain_decl tok (rule_decl ty))" "production_ok (plain_decl tok rule_decl_string)"
  "production_ok (dim_decl tok dims (rule_decl_array ty))" "production_ok (dim_decl tok dims rule_decl_string_dim)"
  unfolding plain_decl_def dim_decl_def context_rules rule_decl_string_def rule_decl_string_dim_def
  by (rule productionI; auto simp: on_full_def Let_def rbind_eq_Ok list_all2_Cons1 arg_def intro: decl_value_ok
      split: if_split_asm)+

lemma variables_ok:
  "production_ok (VARIABLES, [TM TK_IDENT, ch CHR '','', NT VARIABLES], rule_variables)"
  "production_ok (VARIABLES, [TM TK_IDENT], rule_variable)"
  "production_ok (VARIABLES, [TM TK_IDENT, ch CHR ''='', NT EXPRESSION], rule_variable_assign)"
proof -
  show "production_ok (VARIABLES, [TM TK_IDENT, ch CHR '','', NT VARIABLES], rule_variables)"
    by (rule productionI) (simp add: rule_variables_def arg_defs split: prod.split_asm, elim exE conjE, auto)
  show "production_ok (VARIABLES, [TM TK_IDENT], rule_variable)"
    by (rule productionI) (auto simp: rule_variable_def rbind_eq_Ok)
  show "production_ok (VARIABLES, [TM TK_IDENT, ch CHR ''='', NT EXPRESSION], rule_variable_assign)"
    by (rule productionI) (simp add: rule_variable_assign_def arg_defs split: prod.split_asm, elim exE conjE, auto)
qed

lemma constants_ok:
  "production_ok (INT_CONSTANTS, rhs, rule_int_constants)" "production_ok (INT_CONSTANTS, rhs, rule_int_constant)"
  "production_ok (FULL_IDENTLIST, rhs, rule_no_idents)" "production_ok (IDENTLIST, rhs, rule_idents)"
  "production_ok (IDENTLIST, rhs, rule_ident)" "production_ok (EXPRESSION, rhs, rule_real)"
  "production_ok (EXPRESSION, rhs, rule_int)" "production_ok (EXPRESSION, rhs, rule_cplx)"
  "production_ok (EXPRESSION, rhs, rule_quat)" "production_ok (EXPRESSION, rhs, rule_bool_const)"
  "production_ok (EXPRESSION, rhs, rule_str)"
  unfolding value_rules by (rule production_value; auto simp: rbind_eq_Ok)+

lemma assign_ok:
  "production_ok (EXPRESSION, [TM TK_IDENT, ch CHR ''='', NT EXPRESSION], rule_assign)"
  "production_ok (EXPRESSION, [TM TK_ASSIGN, NT IDENTLIST, ch CHR ''='', NT EXPRESSION], rule_multi_assign)"
  "production_ok (FULL_IDENTLIST, [NT IDENTLIST], rule_arg 0)"
  unfolding rule_assign_def rule_multi_assign_def rule_arg_def by (rule production_value; auto simp: arg_defs)+

lemma opt_assign_ok: "production_ok (OPT_ASSIGN, [ch CHR ''='', NT EXPRESSION], rule_arg 1)"
  unfolding rule_arg_def by (rule production_value) (auto simp: arg_defs)

lemma null_ok: "nt \<in> {START, OPT_ASSIGN, OPT_INTENT} \<Longrightarrow> production_ok (nt, rhs, null_rule)"
  by (rule productionI) (auto simp: null_rule_def)

lemma variable_ok: "list_all production_ok variable_rules"
  by (simp add: variable_rules_def decl_ok variables_ok var_ok constants_ok assign_ok opt_assign_ok [unfolded One_nat_def] null_ok)

lemma access_ok:
  assumes "access_or_assign n2 r args n1 i = Ok v" "arg args 0 = Ok (SNode t)" "arg args i = Ok x"
    and "complete t" "x \<noteq> SNull \<longrightarrow> (\<exists>y. t = ASTVar y) \<and> sval_ok (NT EXPRESSION) x"
    and "n1 = Some ix" "complete ix" "pred_option complete n2"
  shows "sval_ok (NT EXPRESSION) v"
proof (cases "x = SNull")
  case True
  then show ?thesis using assms by (auto simp: access_or_assign_def node_arg_def)
next
  case False
  then obtain y a where "t = ASTVar y" "x = SNode a" "complete a" using assms(5) by (auto simp: sval_node)
  then show ?thesis using assms by (auto simp: access_or_assign_def node_arg_def)
qed

lemma opt_assign_value: "sval_ok (NT OPT_ASSIGN) x \<Longrightarrow> x \<noteq> SNull \<Longrightarrow> sval_ok (NT EXPRESSION) x"
  by (cases x) auto

lemma array_ok: "list_all production_ok array_rules"
proof -
  have "production_ok (EXPRESSION, [NT EXPRESSION, ch CHR ''['', NT EXPRESSIONS, ch CHR '']'', NT OPT_ASSIGN],
      rule_array_access)"
  proof (rule productionI)
    fix args ctx v ctx'
    assume r: "list_all2 sval_ok [NT EXPRESSION, ch CHR ''['', NT EXPRESSIONS, ch CHR '']'', NT OPT_ASSIGN] args"
      "target_ok [NT EXPRESSION, ch CHR ''['', NT EXPRESSIONS, ch CHR '']'', NT OPT_ASSIGN] args"
      "rule_array_access True args ctx = Ok (v, ctx')"
    obtain t i x u w where a: "args = [SNode t, u, SNode i, w, x]" "complete t" "complete i" "sval_ok (NT OPT_ASSIGN) x"
      using r(1) by (auto simp: list_all2_Cons1 sval_node)
    have t: "x \<noteq> SNull \<longrightarrow> (\<exists>y. t = ASTVar y)" using r(2) a(1) by (simp add: target_ok_def)
    have "access_or_assign None False args (opt_node i) 4 = Ok v"
      using r(3) a(1) by (auto simp: rule_array_access_def on_full_def node_arg_def arg_def rbind_eq_Ok)
    then show "sval_ok (NT EXPRESSION) v"
      by (rule access_ok [where ix = i and t = t and x = x]) (use a t opt_assign_value in \<open>simp_all add: arg_def\<close>)
  qed
  moreover have "production_ok (EXPRESSION, [NT EXPRESSION, ch CHR ''['', NT EXPRESSION, TM TK_RANGE, NT EXPRESSION,
      ch CHR '']'', NT OPT_ASSIGN], rule_array_range)"
  proof (rule productionI)
    fix args ctx v ctx'
    assume r: "list_all2 sval_ok [NT EXPRESSION, ch CHR ''['', NT EXPRESSION, TM TK_RANGE, NT EXPRESSION,
        ch CHR '']'', NT OPT_ASSIGN] args"
      "target_ok [NT EXPRESSION, ch CHR ''['', NT EXPRESSION, TM TK_RANGE, NT EXPRESSION, ch CHR '']'', NT OPT_ASSIGN] args"
      "rule_array_range True args ctx = Ok (v, ctx')"
    obtain t i j x u w z where a: "args = [SNode t, u, SNode i, w, SNode j, z, x]" "complete t" "complete i" "complete j"
        "sval_ok (NT OPT_ASSIGN) x"
      using r(1) by (auto simp: list_all2_Cons1 sval_node)
    have t: "x \<noteq> SNull \<longrightarrow> (\<exists>y. t = ASTVar y)" using r(2) a(1) by (simp add: target_ok_def)
    have "access_or_assign (opt_node j) True args (opt_node i) 6 = Ok v"
      using r(3) a(1) by (auto simp: rule_array_range_def on_full_def node_arg_def arg_def rbind_eq_Ok)
    then show "sval_ok (NT EXPRESSION) v"
      by (rule access_ok [where ix = i and t = t and x = x]) (use a t opt_assign_value in \<open>simp_all add: arg_def\<close>)
  qed
  moreover have "production_ok (EXPRESSION, [ch CHR ''['', NT EXPRESSIONS, ch CHR '']''], rule_array)"
    by (rule productionI) (auto simp: rule_array_def on_full_def arg_defs)
  ultimately show ?thesis unfolding array_rules_def by simp
qed

lemma stmts_complete:
  assumes "cast_arg as_stmts args i = Ok ss" "list_all2 sval_ok rhs args"
  shows "list_all complete ss"
proof -
  obtain v where v: "arg args i = Ok v"
    "(case v of SNode a \<Rightarrow> (case as_stmts a of Some x \<Rightarrow> Ok x | None \<Rightarrow> Undefined UB_Null) | _ \<Rightarrow> Undefined UB_Null) = Ok ss"
    using assms(1) by (auto simp: cast_arg_def rbind_eq_Ok)
  then have "arg args i = Ok (SNode (ASTStmts ss))" by (cases v) auto
  then have "sval_ok (rhs ! i) (SNode (ASTStmts ss))"
    using list_all2_nthD2 [OF assms(2), of i] by (simp add: arg_def split: if_split_asm)
  then show ?thesis by simp
qed

lemma function_ok: "list_all production_ok function_rules"
proof -
  have f: "production_ok (FUNCTION, rhs, rule_procedure)" "production_ok (FUNCTION, rhs, rule_function)" for rhs
    unfolding rule_procedure_def rule_function_def
    by (rule productionI; auto simp: rbind_eq_Ok dest: stmts_complete)+
  have v: "production_ok (OPT_RECURSIVE, rhs, rule_recursive b)" "production_ok (OPT_INTENT, rhs, rule_intent_in)"
    "production_ok (OPT_INTENT, rhs, rule_intent_out)" "production_ok (STATEMENT, rhs, rule_return)"
    "production_ok (EXPRESSION, rhs, rule_call)" for rhs b
    unfolding value_rules
    by (rule production_value; auto)+ (rule productionI; auto simp: rule_call_def rbind_eq_Ok)
  have c: "production_ok (EXPRESSION, [TM TK_IDENT, ch CHR ''('', NT EXPRESSIONS, ch CHR '')''], rule_call_args)"
    by (rule productionI) (simp add: rule_call_args_def arg_defs, elim exE conjE, auto)
  have "production_ok (STATEMENT, [NT FUNCTION], rule_arg 0)"
    unfolding rule_arg_def by (rule production_value) (auto simp: arg_defs)
  then show ?thesis by (simp add: function_rules_def f v c null_ok)
qed

lemma rules_ok: "list_all production_ok CreateGrammar"
  using grammar_ok operator_ok variable_ok array_ok loop_ok function_ok by (simp add: CreateGrammar_def)


section \<open>A run of the rules\<close>

fun complete_leaves :: "ptree \<Rightarrow> bool" where
  "complete_leaves (Leaf t) \<longleftrightarrow> complete (fst (snd t))"
| "complete_leaves (Node i ts) \<longleftrightarrow> (\<forall>t \<in> set ts. complete_leaves t)"

text \<open>
  What a derivation names: a variable is an identifier other than the constant, or one in
  parentheses. A production for an element or a range of an array ends in an optional
  assignment; with one, the array has to be a variable.
\<close>

fun names_variable :: "ptree \<Rightarrow> bool" where
  "names_variable (Node i [Leaf tok]) \<longleftrightarrow> fst tok = TK_IDENT \<and> fst (snd tok) \<noteq> ASTStrConst ''pi''"
| "names_variable (Node i [Leaf l, t, Leaf r]) \<longleftrightarrow> fst l = TK_CHAR CHR ''('' \<and> names_variable t"
| "names_variable t \<longleftrightarrow> False"

fun assigns_variables :: "ptree \<Rightarrow> bool" where
  "assigns_variables (Leaf tok) \<longleftrightarrow> True"
| "assigns_variables (Node i ts) \<longleftrightarrow>
     (ts \<noteq> [] \<and> root (last ts) = NT OPT_ASSIGN \<and> fringe (last ts) \<noteq> [] \<longrightarrow> names_variable (hd ts)) \<and>
     (\<forall>t \<in> set ts. assigns_variables t)"

definition good_run :: "parser_ctx \<Rightarrow> bool" where
  "good_run ctx \<longleftrightarrow> pred_option (list_all complete) (m_statements ctx) \<and> std_consts ctx"

lemma semantic_kept:
  assumes "0 < i" "i < length CreateGrammar" "semantic_rule i full_match args ctx = Ok (v, ctx')"
  shows "kept ctx' = kept ctx"
proof -
  have "keeps_rest (semantic_rule i)"
    using rules_keep_rest assms(1,2) by (auto simp: list_all_length semantic_rule_def nth_tl dest: spec [of _ "i - 1"])
  then show ?thesis using assms(3) unfolding keeps_rest_def by blast
qed

lemma semantic_start:
  assumes "semantic_rule 0 full_match args ctx = Ok (v, ctx')"
  shows "m_consts ctx' = m_consts ctx"
    and "good_run ctx \<Longrightarrow> full_match \<longrightarrow> list_all2 sval_ok [NT STATEMENTS] args \<Longrightarrow> good_run ctx'"
  using assms
  by (auto simp: semantic_rule_def CreateGrammar_def grammar_rules_def rule_start_def SetStatements_def good_run_def
      arg_defs split: if_split_asm)

lemma start_production: "fst (snd (CreateGrammar ! 0)) = [NT STATEMENTS]"
  by (simp add: CreateGrammar_def grammar_rules_def)

lemma semantic_good:
  assumes "i < length CreateGrammar" "semantic_rule i full_match args ctx = Ok (v, ctx')" "good_run ctx"
    and "full_match \<Longrightarrow> list_all2 sval_ok (fst (snd (CreateGrammar ! i))) args"
  shows "good_run ctx'"
proof (cases "i = 0")
  case True
  then show ?thesis
    using semantic_start(2) [OF assms(2) [unfolded True] assms(3)] assms(4) start_production by simp
next
  case False
  then show ?thesis using semantic_kept [OF _ assms(1,2)] assms(3) by (simp add: good_run_def)
qed

lemma semantic_consts:
  assumes "i < length CreateGrammar" "semantic_rule i full_match args ctx = Ok (v, ctx')"
  shows "m_consts ctx' = m_consts ctx"
  using semantic_start(1) semantic_kept [OF _ assms] assms(2) by (cases "i = 0") auto

lemma semantic_value:
  assumes "i < length CreateGrammar" "semantic_rule i True args ctx = Ok (v, ctx')" "good_run ctx"
    and "list_all2 sval_ok (fst (snd (CreateGrammar ! i))) args" "target_ok (fst (snd (CreateGrammar ! i))) args"
  shows "sval_ok (NT (fst (CreateGrammar ! i))) v"
proof -
  have "production_ok (CreateGrammar ! i)" using rules_ok assms(1) by (simp add: list_all_length)
  then show ?thesis
    using assms(2-5) unfolding production_ok_def semantic_rule_def good_run_def by (cases "CreateGrammar ! i") auto
qed

text \<open>The constants stay as they are.\<close>

lemma run_consts:
  "derivation t \<Longrightarrow> run_rules pm t ctx = Ok (v, ctx') \<Longrightarrow> m_consts ctx' = m_consts ctx"
  "\<forall>t \<in> set ts. derivation t \<Longrightarrow> i < length CreateGrammar \<Longrightarrow> run_symbols pm i ts args ctx = Ok (args', ctx') \<Longrightarrow>
   m_consts ctx' = m_consts ctx"
proof (induction pm t ctx and pm i ts args ctx arbitrary: v ctx' and args' ctx'
    rule: run_rules_run_symbols.induct)
  case (2 pm i ts ctx)
  obtain args c where a: "run_symbols pm i ts [] ctx = Ok (args, c)" and r: "semantic_rule i True args c = Ok (v, ctx')"
    using "2.prems"(2) by (auto simp: rbind_eq_Ok)
  have d: "\<forall>t \<in> set ts. derivation t" "i < length CreateGrammar" using "2.prems"(1) by simp_all
  show ?case using "2.IH" [OF d a] semantic_consts [OF d(2) r] by simp
next
  case (4 pm i t ts args ctx)
  obtain v c where t: "run_rules pm t ctx = Ok (v, c)"
    using "4.prems"(3) by (cases "run_rules pm t ctx") auto
  let ?p = "if (i, length args + 1) \<in> pm then rbind (semantic_rule i False (args @ [v]) c) (\<lambda>(_, c). Ok c) else Ok c"
  have "rbind ?p (run_symbols pm i ts (args @ [v])) = Ok (args', ctx')"
    using "4.prems"(3) unfolding run_symbols.simps t rbind.simps prod.case .
  then obtain c1 where p: "?p = Ok c1" and r: "run_symbols pm i ts (args @ [v]) c1 = Ok (args', ctx')"
    unfolding rbind_eq_Ok by blast
  have v: "m_consts c = m_consts ctx" using "4.IH"(1) [OF _ t] "4.prems"(1) by simp
  have "m_consts c1 = m_consts c"
    using p semantic_consts [OF "4.prems"(2)] by (auto simp: rbind_eq_Ok split: if_split_asm)
  then show ?case using "4.IH"(2) [OF t refl p _ "4.prems"(2) r] "4.prems"(1) v by simp
qed (simp_all)

text \<open>The values of a right-hand side, each of a run of its symbol.\<close>

lemma run_symbols_values:
  assumes "\<forall>t \<in> set ts. derivation t" "i < length CreateGrammar" "run_symbols pm i ts args ctx = Ok (args', ctx')"
    and "std_consts ctx"
  shows "\<exists>vs. args' = args @ vs \<and>
    list_all2 (\<lambda>t v. \<exists>c c'. std_consts c \<and> run_rules pm t c = Ok (v, c')) ts vs"
  using assms
proof (induction ts arbitrary: args ctx)
  case (Cons t ts)
  obtain v c where t: "run_rules pm t ctx = Ok (v, c)"
    using Cons.prems(3) by (cases "run_rules pm t ctx") auto
  let ?p = "if (i, length args + 1) \<in> pm then rbind (semantic_rule i False (args @ [v]) c) (\<lambda>(_, c). Ok c) else Ok c"
  have "rbind ?p (run_symbols pm i ts (args @ [v])) = Ok (args', ctx')"
    using Cons.prems(3) unfolding run_symbols.simps t rbind.simps prod.case .
  then obtain c1 where p: "?p = Ok c1" and r: "run_symbols pm i ts (args @ [v]) c1 = Ok (args', ctx')"
    unfolding rbind_eq_Ok by blast
  have "m_consts c = m_consts ctx" using run_consts(1) [OF _ t] Cons.prems(1) by simp
  moreover have "m_consts c1 = m_consts c"
    using p semantic_consts [OF Cons.prems(2)] by (auto simp: rbind_eq_Ok split: if_split_asm)
  ultimately have "std_consts c1" using Cons.prems(4) by simp
  from Cons.IH [OF _ Cons.prems(2) r this] Cons.prems(1)
  obtain vs where "args' = (args @ [v]) @ vs"
    "list_all2 (\<lambda>t v. \<exists>c c'. std_consts c \<and> run_rules pm t c = Ok (v, c')) ts vs" by auto
  then show ?case using t Cons.prems(4) by (intro exI [of _ "v # vs"]) auto
qed simp

text \<open>The productions that the two conditions are about.\<close>

lemma production_shapes:
  "list_all (\<lambda>(nt, rhs, rule).
     (nt = EXPRESSION \<and> rhs = [TM TK_IDENT] \<longrightarrow> rule = rule_var) \<and>
     (\<forall>s r. rhs = [TM (TK_CHAR CHR ''(''), s, r] \<longrightarrow> s = NT EXPRESSION \<and> rule = rule_arg 1) \<and>
     (rhs \<noteq> [] \<and> last rhs = NT OPT_ASSIGN \<longrightarrow> hd rhs = NT EXPRESSION) \<and>
     (nt = OPT_ASSIGN \<longrightarrow> rhs = [] \<and> rule = null_rule \<or> (\<exists>t. TM t = hd rhs \<and> rhs \<noteq> []))) CreateGrammar"
  by (simp add: grammar_defs)

lemma production_shape:
  assumes "i < length CreateGrammar" "CreateGrammar ! i = (nt, rhs, rule)"
  shows "nt = EXPRESSION \<Longrightarrow> rhs = [TM TK_IDENT] \<Longrightarrow> rule = rule_var"
    and "rhs = [TM (TK_CHAR CHR ''(''), s, r] \<Longrightarrow> s = NT EXPRESSION \<and> rule = rule_arg 1"
    and "rhs \<noteq> [] \<Longrightarrow> last rhs = NT OPT_ASSIGN \<Longrightarrow> hd rhs = NT EXPRESSION"
    and "nt = OPT_ASSIGN \<Longrightarrow> rhs = [] \<and> rule = null_rule \<or> (\<exists>t. TM t = hd rhs \<and> rhs \<noteq> [])"
  using production_shapes assms by (auto simp: list_all_length)

lemma run_named:
  "derivation t \<Longrightarrow> root t = NT EXPRESSION \<Longrightarrow> names_variable t \<Longrightarrow> std_consts ctx \<Longrightarrow>
   run_rules pm t ctx = Ok (v, ctx') \<Longrightarrow> \<exists>x. v = SNode (ASTVar x)"
proof (induction t arbitrary: ctx v ctx' rule: names_variable.induct)
  case (1 i tok)
  obtain args c where a: "run_symbols pm i [Leaf tok] [] ctx = Ok (args, c)" and r: "semantic_rule i True args c = Ok (v, ctx')"
    using "1.prems"(5) by (auto simp: rbind_eq_Ok)
  obtain nt rhs rule where p: "CreateGrammar ! i = (nt, rhs, rule)" by (metis surj_pair)
  have i: "i < length CreateGrammar" and d: "nt = EXPRESSION" "rhs = [TM TK_IDENT]"
    using "1.prems"(1-3) p by auto
  have rule: "semantic_rule i = rule_var" using production_shape(1) [OF i p d] p by (simp add: semantic_rule_def)
  from run_symbols_values [OF _ i a "1.prems"(4)]
  have "args = [SNode (fst (snd tok))]" by (auto simp: list_all2_Cons1)
  moreover have "std_consts c" using run_consts(2) [OF _ i a] "1.prems"(4) by simp
  ultimately show ?case
    using r "1.prems"(3) unfolding rule
    by (cases "fst (snd tok)" rule: as_str.cases)
      (auto simp: rule_var_def GetConst_std cast_arg_def arg_def rbind_eq_Ok split: if_split_asm)
next
  case (2 i l t r)
  obtain args c where a: "run_symbols pm i [Leaf l, t, Leaf r] [] ctx = Ok (args, c)"
    and v: "semantic_rule i True args c = Ok (v, ctx')"
    using "2.prems"(5) unfolding run_rules.simps rbind_eq_Ok by auto
  obtain nt rhs rule where p: "CreateGrammar ! i = (nt, rhs, rule)" by (metis surj_pair)
  have i: "i < length CreateGrammar" and d: "rhs = [TM (TK_CHAR CHR ''(''), root t, TM (fst r)]"
    using "2.prems"(1-3) p by auto
  note s = production_shape(2) [OF i p d]
  from run_symbols_values [OF _ i a "2.prems"(4)] "2.prems"(1)
  obtain x y z e e' where "args = [x, y, z]" "std_consts e" "run_rules pm t e = Ok (y, e')"
    by (auto simp: list_all2_Cons1)
  moreover from this have "v = y"
    using v s p by (auto simp: semantic_rule_def rule_arg_def on_full_def arg_def)
  ultimately show ?case using "2.IH" "2.prems"(1,3) s by auto
qed simp_all

lemma run_no_assign:
  assumes "derivation t" "root t = NT OPT_ASSIGN" "fringe t = []" "run_rules pm t ctx = Ok (v, ctx')"
  shows "v = SNull"
proof -
  obtain i ts where t: "t = Node i ts" using assms(2) by (cases t) auto
  obtain nt rhs rule where p: "CreateGrammar ! i = (nt, rhs, rule)" by (metis surj_pair)
  have i: "i < length CreateGrammar" and nt: "nt = OPT_ASSIGN" and rhs: "map root ts = rhs"
    using assms(1,2) t p by auto
  have "\<not> (\<exists>tok. TM tok = hd rhs \<and> rhs \<noteq> [])"
  proof
    assume "\<exists>tok. TM tok = hd rhs \<and> rhs \<noteq> []"
    then obtain tok u us where "ts = u # us" "root u = TM tok" using rhs by (cases ts) (auto dest: sym)
    then show False using assms(3) t by (cases u) auto
  qed
  then have "rule = null_rule" using production_shape(4) [OF i p nt] by blast
  then show ?thesis using assms(4) t p by (auto simp: rbind_eq_Ok semantic_rule_def null_rule_def)
qed

lemma run_target:
  assumes d: "derivation (Node i ts)" "assigns_variables (Node i ts)" "std_consts ctx"
    and a: "run_symbols pm i ts [] ctx = Ok (args, c)"
  shows "target_ok (map root ts) args"
  unfolding target_ok_def
proof (intro impI)
  assume h: "map root ts \<noteq> [] \<and> last (map root ts) = NT OPT_ASSIGN \<and> last args \<noteq> SNull"
  obtain nt rhs rule where p: "CreateGrammar ! i = (nt, rhs, rule)" by (metis surj_pair)
  have i: "i < length CreateGrammar" and rhs: "map root ts = rhs" and t: "\<forall>t \<in> set ts. derivation t"
    using d(1) p by auto
  have ts: "ts \<noteq> []" "root (last ts) = NT OPT_ASSIGN" using h by (auto simp: last_map)
  have "root (hd ts) = NT EXPRESSION" using production_shape(3) [OF i p] h ts(1) unfolding rhs [symmetric] by (simp add: hd_map)
  from run_symbols_values [OF t i a d(3)]
  have vs: "list_all2 (\<lambda>t v. \<exists>c c'. std_consts c \<and> run_rules pm t c = Ok (v, c')) ts args" by simp
  note n = list_all2_lengthD [OF vs]
  have args: "args \<noteq> []" using n ts(1) by auto
  have "\<exists>c c'. std_consts c \<and> run_rules pm (hd ts) c = Ok (hd args, c')"
    using list_all2_nthD [OF vs, of 0] ts(1) args by (simp add: hd_conv_nth)
  moreover have "\<exists>c c'. std_consts c \<and> run_rules pm (last ts) c = Ok (last args, c')"
    using list_all2_nthD [OF vs, of "length ts - 1"] ts(1) args n by (simp add: last_conv_nth)
  ultimately obtain c1 c2 c3 c4 where ends: "std_consts c1" "run_rules pm (hd ts) c1 = Ok (hd args, c2)"
    "run_rules pm (last ts) c3 = Ok (last args, c4)" by blast
  have "derivation (last ts)" "derivation (hd ts)" using t ts(1) by simp_all
  have "fringe (last ts) \<noteq> []"
    using run_no_assign [OF \<open>derivation (last ts)\<close> ts(2) _ ends(3)] h by blast
  then have "names_variable (hd ts)" using d(2) ts by simp
  from run_named [OF \<open>derivation (hd ts)\<close> \<open>root (hd ts) = NT EXPRESSION\<close> this ends(1,2)]
  show "\<exists>x. hd args = SNode (ASTVar x)" .
qed

lemma run_ok:
  "derivation t \<Longrightarrow> complete_leaves t \<Longrightarrow> assigns_variables t \<Longrightarrow> good_run ctx \<Longrightarrow> run_rules pm t ctx = Ok (v, ctx') \<Longrightarrow>
   sval_ok (root t) v \<and> good_run ctx'"
  "\<forall>t \<in> set ts. derivation t \<and> complete_leaves t \<and> assigns_variables t \<Longrightarrow> i < length CreateGrammar \<Longrightarrow>
   list_all2 sval_ok rs args \<Longrightarrow> good_run ctx \<Longrightarrow> run_symbols pm i ts args ctx = Ok (args', ctx') \<Longrightarrow>
   list_all2 sval_ok (rs @ map root ts) args' \<and> good_run ctx'"
proof (induction pm t ctx and pm i ts args ctx arbitrary: v ctx' and args' ctx' rs
    rule: run_rules_run_symbols.induct)
  case (2 pm i ts ctx)
  obtain args c where a: "run_symbols pm i ts [] ctx = Ok (args, c)" and r: "semantic_rule i True args c = Ok (v, ctx')"
    using "2.prems"(5) by (auto simp: rbind_eq_Ok)
  have d: "\<forall>t \<in> set ts. derivation t \<and> complete_leaves t \<and> assigns_variables t" "i < length CreateGrammar"
      "map root ts = fst (snd (CreateGrammar ! i))"
    using "2.prems"(1-3) by simp_all
  have "list_all2 sval_ok (map root ts) args" "good_run c"
    using "2.IH" [OF d(1,2) _ "2.prems"(4) a, of "[]"] by simp_all
  moreover have "target_ok (map root ts) args"
    using run_target [OF "2.prems"(1,3) _ a] "2.prems"(4) by (simp add: good_run_def)
  ultimately show ?case
    using semantic_value [OF d(2) r] semantic_good [OF d(2) r] unfolding d(3) by simp
next
  case (4 pm i t ts args ctx)
  obtain v c where t: "run_rules pm t ctx = Ok (v, c)"
    using "4.prems"(5) by (cases "run_rules pm t ctx") auto
  let ?p = "if (i, length args + 1) \<in> pm then rbind (semantic_rule i False (args @ [v]) c) (\<lambda>(_, c). Ok c) else Ok c"
  have "rbind ?p (run_symbols pm i ts (args @ [v])) = Ok (args', ctx')"
    using "4.prems"(5) unfolding run_symbols.simps t rbind.simps prod.case .
  then obtain c1 where p: "?p = Ok c1" and r: "run_symbols pm i ts (args @ [v]) c1 = Ok (args', ctx')"
    unfolding rbind_eq_Ok by blast
  have v: "sval_ok (root t) v" "good_run c"
    using "4.IH"(1) [OF _ _ _ "4.prems"(4) t] "4.prems"(1) by simp_all
  have c1: "good_run c1"
    using p semantic_good [OF "4.prems"(2) _ v(2)] v(2) by (auto simp: rbind_eq_Ok split: if_split_asm)
  have "list_all2 sval_ok (rs @ [root t]) (args @ [v])"
    using "4.prems"(3) v(1) by (simp add: list_all2_appendI)
  from "4.IH"(2) [OF t refl p _ "4.prems"(2) this c1 r] "4.prems"(1) show ?case by simp
qed (auto)

lemma leaves_fringe: "complete_leaves t \<longleftrightarrow> (\<forall>tok \<in> set (fringe t). complete (fst (snd tok)))"
  by (induction t) auto

lemma lval_complete [simp]: "complete (lval_ast v)"
  by (cases v rule: lval_ast.cases) simp_all

lemma tokens_complete: "GetAllTokens e line cs = Ok ts \<Longrightarrow> \<forall>tok \<in> set ts. complete (fst (snd tok))"
proof (induction e line cs arbitrary: ts rule: GetAllTokens.induct)
  case (1 e line cs)
  obtain m rest line' where m: "GetNextToken e line cs = Ok (m, rest, line')"
    using "1.prems" by (subst (asm) GetAllTokens.simps) (auto simp: rbind_eq_Ok)
  have n: "complete (fst (snd (tok_node m)))" by (simp add: tok_node_def split: prod.split)
  show ?case
  proof (cases "fst m = TK_HALT")
    case True
    then show ?thesis using "1.prems" m n by (subst (asm) GetAllTokens.simps) auto
  next
    case False
    then obtain ts' where ts: "GetAllTokens e line' rest = Ok ts'" "ts = tok_node m # ts'"
      using "1.prems" m by (subst (asm) GetAllTokens.simps) (auto simp: rbind_eq_Ok)
    have "\<forall>tok \<in> set ts'. complete (fst (snd tok))" by (rule "1.IH" [OF m refl refl False ts(1)])
    then show ?thesis using n ts(2) by simp
  qed
qed

theorem parsed_complete:
  assumes "lalr_parser parser" "GetAllTokens e 1 text = Ok tokens" "parser tokens = Some t" "assigns_variables t"
    and "parse_text e parser pm text = Ok (prog, syms)"
  shows "list_all complete prog"
proof -
  obtain ctx0 where c0: "add_ext_funcs False ParserContext0 = Ok ctx0" "m_statements ctx0 = None" "std_consts ctx0"
    by (rule that [OF start_ctx]) (simp_all add: ParserContext0_def)
  then obtain v ctx where 1: "run_rules pm t ctx0 = Ok (v, ctx)" "m_statements ctx = Some prog"
    using assms(2,3,5) unfolding parse_text_def by (auto simp: rbind_eq_Ok split: option.split_asm if_split_asm)
  obtain h where t: "derivation t" "tokens = fringe t @ [h]" using assms(1,3) unfolding lalr_parser_def by blast
  have "complete_leaves t" using tokens_complete [OF assms(2)] t(2) by (simp add: leaves_fringe)
  moreover have "good_run ctx0" using c0(2,3) by (simp add: good_run_def)
  ultimately have "good_run ctx" using run_ok(1) [OF t(1) _ assms(4) _ 1(1)] by blast
  then show ?thesis using 1(2) by (simp add: good_run_def)
qed

section \<open>The optimiser\<close>

text \<open>Folding is undefined for the constants whose operation is, and for nothing else.\<close>

fun fold_result :: "('a \<Rightarrow> bool) \<Rightarrow> 'a result \<Rightarrow> bool" where
  "fold_result P (Ok x) \<longleftrightarrow> P x"
| "fold_result P (Throw ex) \<longleftrightarrow> False"
| "fold_result P (Undefined u) \<longleftrightarrow> u = UB_Division \<or> u = UB_Overflow"

definition folds_to :: "('a \<Rightarrow> bool) \<Rightarrow> 'a optm \<Rightarrow> bool" where
  "folds_to P m \<longleftrightarrow> (\<forall>st. fold_result (\<lambda>(x, _). P x) (m st))"

lemma fold_rbind: "fold_result P r \<Longrightarrow> (\<And>x. P x \<Longrightarrow> fold_result Q (f x)) \<Longrightarrow> fold_result Q (rbind r f)"
  by (cases r) auto

lemma folds_bind: "folds_to P m \<Longrightarrow> (\<And>x. P x \<Longrightarrow> folds_to Q (f x)) \<Longrightarrow> folds_to Q (opt_bind m f)"
  unfolding folds_to_def opt_bind_def by (fastforce intro: fold_rbind)

lemma folds_ret [simp]: "folds_to P (opt_ret x) = P x"
  by (simp add: folds_to_def opt_ret_def)

lemma folds_seq: "list_all (folds_to P) ms \<Longrightarrow> folds_to (list_all P) (opt_seq ms)"
  by (induction ms) (auto intro!: folds_bind)

lemma folds_option: "pred_option (folds_to P) m \<Longrightarrow> folds_to (pred_option P) (opt_option m)"
  by (cases m) (auto simp: opt_option_def intro!: folds_bind)

lemma int_result_fold: "fold_result (\<lambda>_. True) (int_result i)"
  by (simp add: int_result_def)

lemma power_loop_fold: "fold_result (\<lambda>_. True) (power_loop x n acc)"
  by (induction n arbitrary: acc) (auto intro: fold_rbind int_result_fold)

lemma arith_int_fold: "fold_result (\<lambda>_. True) (arith_int op a b)"
proof -
  have "fold_result (\<lambda>_. True) (rbind (int_result i) (\<lambda>_. int_result j))" for i j
    by (rule fold_rbind [OF int_result_fold int_result_fold])
  then show ?thesis by (simp add: arith_int_def power_t_int_def Let_def power_loop_fold int_result_fold)
qed

lemma fold_arith_result: "pred_option (fold_result complete) (fold_arith e op t1 t2)"
proof -
  have "fold_result complete (rmap ASTNumInt (arith_int op a b))" for a b
    using arith_int_fold [of op a b] by (cases "arith_int op a b") (simp_all add: rmap_def)
  then show ?thesis by (simp add: fold_arith_def split: option.split)
qed

lemma arith_repl_folds: "pred_option (fold_result complete) r \<Longrightarrow> folds_to (pred_option complete) (arith_repl r)"
  by (auto simp: folds_to_def arith_repl_def split: option.split intro: fold_rbind)

lemma logic_repl_folds: "folds_to (pred_option complete) (logic_repl r)"
  by (simp add: folds_to_def logic_repl_def split: option.split)

lemma OptConsts_folds: "folds_to (pred_option complete) (OptConsts e a)"
proof -
  have c: "pred_option (fold_result complete) (fold_concat t1 t2 inv)" for t1 t2 inv
    by (simp add: fold_concat_def split: option.split)
  have p: "pred_option (fold_result complete) (case fold_arith e op t1 t2 of Some r \<Rightarrow> Some r | None \<Rightarrow> fold_concat t1 t2 inv)"
    for op t1 t2 inv
    using fold_arith_result [of e op t1 t2] c by (cases "fold_arith e op t1 t2") simp_all
  have n: "folds_to (pred_option complete) (\<lambda>st. Ok (None, st))" by (simp add: folds_to_def)
  show ?thesis
    using arith_repl_folds [OF p] arith_repl_folds [OF fold_arith_result] logic_repl_folds n by (cases a) simp_all
qed

lemma folds_child: "complete a \<Longrightarrow> folds_to complete (fold_child e a)"
  using OptConsts_folds [of e a] unfolding folds_to_def fold_child_def
  by (fastforce intro: fold_rbind split: option.split)

text \<open>The combinators of the visitors.\<close>

lemma folds_visit: "folds_to complete m \<Longrightarrow> folds_to complete (visit_fold e m)"
  unfolding visit_fold_def by (rule folds_bind [OF _ folds_child])

lemma folds_fold_option: "pred_option complete t \<Longrightarrow> folds_to (pred_option complete) (fold_option e t)"
  unfolding fold_option_def by (cases t) (auto intro!: folds_option folds_child)

lemma folds_two:
  assumes "folds_to complete m1" "folds_to complete m2" "\<And>a b. complete a \<Longrightarrow> complete b \<Longrightarrow> complete (node a b)"
  shows "folds_to complete (opt_two e m1 m2 node)"
  unfolding opt_two_def using assms by (auto intro!: folds_bind folds_child)

lemma folds_case:
  assumes "folds_to complete m1" "folds_to complete m2"
  shows "folds_to (\<lambda>(c, s). complete c \<and> complete s) (opt_case e m1 m2)"
  unfolding opt_case_def using assms by (auto intro!: folds_bind folds_child)

lemma folds_array:
  assumes "case n1 of None \<Rightarrow> False | Some m \<Rightarrow> folds_to complete m" "pred_option (folds_to complete) n2"
    "folds_to complete m" "\<And>a b c. complete a \<Longrightarrow> complete b \<Longrightarrow> pred_option complete c \<Longrightarrow> complete (node a (Some b) c)"
  shows "folds_to complete (opt_array e n1 n2 m node)"
  using assms unfolding opt_array_def
  by (cases n1) (auto intro!: folds_bind folds_child folds_option folds_fold_option)

lemma folds_assign:
  assumes "case m of None \<Rightarrow> False | Some m \<Rightarrow> folds_to complete m"
  shows "folds_to complete (opt_assign e idents m)"
  using assms unfolding opt_assign_def by (cases m) (auto intro!: folds_bind folds_visit)

lemma folds_refold: "complete a \<Longrightarrow> folds_to complete (refold_assign e a)"
  by (cases "(e, a)" rule: refold_assign.cases) (auto intro!: folds_bind folds_child)

lemma folds_seq_map: "(\<And>x. x \<in> set xs \<Longrightarrow> folds_to P (f x)) \<Longrightarrow> folds_to (list_all P) (opt_seq (map f xs))"
  by (rule folds_seq) (simp add: list_all_iff)

lemma folds_option_map:
  "(\<And>x. t = Some x \<Longrightarrow> folds_to P (f x)) \<Longrightarrow> folds_to (pred_option P) (opt_option (map_option f t))"
  by (cases t) (auto intro: folds_option)

lemma complete_childD:
  "list_all P xs \<Longrightarrow> x \<in> set xs \<Longrightarrow> P x" "pred_option P t \<Longrightarrow> t = Some y \<Longrightarrow> P y"
  by (auto simp: list_all_iff)

lemmas folds_rules =
  folds_bind folds_seq_map folds_option_map folds_visit folds_fold_option folds_two folds_array folds_assign folds_refold folds_child

lemma opt_complete: "complete t \<Longrightarrow> folds_to complete (opt e t)"
proof (induction e t rule: opt.induct)
  case (9 e vars a i j)
  then show ?case by (cases a) (auto intro!: folds_bind folds_option folds_refold)
next
  case (11 e rets only_jump)
  then show ?case by (cases rets) (auto intro!: folds_bind folds_seq_map dest: complete_childD)
next
  case (12 e idents expr)
  then show ?case by (cases expr) (auto intro!: folds_assign)
next
  case (14 e t n1 n2 r)
  then show ?case by (cases n1; cases n2) (auto intro!: folds_array)
next
  case (15 e ident expr n1 n2 r)
  then show ?case by (cases n1; cases n2) (auto intro!: folds_array)
next
  case (19 e x cases d)
  have "list_all (folds_to (\<lambda>(c, s). complete c \<and> complete s))
      (map (\<lambda>(c, s). opt_case e (opt e c) (opt e s)) cases)"
    using 19 by (fastforce simp: list_all_iff intro!: folds_case)
  then have "folds_to (list_all (\<lambda>(c, s). complete c \<and> complete s))
      (opt_seq (map (\<lambda>(c, s). opt_case e (opt e c) (opt e s)) cases))"
    by (rule folds_seq)
  then show ?case using 19 by (cases d) (auto intro!: folds_bind folds_option)
qed (auto intro!: folds_rules dest: complete_childD)

lemma stmts_optimised: "list_all complete prog \<Longrightarrow> fold_result (list_all complete) (optimise_stmts e prog)"
proof -
  assume "list_all complete prog"
  then have "folds_to (list_all complete) (opt_seq (map (opt e) prog))"
    by (auto intro!: folds_seq_map opt_complete dest: complete_childD)
  then show ?thesis unfolding optimise_stmts_def folds_to_def by (fastforce intro: fold_rbind)
qed

end
