(* ===== verification/PrinterProperties.thy ===== *)
theory PrinterProperties
  imports TreeFacts ParserProperties
begin

text \<open>
  The properties of the syntax tree printer and of the trees that the parser hands to it and to
  the optimiser, each with an instance where it has hypotheses.
\<close>

definition plain_fmt :: print_fmt where
  "plain_fmt = \<lparr>fmt_real = (\<lambda>_. ''0.5''), fmt_cplx = (\<lambda>_. ''(0,1)''), fmt_quat = (\<lambda>_. ''0,1,0,0'')\<rparr>"

lemma plain_fmt_ok: "fmt_ok plain plain_fmt"
  by (simp add: fmt_ok_def plain_fmt_def plain_def)

section \<open>The printed tree\<close>

text \<open>
  C18. The file with the syntax tree is well-formed, for trees without null pointers whose
  identifiers and strings have no special characters and whose function arguments have one
  dimension: every tag is closed in the right order and every attribute is quoted.
\<close>

theorem written_tree_wellformed:
  assumes "fmt_ok plain f" "list_all (printable plain one_dim) prog"
  shows "\<exists>s. write_ast f prog = Ok s \<and> xml s"
  by (rule well_formed.write_ast_good [OF assms])

theorem written_tree_wellformed_witness:
  "\<exists>s. write_ast plain_fmt (ASTFunc ''f'' [(''x'', ST_REAL, [1])] [ASTReturn None True] [] # parsed_prog 9) = Ok s \<and> xml s"
  by (rule written_tree_wellformed [OF plain_fmt_ok]) (simp add: parsed_prog_def args_ok_def one_dim_def plain_def)

lemma dim_attrs_quotes: "quotes (dim_attrs i ds) = 3 * length ds"
proof (induction i ds rule: dim_attrs.induct)
  case (2 i d ds)
  then show ?case using own_plain [OF own_nat] by (simp add: quoted_def)
qed simp

lemma arg_attrs_quotes: "plain name \<Longrightarrow> quotes (arg_attrs (name, ty, dims)) = 3 + 3 * length dims"
  using own_plain [OF own_type] by (simp add: arg_attrs_def attr_def quoted_def dim_attrs_quotes name_plain)

text \<open>
  C40. The file is not well-formed for a function with an argument that has an even number of
  dimensions, as a matrix has: a quote is missing or left over.
\<close>

theorem matrix_argument_malformed:
  assumes "fmt_ok plain f" "list_all (printable plain one_dim) stmts" "plain ident" "plain name" "even (length dims)"
  shows "\<exists>s. write_ast f [ASTFunc ident [(name, ty, dims)] stmts []] = Ok s \<and> \<not> xml s"
proof -
  let ?t = "''<ast>'' @ [CHR 0x0A] @ ''<Func'' @ attr ''ident'' ident @ ''>'' @ [CHR 0x0A] @
    ''<arg_'' @ show_nat 0 @ arg_attrs (name, ty, dims) @ '' />'' @ [CHR 0x0A]"
  from well_formed.print_ast_good [OF assms(1), of "ASTStmts stmts"] assms(2)
  obtain s b where s: "print_Stmts (map (print_ast f) stmts) \<lparr>m_ostr = ?t, boolalpha = False\<rparr> =
      Ok \<lparr>m_ostr = ?t @ s, boolalpha = b\<rparr>" "xml s"
    unfolding prints_to_def by (metis out_state.select_convs(1) print_ast.simps(10) printable.simps(10))
  let ?w = "?t @ s @ ''</Func>'' @ [CHR 0x0A] @ [CHR 0x0A] @ ''</ast>'' @ [CHR 0x0A]"
  have "write_ast f [ASTFunc ident [(name, ty, dims)] stmts []] = Ok ?w"
    using s(1)
    by (simp add: write_ast_def print_Func_def element_def open_tag_def close_tag_def empty_tag_def write_line_def writes_eq
        prints.simps(2) arg_tags.simps(2))
  moreover have "odd (quotes ?w)"
    using xml_quotes [OF s(2)] assms(3-5) own_plain [OF own_nat]
    by (simp add: arg_attrs_quotes attr_def quoted_def)
  ultimately show ?thesis using xml_quotes by blast
qed

theorem matrix_argument_malformed_witness:
  "\<exists>s. write_ast plain_fmt [ASTFunc ''f'' [(''m'', ST_REAL_ARRAY, [2, 3])] [ASTReturn None True] []] = Ok s \<and> \<not> xml s"
  by (rule matrix_argument_malformed [OF plain_fmt_ok]) (simp_all add: plain_def)

section \<open>Texts that assign to an element\<close>

text \<open>A target, and a number assigned to its element at a number.\<close>

definition elem_words :: "lexword \<Rightarrow> nat \<Rightarrow> nat \<Rightarrow> (lexword \<times> char) list" where
  "elem_words w b c =
     [(w, CHR '' ''), (WOp ''['', CHR '' ''), (WInt b, CHR '' ''), (WOp '']'', CHR '' ''),
      (WOp ''='', CHR '' ''), (WInt c, CHR '' '')]"

definition int_tree :: "nat \<Rightarrow> ptree" where
  "int_tree n = Node 50 [wleaf (WInt n) 1]"

definition name_tree :: "t_str \<Rightarrow> ptree" where
  "name_tree x = Node 55 [wleaf (WIdent x) 1]"

definition elem_tree :: "ptree \<Rightarrow> nat \<Rightarrow> nat \<Rightarrow> ptree" where
  "elem_tree target b c =
     Node 0 [Node 1 [Node 3 [Node 59 [target, wleaf (WOp ''['') 1, Node 6 [int_tree b], wleaf (WOp '']'') 1,
       Node 43 [wleaf (WOp ''='') 1, int_tree c]]], Node 2 []]]"

lemma element_productions:
  "CreateGrammar ! 6 = (EXPRESSIONS, [NT EXPRESSION], rule_expression)"
  "CreateGrammar ! 43 = (OPT_ASSIGN, [ch CHR ''='', NT EXPRESSION], rule_arg 1)"
  "CreateGrammar ! 59 = (EXPRESSION, [NT EXPRESSION, ch CHR ''['', NT EXPRESSIONS, ch CHR '']'', NT OPT_ASSIGN], rule_array_access)"
  by (simp_all add: grammar_defs)

lemma bracket_tokens [simp]:
  "tok_node (fst (word_token (WOp ''['')), snd (word_token (WOp ''['')), l) = (TK_CHAR CHR ''['', ASTNumInt (- 1), l)"
  "tok_node (fst (word_token (WOp '']'')), snd (word_token (WOp '']'')), l) = (TK_CHAR CHR '']'', ASTNumInt (- 1), l)"
  by (simp_all add: tok_node_def operators_def)

lemmas elem_defs = elem_tree_def int_tree_def name_tree_def wleaf_def

lemma elem_derivation:
  "derivation (elem_tree (int_tree a) b c)" "derivation (elem_tree (name_tree x) b c)" "root (elem_tree target b c) = NT START"
  by (simp_all add: elem_defs productions element_productions del: One_nat_def word_token.simps fst_tok_node)

lemma elem_fringe:
  "layout 1 (elem_words (WInt a) b c) = fringe (elem_tree (int_tree a) b c) @ [tok_node (TK_HALT, None, 1)]"
  "layout 1 (elem_words (WIdent x) b c) = fringe (elem_tree (name_tree x) b c) @ [tok_node (TK_HALT, None, 1)]"
  by (simp_all add: elem_words_def elem_defs next_line_def del: One_nat_def word_token.simps fst_tok_node)

lemma elem_lexed:
  "proper w \<Longrightarrow> int b \<le> int_max \<Longrightarrow> int c \<le> int_max \<Longrightarrow>
   GetAllTokens e 1 (spaced (elem_words w b c)) = Ok (layout 1 (elem_words w b c))"
  by (rule lex_spaced) (simp add: elem_words_def blank_def single_chars_def operators_def)

lemma int_tree_run:
  "run_rules (pm \<inter> needed_partials) (int_tree n) ctx = Ok (SNode (ASTNumInt (word_of_int (int n))), ctx)"
  by (simp add: int_tree_def wleaf_def run_defs del: word_token.simps fst_tok_node)

text \<open>The target is a node without effect on the context.\<close>

lemma elem_run:
  assumes "derivation (elem_tree target b c)"
    and "run_rules (pm \<inter> needed_partials) target ctx = Ok (SNode t, ctx)" "t \<noteq> ASTNull"
  shows "run_rules pm (elem_tree target b c) ctx =
    (let stmt = (case t of
         ASTVar x \<Rightarrow> ASTArrayAssign x (ASTNumInt (word_of_int (int c)))
           (Some (ASTExprList [ASTNumInt (word_of_int (int b))] ST_VOID)) None False
       | _ \<Rightarrow> ASTNull)
     in Ok (SNode (ASTStmts [stmt]), ctx\<lparr>m_statements := Some [stmt]\<rparr>))"
proof -
  have "run_rules (pm \<inter> needed_partials) (elem_tree target b c) ctx =
      (let stmt = (case t of
           ASTVar x \<Rightarrow> ASTArrayAssign x (ASTNumInt (word_of_int (int c)))
             (Some (ASTExprList [ASTNumInt (word_of_int (int b))] ST_VOID)) None False
         | _ \<Rightarrow> ASTNull)
       in Ok (SNode (ASTStmts [stmt]), ctx\<lparr>m_statements := Some [stmt]\<rparr>))"
    using assms(2,3)
    by (cases t) (simp_all add: elem_tree_def wleaf_def int_tree_run run_defs element_productions rule_expression_def
        rule_array_access_def access_or_assign_def SetStatements_def del: word_token.simps fst_tok_node)
  then show ?thesis using run_rules_partial(1) [OF assms(1), of pm] by simp
qed

lemma name_run:
  assumes "map_of (m_consts ctx) x = None" "m_curscope ctx = []" "FindSymbol (m_symbols ctx) x = None"
  shows "run_rules (pm \<inter> needed_partials) (name_tree x) ctx = Ok (SNode (ASTVar x), ctx)"
  using assms
  by (simp add: name_tree_def wleaf_def run_defs GetConst_def FindScopedSymbol_eq FindGlobalSymbol_def count_ref_def
      del: word_token.simps fst_tok_node)

definition elem_parser :: "lexword \<Rightarrow> ptree \<Rightarrow> t_toknode list \<Rightarrow> ptree option" where
  "elem_parser w t tokens = (if tokens = layout 1 (elem_words w 0 7) then Some t else None)"

section \<open>Parsed trees\<close>

text \<open>
  C6. The visitors never follow a null pointer in a program that assigns elements and ranges of
  variables only: when the derivation that the parser finds has, wherever an element or a range
  is assigned to, the name of a variable in front of the brackets, then its tree can be printed,
  and so can the optimised one; the optimiser only fails for a folded operation that is undefined
  itself. The condition on the derivation is needed: see the property of assignments to elements
  of numbers.
\<close>

theorem parsed_program_visited:
  assumes "lalr_parser parser" "GetAllTokens e 1 text = Ok tokens" "parser tokens = Some t" "assigns_variables t"
    and "parse_text e parser pm text = Ok (prog, syms)"
  shows "(\<exists>s. write_ast f prog = Ok s) \<and>
    (case optimise_stmts e prog of
       Ok prog' \<Rightarrow> \<exists>s. write_ast f prog' = Ok s
     | Throw ex \<Rightarrow> False
     | Undefined u \<Rightarrow> u = UB_Division \<or> u = UB_Overflow)"
proof -
  have f: "fmt_ok (\<lambda>_. True) f" by (simp add: fmt_ok_def)
  have c: "list_all complete prog" by (rule parsed_complete [OF assms])
  show ?thesis
    using stmts_optimised [OF c, of e] any_text.write_ast_good [OF f] c by (cases "optimise_stmts e prog") auto
qed

theorem parsed_program_visited_witness:
  "\<exists>s. write_ast plain_fmt [ASTArrayAssign ''v'' (ASTNumInt 7) (Some (ASTExprList [ASTNumInt 0] ST_VOID)) None False] = Ok s"
proof -
  let ?t = "elem_tree (name_tree ''v'') 0 7" and ?ctx = "ParserContext0\<lparr>m_symbols := ext_syms\<rparr>"
  let ?p = "elem_parser (WIdent ''v'') ?t"
  have f: "map_of (m_consts ?ctx) ''v'' = None" "m_curscope ?ctx = []" "FindSymbol (m_symbols ?ctx) ''v'' = None"
    using FindSymbol_ext [of "[]" "''v''" "ext_funcs False"]
    by (simp_all add: ParserContext0_def FindSymbol_def ext_funcs_def)
  have p: "lalr_parser ?p"
    using elem_derivation(2) [of "''v''" 0 7] elem_derivation(3) elem_fringe(2) [of "''v''" 0 7]
    by (auto simp: lalr_parser_def elem_parser_def tok_node_def)
  have l: "GetAllTokens demo_env 1 (spaced (elem_words (WIdent ''v'') 0 7)) = Ok (layout 1 (elem_words (WIdent ''v'') 0 7))"
    by (rule elem_lexed) (simp_all add: match_ident_def is_letter_def keyword_tokens_def int_max_def)
  have t: "?p (layout 1 (elem_words (WIdent ''v'') 0 7)) = Some ?t" by (simp add: elem_parser_def)
  have a: "assigns_variables ?t"
    by (simp add: elem_defs productions element_productions del: One_nat_def word_token.simps fst_tok_node)
  note r = elem_run [OF elem_derivation(2) name_run [OF f], where pm = needed_partials and b = 0 and c = 7]
  have "parse_text demo_env ?p needed_partials (spaced (elem_words (WIdent ''v'') 0 7)) =
      Ok ([ASTArrayAssign ''v'' (ASTNumInt 7) (Some (ASTExprList [ASTNumInt 0] ST_VOID)) None False], ext_syms)"
    using l t r by (simp add: parse_text_def start_ctx Let_def)
  from parsed_program_visited [OF p l t a this] show ?thesis by blast
qed

lemma start_frame: "GetStackFrameSize None (Codegen0 ext_syms) = Ok 0"
proof -
  have "sum_sizes (filter P (map snd tab)) a = Ok a" if "\<forall>p \<in> set tab. sy_ty (snd p) = ST_FUNC" for tab P a
    using that by (induction tab) (auto simp: GetSymSize_def)
  then show ?thesis
    using funcs_ext [of "[]" "[]" "ext_funcs False"]
    by (simp add: GetStackFrameSize_def FindSymbolsWithSameScope_def Codegen0_def)
qed

text \<open>
  C24. An assignment to an element of a number, such as \<open>1 [ 2 ] = 3\<close>, is accepted by the parser
  and kills the compiler: the rule of the assignment reports the target and gives a null pointer,
  which becomes the only statement of the program, and printing the tree, optimising it and
  generating code for it each follow this pointer. The parser is asked for the derivation as an
  element of the first number.
\<close>

theorem element_of_number_null:
  assumes "int a \<le> int_max" "int b \<le> int_max" "int c \<le> int_max"
    and "parser (layout 1 (elem_words (WInt a) b c)) = Some (elem_tree (int_tree a) b c)"
  shows "parse_text e parser pm (spaced (elem_words (WInt a) b c)) = Ok ([ASTNull], ext_syms) \<and>
    write_ast f [ASTNull] = Undefined UB_Null \<and> optimise_stmts e [ASTNull] = Undefined UB_Null \<and>
    mcc e parser pm optimise (spaced (elem_words (WInt a) b c)) = Undefined UB_Null"
proof -
  have p: "parse_text e parser pm (spaced (elem_words (WInt a) b c)) = Ok ([ASTNull], ext_syms)"
    using elem_lexed [of "WInt a" b c e] assms elem_run [OF elem_derivation(1) int_tree_run, where pm = pm]
    by (simp add: parse_text_def start_ctx)
  have w: "write_ast f [ASTNull] = Undefined UB_Null"
    by (simp add: write_ast_def element_def null_printer_def open_tag_def write_line_def writes_def prints.simps(2))
  have o': "optimise_stmts e [ASTNull] = Undefined UB_Null"
    by (simp add: optimise_stmts_def opt_bind_def)
  have "compile_program ext_syms [ASTNull] = Undefined UB_Null"
    by (simp add: compile_program_def cg_Start_def emit_frame_def start_frame)
  then show ?thesis using p w o' by (cases optimise) (simp_all add: mcc_def)
qed

theorem element_of_number_null_witness:
  "lalr_parser (elem_parser (WInt 1) (elem_tree (int_tree 1) 0 7)) \<and>
   mcc demo_env (elem_parser (WInt 1) (elem_tree (int_tree 1) 0 7)) needed_partials False (spaced (elem_words (WInt 1) 0 7)) =
     Undefined UB_Null"
proof -
  let ?t = "elem_tree (int_tree 1) 0 7"
  let ?p = "elem_parser (WInt 1) ?t"
  have "lalr_parser ?p"
    using elem_derivation(1) [of 1 0 7] elem_derivation(3) elem_fringe(1) [of 1 0 7]
    by (auto simp: lalr_parser_def elem_parser_def tok_node_def)
  moreover have "?p (layout 1 (elem_words (WInt 1) 0 7)) = Some ?t" by (simp add: elem_parser_def)
  from element_of_number_null [where parser = ?p and a = 1 and b = 0 and c = 7, OF _ _ _ this, of demo_env needed_partials plain_fmt False]
  have "mcc demo_env ?p needed_partials False (spaced (elem_words (WInt 1) 0 7)) = Undefined UB_Null"
    by (simp add: int_max_def)
  ultimately show ?thesis by blast
qed

end
