(* ===== verification/Spec2Isabelle.thy ===== *)
theory Spec2Isabelle
  imports VmProperties CompilerProperties FrontProperties ParserProperties PrinterProperties
begin

text \<open>
  muF, a compiler for a small Fortran-like language with matrices and quaternions, and the
  stack machine that runs its byte code. The sources are C++ under \<open>src/\<close>.

  \<^bold>\<open>The program.\<close> The compiler (\<open>mcc\<close>) reads a program, builds a syntax tree (\<open>parser/\<close>,
  \<open>ast/ast.h\<close>) with the help of a symbol table (\<open>common/sym.h\<close>, \<open>common/context.h\<close>), folds
  constants (\<open>ast/opt.cpp\<close>), and visits the tree to write byte code (\<open>codegen/\<close>) whose string
  constants lie in a table behind the code (\<open>codegen/consttab.cpp\<close>). The machine (\<open>vm/\<close>) loads
  the code at the bottom of one array of bytes that also holds its stack, polls interrupts,
  fetches and executes instructions. The type descriptors, the op-codes and the layout of
  values in memory are what the two agree on.

  \<^bold>\<open>The theories of the machine.\<close>

  \<^item> Prelude: the result type of code that throws (\<open>Throw\<close>) or whose C++ behaviour is undefined
    (\<open>Undefined\<close> with a reason), its bind, lists of bytes, wrapping of integers to 32 bits.
  \<^item> Binary64: \<open>double\<close> as its bit pattern, with the IEEE operations on it written out.
  \<^item> VmTypes (\<open>opcodes.h\<close>, \<open>types.h\<close>), VmData (\<open>vm.h\<close>: \<open>t_data\<close>, the machine as the record \<open>vm\<close>),
    VmMemory (\<open>mem.h\<close>: raw access and its bounds checks), VmStack (\<open>vm.cpp\<close>: typed push, pop, read
    and write), VmOps (\<open>ops.h\<close>, \<open>ops.cpp\<close>: casts and operators), VmExt (\<open>extfuncs.cpp\<close>, interrupt
    table, timer), VmRun (\<open>run.cpp\<close>: every instruction and the loop; \<open>run\<close> with fuel, \<open>mstep\<close> as a
    step relation with interrupt requests in between).
  \<^item> VmMemFacts, VmStackFacts, VmOpsFacts, VmRunFacts, VmInstrFacts, VmArrayFacts, VmLoopFacts: the
    laws of each layer. A cell is a descriptor and a value as it lies on the stack; \<open>cells_on\<close> says
    which cells the stack holds, and each instruction has a law in terms of cells. The accessors
    of the layers are interfaces (locales) interpreted on these definitions.
  \<^item> Demo: small concrete machines; VmProperties: the properties of the machine.

  \<^bold>\<open>The theories of the compiler.\<close>

  \<^item> Sym (\<open>sym.h\<close>, \<open>sym.cpp\<close>), Context (\<open>context.h\<close>, \<open>ext_funcs.h\<close>), Ast (\<open>ast.h\<close>), ConstTab
    (\<open>consttab.cpp\<close>), CgState (state and helpers of the generator), Codegen (its visitors, start and
    finish; \<open>gen\<close> is the double dispatch), AstOpt (the optimiser).
  \<^item> CodeRun: code as it lies in memory and runs; Semantics: what expressions and statements
    mean, as an evaluator \<open>eval\<close> and a big-step relation \<open>sem\<close> over stores of variables, written
    without reference to addresses, stacks or byte code; CompileExpr, CompileStmt, CompileProg and
    CompileMain: the simulation of the semantics by the generated code, from expressions to
    whole programs; CompileTypes: the static types; OptFacts: constant folding.
  \<^item> Lexer (\<open>parser/lexer.h\<close>, \<open>lexer.cpp\<close>): tokens, the regular expressions as functions on strings,
    the longest match; LexFacts: what it does with spaced words and with texts it misreads.
  \<^item> ParseRules (\<open>parser/grammar.cpp\<close>, \<open>ops.cpp\<close>, \<open>var.cpp\<close>, \<open>arr.cpp\<close>, \<open>loops.cpp\<close>, \<open>func.cpp\<close>):
    every semantic rule, as a function of the values of the symbols read and of the parser context;
    Grammar: the 89 productions with their rules, derivations as trees, and the run of the rules
    over a derivation. GrammarFacts: which calls for incomplete right-hand sides matter, and what
    a run keeps of scopes and symbols; DeclFacts: declarations and signatures of functions.
  \<^item> Driver (\<open>codegen/main.cpp\<close>): \<open>mcc\<close>, from the text to the code, and its correctness; ParseDemo: a
    text with its derivation.
  \<^item> Printer (\<open>ast/print.cpp\<close>): the visitors that write the tree, on a stream with its text and the
    flag \<open>boolalpha\<close>; PrintFacts: the locale \<open>output_kind\<close> of kinds of text that the visitors print
    to, interpreted for any text and for text with balanced tags; TreeFacts: the values that each
    production asks for and gives, by which the trees of the parser are complete (no null pointer
    that a visitor follows) when elements are only assigned to variables, and folding keeps them so.
  \<^item> CompilerProperties, FrontProperties, ParserProperties, PrinterProperties: the properties of
    compiler and front end.

  \<^bold>\<open>What the lemmas show.\<close> For the machine: the raw and typed accessors are round trips and stay in
  the array, the loop keeps the registers well-formed, each instruction acts on the typed stack as
  the comments say, frames are built and removed, interrupts are served by priority; and where
  the code does not do this (underflow of the stack, lengths that overflow, interrupts that eat an
  operand) the property states what it does instead. For the compiler: programs of declarations,
  assignments, conditionals and loops over expressions of constants, variables, arithmetic,
  comparisons and connectives are compiled correctly to the level of bytes, they halt, their
  variables do not overlap, the types that the generator computes are those of the values, and
  constant folding keeps the value of arithmetic. For the front end: lexing inverts spelling, any
  derivation leaves scopes and symbol table in order, and gives a tree on which printer and
  optimiser are defined if elements and ranges are assigned to variables only; an assignment to
  an element of a number gives a null statement, which every visitor follows. With this the correctness of the compiler reaches from the text of a
  program to the halted machine. The printed tree is well-formed but for arguments that are matrices.

  \<^bold>\<open>Conventions.\<close> Addresses are integers wrapped to 32 bits where the code stores them in
  \<open>t_addr\<close>; \<open>t_int\<close> is a 64-bit word. Overflow of the arithmetic of \<open>t_int\<close> and of the sum in the
  bounds check is \<open>Undefined\<close>, as in C++; the other sums, differences and products of addresses
  (moves of a pointer, length times element size) wrap, as they do in the compiled program,
  although C++ leaves their overflow undefined, too. A null pointer in the syntax tree is
  \<open>None\<close> where the code tests for it and the node \<open>ASTNull\<close> elsewhere; building a tree never
  follows it, visiting it is \<open>Undefined\<close>. The conversions of operands that the reference semantics
  uses (\<open>promote\<close>) are those of the table of the generator, the only place that defines them. A
  call of \<open>run\<close> gets fuel: liveness properties state that enough of it exists, so no property
  holds because fuel runs out. The machine of a compiled program needs a memory larger than
  the code, the operands of its deepest expression (the number \<open>m\<close> of \<open>sem\<close>), the frame of its
  variables and the reserved part at the top; the theorem of correctness has exactly this bound.

  \<^bold>\<open>Parameters.\<close> The record \<open>env\<close> of VmOps holds what is not in the repository: the mathematical
  functions of libm, the external library of vectors, complex numbers and quaternions (an empty
  submodule), conversion between text and reals; \<open>print_fmt\<close> of Printer how a stream writes
  reals, complex numbers and quaternions. Nothing is assumed about them, but
  that written numbers have no quotes or brackets of tags where well-formed text is claimed. The LALR(1) parser
  is an external library with generated tables. It is a function \<open>parser\<close> from tokens to a
  derivation, with the hypothesis \<open>lalr_parser\<close> that it finds derivations of its tokens only, and a
  set \<open>partial_match\<close> of the beginnings of right-hand sides for which it calls their rule, with
  the hypothesis that these include \<open>needed_partials\<close>, on which the rules rely. Which derivation it
  chooses, by precedences, is left open: the properties hold for all of them.

  \<^bold>\<open>Not modelled.\<close> The precedences of operators, which only the external parser generator
  reads, the command lines, debug output and memory dumps.
\<close>

end
